(* ===== verification/Human_Prelude.thy ===== *)
theory Human_Prelude
  imports
    Main
    "HOL-Library.Word"
    "HOL-Library.AList"
    "HOL-Library.Char_ord"
    "HOL-Library.List_Lexorder"
    "HOL-Library.Product_Lexorder"
begin

text \<open>
  The shared layer of the development: the fact collections, the result type in which every
  Go function with an \<open>error\<close> return is written, the parts of the Go language and standard
  library the sources use (byte strings, \<open>uint64\<close> counters, \<open>time.Time\<close>, \<open>sort.Slice\<close>,
  maps with iteration, UTF-8 validity, \<open>strings.TrimSpace\<close>, \<open>encoding/hex\<close>), and a locale
  for invariants of reachable states.
\<close>

named_theorems res_simps \<open>equations that decide when a chain of fallible calls succeeds\<close>
named_theorems validate_simps \<open>characterisations of the validation functions\<close>


section \<open>Fallible computations\<close>

text \<open>
  A Go function that returns \<open>(T, error)\<close> is a function into \<open>'e + 'a\<close>: \<open>Inl\<close> is the early
  return of an error, \<open>Inr\<close> the result. \<open>bind_res\<close> is the idiom
  \<^verbatim>\<open>if err != nil { return err }\<close>.
\<close>

definition bind_res :: "'e + 'a \<Rightarrow> ('a \<Rightarrow> 'e + 'b) \<Rightarrow> 'e + 'b" where
  "bind_res m k = (case m of Inl e \<Rightarrow> Inl e | Inr x \<Rightarrow> k x)"

lemma bind_res_simps [simp]:
  "bind_res (Inl e) k = Inl e"
  "bind_res (Inr x) k = k x"
  by (simp_all add: bind_res_def)

lemma bind_res_Inr [res_simps]:
  "bind_res m k = Inr y \<longleftrightarrow> (\<exists>x. m = Inr x \<and> k x = Inr y)"
  by (cases m) simp_all

lemma bind_res_Inl [res_simps]:
  "bind_res m k = Inl e \<longleftrightarrow> m = Inl e \<or> (\<exists>x. m = Inr x \<and> k x = Inl e)"
  by (cases m) simp_all

lemma bind_res_cong [fundef_cong]:
  "m = m' \<Longrightarrow> (\<And>x. m' = Inr x \<Longrightarrow> k x = k' x) \<Longrightarrow> bind_res m k = bind_res m' k'"
  by (cases m') simp_all

lemma bind_res_assoc: "bind_res (bind_res m f) g = bind_res m (\<lambda>x. bind_res (f x) g)"
  by (cases m) simp_all

text \<open>\<open>map_err f\<close> rewrites the error of a failed call, as \<^verbatim>\<open>fmt.Errorf("...: %w", err)\<close> does.\<close>

definition map_err :: "('e \<Rightarrow> 'f) \<Rightarrow> 'e + 'a \<Rightarrow> 'f + 'a" where
  "map_err f m = (case m of Inl e \<Rightarrow> Inl (f e) | Inr x \<Rightarrow> Inr x)"

lemma map_err_simps [simp]:
  "map_err f (Inl e) = Inl (f e)"
  "map_err f (Inr x) = Inr x"
  by (simp_all add: map_err_def)

lemma map_err_Inr [simp]: "map_err f m = Inr x \<longleftrightarrow> m = Inr x"
  by (cases m) simp_all

lemma map_err_Inl [res_simps]: "map_err f m = Inl e \<longleftrightarrow> (\<exists>e'. m = Inl e' \<and> e = f e')"
  by (cases m) auto

text \<open>\<open>ok m\<close> is \<^verbatim>\<open>err == nil\<close>.\<close>

definition ok :: "'e + 'a \<Rightarrow> bool" where
  "ok m = (case m of Inl _ \<Rightarrow> False | Inr _ \<Rightarrow> True)"

lemma ok_simps [simp]: "\<not> ok (Inl e)" "ok (Inr x)"
  by (simp_all add: ok_def)

lemma ok_iff: "ok m \<longleftrightarrow> (\<exists>x. m = Inr x)"
  by (cases m) simp_all

lemma ok_unit [res_simps]: "m = Inr () \<longleftrightarrow> ok m"
  by (cases m) simp_all

lemma ok_bind [simp]: "ok (bind_res m k) \<longleftrightarrow> (\<exists>x. m = Inr x \<and> ok (k x))"
  by (cases m) simp_all

lemma ok_map_err [simp]: "ok (map_err f m) \<longleftrightarrow> ok m"
  by (cases m) simp_all

lemma ok_if [simp]: "ok (if b then Inl e else m) \<longleftrightarrow> \<not> b \<and> ok m"
  by simp

lemma rel_sum_InrD: "rel_sum R S m m' \<Longrightarrow> m = Inr x \<Longrightarrow> \<exists>y. m' = Inr y \<and> S x y"
  by (cases m') auto

lemma rel_sum_InlD: "rel_sum (=) S m m' \<Longrightarrow> m = Inl e \<Longrightarrow> m' = Inl e"
  by (cases m') auto


section \<open>Integers, time\<close>

type_synonym uint64 = "64 word"
type_synonym bytes = "8 word list"

text \<open>\<open>math.MaxInt64\<close> as a \<open>uint64\<close>: the counters of the store are kept at or below it.\<close>

definition MaxInt64 :: uint64 where
  "MaxInt64 = 9223372036854775807"

lemma unat_MaxInt64: "unat MaxInt64 = 9223372036854775807"
  by (simp add: MaxInt64_def)

lemma uint64_less_nat: "(x::uint64) < y \<longleftrightarrow> unat x < unat y"
  by (rule word_less_nat_alt)

lemma uint64_le_nat: "(x::uint64) \<le> y \<longleftrightarrow> unat x \<le> unat y"
  by (rule word_le_nat_alt)

lemma unat_succ_MaxInt64:
  assumes "x < MaxInt64"
  shows "unat (x + 1) = Suc (unat x)"
proof -
  have "unat x < 9223372036854775807"
    using assms by (simp add: uint64_less_nat unat_MaxInt64)
  then show ?thesis
    by (simp add: unat_word_ariths)
qed

lemma succ_le_MaxInt64: "x < MaxInt64 \<Longrightarrow> x + 1 \<le> MaxInt64"
  by (simp add: uint64_less_nat uint64_le_nat unat_succ_MaxInt64)

lemma succ_neq_0_MaxInt64: "x < MaxInt64 \<Longrightarrow> x + 1 \<noteq> 0"
  by (metis unat_succ_MaxInt64 nat.distinct(1) unat_0)

lemma succ_le_iff_MaxInt64:
  "x < MaxInt64 \<Longrightarrow> n \<le> x + 1 \<longleftrightarrow> n \<le> x \<or> n = x + 1"
  by (auto simp: uint64_le_nat unat_succ_MaxInt64 le_Suc_eq word_unat_eq_iff)

lemma less_succ_MaxInt64: "x < MaxInt64 \<Longrightarrow> x < x + 1"
  by (simp add: uint64_less_nat unat_succ_MaxInt64)

lemma odd_succ_MaxInt64: "x < MaxInt64 \<Longrightarrow> odd (unat (x + 1)) \<longleftrightarrow> even (unat x)"
  by (simp add: unat_succ_MaxInt64)

lemma mod_2_unat: "(x::uint64) mod 2 = 1 \<longleftrightarrow> odd (unat x)"
  by (simp add: word_unat_eq_iff unat_mod odd_iff_mod_2_eq_one)

text \<open>
  A \<open>time.Time\<close> is the instant it denotes, in nanoseconds since the Unix epoch; Go's instants
  reach further than 64-bit nanoseconds, so the type is \<open>int\<close>. Two instants are \<open>Equal\<close> when
  the numbers are, \<open>UTC\<close> is the identity, and the zero \<open>Time\<close> is 1 January of the year 1.
  \<open>UnixNano\<close> keeps the low 64 bits as a signed number.
\<close>

type_synonym gotime = int

definition zero_time :: gotime where
  "zero_time = -62135596800000000000"

definition unixNano :: "gotime \<Rightarrow> int" where
  "unixNano t = (t + 2 ^ 63) mod 2 ^ 64 - 2 ^ 63"

definition fromUnixNano :: "int \<Rightarrow> gotime" where
  "fromUnixNano n = n"

lemma unixNano_id_iff: "fromUnixNano (unixNano t) = t \<longleftrightarrow> -(2 ^ 63) \<le> t \<and> t < 2 ^ 63"
proof
  assume "fromUnixNano (unixNano t) = t"
  then have eq: "(t + 2 ^ 63) mod 2 ^ 64 = t + 2 ^ 63"
    by (simp add: fromUnixNano_def unixNano_def)
  have "0 \<le> (t + 2 ^ 63) mod 2 ^ 64" "(t + 2 ^ 63) mod 2 ^ 64 < 2 ^ 64"
    by simp_all
  then show "-(2 ^ 63) \<le> t \<and> t < 2 ^ 63"
    unfolding eq by simp
qed (simp add: fromUnixNano_def unixNano_def)

lemma zero_time_not_unixNano: "fromUnixNano (unixNano zero_time) \<noteq> zero_time"
  by (simp only: unixNano_id_iff) (simp add: zero_time_def)


section \<open>Byte strings\<close>

definition byte :: "char \<Rightarrow> nat" where
  "byte c = of_char c"

definition is_alnum :: "char \<Rightarrow> bool" where
  "is_alnum c = (let b = byte c in
     65 \<le> b \<and> b \<le> 90 \<or> 97 \<le> b \<and> b \<le> 122 \<or> 48 \<le> b \<and> b \<le> 57)"

definition is_stable_char :: "char \<Rightarrow> bool" where
  "is_stable_char c = (is_alnum c \<or> c \<in> set ''._:-'')"

text \<open>The regular expression \<^verbatim>\<open>^[A-Za-z0-9][A-Za-z0-9._:-]{0,127}$\<close>.\<close>

fun match_stable :: "string \<Rightarrow> bool" where
  "match_stable [] = False"
| "match_stable (c # cs) = (is_alnum c \<and> list_all is_stable_char cs \<and> length cs \<le> 127)"

lemma match_stable_nonempty: "match_stable s \<Longrightarrow> s \<noteq> []"
  by auto

lemma match_stable_length: "match_stable s \<Longrightarrow> length s \<le> 128"
  by (cases s) auto

text \<open>\<open>utf8.ValidString\<close>: shortest encodings of scalar values, no surrogates.\<close>

definition utf8_cont :: "nat \<Rightarrow> bool" where
  "utf8_cont b = (128 \<le> b \<and> b \<le> 191)"

fun utf8_valid_bytes :: "nat list \<Rightarrow> bool" where
  "utf8_valid_bytes [] = True"
| "utf8_valid_bytes (a # r0) =
     (if a < 128 then utf8_valid_bytes r0
      else case r0 of
        [] \<Rightarrow> False
      | b # r1 \<Rightarrow>
          (if 194 \<le> a \<and> a \<le> 223 then utf8_cont b \<and> utf8_valid_bytes r1
           else case r1 of
             [] \<Rightarrow> False
           | c # r2 \<Rightarrow>
               (if 224 \<le> a \<and> a \<le> 239
                then (if a = 224 then 160 \<le> b \<and> b \<le> 191
                      else if a = 237 then 128 \<le> b \<and> b \<le> 159 else utf8_cont b)
                     \<and> utf8_cont c \<and> utf8_valid_bytes r2
                else case r2 of
                  [] \<Rightarrow> False
                | d # r3 \<Rightarrow>
                    240 \<le> a \<and> a \<le> 244
                    \<and> (if a = 240 then 144 \<le> b \<and> b \<le> 191
                       else if a = 244 then 128 \<le> b \<and> b \<le> 143 else utf8_cont b)
                    \<and> utf8_cont c \<and> utf8_cont d \<and> utf8_valid_bytes r3)))"

definition utf8_valid :: "string \<Rightarrow> bool" where
  "utf8_valid s = utf8_valid_bytes (map byte s)"

text \<open>
  \<open>strings.TrimSpace\<close> removes leading and trailing Unicode white space; in UTF-8 these are the
  byte sequences below.
\<close>

definition space_seqs :: "nat list list" where
  "space_seqs =
     [[9], [10], [11], [12], [13], [32], [194, 133], [194, 160], [225, 154, 128],
      [226, 128, 168], [226, 128, 169], [226, 128, 175], [226, 129, 159], [227, 128, 128]]
     @ map (\<lambda>n. [226, 128, n]) [128..<139]"

definition strips :: "nat list \<Rightarrow> nat list \<Rightarrow> bool" where
  "strips q s = (q \<noteq> [] \<and> take (length q) s = q)"

function trim_prefix :: "nat list list \<Rightarrow> nat list \<Rightarrow> nat list" where
  "trim_prefix qs s =
     (case find (\<lambda>q. strips q s) qs of
        None \<Rightarrow> s
      | Some q \<Rightarrow> trim_prefix qs (drop (length q) s))"
  by pat_completeness auto
termination
proof (relation "measure (length \<circ> snd)", goal_cases)
  case (2 qs s q)
  then have "strips q s"
    by (auto simp: find_Some_iff)
  then show ?case
    by (cases s) (auto simp: strips_def)
qed simp

declare trim_prefix.simps [simp del]

definition trim_space_bytes :: "nat list \<Rightarrow> nat list" where
  "trim_space_bytes s = rev (trim_prefix (map rev space_seqs) (rev (trim_prefix space_seqs s)))"

definition TrimSpace :: "string \<Rightarrow> string" where
  "TrimSpace s = map char_of (trim_space_bytes (map byte s))"

text \<open>\<open>strings.ContainsAny(value, chars)\<close> on single-byte characters.\<close>

definition contains_any :: "string \<Rightarrow> nat list \<Rightarrow> bool" where
  "contains_any s cs = list_ex (\<lambda>c. byte c \<in> set cs) s"

definition hex_digit :: "nat \<Rightarrow> char" where
  "hex_digit n = ''0123456789abcdef'' ! n"

definition hex_EncodeToString :: "bytes \<Rightarrow> string" where
  "hex_EncodeToString bs =
     concat (map (\<lambda>b. [hex_digit (unat b div 16), hex_digit (unat b mod 16)]) bs)"

definition is_hex_char :: "char \<Rightarrow> bool" where
  "is_hex_char c = (let b = byte c in
     48 \<le> b \<and> b \<le> 57 \<or> 97 \<le> b \<and> b \<le> 102 \<or> 65 \<le> b \<and> b \<le> 70)"

text \<open>\<open>hex.DecodeString\<close> fails on an odd length and on a character that is no hex digit.\<close>

definition hex_decodable :: "string \<Rightarrow> bool" where
  "hex_decodable s = (even (length s) \<and> list_all is_hex_char s)"

lemma length_hex_EncodeToString: "length (hex_EncodeToString bs) = 2 * length bs"
  by (induction bs) (simp_all add: hex_EncodeToString_def)

lemma hex_digit_cases: "n < 16 \<Longrightarrow> hex_digit n \<in> set ''0123456789abcdef''"
  unfolding hex_digit_def by (rule nth_mem) simp

lemma is_hex_char_hex_digit: "n < 16 \<Longrightarrow> is_hex_char (hex_digit n)"
  by (drule hex_digit_cases) (auto simp: is_hex_char_def byte_def Let_def)

lemma hex_decodable_hex_EncodeToString: "hex_decodable (hex_EncodeToString bs)"
proof -
  have "list_all is_hex_char (hex_EncodeToString bs)"
  proof (induction bs)
    case Nil
    show ?case by (simp add: hex_EncodeToString_def)
  next
    case (Cons b bs)
    have "unat b < 256"
      using unsigned_less [of b] by simp
    then have "unat b div 16 < 16" "unat b mod 16 < 16"
      by auto
    with Cons.IH show ?case
      by (simp add: hex_EncodeToString_def is_hex_char_hex_digit)
  qed
  then show ?thesis
    by (simp add: hex_decodable_def length_hex_EncodeToString)
qed

text \<open>Decimal digits, for \<open>fmt.Sprintf\<close> with \<open>%d\<close>.\<close>

fun decimal :: "nat \<Rightarrow> string" where
  "decimal n = (if n < 10 then [char_of (48 + n)] else decimal (n div 10) @ [char_of (48 + n mod 10)])"

declare decimal.simps [simp del]


section \<open>Maps and sorting\<close>

text \<open>
  A Go map is an association list with distinct keys; the list order is the (unspecified)
  iteration order of \<^verbatim>\<open>for k, v := range m\<close>.
\<close>

type_synonym ('k, 'v) gomap = "('k \<times> 'v) list"

definition gomap_put :: "'k \<Rightarrow> 'v \<Rightarrow> ('k, 'v) gomap \<Rightarrow> ('k, 'v) gomap" where
  "gomap_put k v m = AList.update k v m"

definition gomap_ok :: "('k, 'v) gomap \<Rightarrow> bool" where
  "gomap_ok m = distinct (map fst m)"

lemma map_of_gomap_put [simp]: "map_of (gomap_put k v m) = (map_of m)(k \<mapsto> v)"
  by (simp add: gomap_put_def update_conv')

lemma gomap_ok_Nil [simp]: "gomap_ok []"
  by (simp add: gomap_ok_def)

lemma gomap_ok_put [simp]: "gomap_ok m \<Longrightarrow> gomap_ok (gomap_put k v m)"
  by (simp add: gomap_ok_def gomap_put_def distinct_update)

lemma gomap_range: "gomap_ok m \<Longrightarrow> (k, v) \<in> set m \<longleftrightarrow> map_of m k = Some v"
  by (auto simp: gomap_ok_def intro: map_of_is_SomeI dest: map_of_SomeD)

lemma gomap_list_ex:
  "gomap_ok m \<Longrightarrow> list_ex (\<lambda>(k, v). P k v) m \<longleftrightarrow> (\<exists>k v. map_of m k = Some v \<and> P k v)"
  by (auto simp: list_ex_iff gomap_range; blast)

lemma gomap_ran: "gomap_ok m \<Longrightarrow> snd ` set m = ran (map_of m)"
  by (simp add: gomap_ok_def ran_distinct)

lemma gomap_list_ex_ran:
  "gomap_ok m \<Longrightarrow> list_ex (\<lambda>(k, v). P v) m \<longleftrightarrow> (\<exists>v \<in> ran (map_of m). P v)"
  using gomap_list_ex [of m "\<lambda>_. P"] by (auto simp: ran_def)

lemma gomap_list_ex_dom:
  "gomap_ok m \<Longrightarrow> list_ex (\<lambda>(k, v). P k) m \<longleftrightarrow> (\<exists>k \<in> dom (map_of m). P k)"
  using gomap_list_ex [of m "\<lambda>k _. P k"] by (auto simp: dom_def)

text \<open>Values that name their own key occur once.\<close>

lemma gomap_distinct_values:
  assumes "gomap_ok m" "\<And>k v. (k, v) \<in> set m \<Longrightarrow> key v = k"
  shows "distinct (map snd m)"
proof -
  have "map key (map snd m) = map fst m" using assms(2) by (auto simp: comp_def intro!: map_cong)
  then have "distinct (map key (map snd m))" using assms(1) by (simp only: gomap_ok_def)
  then show ?thesis by (simp only: distinct_map)
qed

text \<open>\<open>sort.Slice\<close> with a comparison function.\<close>

fun insert_less :: "('a \<Rightarrow> 'a \<Rightarrow> bool) \<Rightarrow> 'a \<Rightarrow> 'a list \<Rightarrow> 'a list" where
  "insert_less lt x [] = [x]"
| "insert_less lt x (y # ys) = (if lt y x then y # insert_less lt x ys else x # y # ys)"

definition sort_Slice :: "('a \<Rightarrow> 'a \<Rightarrow> bool) \<Rightarrow> 'a list \<Rightarrow> 'a list" where
  "sort_Slice lt xs = foldr (insert_less lt) xs []"

lemma insert_less_insort_key:
  assumes "\<And>a b. lt a b \<longleftrightarrow> f a < f b"
  shows "insert_less lt x xs = insort_key f x xs"
  by (induction xs) (auto simp: assms)

lemma sort_Slice_sort_key:
  assumes "\<And>a b. lt a b \<longleftrightarrow> f a < f b"
  shows "sort_Slice lt xs = sort_key f xs"
proof -
  have "foldr (insert_less lt) xs [] = foldr (insort_key f) xs []"
    by (induction xs) (simp_all add: insert_less_insort_key [of lt f, OF assms])
  then show ?thesis
    by (simp add: sort_Slice_def sort_key_def)
qed

lemma set_insert_less [simp]: "set (insert_less lt x xs) = insert x (set xs)"
  by (induction xs) auto

lemma set_sort_Slice [simp]: "set (sort_Slice lt xs) = set xs"
  unfolding sort_Slice_def by (induction xs) auto

lemma length_insert_less [simp]: "length (insert_less lt x xs) = Suc (length xs)"
  by (induction xs) auto

lemma length_sort_Slice [simp]: "length (sort_Slice lt xs) = length xs"
  unfolding sort_Slice_def by (induction xs) auto

lemma sorted_sort_Slice:
  assumes "\<And>a b. lt a b \<longleftrightarrow> f a < f b"
  shows "sorted (map f (sort_Slice lt xs))"
  using sort_Slice_sort_key [of lt f xs, OF assms] by simp

lemma distinct_insert_less [simp]: "distinct (insert_less lt x xs) \<longleftrightarrow> x \<notin> set xs \<and> distinct xs"
  by (induction xs) auto

lemma distinct_sort_Slice [simp]: "distinct (sort_Slice lt xs) \<longleftrightarrow> distinct xs"
  unfolding sort_Slice_def by (induction xs) (simp_all flip: sort_Slice_def)

lemma find_SomeD: "find P xs = Some x \<Longrightarrow> x \<in> set xs \<and> P x"
  by (induction xs) (auto split: if_splits)

text \<open>The rows of a scan: exactly the members of \<open>S\<close>, once each, in ascending order of \<open>key\<close>.\<close>

definition ordered_rows :: "('a \<Rightarrow> 'k::linorder) \<Rightarrow> 'a set \<Rightarrow> 'a list \<Rightarrow> bool" where
  "ordered_rows key S xs \<longleftrightarrow> distinct xs \<and> set xs = S \<and> sorted (map key xs)"

lemma ordered_rows_sort_Slice:
  assumes "\<And>a b. lt a b \<longleftrightarrow> key a < key b" "distinct xs" "set xs = S"
  shows "ordered_rows key S (sort_Slice lt xs)"
  using assms(2,3) sorted_sort_Slice [of lt key xs, OF assms(1)] by (simp add: ordered_rows_def)


section \<open>Reachable states\<close>

inductive reachable_from :: "('s \<Rightarrow> bool) \<Rightarrow> ('s \<Rightarrow> 's \<Rightarrow> bool) \<Rightarrow> 's \<Rightarrow> bool"
  for init :: "'s \<Rightarrow> bool" and step :: "'s \<Rightarrow> 's \<Rightarrow> bool" where
  start: "init s \<Longrightarrow> reachable_from init step s"
| step: "reachable_from init step s \<Longrightarrow> step s t \<Longrightarrow> reachable_from init step t"

text \<open>
  An invariant of a transition system, with the relation \<open>R\<close> that every single step
  establishes between its two states (what never changes, what only grows).
\<close>

locale invariant_system =
  fixes init :: "'s \<Rightarrow> bool" and step :: "'s \<Rightarrow> 's \<Rightarrow> bool"
    and inv :: "'s \<Rightarrow> bool" and R :: "'s \<Rightarrow> 's \<Rightarrow> bool"
  assumes inv_init: "init s \<Longrightarrow> inv s"
    and inv_step: "inv s \<Longrightarrow> step s t \<Longrightarrow> inv t"
    and R_step: "inv s \<Longrightarrow> step s t \<Longrightarrow> R s t"
    and R_refl: "inv s \<Longrightarrow> R s s"
    and R_trans: "R s t \<Longrightarrow> R t u \<Longrightarrow> R s u"
begin

lemma reachable_inv: "reachable_from init step s \<Longrightarrow> inv s"
  by (induction rule: reachable_from.induct) (auto intro: inv_init inv_step)

lemma steps_inv: "step\<^sup>*\<^sup>* s t \<Longrightarrow> inv s \<Longrightarrow> inv t"
  by (induction rule: rtranclp_induct) (auto intro: inv_step)

lemma steps_R: "step\<^sup>*\<^sup>* s t \<Longrightarrow> inv s \<Longrightarrow> R s t"
proof (induction rule: rtranclp_induct)
  case base
  then show ?case by (rule R_refl)
next
  case (step t u)
  then have "inv t" by (blast intro: steps_inv)
  with step show ?case by (blast intro: R_trans R_step)
qed

end

end
