(* ===== verification/Framework.thy ===== *)
theory Framework
  imports Human_Prelude
begin

text \<open>
  The composition contracts of \<^verbatim>\<open>framework/\<close>: contract negotiation (\<^verbatim>\<open>contract.go\<close>), resources with
  explicit ownership (\<^verbatim>\<open>resource.go\<close>) and classified faults (\<^verbatim>\<open>fault.go\<close>).
\<close>

section \<open>Contracts\<close>

type_synonym uint16 = "16 word"

text \<open>The regular expression \<^verbatim>\<open>^[a-z][a-z0-9._/-]{0,127}$\<close>, of contract names and of tokens.\<close>

definition is_lower :: "char \<Rightarrow> bool" where
  "is_lower c = (97 \<le> byte c \<and> byte c \<le> 122)"

fun match_token :: "string \<Rightarrow> bool" where
  "match_token [] = False"
| "match_token (c # cs) =
     (is_lower c
      \<and> list_all (\<lambda>d. is_lower d \<or> (48 \<le> byte d \<and> byte d \<le> 57) \<or> d \<in> set ''._/-'') cs
      \<and> length cs \<le> 127)"

record Contract =
  ct_ID :: string
  ct_Major :: uint16
  ct_Minor :: uint16
  ct_Features :: "(string, uint16) gomap"

record Requirements =
  rq_ID :: string
  rq_Major :: uint16
  rq_MinimumMinor :: uint16
  rq_Features :: "(string, uint16) gomap"

datatype framework_error =
  ErrContractMismatch | ErrResourceReleased | ErrNilRelease | ErrReleaseContext
| ErrInvalidFaultCode | ErrInvalidRetryMode | ErrUnsafeRetry

definition features_ok :: "(string, uint16) gomap \<Rightarrow> bool" where
  "features_ok fs = list_all (\<lambda>(feature, version). match_token feature \<and> version \<noteq> 0) fs"

definition validateContract :: "Contract \<Rightarrow> framework_error + unit" where
  "validateContract c =
     (if \<not> match_token (ct_ID c) \<or> ct_Major c = 0 then Inl ErrContractMismatch
      else if \<not> features_ok (ct_Features c) then Inl ErrContractMismatch
      else Inr ())"

definition validateRequirements :: "Requirements \<Rightarrow> framework_error + unit" where
  "validateRequirements r =
     (if \<not> match_token (rq_ID r) \<or> rq_Major r = 0 then Inl ErrContractMismatch
      else if \<not> features_ok (rq_Features r) then Inl ErrContractMismatch
      else Inr ())"

text \<open>\<open>cloneContract\<close>: an independent map with the same entries.\<close>

fun copy_features :: "(string, uint16) gomap \<Rightarrow> (string, uint16) gomap \<Rightarrow> (string, uint16) gomap" where
  "copy_features [] acc = acc"
| "copy_features ((feature, version) # fs) acc = copy_features fs (gomap_put feature version acc)"

definition cloneContract :: "Contract \<Rightarrow> Contract" where
  "cloneContract c = c\<lparr>ct_Features := copy_features (ct_Features c) []\<rparr>"

definition feature_missing :: "Contract \<Rightarrow> string \<times> uint16 \<Rightarrow> bool" where
  "feature_missing provided = (\<lambda>(feature, version).
     case map_of (ct_Features provided) feature of None \<Rightarrow> True | Some actual \<Rightarrow> actual < version)"

definition Negotiate :: "Contract \<Rightarrow> Requirements \<Rightarrow> framework_error + Contract" where
  "Negotiate provided required =
     bind_res (validateContract provided) (\<lambda>_.
     bind_res (validateRequirements required) (\<lambda>_.
       if ct_ID provided \<noteq> rq_ID required then Inl ErrContractMismatch
       else if ct_Major provided \<noteq> rq_Major required then Inl ErrContractMismatch
       else if ct_Minor provided < rq_MinimumMinor required then Inl ErrContractMismatch
       else if list_ex (feature_missing provided) (rq_Features required) then Inl ErrContractMismatch
       else Inr (cloneContract provided)))"

lemma map_of_copy_features:
  "gomap_ok fs \<Longrightarrow> map_of (copy_features fs acc) = map_of acc ++ map_of fs"
proof (induction fs acc rule: copy_features.induct)
  case (2 feature version fs acc)
  then have "map_of fs feature = None" by (simp add: gomap_ok_def map_of_eq_None_iff)
  with 2 show ?case by (auto simp: gomap_ok_def map_add_def fun_eq_iff split: option.splits)
qed simp

lemma Negotiate_Inr:
  assumes "Negotiate p r = Inr c" "gomap_ok (ct_Features p)"
  shows "ct_ID c = rq_ID r" "ct_Major c = rq_Major r" "rq_MinimumMinor r \<le> ct_Minor c"
    "map_of (ct_Features c) = map_of (ct_Features p)"
    "(feature, version) \<in> set (rq_Features r) \<Longrightarrow> \<exists>actual \<ge> version. map_of (ct_Features c) feature = Some actual"
proof -
  from assms(1) have c: "c = cloneContract p" "ct_ID p = rq_ID r" "ct_Major p = rq_Major r" "\<not> ct_Minor p < rq_MinimumMinor r"
    "\<not> list_ex (feature_missing p) (rq_Features r)"
    by (auto simp: Negotiate_def res_simps split: if_splits)
  show "ct_ID c = rq_ID r" "ct_Major c = rq_Major r" "rq_MinimumMinor r \<le> ct_Minor c"
    using c by (auto simp: cloneContract_def)
  show features: "map_of (ct_Features c) = map_of (ct_Features p)"
    using map_of_copy_features [OF assms(2), of "[]"] by (simp add: c(1) cloneContract_def)
  show "\<exists>actual \<ge> version. map_of (ct_Features c) feature = Some actual" if "(feature, version) \<in> set (rq_Features r)"
    using c(5) that unfolding features by (fastforce simp: list_ex_iff feature_missing_def split: option.splits)
qed


section \<open>Resources\<close>

text \<open>
  The shared cell of an owned resource. \<open>own_calls\<close> counts the invocations of the release
  callback; \<open>own_started\<close> is the state of the \<open>sync.Once\<close>. Copies of a \<open>Resource\<close> share the cell.
\<close>

record ownedResource =
  own_releasing :: bool
  own_released :: bool
  own_started :: bool
  own_err :: "string option"
  own_calls :: nat

record 'v Resource =
  res_value :: 'v
  res_owned :: "ownedResource option"

definition Borrow :: "'v \<Rightarrow> 'v Resource" where
  "Borrow v = \<lparr>res_value = v, res_owned = None\<rparr>"

definition new_owned :: ownedResource where
  "new_owned = \<lparr>own_releasing = False, own_released = False, own_started = False, own_err = None, own_calls = 0\<rparr>"

text \<open>\<open>release_nil\<close> says that the release callback is nil.\<close>

definition Own :: "'v \<Rightarrow> bool \<Rightarrow> framework_error + 'v Resource" where
  "Own v release_nil =
     (if release_nil then Inl ErrNilRelease else Inr \<lparr>res_value = v, res_owned = Some new_owned\<rparr>)"

definition Resource_Value :: "'v Resource \<Rightarrow> framework_error + 'v" where
  "Resource_Value r =
     (case res_owned r of
        None \<Rightarrow> Inr (res_value r)
      | Some own \<Rightarrow> if own_releasing own \<or> own_released own then Inl ErrResourceReleased else Inr (res_value r))"

definition Owned :: "'v Resource \<Rightarrow> bool" where
  "Owned r = (res_owned r \<noteq> None)"

text \<open>
  The body of \<open>once.Do\<close> in two steps, because other callers run while the callback does: the
  winner marks the cell and calls the callback, and when it returned \<open>err\<close> records it.
\<close>

definition release_begin :: "ownedResource \<Rightarrow> ownedResource" where
  "release_begin own = own\<lparr>own_releasing := True, own_started := True, own_calls := own_calls own + 1\<rparr>"

definition release_end :: "string option \<Rightarrow> ownedResource \<Rightarrow> ownedResource" where
  "release_end err own = own\<lparr>own_err := err, own_releasing := False, own_released := True\<rparr>"

text \<open>A \<open>Release\<close> that runs alone, with the callback returning \<open>err\<close>.\<close>

definition Resource_Release :: "bool \<Rightarrow> string option \<Rightarrow> 'v Resource \<Rightarrow> (framework_error + string option) \<times> 'v Resource" where
  "Resource_Release ctx_nil err r =
     (case res_owned r of
        None \<Rightarrow> (Inr None, r)
      | Some own \<Rightarrow>
          if ctx_nil then (Inl ErrReleaseContext, r)
          else let own' = (if own_started own then own else release_end err (release_begin own))
               in (Inr (own_err own'), r\<lparr>res_owned := Some own'\<rparr>))"

text \<open>Any number of concurrent callers: one of them wins the \<open>Once\<close>.\<close>

inductive owned_step :: "ownedResource \<Rightarrow> ownedResource \<Rightarrow> bool" where
  Begin: "\<not> own_started own \<Longrightarrow> owned_step own (release_begin own)"
| End: "own_releasing own \<Longrightarrow> owned_step own (release_end err own)"

definition owned_inv :: "ownedResource \<Rightarrow> bool" where
  "owned_inv own \<longleftrightarrow> own_calls own = (if own_started own then 1 else 0)
     \<and> (own_started own \<longleftrightarrow> own_releasing own \<noteq> own_released own) \<and> \<not> (own_releasing own \<and> own_released own)"

definition owned_grows :: "ownedResource \<Rightarrow> ownedResource \<Rightarrow> bool" where
  "owned_grows own own' \<longleftrightarrow> (own_started own \<longrightarrow> own_started own')
     \<and> (own_released own \<longrightarrow> own_released own' \<and> own_err own' = own_err own)"

interpretation owned: invariant_system "\<lambda>own. own = new_owned" owned_step owned_inv owned_grows
  by unfold_locales (auto simp: owned_inv_def owned_grows_def new_owned_def release_begin_def release_end_def
      elim!: owned_step.cases)


section \<open>Faults\<close>

datatype FaultCode =
  CodeInvalid | CodeUnauthenticated | CodeForbidden | CodeNotFound | CodeConflict | CodeStale
| CodeUnavailable | CodeIndeterminate | CodeCorrupt | CodeClosed | FaultCodeOther string

datatype RetryMode = RetryNever | RetryExactInput | RetryBackoff | RetryReconcile | RetryModeOther string

fun FaultCode_valid :: "FaultCode \<Rightarrow> bool" where
  "FaultCode_valid (FaultCodeOther _) = False"
| "FaultCode_valid _ = True"

fun RetryMode_valid :: "RetryMode \<Rightarrow> bool" where
  "RetryMode_valid (RetryModeOther _) = False"
| "RetryMode_valid _ = True"

definition retryAllowed :: "FaultCode \<Rightarrow> RetryMode \<Rightarrow> bool" where
  "retryAllowed code mode =
     (case code of
        CodeUnavailable \<Rightarrow> mode = RetryBackoff \<or> mode = RetryExactInput
      | CodeIndeterminate \<Rightarrow> mode = RetryReconcile
      | CodeConflict \<Rightarrow> mode = RetryNever \<or> mode = RetryExactInput
      | CodeStale \<Rightarrow> mode = RetryNever \<or> mode = RetryExactInput
      | _ \<Rightarrow> mode = RetryNever)"

fun code_string :: "FaultCode \<Rightarrow> string" where
  "code_string CodeInvalid = ''invalid''"
| "code_string CodeUnauthenticated = ''unauthenticated''"
| "code_string CodeForbidden = ''forbidden''"
| "code_string CodeNotFound = ''not_found''"
| "code_string CodeConflict = ''conflict''"
| "code_string CodeStale = ''stale''"
| "code_string CodeUnavailable = ''unavailable''"
| "code_string CodeIndeterminate = ''indeterminate''"
| "code_string CodeCorrupt = ''corrupt''"
| "code_string CodeClosed = ''closed''"
| "code_string (FaultCodeOther s) = s"

record Fault =
  ft_Code :: FaultCode
  ft_Retry :: RetryMode
  ft_Message :: string
  ft_Cause :: "string option"

definition NewFault :: "FaultCode \<Rightarrow> RetryMode \<Rightarrow> string \<Rightarrow> string option \<Rightarrow> framework_error + Fault" where
  "NewFault code retry message cause =
     (if \<not> FaultCode_valid code then Inl ErrInvalidFaultCode
      else if \<not> RetryMode_valid retry then Inl ErrInvalidRetryMode
      else if \<not> retryAllowed code retry then Inl ErrUnsafeRetry
      else Inr \<lparr>ft_Code = code, ft_Retry = retry,
                ft_Message = (if message = [] \<and> cause = None then code_string code else message),
                ft_Cause = cause\<rparr>)"

definition Fault_Error :: "Fault \<Rightarrow> string" where
  "Fault_Error f =
     (if ft_Message f \<noteq> [] then ft_Message f
      else case ft_Cause f of Some cause \<Rightarrow> cause | None \<Rightarrow> code_string (ft_Code f))"

text \<open>An indeterminate outcome may only be reconciled, never retried blindly.\<close>

lemma NewFault_indeterminate:
  "NewFault CodeIndeterminate retry message cause = Inr f \<Longrightarrow> ft_Retry f = RetryReconcile"
  by (auto simp: NewFault_def retryAllowed_def split: if_splits)


section \<open>Properties\<close>

text \<open>
  A successful negotiation gives a contract with the required identity and major
  version, at least the required minor version, and at least the required version of every required
  feature; it offers exactly the provider's features.
\<close>

theorem negotiation_meets_requirements:
  assumes "Negotiate p r = Inr c" "gomap_ok (ct_Features p)"
  shows "ct_ID c = rq_ID r \<and> ct_Major c = rq_Major r \<and> rq_MinimumMinor r \<le> ct_Minor c
    \<and> map_of (ct_Features c) = map_of (ct_Features p)
    \<and> (\<forall>feature version. (feature, version) \<in> set (rq_Features r) \<longrightarrow>
         (\<exists>actual \<ge> version. map_of (ct_Features c) feature = Some actual))"
  using Negotiate_Inr [OF assms] by blast

definition F_contract :: Contract where
  "F_contract = \<lparr>ct_ID = ''human.agent.store'', ct_Major = 2, ct_Minor = 1, ct_Features = [(''scan'', 3)]\<rparr>"

definition F_requirements :: Requirements where
  "F_requirements = \<lparr>rq_ID = ''human.agent.store'', rq_Major = 2, rq_MinimumMinor = 0, rq_Features = [(''scan'', 2)]\<rparr>"

lemma F_negotiated: "Negotiate F_contract F_requirements = Inr F_contract" "gomap_ok (ct_Features F_contract)"
  by code_simp+

theorem negotiation_meets_requirements_witness:
  "ct_ID F_contract = ''human.agent.store'' \<and> ct_Major F_contract = 2 \<and> 0 \<le> ct_Minor F_contract
    \<and> (\<exists>actual \<ge> 2. map_of (ct_Features F_contract) ''scan'' = Some actual)"
  using negotiation_meets_requirements [OF F_negotiated] by (simp add: F_requirements_def)

text \<open>
  However many callers release an owned resource concurrently, its callback runs at
  most once; once a release began the value is no longer handed out, and the recorded result of the
  callback never changes afterwards.
\<close>

theorem owned_release_once:
  assumes "reachable_from (\<lambda>own. own = new_owned) owned_step own" "owned_step\<^sup>*\<^sup>* own own'"
  shows "own_calls own' \<le> 1
    \<and> (own_started own \<longrightarrow> Resource_Value \<lparr>res_value = v, res_owned = Some own'\<rparr> = Inl ErrResourceReleased)
    \<and> (own_released own \<longrightarrow> own_released own' \<and> own_err own' = own_err own)"
proof -
  note inv = owned.reachable_inv [OF assms(1)]
  have "owned_inv own'" "owned_grows own own'" using owned.steps_inv [OF assms(2) inv] owned.steps_R [OF assms(2) inv] by blast+
  then show ?thesis by (auto simp: owned_inv_def owned_grows_def Resource_Value_def)
qed

lemma F_released:
  "reachable_from (\<lambda>own. own = new_owned) owned_step (release_end None (release_begin new_owned))"
  by (rule reachable_from.step, rule reachable_from.step, rule reachable_from.start, rule refl, rule owned_step.Begin,
      simp add: new_owned_def, rule owned_step.End) (simp add: release_begin_def)

lemma F_released_facts:
  "own_started (release_end None (release_begin new_owned))" "own_released (release_end None (release_begin new_owned))"
  by (simp_all add: release_begin_def release_end_def)

theorem owned_release_once_witness:
  "own_calls (release_end None (release_begin new_owned)) \<le> 1
    \<and> Resource_Value \<lparr>res_value = (), res_owned = Some (release_end None (release_begin new_owned))\<rparr> = Inl ErrResourceReleased
    \<and> own_released (release_end None (release_begin new_owned))"
  using owned_release_once [OF F_released rtranclp.rtrancl_refl, of "()"] F_released_facts by blast

end
