(* ===== verification/Protect.thy ===== *)
theory Protect
  imports Framework
begin

text \<open>
  The payload protection port, \<^verbatim>\<open>protect/protect.go\<close>, \<^verbatim>\<open>protect/stored.go\<close> and
  \<^verbatim>\<open>protect/value.go\<close>: bindings, envelopes, the explicit plain/sealed \<open>StoredValue\<close> and its
  versioned persistence framing. A slice that may be nil is an \<open>option\<close>: \<open>None\<close> is nil,
  \<open>Some []\<close> the empty non-nil slice. What the code uses of \<open>encoding/json\<close> is the parameter
  \<open>wire_json\<close>; the cryptographic provider is the parameter \<open>Protector\<close>.
\<close>

datatype protect_error =
  ErrInvalidBinding | ErrInvalidEnvelope | ErrAuthentication | ErrKeyUnavailable
| ErrProviderUnavailable | ErrInvalidStoredEnvelope | ErrInvalidStoredValue
| ContractFailure framework_error | ErrProtectorDescription

definition maximumDataBytes :: int where
  "maximumDataBytes = 128 * 2 ^ 20"

definition MaxStoredEnvelopeBytes :: int where
  "MaxStoredEnvelopeBytes = 172 * 2 ^ 20"

definition MaxStoredValueBytes :: int where
  "MaxStoredValueBytes = MaxStoredEnvelopeBytes + 2 ^ 20"

record Binding =
  bd_Component :: string
  bd_Purpose :: string
  bd_Authority :: string
  bd_Namespace :: string
  bd_RecordType :: string
  bd_RecordID :: string
  bd_Field :: string
  bd_Schema :: "32 word"

record Envelope =
  en_Provider :: string
  en_Format :: string
  en_KeyID :: string
  en_KeyVersion :: string
  en_Nonce :: "bytes option"
  en_Data :: "bytes option"

record Description =
  ds_Contract :: Contract
  ds_Provider :: string
  ds_Format :: string
  ds_MaxPlaintextBytes :: int
  ds_MaxEnvelopeBytes :: int

text \<open>\<open>len\<close> of a slice that may be nil.\<close>

definition slice_len :: "bytes option \<Rightarrow> int" where
  "slice_len s = (case s of None \<Rightarrow> 0 | Some bs \<Rightarrow> int (length bs))"

definition envelope_key_ok :: "string \<Rightarrow> bool" where
  "envelope_key_ok v =
     (\<not> (v = [] \<or> 512 < length v \<or> \<not> utf8_valid v \<or> contains_any v [0, 13, 10]))"

definition protector_Requirements :: Requirements where
  "protector_Requirements =
     \<lparr>rq_ID = ''human.protector'', rq_Major = 1, rq_MinimumMinor = 0, rq_Features = []\<rparr>"

definition ValidateBinding :: "Binding \<Rightarrow> protect_error + unit" where
  "ValidateBinding b =
     (if \<not> list_all match_token [bd_Component b, bd_Purpose b, bd_RecordType b, bd_Field b]
      then Inl ErrInvalidBinding
      else if \<not> list_all envelope_key_ok [bd_Authority b, bd_Namespace b, bd_RecordID b]
      then Inl ErrInvalidBinding
      else if bd_Schema b = 0 then Inl ErrInvalidBinding
      else Inr ())"

definition ValidateDescription :: "Description \<Rightarrow> protect_error + unit" where
  "ValidateDescription d =
     (case Negotiate (ds_Contract d) protector_Requirements of
        Inl e \<Rightarrow> Inl (ContractFailure e)
      | Inr _ \<Rightarrow>
          if \<not> match_token (ds_Provider d) \<or> \<not> match_token (ds_Format d) then Inl ErrProtectorDescription
          else if ds_MaxPlaintextBytes d < 1 \<or> maximumDataBytes < ds_MaxPlaintextBytes d
                  \<or> ds_MaxEnvelopeBytes d < ds_MaxPlaintextBytes d \<or> maximumDataBytes < ds_MaxEnvelopeBytes d
          then Inl ErrProtectorDescription
          else Inr ())"

definition ValidateEnvelope :: "Envelope \<Rightarrow> protect_error + unit" where
  "ValidateEnvelope e =
     (if \<not> match_token (en_Provider e) \<or> \<not> match_token (en_Format e) then Inl ErrInvalidEnvelope
      else if \<not> envelope_key_ok (en_KeyID e) \<or> \<not> envelope_key_ok (en_KeyVersion e)
      then Inl ErrInvalidEnvelope
      else if 1024 < slice_len (en_Nonce e) \<or> slice_len (en_Data e) = 0
              \<or> maximumDataBytes < slice_len (en_Data e)
      then Inl ErrInvalidEnvelope
      else Inr ())"

text \<open>\<^verbatim>\<open>append([]byte(nil), s...)\<close> is nil for every empty slice.\<close>

definition append_nil :: "bytes option \<Rightarrow> bytes option" where
  "append_nil s = (case s of None \<Rightarrow> None | Some bs \<Rightarrow> if bs = [] then None else Some bs)"

definition CloneEnvelope :: "Envelope \<Rightarrow> Envelope" where
  "CloneEnvelope e = e\<lparr>en_Nonce := append_nil (en_Nonce e), en_Data := append_nil (en_Data e)\<rparr>"


section \<open>Stored values\<close>

datatype StoredValueMode = StoredValuePlain | StoredValueSealed | StoredValueModeOther string

record StoredValue =
  sv_Mode :: StoredValueMode
  sv_Nil :: bool
  sv_Plain :: "bytes option"
  sv_Envelope :: "Envelope option"

definition NewPlainStoredValue :: "bytes option \<Rightarrow> StoredValue" where
  "NewPlainStoredValue plaintext =
     \<lparr>sv_Mode = StoredValuePlain, sv_Nil = (plaintext = None), sv_Plain = plaintext,
      sv_Envelope = None\<rparr>"

definition NewSealedStoredValue :: "bool \<Rightarrow> Envelope \<Rightarrow> protect_error + StoredValue" where
  "NewSealedStoredValue plaintextNil e =
     (if \<not> ok (ValidateEnvelope e) then Inl ErrInvalidStoredValue
      else Inr \<lparr>sv_Mode = StoredValueSealed, sv_Nil = plaintextNil, sv_Plain = None,
                sv_Envelope = Some (CloneEnvelope e)\<rparr>)"

definition ValidateStoredValue :: "StoredValue \<Rightarrow> protect_error + unit" where
  "ValidateStoredValue v =
     (case sv_Mode v of
        StoredValuePlain \<Rightarrow>
          (if sv_Envelope v \<noteq> None \<or> sv_Nil v \<noteq> (sv_Plain v = None)
              \<or> maximumDataBytes < slice_len (sv_Plain v)
           then Inl ErrInvalidStoredValue else Inr ())
      | StoredValueSealed \<Rightarrow>
          (case sv_Envelope v of
             None \<Rightarrow> Inl ErrInvalidStoredValue
           | Some e \<Rightarrow>
               if sv_Plain v \<noteq> None then Inl ErrInvalidStoredValue
               else if \<not> ok (ValidateEnvelope e) then Inl ErrInvalidStoredValue
               else Inr ())
      | StoredValueModeOther _ \<Rightarrow> Inl ErrInvalidStoredValue)"


section \<open>Base64\<close>

definition b64_alphabet :: string where
  "b64_alphabet = ''ABCDEFGHIJKLMNOPQRSTUVWXYZabcdefghijklmnopqrstuvwxyz0123456789+/''"

definition b64_char :: "nat \<Rightarrow> char" where
  "b64_char n = b64_alphabet ! n"

fun b64_encode :: "nat list \<Rightarrow> string" where
  "b64_encode [] = []"
| "b64_encode [a] = [b64_char (a div 4), b64_char (a mod 4 * 16), CHR ''='', CHR ''='']"
| "b64_encode [a, b] =
     [b64_char (a div 4), b64_char (a mod 4 * 16 + b div 16), b64_char (b mod 16 * 4), CHR ''='']"
| "b64_encode (a # b # c # r) =
     b64_char (a div 4) # b64_char (a mod 4 * 16 + b div 16)
     # b64_char (b mod 16 * 4 + c div 64) # b64_char (c mod 64) # b64_encode r"

definition StdEncoding_EncodeToString :: "bytes \<Rightarrow> string" where
  "StdEncoding_EncodeToString bs = b64_encode (map unat bs)"

definition b64_value :: "char \<Rightarrow> nat option" where
  "b64_value c = (let i = length (takeWhile (\<lambda>d. d \<noteq> c) b64_alphabet)
                  in if i < 64 then Some i else None)"

text \<open>
  \<open>base64.StdEncoding.Strict()\<close>: CR and LF are skipped, the input is whole quanta, padding only
  closes the last one, and the unused bits before the padding are zero.
\<close>

fun b64_decode_quanta :: "string \<Rightarrow> nat list option" where
  "b64_decode_quanta [] = Some []"
| "b64_decode_quanta (p # q # r # s # rest) =
     (case (b64_value p, b64_value q) of
        (Some a, Some b) \<Rightarrow>
          (if r = CHR ''='' then
             (if s = CHR ''='' \<and> rest = [] \<and> b mod 16 = 0 then Some [a * 4 + b div 16] else None)
           else case b64_value r of
             None \<Rightarrow> None
           | Some c \<Rightarrow>
               (if s = CHR ''='' then
                  (if rest = [] \<and> c mod 4 = 0
                   then Some [a * 4 + b div 16, b mod 16 * 16 + c div 4] else None)
                else case (b64_value s, b64_decode_quanta rest) of
                  (Some d, Some tail) \<Rightarrow>
                    Some ((a * 4 + b div 16) # (b mod 16 * 16 + c div 4) # (c mod 4 * 64 + d) # tail)
                | _ \<Rightarrow> None))
      | _ \<Rightarrow> None)"
| "b64_decode_quanta _ = None"

definition StdEncoding_Strict_Decode :: "string \<Rightarrow> bytes option" where
  "StdEncoding_Strict_Decode s =
     map_option (map word_of_nat)
       (b64_decode_quanta (filter (\<lambda>c. byte c \<noteq> 10 \<and> byte c \<noteq> 13) s))"


section \<open>Persistence framing\<close>

record storedEnvelopeV1 =
  se_Version :: nat
  se_Provider :: string
  se_Format :: string
  se_KeyID :: string
  se_KeyVersion :: string
  se_NonceNil :: bool
  se_Nonce :: string
  se_DataNil :: bool
  se_Data :: string

record storedValueV1 =
  sw_Version :: nat
  sw_Mode :: StoredValueMode
  sw_Nil :: bool
  sw_Plain :: string
  sw_Envelope :: bytes

text \<open>
  The uses of \<open>encoding/json\<close>: marshalling the two wire structs, reading one JSON object with a
  token decoder as its list of fields in order (\<open>None\<close> when the text is not exactly one object),
  and decoding a field value into a Go variable. A raw message keeps the field's bytes.
\<close>

record wire_json =
  wj_marshal_envelope :: "storedEnvelopeV1 \<Rightarrow> bytes option"
  wj_marshal_value :: "storedValueV1 \<Rightarrow> bytes option"
  wj_fields :: "bytes \<Rightarrow> (string \<times> bytes) list option"
  wj_uint16 :: "bytes \<Rightarrow> nat option"
  wj_string :: "bytes \<Rightarrow> string option"
  wj_bool :: "bytes \<Rightarrow> bool option"

definition json_null :: bytes where
  "json_null = [110, 117, 108, 108]"

text \<open>\<^verbatim>\<open>bytes.Equal(bytes.TrimSpace(raw), []byte("null"))\<close>\<close>

definition is_json_null :: "bytes \<Rightarrow> bool" where
  "is_json_null raw = (trim_space_bytes (map unat raw) = map unat json_null)"

definition opt_bytes :: "bytes option \<Rightarrow> bytes" where
  "opt_bytes s = (case s of None \<Rightarrow> [] | Some bs \<Rightarrow> bs)"

definition MarshalEnvelope :: "wire_json \<Rightarrow> Envelope \<Rightarrow> protect_error + bytes" where
  "MarshalEnvelope J e =
     (if \<not> ok (ValidateEnvelope e) then Inl ErrInvalidStoredEnvelope
      else case wj_marshal_envelope J
          \<lparr>se_Version = 1, se_Provider = en_Provider e, se_Format = en_Format e,
           se_KeyID = en_KeyID e, se_KeyVersion = en_KeyVersion e,
           se_NonceNil = (en_Nonce e = None),
           se_Nonce = StdEncoding_EncodeToString (opt_bytes (en_Nonce e)),
           se_DataNil = (en_Data e = None),
           se_Data = StdEncoding_EncodeToString (opt_bytes (en_Data e))\<rparr> of
        None \<Rightarrow> Inl ErrInvalidStoredEnvelope
      | Some encoded \<Rightarrow>
          if MaxStoredEnvelopeBytes < int (length encoded) then Inl ErrInvalidStoredEnvelope
          else Inr encoded)"

definition MarshalStoredValue :: "wire_json \<Rightarrow> StoredValue \<Rightarrow> protect_error + bytes" where
  "MarshalStoredValue J v =
     bind_res (ValidateStoredValue v) (\<lambda>_.
     bind_res
       (case sv_Mode v of
          StoredValueSealed \<Rightarrow>
            (case sv_Envelope v of
               None \<Rightarrow> Inl ErrInvalidStoredValue
             | Some e \<Rightarrow> map_err (\<lambda>_. ErrInvalidStoredValue) (MarshalEnvelope J e))
        | _ \<Rightarrow> Inr json_null) (\<lambda>raw.
     case wj_marshal_value J
         \<lparr>sw_Version = 1, sw_Mode = sv_Mode v, sw_Nil = sv_Nil v,
          sw_Plain = StdEncoding_EncodeToString (opt_bytes (sv_Plain v)), sw_Envelope = raw\<rparr> of
       None \<Rightarrow> Inl ErrInvalidStoredValue
     | Some encoded \<Rightarrow>
         if MaxStoredValueBytes < int (length encoded) then Inl ErrInvalidStoredValue
         else Inr encoded))"

text \<open>The field loop of the two strict decoders: unknown and duplicate fields are errors.\<close>

fun decode_fields :: "(string \<Rightarrow> bytes \<Rightarrow> 'w \<Rightarrow> 'w option) \<Rightarrow> string list \<Rightarrow> 'w
    \<Rightarrow> (string \<times> bytes) list \<Rightarrow> ('w \<times> string list) option" where
  "decode_fields set_field seen w [] = Some (w, seen)"
| "decode_fields set_field seen w ((k, raw) # fs) =
     (if k \<in> set seen then None
      else case set_field k raw w of
        None \<Rightarrow> None
      | Some w' \<Rightarrow> decode_fields set_field (k # seen) w' fs)"

definition set_envelope_field ::
    "wire_json \<Rightarrow> string \<Rightarrow> bytes \<Rightarrow> storedEnvelopeV1 \<Rightarrow> storedEnvelopeV1 option" where
  "set_envelope_field J k raw w =
     (if k = ''version'' then map_option (\<lambda>x. w\<lparr>se_Version := x\<rparr>) (wj_uint16 J raw)
      else if k = ''provider'' then map_option (\<lambda>x. w\<lparr>se_Provider := x\<rparr>) (wj_string J raw)
      else if k = ''format'' then map_option (\<lambda>x. w\<lparr>se_Format := x\<rparr>) (wj_string J raw)
      else if k = ''key_id'' then map_option (\<lambda>x. w\<lparr>se_KeyID := x\<rparr>) (wj_string J raw)
      else if k = ''key_version'' then map_option (\<lambda>x. w\<lparr>se_KeyVersion := x\<rparr>) (wj_string J raw)
      else if k = ''nonce_nil'' then map_option (\<lambda>x. w\<lparr>se_NonceNil := x\<rparr>) (wj_bool J raw)
      else if k = ''nonce'' then map_option (\<lambda>x. w\<lparr>se_Nonce := x\<rparr>) (wj_string J raw)
      else if k = ''data_nil'' then map_option (\<lambda>x. w\<lparr>se_DataNil := x\<rparr>) (wj_bool J raw)
      else if k = ''data'' then map_option (\<lambda>x. w\<lparr>se_Data := x\<rparr>) (wj_string J raw)
      else None)"

definition storedEnvelope_fields :: "string list" where
  "storedEnvelope_fields =
     [''version'', ''provider'', ''format'', ''key_id'', ''key_version'',
      ''nonce_nil'', ''nonce'', ''data_nil'', ''data'']"

definition decodeStoredEnvelopeV1 ::
    "wire_json \<Rightarrow> bytes \<Rightarrow> protect_error + storedEnvelopeV1" where
  "decodeStoredEnvelopeV1 J encoded =
     (case wj_fields J encoded of
        None \<Rightarrow> Inl ErrInvalidStoredEnvelope
      | Some fs \<Rightarrow>
          (case decode_fields (set_envelope_field J) []
              \<lparr>se_Version = 0, se_Provider = [], se_Format = [], se_KeyID = [], se_KeyVersion = [],
               se_NonceNil = False, se_Nonce = [], se_DataNil = False, se_Data = []\<rparr> fs of
             None \<Rightarrow> Inl ErrInvalidStoredEnvelope
           | Some (w, seen) \<Rightarrow>
               if list_all (\<lambda>k. k \<in> set seen) storedEnvelope_fields then Inr w
               else Inl ErrInvalidStoredEnvelope))"

definition mode_string :: "string \<Rightarrow> StoredValueMode" where
  "mode_string s = (if s = ''plain'' then StoredValuePlain
     else if s = ''sealed'' then StoredValueSealed else StoredValueModeOther s)"

definition set_value_field ::
    "wire_json \<Rightarrow> string \<Rightarrow> bytes \<Rightarrow> storedValueV1 \<Rightarrow> storedValueV1 option" where
  "set_value_field J k raw w =
     (if k = ''version'' then map_option (\<lambda>x. w\<lparr>sw_Version := x\<rparr>) (wj_uint16 J raw)
      else if k = ''mode'' then map_option (\<lambda>x. w\<lparr>sw_Mode := mode_string x\<rparr>) (wj_string J raw)
      else if k = ''nil'' then map_option (\<lambda>x. w\<lparr>sw_Nil := x\<rparr>) (wj_bool J raw)
      else if k = ''plain'' then map_option (\<lambda>x. w\<lparr>sw_Plain := x\<rparr>) (wj_string J raw)
      else if k = ''envelope'' then Some (w\<lparr>sw_Envelope := raw\<rparr>)
      else None)"

definition storedValue_fields :: "string list" where
  "storedValue_fields = [''version'', ''mode'', ''nil'', ''plain'', ''envelope'']"

definition decodeStoredValueV1 :: "wire_json \<Rightarrow> bytes \<Rightarrow> protect_error + storedValueV1" where
  "decodeStoredValueV1 J encoded =
     (case wj_fields J encoded of
        None \<Rightarrow> Inl ErrInvalidStoredValue
      | Some fs \<Rightarrow>
          (case decode_fields (set_value_field J) []
              \<lparr>sw_Version = 0, sw_Mode = StoredValueModeOther [], sw_Nil = False, sw_Plain = [],
               sw_Envelope = []\<rparr> fs of
             None \<Rightarrow> Inl ErrInvalidStoredValue
           | Some (w, seen) \<Rightarrow>
               if list_all (\<lambda>k. k \<in> set seen) storedValue_fields then Inr w
               else Inl ErrInvalidStoredValue))"

text \<open>\<open>decodeStoredBytes\<close> and \<open>decodeCanonicalValueBytes\<close>: only the canonical spelling decodes.\<close>

definition decode_canonical :: "'e \<Rightarrow> string \<Rightarrow> bool \<Rightarrow> 'e + bytes option" where
  "decode_canonical err encoded isNil =
     (if isNil then (if encoded \<noteq> [] then Inl err else Inr None)
      else case StdEncoding_Strict_Decode encoded of
        None \<Rightarrow> Inl err
      | Some decoded \<Rightarrow>
          if StdEncoding_EncodeToString decoded \<noteq> encoded then Inl err else Inr (Some decoded))"

definition decodeStoredBytes :: "string \<Rightarrow> bool \<Rightarrow> protect_error + bytes option" where
  "decodeStoredBytes = decode_canonical ErrInvalidStoredEnvelope"

definition decodeCanonicalValueBytes :: "string \<Rightarrow> bool \<Rightarrow> protect_error + bytes option" where
  "decodeCanonicalValueBytes = decode_canonical ErrInvalidStoredValue"

definition UnmarshalEnvelopeLimited :: "wire_json \<Rightarrow> bytes \<Rightarrow> int \<Rightarrow> protect_error + Envelope" where
  "UnmarshalEnvelopeLimited J encoded maxBytes =
     (if maxBytes < 1 \<or> MaxStoredEnvelopeBytes < maxBytes then Inl ErrInvalidStoredEnvelope
      else if encoded = [] \<or> maxBytes < int (length encoded) then Inl ErrInvalidStoredEnvelope
      else if \<not> utf8_valid_bytes (map unat encoded) then Inl ErrInvalidStoredEnvelope
      else bind_res (decodeStoredEnvelopeV1 J encoded) (\<lambda>wire.
        if se_Version wire \<noteq> 1 then Inl ErrInvalidStoredEnvelope
        else bind_res (decodeStoredBytes (se_Nonce wire) (se_NonceNil wire)) (\<lambda>nonce.
          bind_res (decodeStoredBytes (se_Data wire) (se_DataNil wire)) (\<lambda>data.
          let e = \<lparr>en_Provider = se_Provider wire, en_Format = se_Format wire,
                   en_KeyID = se_KeyID wire, en_KeyVersion = se_KeyVersion wire,
                   en_Nonce = nonce, en_Data = data\<rparr>
          in if \<not> ok (ValidateEnvelope e) then Inl ErrInvalidStoredEnvelope else Inr e))))"

definition UnmarshalStoredValueLimited ::
    "wire_json \<Rightarrow> bytes \<Rightarrow> int \<Rightarrow> protect_error + StoredValue" where
  "UnmarshalStoredValueLimited J encoded maxBytes =
     (if maxBytes < 1 \<or> MaxStoredValueBytes < maxBytes then Inl ErrInvalidStoredValue
      else if encoded = [] \<or> maxBytes < int (length encoded) then Inl ErrInvalidStoredValue
      else if \<not> utf8_valid_bytes (map unat encoded) then Inl ErrInvalidStoredValue
      else bind_res (decodeStoredValueV1 J encoded) (\<lambda>wire.
        if sw_Version wire \<noteq> 1 then Inl ErrInvalidStoredValue
        else bind_res
          (case sw_Mode wire of
             StoredValuePlain \<Rightarrow>
               (if \<not> is_json_null (sw_Envelope wire) then Inl ErrInvalidStoredValue
                else bind_res (decodeCanonicalValueBytes (sw_Plain wire) (sw_Nil wire)) (\<lambda>plain.
                  Inr \<lparr>sv_Mode = StoredValuePlain, sv_Nil = sw_Nil wire, sv_Plain = plain,
                       sv_Envelope = None\<rparr>))
           | StoredValueSealed \<Rightarrow>
               (if sw_Plain wire \<noteq> [] \<or> is_json_null (sw_Envelope wire)
                then Inl ErrInvalidStoredValue
                else bind_res
                  (map_err (\<lambda>_. ErrInvalidStoredValue)
                    (UnmarshalEnvelopeLimited J (sw_Envelope wire)
                      (min (int (length (sw_Envelope wire))) MaxStoredEnvelopeBytes)))
                  (\<lambda>e. Inr \<lparr>sv_Mode = StoredValueSealed, sv_Nil = sw_Nil wire, sv_Plain = None,
                            sv_Envelope = Some e\<rparr>))
           | StoredValueModeOther _ \<Rightarrow> Inl ErrInvalidStoredValue) (\<lambda>value.
        bind_res (ValidateStoredValue value) (\<lambda>_. Inr value))))"


section \<open>The provider\<close>

text \<open>
  A Protector seals a plaintext under a binding and opens an envelope under a binding. Sealing and
  opening call the provider; what it answers is the parameter.
\<close>

record Protector =
  pt_Description :: Description
  pt_Seal :: "Binding \<Rightarrow> bytes option \<Rightarrow> protect_error + Envelope"
  pt_Open :: "Binding \<Rightarrow> Envelope \<Rightarrow> protect_error + bytes option"

end
