(* ===== verification/Agent_Types.thy ===== *)
theory Agent_Types
  imports Protect
begin

text \<open>
  The data of the HumanAgent domain, \<^verbatim>\<open>agent/types.go\<close> and \<^verbatim>\<open>workspace/types.go\<close>: the
  identities, the Task aggregate with its messages, events, Artifact and Submission, the lease
  values, the commands, the page requests and cursors, and the errors. A Go string enumeration
  is a datatype with the source's constants and one further constructor for any other string a
  caller or a store can supply. An \<open>error\<close> is modelled by what \<open>errors.Is\<close> and \<open>errors.As\<close> see:
  the sentinel with its typed payload, without the message text.
\<close>


section \<open>Identities\<close>

type_synonym AuthorityID = string
type_synonym ContextID = string
type_synonym WorkspaceID = string
type_synonym TaskID = string
type_synonym MessageID = string
type_synonym SubmissionID = string
type_synonym CommandID = string
type_synonym ArtifactID = string
type_synonym ApplyReceiptID = string
type_synonym WorkerID = string
type_synonym LeaseFence = uint64
type_synonym Revision = string
type_synonym Digest = string

record ContextRef =
  cr_Authority :: AuthorityID
  cr_ID :: ContextID

record WorkspaceRef =
  wr_Authority :: AuthorityID
  wr_ID :: WorkspaceID

record TaskRef =
  tr_Workspace :: WorkspaceRef
  tr_ID :: TaskID

record ArtifactRef =
  ar_Workspace :: WorkspaceRef
  ar_ID :: ArtifactID

abbreviation tr_Authority :: "TaskRef \<Rightarrow> AuthorityID" where
  "tr_Authority r \<equiv> wr_Authority (tr_Workspace r)"

abbreviation ar_Authority :: "ArtifactRef \<Rightarrow> AuthorityID" where
  "ar_Authority r \<equiv> wr_Authority (ar_Workspace r)"


section \<open>Tasks, messages, submissions\<close>

datatype TaskState =
  TaskSubmitted | TaskWorking | TaskInputRequired | TaskCompleted | TaskCanceled
| TaskRejected | TaskFailed | TaskStateOther string

fun Terminal :: "TaskState \<Rightarrow> bool" where
  "Terminal TaskCompleted = True"
| "Terminal TaskCanceled = True"
| "Terminal TaskRejected = True"
| "Terminal TaskFailed = True"
| "Terminal _ = False"

datatype Author = AuthorCaller | AuthorAgent | AuthorOther string

record Part =
  part_MediaType :: string
  part_Data :: bytes

record MessageInput =
  mi_ID :: MessageID
  mi_Parts :: "Part list"

record Message =
  msg_ID :: MessageID
  msg_Task :: TaskRef
  msg_Sequence :: uint64
  msg_Author :: Author
  msg_Parts :: "Part list"
  msg_CreatedAt :: gotime

record Submission =
  sub_ID :: SubmissionID
  sub_Task :: TaskRef
  sub_FinalMessage :: MessageID
  sub_Artifact :: "ArtifactRef option"
  sub_PublishedAt :: gotime

record Task =
  task_Ref :: TaskRef
  task_Context :: ContextRef
  task_State :: TaskState
  task_Revision :: uint64
  task_MessageCount :: uint64
  task_EventCount :: uint64
  task_Artifact :: "ArtifactRef option"
  task_Submission :: "Submission option"
  task_CreatedAt :: gotime
  task_UpdatedAt :: gotime


section \<open>Pages and cursors\<close>

definition MaxPageSize :: int where
  "MaxPageSize = 100"

record PageRequest =
  pr_After :: uint64
  pr_Limit :: int

record MessagePage =
  mp_Items :: "Message list"
  mp_Next :: uint64
  mp_HasMore :: bool

datatype TaskPageCursor =
  TaskPageCursor (tpc_CreatedAt: gotime) (tpc_Workspace: WorkspaceID) (tpc_Task: TaskID)

record TaskPageRequest =
  tpr_After :: "TaskPageCursor option"
  tpr_Limit :: int

record TaskPage =
  tp_Items :: "Task list"
  tp_Next :: "TaskPageCursor option"
  tp_HasMore :: bool

datatype TaskQueryCursor =
  TaskQueryCursor (tqc_UpdatedAt: gotime) (tqc_Workspace: WorkspaceID) (tqc_Task: TaskID)

record TaskQuery =
  tq_Context :: ContextID
  tq_State :: TaskState
  tq_UpdatedAtOrAfter :: "gotime option"
  tq_After :: "TaskQueryCursor option"
  tq_Limit :: int

record TaskQueryPage =
  tqp_Items :: "Task list"
  tqp_Next :: "TaskQueryCursor option"
  tqp_HasMore :: bool
  tqp_TotalSize :: uint64

record TaskSnapshot =
  ts_Task :: Task
  ts_EventCursor :: uint64

text \<open>
  The cursors are linearly ordered the way the scans order their rows: lexicographically, with
  the update time of a query cursor descending.
\<close>

instantiation TaskPageCursor :: linorder
begin

definition less_eq_TaskPageCursor :: "TaskPageCursor \<Rightarrow> TaskPageCursor \<Rightarrow> bool" where
  "a \<le> b \<longleftrightarrow>
     (tpc_CreatedAt a, tpc_Workspace a, tpc_Task a) \<le> (tpc_CreatedAt b, tpc_Workspace b, tpc_Task b)"

definition less_TaskPageCursor :: "TaskPageCursor \<Rightarrow> TaskPageCursor \<Rightarrow> bool" where
  "a < b \<longleftrightarrow>
     (tpc_CreatedAt a, tpc_Workspace a, tpc_Task a) < (tpc_CreatedAt b, tpc_Workspace b, tpc_Task b)"

instance
  by standard
    (auto simp: less_eq_TaskPageCursor_def less_TaskPageCursor_def intro: TaskPageCursor.expand)

end

instantiation TaskQueryCursor :: linorder
begin

definition less_eq_TaskQueryCursor :: "TaskQueryCursor \<Rightarrow> TaskQueryCursor \<Rightarrow> bool" where
  "a \<le> b \<longleftrightarrow>
     (- tqc_UpdatedAt a, tqc_Workspace a, tqc_Task a) \<le> (- tqc_UpdatedAt b, tqc_Workspace b, tqc_Task b)"

definition less_TaskQueryCursor :: "TaskQueryCursor \<Rightarrow> TaskQueryCursor \<Rightarrow> bool" where
  "a < b \<longleftrightarrow>
     (- tqc_UpdatedAt a, tqc_Workspace a, tqc_Task a) < (- tqc_UpdatedAt b, tqc_Workspace b, tqc_Task b)"

instance
  by standard
    (auto simp: less_eq_TaskQueryCursor_def less_TaskQueryCursor_def intro: TaskQueryCursor.expand)

end


section \<open>Leases and commands\<close>

record CommandMeta =
  cm_ID :: CommandID
  cm_ExpectedRevision :: uint64

record LeaseGrant =
  lg_Task :: TaskRef
  lg_Worker :: WorkerID
  lg_Fence :: LeaseFence

record LeaseAssignment =
  la_Grant :: LeaseGrant
  la_Task :: Task
  la_GrantedAt :: gotime

datatype LeasePageCursor =
  LeasePageCursor (lpc_GrantedAt: gotime) (lpc_Workspace: WorkspaceID) (lpc_Task: TaskID)
    (lpc_Fence: LeaseFence)

record LeasePageRequest =
  lpr_After :: "LeasePageCursor option"
  lpr_Limit :: int

record LeasePage =
  lp_Items :: "LeaseAssignment list"
  lp_Next :: "LeasePageCursor option"
  lp_HasMore :: bool

instantiation LeasePageCursor :: linorder
begin

definition less_eq_LeasePageCursor :: "LeasePageCursor \<Rightarrow> LeasePageCursor \<Rightarrow> bool" where
  "a \<le> b \<longleftrightarrow> (lpc_GrantedAt a, lpc_Workspace a, lpc_Task a, lpc_Fence a)
     \<le> (lpc_GrantedAt b, lpc_Workspace b, lpc_Task b, lpc_Fence b)"

definition less_LeasePageCursor :: "LeasePageCursor \<Rightarrow> LeasePageCursor \<Rightarrow> bool" where
  "a < b \<longleftrightarrow> (lpc_GrantedAt a, lpc_Workspace a, lpc_Task a, lpc_Fence a)
     < (lpc_GrantedAt b, lpc_Workspace b, lpc_Task b, lpc_Fence b)"

instance
  by standard
    (auto simp: less_eq_LeasePageCursor_def less_LeasePageCursor_def intro: LeasePageCursor.expand)

end

record AcquireLeaseCommand =
  alc_ID :: CommandID
  alc_Task :: TaskRef
  alc_Worker :: WorkerID

record ClaimLeaseCommand =
  clc_ID :: CommandID
  clc_Authority :: AuthorityID
  clc_Worker :: WorkerID

record FenceLeaseCommand =
  flc_ID :: CommandID
  flc_Grant :: LeaseGrant

record WorkerCommandMeta =
  wcm_ID :: CommandID
  wcm_ExpectedRevision :: uint64
  wcm_Grant :: LeaseGrant

record CreateTaskCommand =
  ctc_Meta :: CommandMeta
  ctc_Task :: TaskRef
  ctc_Context :: ContextRef
  ctc_Message :: MessageInput

record TaskCommand =
  tc_Meta :: CommandMeta
  tc_Task :: TaskRef

record WorkerTaskCommand =
  wtc_Meta :: WorkerCommandMeta
  wtc_Task :: TaskRef

record MessageCommand =
  mc_Meta :: CommandMeta
  mc_Task :: TaskRef
  mc_Message :: MessageInput

record WorkerMessageCommand =
  wmc_Meta :: WorkerCommandMeta
  wmc_Task :: TaskRef
  wmc_Message :: MessageInput

record CompleteTaskCommand =
  cmp_Meta :: WorkerCommandMeta
  cmp_Task :: TaskRef
  cmp_Submission :: SubmissionID
  cmp_Message :: MessageInput
  cmp_Artifact :: "ArtifactRef option"


section \<open>Artifacts, receipts, workspace heads\<close>

datatype ArtifactState =
  ArtifactFrozen | ArtifactPublished | ArtifactDiscarded | ArtifactStateOther string

record Payload =
  pl_MediaType :: string
  pl_Data :: bytes

datatype ApplyDecision =
  ApplySuccess | ApplyConflict | ApplyRejected | ApplyIndeterminate | ApplyDecisionOther string

fun Valid :: "ApplyDecision \<Rightarrow> bool" where
  "Valid (ApplyDecisionOther _) = False"
| "Valid _ = True"

record Artifact =
  art_Ref :: ArtifactRef
  art_Task :: TaskRef
  art_State :: ArtifactState
  art_BaseRevision :: Revision
  art_ResultRevision :: Revision
  art_Digest :: Digest
  art_PayloadDigest :: Digest
  art_PayloadSize :: int
  art_MediaType :: string
  art_FrozenAt :: gotime
  art_PublishedAt :: "gotime option"
  art_DiscardedAt :: "gotime option"

record ArtifactContent =
  ac_Artifact :: Artifact
  ac_Payload :: Payload

record FreezeArtifactCommand =
  fac_Meta :: WorkerCommandMeta
  fac_Task :: TaskRef
  fac_Artifact :: ArtifactID
  fac_ExpectedBaseRevision :: Revision
  fac_Payload :: Payload

record FreezeArtifactResult =
  far_Task :: Task
  far_Artifact :: Artifact

record RecordApplyReceiptCommand =
  rrc_CommandID :: CommandID
  rrc_Receipt :: ApplyReceiptID
  rrc_Artifact :: ArtifactRef
  rrc_ArtifactDigest :: Digest
  rrc_BaseRevision :: Revision
  rrc_ResultRevision :: Revision
  rrc_Decision :: ApplyDecision
  rrc_ObservedRevision :: Revision
  rrc_Code :: string
  rrc_Message :: string

record ApplyReceipt =
  rcp_ID :: ApplyReceiptID
  rcp_Artifact :: ArtifactRef
  rcp_ArtifactDigest :: Digest
  rcp_BaseRevision :: Revision
  rcp_ResultRevision :: Revision
  rcp_Decision :: ApplyDecision
  rcp_ObservedRevision :: Revision
  rcp_Code :: string
  rcp_Message :: string
  rcp_RecordedAt :: gotime

record WorkspaceHead =
  wh_Workspace :: WorkspaceRef
  wh_ConfirmedRevision :: Revision
  wh_UpdatedAt :: gotime


section \<open>Events\<close>

datatype EventType =
  EventTaskSubmitted | EventTaskAccepted | EventTaskRejected | EventInputRequired
| EventCallerReplied | EventTaskCanceled | EventTaskFailed | EventTaskCompleted
| EventArtifactFrozen | EventTypeOther string

record Event =
  ev_Task :: TaskRef
  ev_Sequence :: uint64
  ev_Type :: EventType
  ev_State :: TaskState
  ev_Revision :: uint64
  ev_Message :: MessageID
  ev_Submission :: SubmissionID
  ev_Artifact :: ArtifactID
  ev_OccurredAt :: gotime

record EventPage =
  ep_Items :: "Event list"
  ep_Next :: uint64
  ep_HasMore :: bool


section \<open>Errors\<close>

text \<open>The logical constraints and the errors of the Store port, \<^verbatim>\<open>agent/store.go\<close>.\<close>

datatype StoreConstraint =
  StoreConstraintCommandID | StoreConstraintTaskKey | StoreConstraintPublicTaskID
| StoreConstraintMessageID | StoreConstraintMessageSequence | StoreConstraintEventSequence
| StoreConstraintLeaseFence | StoreConstraintArtifactID | StoreConstraintArtifactTask
| StoreConstraintSubmissionID | StoreConstraintReceiptID

datatype store_error =
  ErrStoreRecordNotFound
| StoreConflictError StoreConstraint
| ErrStoreRecordTooLarge
| ErrStoreCommitUnknown
| ErrStoreClosed
| StoreInvalidArgument
| StoreCorrupt
| StoreCommitFailed

text \<open>
  The errors of the Agent. \<open>StoreFailure\<close> is a store error passed on with a prefix;
  \<open>ErrContextDone\<close> is the \<open>ctx.Err()\<close> of a finished context; \<open>ErrEncode\<close> a failed
  \<open>json.Marshal\<close>; \<open>ErrJoined\<close> is \<open>errors.Join\<close>; \<open>ProtectFailure\<close> an error of the protection port.
\<close>

datatype agent_error =
  ErrInvalidArgument | ErrNotFound | ErrIdempotencyConflict
| RevisionConflictError uint64 uint64 | ErrRevisionConflict
| TransitionError string TaskState bool
| ErrTaskConflict | ErrMessageConflict | ErrSubmissionConflict
| ErrArtifactNotFound | ErrArtifactConflict | ErrArtifactState
| ErrWorkspaceConflict | ErrWorkspaceNotFound
| ErrReceiptNotFound | ErrReceiptConflict
| ErrLeaseNotFound | ErrLeaseUnavailable | ErrStaleLease | ErrLeaseFenceExhausted
| ErrCorruptStore | ErrProtectionDowngrade | ErrClosed
| StoreFailure store_error | ErrContextDone | ErrEncode
| ProtectFailure protect_error
| ErrJoined agent_error agent_error

text \<open>\<open>errors.Is(err, ErrRevisionConflict)\<close> and the unwrapping of a \<open>TransitionError\<close>.\<close>

fun is_revision_conflict :: "agent_error \<Rightarrow> bool" where
  "is_revision_conflict (RevisionConflictError _ _) = True"
| "is_revision_conflict ErrRevisionConflict = True"
| "is_revision_conflict _ = False"

fun is_terminal_task :: "agent_error \<Rightarrow> bool" where
  "is_terminal_task (TransitionError _ _ terminal) = terminal"
| "is_terminal_task _ = False"

fun is_invalid_transition :: "agent_error \<Rightarrow> bool" where
  "is_invalid_transition (TransitionError _ _ terminal) = (\<not> terminal)"
| "is_invalid_transition _ = False"

type_synonym 'a agent_result = "agent_error + 'a"

end
