(* ===== verification/Agent_Codec.thy ===== *)
theory Agent_Codec
  imports Agent_Types
begin

text \<open>
  The identities the Agent derives from content: the command digest, the content digest of a
  message, the Artifact digests and the next workspace revision (\<^verbatim>\<open>agent/agent.go\<close>,
  \<^verbatim>\<open>agent/artifact.go\<close>). JSON encoding, SHA-256 and media type parsing are standard library
  code; they are the parameter \<open>env\<close>, and each theorem names what it needs of them.
\<close>

datatype agent_command =
  CmdCreateTask CreateTaskCommand | CmdTask TaskCommand | CmdWorkerTask WorkerTaskCommand
| CmdMessage MessageCommand | CmdWorkerMessage WorkerMessageCommand
| CmdCompleteTask CompleteTaskCommand | CmdAcquireLease AcquireLeaseCommand
| CmdClaimLease ClaimLeaseCommand | CmdFenceLease FenceLeaseCommand
| CmdFreezeArtifact FreezeArtifactCommand | CmdRecordApplyReceipt RecordApplyReceiptCommand

text \<open>The Go values handed to \<open>json.Marshal\<close>, and the types \<open>json.Unmarshal\<close> decodes into.\<close>

datatype json_doc =
  JCommand string agent_command | JParts "Part list" | JPayload Payload
| JTask Task | JLeaseAssignment LeaseAssignment | JLeaseGrant LeaseGrant
| JFreezeResult FreezeArtifactResult | JApplyReceipt ApplyReceipt
| JNextRevision Revision string ArtifactRef Digest
| JArtifactIdentity ArtifactRef TaskRef Revision Revision Digest string

datatype json_dest =
  DTask | DLeaseAssignment | DLeaseGrant | DFreezeResult | DApplyReceipt | DParts

record env =
  sha256_Sum256 :: "bytes \<Rightarrow> bytes"
  json_Marshal :: "json_doc \<Rightarrow> bytes option"
  json_Unmarshal :: "json_dest \<Rightarrow> bytes \<Rightarrow> json_doc option"
  mime_ParseMediaType :: "string \<Rightarrow> bool"
  env_wire :: wire_json

definition byteDigest :: "env \<Rightarrow> bytes \<Rightarrow> string" where
  "byteDigest E v = hex_EncodeToString (sha256_Sum256 E v)"

definition commandDigest :: "env \<Rightarrow> string \<Rightarrow> agent_command \<Rightarrow> string agent_result" where
  "commandDigest E kind command =
     (case json_Marshal E (JCommand kind command) of
        None \<Rightarrow> Inl ErrEncode
      | Some encoded \<Rightarrow> Inr (hex_EncodeToString (sha256_Sum256 E encoded)))"

definition contentDigest :: "env \<Rightarrow> Part list \<Rightarrow> string agent_result" where
  "contentDigest E parts =
     (case json_Marshal E (JParts parts) of
        None \<Rightarrow> Inl ErrEncode
      | Some encoded \<Rightarrow> Inr (hex_EncodeToString (sha256_Sum256 E encoded)))"

definition sha256Identity :: "env \<Rightarrow> bytes \<Rightarrow> Digest" where
  "sha256Identity E payload = ''sha256:'' @ hex_EncodeToString (sha256_Sum256 E payload)"

text \<open>\<^verbatim>\<open>encoded, _ := json.Marshal(v)\<close>: on an error the bytes are nil.\<close>

definition marshal_or_nil :: "env \<Rightarrow> json_doc \<Rightarrow> bytes" where
  "marshal_or_nil E v = (case json_Marshal E v of None \<Rightarrow> [] | Some encoded \<Rightarrow> encoded)"

definition digestPayload :: "env \<Rightarrow> Payload \<Rightarrow> Digest" where
  "digestPayload E payload = sha256Identity E (marshal_or_nil E (JPayload payload))"

definition nextRevision :: "env \<Rightarrow> Revision \<Rightarrow> ArtifactRef \<Rightarrow> Digest \<Rightarrow> Revision" where
  "nextRevision E base ref payload =
     sha256Identity E (marshal_or_nil E (JNextRevision base ''agent'' ref payload))"

definition digestArtifact ::
    "env \<Rightarrow> ArtifactRef \<Rightarrow> TaskRef \<Rightarrow> Revision \<Rightarrow> Revision \<Rightarrow> Digest \<Rightarrow> string \<Rightarrow> Digest" where
  "digestArtifact E ref task base result payload mediaType =
     sha256Identity E (marshal_or_nil E (JArtifactIdentity ref task base result payload mediaType))"

text \<open>
  What a command receipt relies on: encoding \<open>v\<close> succeeds, is not empty, fits the read budget
  \<open>maxPageBytes\<close>, and decoding gives \<open>v\<close> back; a SHA-256 sum is not empty.
\<close>

definition maxPartBytes :: int where
  "maxPartBytes = 2 * 2 ^ 20"

definition maxPageBytes :: int where
  "maxPageBytes = 4 * 2 ^ 20"

definition defaultArtifactMax :: int where
  "defaultArtifactMax = 16 * 2 ^ 20"

definition absoluteArtifactMax :: int where
  "absoluteArtifactMax = 64 * 2 ^ 20"

definition json_faithful :: "env \<Rightarrow> json_dest \<Rightarrow> json_doc \<Rightarrow> bool" where
  "json_faithful E D v =
     (case json_Marshal E v of
        None \<Rightarrow> False
      | Some encoded \<Rightarrow>
          encoded \<noteq> [] \<and> int (length encoded) \<le> maxPageBytes \<and> json_Unmarshal E D encoded = Some v)"

definition sha256_nonempty :: "env \<Rightarrow> bool" where
  "sha256_nonempty E = (\<forall>bs. sha256_Sum256 E bs \<noteq> [])"

lemma hex_EncodeToString_eq_Nil [simp]: "hex_EncodeToString bs = [] \<longleftrightarrow> bs = []"
  by (cases bs) (simp_all add: hex_EncodeToString_def)

lemma commandDigest_nonempty:
  "sha256_nonempty E \<Longrightarrow> commandDigest E k c = Inr d \<Longrightarrow> d \<noteq> []"
  by (auto simp: commandDigest_def sha256_nonempty_def split: option.splits)

lemma sha256Identity_prefix: "take 7 (sha256Identity E v) = ''sha256:''"
  by (simp add: sha256Identity_def)

end
