(* ===== verification/Agent_Store.thy ===== *)
theory Agent_Store
  imports Agent_Codec
begin

text \<open>
  The persistence port of the Agent, \<^verbatim>\<open>agent/store.go\<close>: its records, the interfaces
  \<open>StoreView\<close> and \<open>StoreTx\<close> as a record of operations over a transaction state, the semantics of
  \<open>View\<close> and \<open>Update\<close> (one callback, roll back on an error, an ambiguous commit), and the
  contract. The contract is an abstract database \<open>agent_db\<close> of finite maps with one
  specification function per primitive; the locale \<open>agent_store\<close> states that a provider's
  primitives refine them, and \<open>agent_store_scans\<close> adds the ordered scans.
\<close>


section \<open>Records\<close>

type_synonym StoreDigest = string

record StoreCommandRecord =
  scr_Authority :: AuthorityID
  scr_ID :: CommandID
  scr_Kind :: string
  scr_IntentDigest :: StoreDigest
  scr_ResultKind :: string
  scr_Result :: bytes
  scr_ResultDigest :: StoreDigest
  scr_CreatedAt :: gotime

record StoreLeaseState =
  ls_Owner :: WorkerID
  ls_Fence :: LeaseFence

record StoreTaskRecord =
  str_Task :: Task
  str_Lease :: StoreLeaseState
  str_ArtifactState :: "ArtifactState option"

record StoreMessageRecord =
  smr_ID :: MessageID
  smr_Task :: TaskRef
  smr_Sequence :: uint64
  smr_Author :: Author
  smr_EncodedParts :: bytes
  smr_PartsDigest :: StoreDigest
  smr_CreatedAt :: gotime

text \<open>The one-field structs \<open>StoreEventRecord\<close>, \<open>StoreSubmissionRecord\<close>,
  \<open>StoreApplyReceiptRecord\<close> and \<open>StoreWorkspaceHeadRecord\<close> are their field.\<close>

type_synonym StoreEventRecord = Event
type_synonym StoreSubmissionRecord = Submission
type_synonym StoreApplyReceiptRecord = ApplyReceipt
type_synonym StoreWorkspaceHeadRecord = WorkspaceHead

record StoreLeaseGrantRecord =
  slg_Grant :: LeaseGrant
  slg_GrantedAt :: gotime

record StoreArtifactRecord =
  sar_Artifact :: Artifact
  sar_EncodedPayload :: bytes

record StoreCommandKey =
  sck_Authority :: AuthorityID
  sck_ID :: CommandID

record StoreMessageKey =
  smk_Authority :: AuthorityID
  smk_ID :: MessageID

text \<open>\<open>StoreReadLimit\<close> is its field \<open>MaxBytes\<close>.\<close>

type_synonym StoreReadLimit = int

record StoreTaskContextScan =
  tcs_Context :: ContextRef
  tcs_After :: "TaskPageCursor option"
  tcs_Limit :: int

record StoreTaskAuthorityScan =
  tas_Authority :: AuthorityID
  tas_Context :: ContextID
  tas_State :: TaskState
  tas_UpdatedAtOrAfter :: "gotime option"
  tas_After :: "TaskQueryCursor option"
  tas_Limit :: int

record StoreTaskAuthorityResult =
  tar_Records :: "StoreTaskRecord list"
  tar_TotalSize :: uint64

record StoreMessageScan =
  sms_Task :: TaskRef
  sms_After :: uint64
  sms_Limit :: int
  sms_ReadLimit :: StoreReadLimit

record StoreEventScan =
  ses_Task :: TaskRef
  ses_After :: uint64
  ses_Limit :: int

record StoreLeaseScan =
  sls_Authority :: AuthorityID
  sls_Worker :: WorkerID
  sls_After :: "LeasePageCursor option"
  sls_Limit :: int

record StoreTaskCondition =
  stc_ExpectedRevision :: uint64
  stc_ExpectedLease :: "StoreLeaseState option"

record StoreTaskMutation =
  stm_Ref :: TaskRef
  stm_Condition :: StoreTaskCondition
  stm_Next :: StoreTaskRecord

record StoreArtifactMutation =
  sam_Ref :: ArtifactRef
  sam_Task :: TaskRef
  sam_ExpectedState :: ArtifactState
  sam_NextState :: ArtifactState
  sam_PublishedAt :: "gotime option"
  sam_DiscardedAt :: "gotime option"

record StoreWorkspaceHeadMutation =
  swm_Workspace :: WorkspaceRef
  swm_ExpectedRevision :: Revision
  swm_Next :: StoreWorkspaceHeadRecord


section \<open>The interfaces StoreView and StoreTx\<close>

type_synonym 'a store_result = "store_error + 'a"

text \<open>
  \<open>'s\<close> is what a callback's \<open>StoreView\<close> or \<open>StoreTx\<close> reads and writes. A mutation returns the
  new transaction state.
\<close>

record 's store_ops =
  LookupCommand :: "'s \<Rightarrow> StoreCommandKey \<Rightarrow> StoreReadLimit \<Rightarrow> StoreCommandRecord store_result"
  LoadTask :: "'s \<Rightarrow> TaskRef \<Rightarrow> StoreTaskRecord store_result"
  ResolveTask :: "'s \<Rightarrow> AuthorityID \<Rightarrow> TaskID \<Rightarrow> TaskRef store_result"
  LoadMessage :: "'s \<Rightarrow> StoreMessageKey \<Rightarrow> StoreReadLimit \<Rightarrow> StoreMessageRecord store_result"
  LoadArtifact :: "'s \<Rightarrow> ArtifactRef \<Rightarrow> StoreReadLimit \<Rightarrow> StoreArtifactRecord store_result"
  LoadApplyReceipt :: "'s \<Rightarrow> ArtifactRef \<Rightarrow> StoreApplyReceiptRecord store_result"
  LoadWorkspaceHead :: "'s \<Rightarrow> WorkspaceRef \<Rightarrow> StoreWorkspaceHeadRecord store_result"
  LoadLeaseGrant :: "'s \<Rightarrow> TaskRef \<Rightarrow> LeaseFence \<Rightarrow> StoreLeaseGrantRecord store_result"
  LoadLatestLeaseGrant :: "'s \<Rightarrow> TaskRef \<Rightarrow> StoreLeaseGrantRecord store_result"
  FindClaimableTask :: "'s \<Rightarrow> AuthorityID \<Rightarrow> StoreTaskRecord store_result"
  ScanContextTasks :: "'s \<Rightarrow> StoreTaskContextScan \<Rightarrow> StoreTaskRecord list store_result"
  ScanAuthorityTasks :: "'s \<Rightarrow> StoreTaskAuthorityScan \<Rightarrow> StoreTaskAuthorityResult store_result"
  ScanMessages :: "'s \<Rightarrow> StoreMessageScan \<Rightarrow> StoreMessageRecord list store_result"
  ScanEvents :: "'s \<Rightarrow> StoreEventScan \<Rightarrow> StoreEventRecord list store_result"
  ScanLeases :: "'s \<Rightarrow> StoreLeaseScan \<Rightarrow> LeaseAssignment list store_result"
  InsertCommand :: "'s \<Rightarrow> StoreCommandRecord \<Rightarrow> 's store_result"
  InsertTask :: "'s \<Rightarrow> StoreTaskRecord \<Rightarrow> 's store_result"
  CompareAndSwapTask :: "'s \<Rightarrow> StoreTaskMutation \<Rightarrow> (bool \<times> 's) store_result"
  InsertMessage :: "'s \<Rightarrow> StoreMessageRecord \<Rightarrow> 's store_result"
  InsertEvent :: "'s \<Rightarrow> StoreEventRecord \<Rightarrow> 's store_result"
  InsertLeaseGrant :: "'s \<Rightarrow> StoreLeaseGrantRecord \<Rightarrow> 's store_result"
  InsertArtifact :: "'s \<Rightarrow> StoreArtifactRecord \<Rightarrow> 's store_result"
  CompareAndSwapArtifact :: "'s \<Rightarrow> StoreArtifactMutation \<Rightarrow> (bool \<times> 's) store_result"
  InsertSubmission :: "'s \<Rightarrow> StoreSubmissionRecord \<Rightarrow> 's store_result"
  InsertWorkspaceHead :: "'s \<Rightarrow> StoreWorkspaceHeadRecord \<Rightarrow> (bool \<times> 's) store_result"
  CompareAndSwapWorkspaceHead :: "'s \<Rightarrow> StoreWorkspaceHeadMutation \<Rightarrow> (bool \<times> 's) store_result"
  InsertApplyReceipt :: "'s \<Rightarrow> StoreApplyReceiptRecord \<Rightarrow> 's store_result"


section \<open>View and Update\<close>

datatype go_context = NilContext | LiveContext | DoneContext

text \<open>
  How a commit ends when the callback returned nil: it is durable; it definitely failed and left
  nothing; or the store cannot tell, and it did or did not become durable.
\<close>

datatype commit_outcome = Committed | CommitFailed | CommitUnknown bool

definition store_View :: "go_context \<Rightarrow> ('s \<Rightarrow> 'a agent_result) \<Rightarrow> 's \<Rightarrow> 'a agent_result" where
  "store_View ctx callback s =
     (case ctx of
        NilContext \<Rightarrow> Inl ErrInvalidArgument
      | DoneContext \<Rightarrow> Inl ErrContextDone
      | LiveContext \<Rightarrow> callback s)"

definition store_Update ::
    "go_context \<Rightarrow> commit_outcome \<Rightarrow> ('s \<Rightarrow> ('a \<times> 's) agent_result) \<Rightarrow> 's \<Rightarrow> 'a agent_result \<times> 's"
where
  "store_Update ctx outcome callback s =
     (case ctx of
        NilContext \<Rightarrow> (Inl ErrInvalidArgument, s)
      | DoneContext \<Rightarrow> (Inl ErrContextDone, s)
      | LiveContext \<Rightarrow>
          (case callback s of
             Inl e \<Rightarrow> (Inl e, s)
           | Inr (a, s') \<Rightarrow>
               (case outcome of
                  Committed \<Rightarrow> (Inr a, s')
                | CommitFailed \<Rightarrow> (Inl (StoreFailure StoreCommitFailed), s)
                | CommitUnknown durable \<Rightarrow>
                    (Inl (StoreFailure ErrStoreCommitUnknown), if durable then s' else s))))"

lemma store_View_Inr: "store_View ctx f s = Inr a \<longleftrightarrow> ctx = LiveContext \<and> f s = Inr a"
  by (cases ctx) (simp_all add: store_View_def)

lemma store_Update_Inr:
  "store_Update ctx out f s = (Inr a, s') \<longleftrightarrow> ctx = LiveContext \<and> out = Committed \<and> f s = Inr (a, s')"
  by (cases ctx; cases out) (auto simp: store_Update_def split: sum.splits)

text \<open>Whatever an \<open>Update\<close> reports, the state is the old one or the one its callback computed.\<close>

lemma store_Update_state:
  "store_Update ctx out f s = (r, s') \<Longrightarrow> s' = s \<or> (\<exists>a. f s = Inr (a, s') \<and> ctx = LiveContext)"
  by (cases ctx; cases out) (auto simp: store_Update_def split: sum.splits if_splits)

lemma store_Update_Inl:
  "store_Update ctx out f s = (Inl e, s') \<Longrightarrow> e \<noteq> StoreFailure ErrStoreCommitUnknown \<Longrightarrow> s' = s"
  by (cases ctx; cases out) (auto simp: store_Update_def split: sum.splits)


section \<open>The contract\<close>

record agent_db =
  db_commands :: "StoreCommandKey \<rightharpoonup> StoreCommandRecord"
  db_tasks :: "TaskRef \<rightharpoonup> StoreTaskRecord"
  db_messages :: "StoreMessageKey \<rightharpoonup> StoreMessageRecord"
  db_events :: "(TaskRef \<times> uint64) \<rightharpoonup> StoreEventRecord"
  db_leaseGrants :: "(TaskRef \<times> LeaseFence) \<rightharpoonup> StoreLeaseGrantRecord"
  db_artifacts :: "ArtifactRef \<rightharpoonup> StoreArtifactRecord"
  db_submissions :: "TaskRef \<rightharpoonup> StoreSubmissionRecord"
  db_workspaceHeads :: "WorkspaceRef \<rightharpoonup> StoreWorkspaceHeadRecord"
  db_applyReceipts :: "ArtifactRef \<rightharpoonup> StoreApplyReceiptRecord"

definition empty_db :: agent_db where
  "empty_db = \<lparr>db_commands = Map.empty, db_tasks = Map.empty, db_messages = Map.empty,
     db_events = Map.empty, db_leaseGrants = Map.empty, db_artifacts = Map.empty,
     db_submissions = Map.empty, db_workspaceHeads = Map.empty, db_applyReceipts = Map.empty\<rparr>"

text \<open>A point lookup, and one with a byte budget on the opaque field.\<close>

definition lookup_db :: "'v option \<Rightarrow> 'v store_result" where
  "lookup_db o' = (case o' of None \<Rightarrow> Inl ErrStoreRecordNotFound | Some v \<Rightarrow> Inr v)"

definition lookup_limited :: "StoreReadLimit \<Rightarrow> ('v \<Rightarrow> bytes) \<Rightarrow> 'v option \<Rightarrow> 'v store_result" where
  "lookup_limited lim field o' =
     (if lim < 1 then Inl ErrStoreRecordTooLarge
      else case o' of
        None \<Rightarrow> Inl ErrStoreRecordNotFound
      | Some v \<Rightarrow> if lim < int (length (field v)) then Inl ErrStoreRecordTooLarge else Inr v)"

lemma lookup_db_Inr [simp]: "lookup_db o' = Inr v \<longleftrightarrow> o' = Some v"
  by (cases o') (simp_all add: lookup_db_def)

lemma lookup_db_Inl [simp]: "lookup_db o' = Inl e \<longleftrightarrow> o' = None \<and> e = ErrStoreRecordNotFound"
  by (cases o') (auto simp: lookup_db_def)

lemma lookup_limited_Inr [simp]:
  "lookup_limited lim field o' = Inr v \<longleftrightarrow>
     1 \<le> lim \<and> o' = Some v \<and> int (length (field v)) \<le> lim"
  by (cases o') (auto simp: lookup_limited_def)

definition claimable :: "AuthorityID \<Rightarrow> StoreTaskRecord \<Rightarrow> bool" where
  "claimable authority r =
     (tr_Authority (task_Ref (str_Task r)) = authority \<and> ls_Owner (str_Lease r) = []
      \<and> \<not> Terminal (task_State (str_Task r)))"

definition task_created_cursor :: "Task \<Rightarrow> TaskPageCursor" where
  "task_created_cursor t =
     TaskPageCursor (task_CreatedAt t) (wr_ID (tr_Workspace (task_Ref t))) (tr_ID (task_Ref t))"

definition task_updated_cursor :: "Task \<Rightarrow> TaskQueryCursor" where
  "task_updated_cursor t =
     TaskQueryCursor (task_UpdatedAt t) (wr_ID (tr_Workspace (task_Ref t))) (tr_ID (task_Ref t))"

definition lease_cursor :: "LeaseAssignment \<Rightarrow> LeasePageCursor" where
  "lease_cursor a =
     LeasePageCursor (la_GrantedAt a) (wr_ID (tr_Workspace (task_Ref (la_Task a))))
       (tr_ID (task_Ref (la_Task a))) (lg_Fence (la_Grant a))"

text \<open>The mutations.\<close>

definition command_key :: "StoreCommandRecord \<Rightarrow> StoreCommandKey" where
  "command_key r = \<lparr>sck_Authority = scr_Authority r, sck_ID = scr_ID r\<rparr>"

definition message_key :: "StoreMessageRecord \<Rightarrow> StoreMessageKey" where
  "message_key r = \<lparr>smk_Authority = tr_Authority (smr_Task r), smk_ID = smr_ID r\<rparr>"

definition spec_InsertCommand :: "StoreCommandRecord \<Rightarrow> agent_db \<Rightarrow> agent_db store_result" where
  "spec_InsertCommand r d =
     (if command_key r \<in> dom (db_commands d) then Inl (StoreConflictError StoreConstraintCommandID)
      else Inr (d\<lparr>db_commands := (db_commands d)(command_key r \<mapsto> r)\<rparr>))"

definition spec_InsertTask :: "StoreTaskRecord \<Rightarrow> agent_db \<Rightarrow> agent_db store_result" where
  "spec_InsertTask r d =
     (let ref = task_Ref (str_Task r) in
      if ref \<in> dom (db_tasks d) then Inl (StoreConflictError StoreConstraintTaskKey)
      else if \<exists>ref' \<in> dom (db_tasks d). tr_Authority ref' = tr_Authority ref \<and> tr_ID ref' = tr_ID ref
      then Inl (StoreConflictError StoreConstraintPublicTaskID)
      else Inr (d\<lparr>db_tasks := (db_tasks d)(ref \<mapsto> r)\<rparr>))"

definition spec_CompareAndSwapTask ::
    "StoreTaskMutation \<Rightarrow> agent_db \<Rightarrow> (bool \<times> agent_db) store_result" where
  "spec_CompareAndSwapTask m d =
     (case db_tasks d (stm_Ref m) of
        None \<Rightarrow> Inl ErrStoreRecordNotFound
      | Some current \<Rightarrow>
          if stm_Ref m \<noteq> task_Ref (str_Task (stm_Next m))
             \<or> stc_ExpectedRevision (stm_Condition m) = 0
          then Inl StoreInvalidArgument
          else if task_Revision (str_Task current) \<noteq> stc_ExpectedRevision (stm_Condition m)
             \<or> (case stc_ExpectedLease (stm_Condition m) of
                  None \<Rightarrow> False | Some l \<Rightarrow> str_Lease current \<noteq> l)
          then Inr (False, d)
          else if task_Context (str_Task current) \<noteq> task_Context (str_Task (stm_Next m))
             \<or> task_CreatedAt (str_Task current) \<noteq> task_CreatedAt (str_Task (stm_Next m))
          then Inl StoreInvalidArgument
          else Inr (True, d\<lparr>db_tasks := (db_tasks d)(stm_Ref m \<mapsto> stm_Next m)\<rparr>))"

definition spec_InsertMessage :: "StoreMessageRecord \<Rightarrow> agent_db \<Rightarrow> agent_db store_result" where
  "spec_InsertMessage r d =
     (if message_key r \<in> dom (db_messages d) then Inl (StoreConflictError StoreConstraintMessageID)
      else if \<exists>r' \<in> ran (db_messages d). smr_Task r' = smr_Task r \<and> smr_Sequence r' = smr_Sequence r
      then Inl (StoreConflictError StoreConstraintMessageSequence)
      else Inr (d\<lparr>db_messages := (db_messages d)(message_key r \<mapsto> r)\<rparr>))"

definition spec_InsertEvent :: "StoreEventRecord \<Rightarrow> agent_db \<Rightarrow> agent_db store_result" where
  "spec_InsertEvent e d =
     (if (ev_Task e, ev_Sequence e) \<in> dom (db_events d)
      then Inl (StoreConflictError StoreConstraintEventSequence)
      else Inr (d\<lparr>db_events := (db_events d)((ev_Task e, ev_Sequence e) \<mapsto> e)\<rparr>))"

definition spec_InsertLeaseGrant ::
    "StoreLeaseGrantRecord \<Rightarrow> agent_db \<Rightarrow> agent_db store_result" where
  "spec_InsertLeaseGrant r d =
     (let k = (lg_Task (slg_Grant r), lg_Fence (slg_Grant r)) in
      if k \<in> dom (db_leaseGrants d) then Inl (StoreConflictError StoreConstraintLeaseFence)
      else Inr (d\<lparr>db_leaseGrants := (db_leaseGrants d)(k \<mapsto> r)\<rparr>))"

definition spec_InsertArtifact :: "StoreArtifactRecord \<Rightarrow> agent_db \<Rightarrow> agent_db store_result \<Rightarrow> bool" where
  "spec_InsertArtifact r d res =
     (let ref = art_Ref (sar_Artifact r); task = art_Task (sar_Artifact r);
          same_id = (\<lambda>r'. ar_Authority (art_Ref (sar_Artifact r')) = ar_Authority ref
                        \<and> ar_ID (art_Ref (sar_Artifact r')) = ar_ID ref);
          same_task = (\<lambda>r'. art_Task (sar_Artifact r') = task) in
      if ref \<in> dom (db_artifacts d) \<or> (\<exists>r' \<in> ran (db_artifacts d). same_id r' \<or> same_task r')
      then \<exists>c \<in> {StoreConstraintArtifactID, StoreConstraintArtifactTask}.
             res = Inl (StoreConflictError c)
      else res = Inr (d\<lparr>db_artifacts := (db_artifacts d)(ref \<mapsto> r)\<rparr>))"

definition spec_CompareAndSwapArtifact ::
    "StoreArtifactMutation \<Rightarrow> agent_db \<Rightarrow> (bool \<times> agent_db) store_result" where
  "spec_CompareAndSwapArtifact m d =
     (if tr_Workspace (sam_Task m) \<noteq> ar_Workspace (sam_Ref m) then Inl StoreInvalidArgument
      else case db_artifacts d (sam_Ref m) of
        None \<Rightarrow> Inr (False, d)
      | Some r \<Rightarrow>
          if art_Task (sar_Artifact r) \<noteq> sam_Task m \<or> art_State (sar_Artifact r) \<noteq> sam_ExpectedState m
          then Inr (False, d)
          else Inr (True, d\<lparr>db_artifacts := (db_artifacts d)(sam_Ref m \<mapsto>
                 r\<lparr>sar_Artifact := (sar_Artifact r)
                    \<lparr>art_State := sam_NextState m, art_PublishedAt := sam_PublishedAt m,
                     art_DiscardedAt := sam_DiscardedAt m\<rparr>\<rparr>)\<rparr>))"

definition spec_InsertSubmission :: "StoreSubmissionRecord \<Rightarrow> agent_db \<Rightarrow> agent_db store_result" where
  "spec_InsertSubmission r d =
     (if sub_Task r \<in> dom (db_submissions d)
         \<or> (\<exists>r' \<in> ran (db_submissions d).
              tr_Authority (sub_Task r') = tr_Authority (sub_Task r) \<and> sub_ID r' = sub_ID r)
      then Inl (StoreConflictError StoreConstraintSubmissionID)
      else Inr (d\<lparr>db_submissions := (db_submissions d)(sub_Task r \<mapsto> r)\<rparr>))"

definition spec_InsertWorkspaceHead ::
    "StoreWorkspaceHeadRecord \<Rightarrow> agent_db \<Rightarrow> (bool \<times> agent_db) store_result" where
  "spec_InsertWorkspaceHead r d =
     (if wh_Workspace r \<in> dom (db_workspaceHeads d) then Inr (False, d)
      else Inr (True, d\<lparr>db_workspaceHeads := (db_workspaceHeads d)(wh_Workspace r \<mapsto> r)\<rparr>))"

definition spec_CompareAndSwapWorkspaceHead ::
    "StoreWorkspaceHeadMutation \<Rightarrow> agent_db \<Rightarrow> (bool \<times> agent_db) store_result" where
  "spec_CompareAndSwapWorkspaceHead m d =
     (if wh_Workspace (swm_Next m) \<noteq> swm_Workspace m then Inl StoreInvalidArgument
      else case db_workspaceHeads d (swm_Workspace m) of
        None \<Rightarrow> Inr (False, d)
      | Some h \<Rightarrow>
          if wh_ConfirmedRevision h \<noteq> swm_ExpectedRevision m then Inr (False, d)
          else Inr (True, d\<lparr>db_workspaceHeads :=
                 (db_workspaceHeads d)(swm_Workspace m \<mapsto> swm_Next m)\<rparr>))"

definition spec_InsertApplyReceipt ::
    "StoreApplyReceiptRecord \<Rightarrow> agent_db \<Rightarrow> agent_db store_result" where
  "spec_InsertApplyReceipt r d =
     (if rcp_Artifact r \<in> dom (db_applyReceipts d)
         \<or> (\<exists>r' \<in> ran (db_applyReceipts d).
              ar_Authority (rcp_Artifact r') = ar_Authority (rcp_Artifact r) \<and> rcp_ID r' = rcp_ID r)
      then Inl (StoreConflictError StoreConstraintReceiptID)
      else Inr (d\<lparr>db_applyReceipts := (db_applyReceipts d)(rcp_Artifact r \<mapsto> r)\<rparr>))"

text \<open>Every record is stored under the key its own fields name.\<close>

definition db_keyed :: "agent_db \<Rightarrow> bool" where
  "db_keyed d =
     ((\<forall>k r. db_commands d k = Some r \<longrightarrow> command_key r = k)
      \<and> (\<forall>k r. db_tasks d k = Some r \<longrightarrow> task_Ref (str_Task r) = k)
      \<and> (\<forall>k r. db_messages d k = Some r \<longrightarrow> message_key r = k)
      \<and> (\<forall>k e. db_events d k = Some e \<longrightarrow> (ev_Task e, ev_Sequence e) = k)
      \<and> (\<forall>k r. db_leaseGrants d k = Some r \<longrightarrow> (lg_Task (slg_Grant r), lg_Fence (slg_Grant r)) = k)
      \<and> (\<forall>k r. db_artifacts d k = Some r \<longrightarrow> art_Ref (sar_Artifact r) = k)
      \<and> (\<forall>k r. db_submissions d k = Some r \<longrightarrow> sub_Task r = k)
      \<and> (\<forall>k r. db_workspaceHeads d k = Some r \<longrightarrow> wh_Workspace r = k)
      \<and> (\<forall>k r. db_applyReceipts d k = Some r \<longrightarrow> rcp_Artifact r = k))"

text \<open>
  A provider of the port: \<open>db\<close> reads the abstract database off a transaction state, \<open>inv\<close> is
  the provider's own representation invariant.
\<close>

locale agent_store =
  fixes ops :: "'s store_ops" and db :: "'s \<Rightarrow> agent_db" and inv :: "'s \<Rightarrow> bool"
  assumes keyed: "inv s \<Longrightarrow> db_keyed (db s)"
    and LookupCommand: "inv s \<Longrightarrow>
      LookupCommand ops s key lim = lookup_limited lim scr_Result (db_commands (db s) key)"
    and LoadTask: "inv s \<Longrightarrow> LoadTask ops s ref = lookup_db (db_tasks (db s) ref)"
    and ResolveTask_Inr: "inv s \<Longrightarrow> ResolveTask ops s authority tid = Inr ref \<Longrightarrow>
      ref \<in> dom (db_tasks (db s)) \<and> tr_Authority ref = authority \<and> tr_ID ref = tid"
    and ResolveTask_Inl: "inv s \<Longrightarrow> ResolveTask ops s authority tid = Inl e \<Longrightarrow>
      e = ErrStoreRecordNotFound
      \<and> (\<forall>ref \<in> dom (db_tasks (db s)). \<not> (tr_Authority ref = authority \<and> tr_ID ref = tid))"
    and LoadMessage: "inv s \<Longrightarrow>
      LoadMessage ops s mkey lim = lookup_limited lim smr_EncodedParts (db_messages (db s) mkey)"
    and LoadArtifact: "inv s \<Longrightarrow>
      LoadArtifact ops s aref lim = lookup_limited lim sar_EncodedPayload (db_artifacts (db s) aref)"
    and LoadApplyReceipt: "inv s \<Longrightarrow>
      LoadApplyReceipt ops s aref = lookup_db (db_applyReceipts (db s) aref)"
    and LoadWorkspaceHead: "inv s \<Longrightarrow>
      LoadWorkspaceHead ops s ws = lookup_db (db_workspaceHeads (db s) ws)"
    and LoadLeaseGrant: "inv s \<Longrightarrow>
      LoadLeaseGrant ops s ref fence = lookup_db (db_leaseGrants (db s) (ref, fence))"
    and LoadLatestLeaseGrant_Inr: "inv s \<Longrightarrow> LoadLatestLeaseGrant ops s ref = Inr g \<Longrightarrow>
      \<exists>fence. db_leaseGrants (db s) (ref, fence) = Some g
        \<and> (\<forall>f. (ref, f) \<in> dom (db_leaseGrants (db s)) \<longrightarrow> f \<le> fence)"
    and LoadLatestLeaseGrant_Inl: "inv s \<Longrightarrow> LoadLatestLeaseGrant ops s ref = Inl e \<Longrightarrow>
      e = ErrStoreRecordNotFound \<and> (\<forall>f. (ref, f) \<notin> dom (db_leaseGrants (db s)))"
    and FindClaimableTask_Inr: "inv s \<Longrightarrow> FindClaimableTask ops s authority = Inr r \<Longrightarrow>
      claimable authority r \<and> r \<in> ran (db_tasks (db s))
      \<and> (\<forall>r' \<in> ran (db_tasks (db s)). claimable authority r' \<longrightarrow>
           task_created_cursor (str_Task r) \<le> task_created_cursor (str_Task r'))"
    and FindClaimableTask_Inl: "inv s \<Longrightarrow> FindClaimableTask ops s authority = Inl e \<Longrightarrow>
      e = ErrStoreRecordNotFound \<and> (\<forall>r' \<in> ran (db_tasks (db s)). \<not> claimable authority r')"
    and InsertCommand: "inv s \<Longrightarrow>
      rel_sum (=) (\<lambda>s' d'. inv s' \<and> db s' = d') (InsertCommand ops s cmd) (spec_InsertCommand cmd (db s))"
    and InsertTask: "inv s \<Longrightarrow>
      rel_sum (=) (\<lambda>s' d'. inv s' \<and> db s' = d') (InsertTask ops s rec) (spec_InsertTask rec (db s))"
    and CompareAndSwapTask: "inv s \<Longrightarrow>
      rel_sum (=) (\<lambda>(b, s') (b', d'). b = b' \<and> inv s' \<and> db s' = d')
        (CompareAndSwapTask ops s tmut) (spec_CompareAndSwapTask tmut (db s))"
    and InsertMessage: "inv s \<Longrightarrow>
      rel_sum (=) (\<lambda>s' d'. inv s' \<and> db s' = d') (InsertMessage ops s msg) (spec_InsertMessage msg (db s))"
    and InsertEvent: "inv s \<Longrightarrow>
      rel_sum (=) (\<lambda>s' d'. inv s' \<and> db s' = d') (InsertEvent ops s ev) (spec_InsertEvent ev (db s))"
    and InsertLeaseGrant: "inv s \<Longrightarrow>
      rel_sum (=) (\<lambda>s' d'. inv s' \<and> db s' = d')
        (InsertLeaseGrant ops s lgr) (spec_InsertLeaseGrant lgr (db s))"
    and InsertArtifact: "inv s \<Longrightarrow>
      spec_InsertArtifact art (db s) (map_sum id db (InsertArtifact ops s art))
      \<and> (\<forall>s'. InsertArtifact ops s art = Inr s' \<longrightarrow> inv s')"
    and CompareAndSwapArtifact: "inv s \<Longrightarrow>
      rel_sum (=) (\<lambda>(b, s') (b', d'). b = b' \<and> inv s' \<and> db s' = d')
        (CompareAndSwapArtifact ops s amut) (spec_CompareAndSwapArtifact amut (db s))"
    and InsertSubmission: "inv s \<Longrightarrow>
      rel_sum (=) (\<lambda>s' d'. inv s' \<and> db s' = d')
        (InsertSubmission ops s subm) (spec_InsertSubmission subm (db s))"
    and InsertWorkspaceHead: "inv s \<Longrightarrow>
      rel_sum (=) (\<lambda>(b, s') (b', d'). b = b' \<and> inv s' \<and> db s' = d')
        (InsertWorkspaceHead ops s head) (spec_InsertWorkspaceHead head (db s))"
    and CompareAndSwapWorkspaceHead: "inv s \<Longrightarrow>
      rel_sum (=) (\<lambda>(b, s') (b', d'). b = b' \<and> inv s' \<and> db s' = d')
        (CompareAndSwapWorkspaceHead ops s wmut) (spec_CompareAndSwapWorkspaceHead wmut (db s))"
    and InsertApplyReceipt: "inv s \<Longrightarrow>
      rel_sum (=) (\<lambda>s' d'. inv s' \<and> db s' = d')
        (InsertApplyReceipt ops s rcp) (spec_InsertApplyReceipt rcp (db s))"
begin

text \<open>What a successful primitive tells its caller about the database before and after.\<close>

lemma InsertCommand_Inr:
  assumes "inv s" "InsertCommand ops s r = Inr s'"
  shows "inv s'" "command_key r \<notin> dom (db_commands (db s))"
    "db s' = (db s)\<lparr>db_commands := (db_commands (db s))(command_key r \<mapsto> r)\<rparr>"
  using rel_sum_InrD [OF InsertCommand [OF assms(1)] assms(2)]
  by (auto simp: spec_InsertCommand_def split: if_splits)

lemma InsertCommand_Inl:
  "inv s \<Longrightarrow> InsertCommand ops s r = Inl e \<Longrightarrow>
     command_key r \<in> dom (db_commands (db s)) \<and> e = StoreConflictError StoreConstraintCommandID"
  using rel_sum_InlD [OF InsertCommand [of s r]]
  by (fastforce simp: spec_InsertCommand_def split: if_splits)

lemma InsertTask_Inr:
  assumes "inv s" "InsertTask ops s r = Inr s'"
  shows "inv s'"
    "\<And>ref. ref \<in> dom (db_tasks (db s)) \<Longrightarrow>
       \<not> (tr_Authority ref = tr_Authority (task_Ref (str_Task r)) \<and> tr_ID ref = tr_ID (task_Ref (str_Task r)))"
    "db s' = (db s)\<lparr>db_tasks := (db_tasks (db s))(task_Ref (str_Task r) \<mapsto> r)\<rparr>"
  using rel_sum_InrD [OF InsertTask [OF assms(1)] assms(2)]
  by (auto simp: spec_InsertTask_def Let_def split: if_splits)

lemma InsertTask_Inl:
  "inv s \<Longrightarrow> InsertTask ops s r = Inl e \<Longrightarrow> \<exists>c. e = StoreConflictError c"
  using rel_sum_InlD [OF InsertTask [of s r]]
  by (fastforce simp: spec_InsertTask_def Let_def split: if_splits)

lemma CompareAndSwapTask_Inr:
  assumes "inv s" "CompareAndSwapTask ops s m = Inr (b, s')"
  shows "inv s'"
    "\<exists>current. db_tasks (db s) (stm_Ref m) = Some current
       \<and> stm_Ref m = task_Ref (str_Task (stm_Next m))
       \<and> (b \<longleftrightarrow> task_Revision (str_Task current) = stc_ExpectedRevision (stm_Condition m)
            \<and> (\<forall>l. stc_ExpectedLease (stm_Condition m) = Some l \<longrightarrow> str_Lease current = l))
       \<and> (b \<longrightarrow> task_Context (str_Task (stm_Next m)) = task_Context (str_Task current)
            \<and> task_CreatedAt (str_Task (stm_Next m)) = task_CreatedAt (str_Task current))"
    "db s' = (if b then (db s)\<lparr>db_tasks := (db_tasks (db s))(stm_Ref m \<mapsto> stm_Next m)\<rparr> else db s)"
  using rel_sum_InrD [OF CompareAndSwapTask [OF assms(1)] assms(2)]
  by (auto simp: spec_CompareAndSwapTask_def split: if_splits option.splits)

lemma InsertMessage_Inr:
  assumes "inv s" "InsertMessage ops s r = Inr s'"
  shows "inv s'" "message_key r \<notin> dom (db_messages (db s))"
    "\<And>r'. r' \<in> ran (db_messages (db s)) \<Longrightarrow> smr_Task r' = smr_Task r \<Longrightarrow> smr_Sequence r' \<noteq> smr_Sequence r"
    "db s' = (db s)\<lparr>db_messages := (db_messages (db s))(message_key r \<mapsto> r)\<rparr>"
  using rel_sum_InrD [OF InsertMessage [OF assms(1)] assms(2)]
  by (auto simp: spec_InsertMessage_def split: if_splits)

lemma InsertEvent_Inr:
  assumes "inv s" "InsertEvent ops s e = Inr s'"
  shows "inv s'" "(ev_Task e, ev_Sequence e) \<notin> dom (db_events (db s))"
    "db s' = (db s)\<lparr>db_events := (db_events (db s))((ev_Task e, ev_Sequence e) \<mapsto> e)\<rparr>"
  using rel_sum_InrD [OF InsertEvent [OF assms(1)] assms(2)]
  by (auto simp: spec_InsertEvent_def split: if_splits)

lemma InsertLeaseGrant_Inr:
  assumes "inv s" "InsertLeaseGrant ops s r = Inr s'"
  shows "inv s'" "(lg_Task (slg_Grant r), lg_Fence (slg_Grant r)) \<notin> dom (db_leaseGrants (db s))"
    "db s' = (db s)\<lparr>db_leaseGrants :=
       (db_leaseGrants (db s))((lg_Task (slg_Grant r), lg_Fence (slg_Grant r)) \<mapsto> r)\<rparr>"
  using rel_sum_InrD [OF InsertLeaseGrant [OF assms(1)] assms(2)]
  by (auto simp: spec_InsertLeaseGrant_def Let_def split: if_splits)

lemma InsertArtifact_Inr:
  assumes "inv s" "InsertArtifact ops s r = Inr s'"
  shows "inv s'"
    "\<And>r'. r' \<in> ran (db_artifacts (db s)) \<Longrightarrow> art_Task (sar_Artifact r') \<noteq> art_Task (sar_Artifact r)"
    "art_Ref (sar_Artifact r) \<notin> dom (db_artifacts (db s))"
    "db s' = (db s)\<lparr>db_artifacts := (db_artifacts (db s))(art_Ref (sar_Artifact r) \<mapsto> r)\<rparr>"
  using InsertArtifact [OF assms(1), of r] assms(2)
  by (auto simp: spec_InsertArtifact_def Let_def split: if_splits)

lemma CompareAndSwapArtifact_Inr:
  assumes "inv s" "CompareAndSwapArtifact ops s m = Inr (b, s')"
  shows "inv s'"
    "b \<Longrightarrow> \<exists>r. db_artifacts (db s) (sam_Ref m) = Some r \<and> art_Task (sar_Artifact r) = sam_Task m
       \<and> art_State (sar_Artifact r) = sam_ExpectedState m
       \<and> db s' = (db s)\<lparr>db_artifacts := (db_artifacts (db s))(sam_Ref m \<mapsto>
            r\<lparr>sar_Artifact := (sar_Artifact r)
               \<lparr>art_State := sam_NextState m, art_PublishedAt := sam_PublishedAt m,
                art_DiscardedAt := sam_DiscardedAt m\<rparr>\<rparr>)\<rparr>"
    "\<not> b \<Longrightarrow> db s' = db s"
  using rel_sum_InrD [OF CompareAndSwapArtifact [OF assms(1)] assms(2)]
  by (auto simp: spec_CompareAndSwapArtifact_def split: if_splits option.splits)

lemma InsertSubmission_Inr:
  assumes "inv s" "InsertSubmission ops s r = Inr s'"
  shows "inv s'" "sub_Task r \<notin> dom (db_submissions (db s))"
    "db s' = (db s)\<lparr>db_submissions := (db_submissions (db s))(sub_Task r \<mapsto> r)\<rparr>"
  using rel_sum_InrD [OF InsertSubmission [OF assms(1)] assms(2)]
  by (auto simp: spec_InsertSubmission_def split: if_splits)

lemma InsertWorkspaceHead_Inr:
  assumes "inv s" "InsertWorkspaceHead ops s h = Inr (b, s')"
  shows "inv s'" "b \<longleftrightarrow> wh_Workspace h \<notin> dom (db_workspaceHeads (db s))"
    "db s' = (if b then (db s)\<lparr>db_workspaceHeads := (db_workspaceHeads (db s))(wh_Workspace h \<mapsto> h)\<rparr>
              else db s)"
  using rel_sum_InrD [OF InsertWorkspaceHead [OF assms(1)] assms(2)]
  by (auto simp: spec_InsertWorkspaceHead_def split: if_splits)

lemma CompareAndSwapWorkspaceHead_Inr:
  assumes "inv s" "CompareAndSwapWorkspaceHead ops s m = Inr (b, s')"
  shows "inv s'"
    "b \<Longrightarrow> \<exists>h. db_workspaceHeads (db s) (swm_Workspace m) = Some h
       \<and> wh_ConfirmedRevision h = swm_ExpectedRevision m"
    "db s' = (if b then (db s)\<lparr>db_workspaceHeads :=
                (db_workspaceHeads (db s))(swm_Workspace m \<mapsto> swm_Next m)\<rparr> else db s)"
  using rel_sum_InrD [OF CompareAndSwapWorkspaceHead [OF assms(1)] assms(2)]
  by (auto simp: spec_CompareAndSwapWorkspaceHead_def split: if_splits option.splits)

lemma InsertApplyReceipt_Inr:
  assumes "inv s" "InsertApplyReceipt ops s r = Inr s'"
  shows "inv s'" "rcp_Artifact r \<notin> dom (db_applyReceipts (db s))"
    "db s' = (db s)\<lparr>db_applyReceipts := (db_applyReceipts (db s))(rcp_Artifact r \<mapsto> r)\<rparr>"
  using rel_sum_InrD [OF InsertApplyReceipt [OF assms(1)] assms(2)]
  by (auto simp: spec_InsertApplyReceipt_def split: if_splits)

end

text \<open>
  The ordered scans. A scan with an admissible limit returns the first rows of the whole ordered
  answer; the message scan may stop earlier, at its byte budget, but never before its first row.
\<close>

definition authority_rows :: "agent_db \<Rightarrow> StoreTaskAuthorityScan \<Rightarrow> StoreTaskRecord set" where
  "authority_rows d scan =
     {r \<in> ran (db_tasks d). tr_Authority (task_Ref (str_Task r)) = tas_Authority scan
        \<and> (tas_Context scan \<noteq> [] \<longrightarrow> cr_ID (task_Context (str_Task r)) = tas_Context scan)
        \<and> (tas_State scan \<noteq> TaskStateOther [] \<longrightarrow> task_State (str_Task r) = tas_State scan)
        \<and> (\<forall>t. tas_UpdatedAtOrAfter scan = Some t \<longrightarrow> t \<le> task_UpdatedAt (str_Task r))}"

definition lease_rows :: "agent_db \<Rightarrow> StoreLeaseScan \<Rightarrow> LeaseAssignment set" where
  "lease_rows d scan =
     {a. \<exists>ref r g. db_tasks d ref = Some r \<and> tr_Authority ref = sls_Authority scan
        \<and> ls_Owner (str_Lease r) = sls_Worker scan
        \<and> db_leaseGrants d (ref, ls_Fence (str_Lease r)) = Some g
        \<and> a = \<lparr>la_Grant = slg_Grant g, la_Task = str_Task r, la_GrantedAt = slg_GrantedAt g\<rparr>}"

definition lease_history_complete :: "agent_db \<Rightarrow> AuthorityID \<Rightarrow> WorkerID \<Rightarrow> bool" where
  "lease_history_complete d authority worker \<longleftrightarrow>
     (\<forall>ref r. db_tasks d ref = Some r \<and> tr_Authority ref = authority \<and> ls_Owner (str_Lease r) = worker
        \<longrightarrow> (\<exists>g. db_leaseGrants d (ref, ls_Fence (str_Lease r)) = Some g \<and> lg_Worker (slg_Grant g) = worker))"

definition message_rows :: "agent_db \<Rightarrow> TaskRef \<Rightarrow> uint64 \<Rightarrow> StoreMessageRecord set" where
  "message_rows d ref after = {r \<in> ran (db_messages d). smr_Task r = ref \<and> after < smr_Sequence r}"

definition event_rows :: "agent_db \<Rightarrow> TaskRef \<Rightarrow> uint64 \<Rightarrow> StoreEventRecord set" where
  "event_rows d ref after = {e \<in> ran (db_events d). ev_Task e = ref \<and> after < ev_Sequence e}"

definition scan_limit_ok :: "int \<Rightarrow> bool" where
  "scan_limit_ok limit \<longleftrightarrow> 1 \<le> limit \<and> limit \<le> MaxPageSize + 1"

definition message_bytes :: "StoreMessageRecord list \<Rightarrow> int" where
  "message_bytes rs = int (sum_list (map (length \<circ> smr_EncodedParts) rs))"

locale agent_store_scans = agent_store +
  assumes ScanContextTasks: "inv s \<Longrightarrow> scan_limit_ok (tcs_Limit cscan) \<Longrightarrow>
      \<exists>xs. ordered_rows (\<lambda>r. task_created_cursor (str_Task r))
             {r \<in> ran (db_tasks (db s)). task_Context (str_Task r) = tcs_Context cscan
                \<and> (\<forall>x. tcs_After cscan = Some x \<longrightarrow> x < task_created_cursor (str_Task r))} xs
           \<and> ScanContextTasks ops s cscan = Inr (take (nat (tcs_Limit cscan)) xs)"
    and ScanAuthorityTasks: "inv s \<Longrightarrow> scan_limit_ok (tas_Limit ascan) \<Longrightarrow>
      \<exists>xs. ordered_rows (\<lambda>r. task_updated_cursor (str_Task r))
             {r \<in> authority_rows (db s) ascan.
                \<forall>x. tas_After ascan = Some x \<longrightarrow> x < task_updated_cursor (str_Task r)} xs
           \<and> ScanAuthorityTasks ops s ascan =
               Inr \<lparr>tar_Records = take (nat (tas_Limit ascan)) xs,
                    tar_TotalSize = of_nat (card (authority_rows (db s) ascan))\<rparr>"
    and ScanMessages: "inv s \<Longrightarrow> scan_limit_ok (sms_Limit mscan) \<Longrightarrow> 1 \<le> sms_ReadLimit mscan \<Longrightarrow>
      \<exists>xs. ordered_rows smr_Sequence (message_rows (db s) (sms_Task mscan) (sms_After mscan)) xs
           \<and> (case ScanMessages ops s mscan of
                Inr ys \<Rightarrow> (\<exists>n \<le> nat (sms_Limit mscan). ys = take n xs)
                  \<and> message_bytes ys \<le> sms_ReadLimit mscan \<and> (ys = [] \<longrightarrow> xs = [])
              | Inl e \<Rightarrow> e = ErrStoreRecordTooLarge \<and> xs \<noteq> []
                  \<and> sms_ReadLimit mscan < int (length (smr_EncodedParts (hd xs))))"
    and ScanEvents: "inv s \<Longrightarrow> scan_limit_ok (ses_Limit escan) \<Longrightarrow>
      \<exists>xs. ordered_rows ev_Sequence (event_rows (db s) (ses_Task escan) (ses_After escan)) xs
           \<and> ScanEvents ops s escan = Inr (take (nat (ses_Limit escan)) xs)"
    and ScanLeases: "inv s \<Longrightarrow> scan_limit_ok (sls_Limit lscan) \<Longrightarrow>
      lease_history_complete (db s) (sls_Authority lscan) (sls_Worker lscan) \<Longrightarrow>
      \<exists>xs. ordered_rows lease_cursor
             {a \<in> lease_rows (db s) lscan. \<forall>x. sls_After lscan = Some x \<longrightarrow> x < lease_cursor a} xs
           \<and> ScanLeases ops s lscan = Inr (take (nat (sls_Limit lscan)) xs)"

end
