(* ===== verification/Agent_Validate.thy ===== *)
theory Agent_Validate
  imports Agent_Store
begin

text \<open>
  The validation functions of \<^verbatim>\<open>agent/agent.go\<close>, \<^verbatim>\<open>agent/lease.go\<close>, \<^verbatim>\<open>agent/artifact.go\<close> and
  \<^verbatim>\<open>agent/store_core.go\<close>: identifiers and commands on the way in (\<open>ErrInvalidArgument\<close>), stored
  records on the way out (\<open>ErrCorruptStore\<close>), and the clock. A label argument only feeds the
  message text and is dropped.
\<close>


section \<open>Identifiers and commands\<close>

definition validateStable :: "string \<Rightarrow> unit agent_result" where
  "validateStable v = (if \<not> match_stable v then Inl ErrInvalidArgument else Inr ())"

definition validateCallContext :: "go_context \<Rightarrow> unit agent_result" where
  "validateCallContext ctx = (if ctx = NilContext then Inl ErrInvalidArgument else Inr ())"

definition validateWorkspaceRef :: "WorkspaceRef \<Rightarrow> unit agent_result" where
  "validateWorkspaceRef ref =
     bind_res (validateStable (wr_Authority ref)) (\<lambda>_. validateStable (wr_ID ref))"

definition validateContextRef :: "ContextRef \<Rightarrow> unit agent_result" where
  "validateContextRef ref =
     bind_res (validateStable (cr_Authority ref)) (\<lambda>_. validateStable (cr_ID ref))"

definition validateTaskRef :: "TaskRef \<Rightarrow> unit agent_result" where
  "validateTaskRef ref =
     bind_res (validateWorkspaceRef (tr_Workspace ref)) (\<lambda>_. validateStable (tr_ID ref))"

definition validateArtifactRef :: "ArtifactRef \<Rightarrow> unit agent_result" where
  "validateArtifactRef ref =
     bind_res (validateWorkspaceRef (ar_Workspace ref)) (\<lambda>_. validateStable (ar_ID ref))"

definition validateMeta :: "CommandMeta \<Rightarrow> bool \<Rightarrow> unit agent_result" where
  "validateMeta meta create =
     bind_res (validateStable (cm_ID meta)) (\<lambda>_.
       if create \<and> cm_ExpectedRevision meta \<noteq> 0 then Inl ErrInvalidArgument
       else if \<not> create \<and> cm_ExpectedRevision meta = 0 then Inl ErrInvalidArgument
       else if cm_ExpectedRevision meta > MaxInt64 then Inl ErrInvalidArgument
       else Inr ())"

text \<open>The media type test shared by message parts and Artifact payloads.\<close>

definition media_type_ok :: "env \<Rightarrow> string \<Rightarrow> bool" where
  "media_type_ok E m =
     (\<not> (m = [] \<or> TrimSpace m \<noteq> m \<or> 128 < length m \<or> \<not> utf8_valid m \<or> contains_any m [13, 10, 0])
      \<and> mime_ParseMediaType E m)"

fun validateParts :: "env \<Rightarrow> int \<Rightarrow> Part list \<Rightarrow> unit agent_result" where
  "validateParts E n [] = Inr ()"
| "validateParts E n (part # rest) =
     (if \<not> media_type_ok E (part_MediaType part) then Inl ErrInvalidArgument
      else if part_Data part = [] then Inl ErrInvalidArgument
      else let n' = n + int (length (part_Data part)) in
        if n' > maxPartBytes then Inl ErrInvalidArgument
        else validateParts E n' rest)"

definition validateMessageInput :: "env \<Rightarrow> MessageInput \<Rightarrow> unit agent_result" where
  "validateMessageInput E input =
     bind_res (validateStable (mi_ID input)) (\<lambda>_.
       if mi_Parts input = [] \<or> 32 < length (mi_Parts input) then Inl ErrInvalidArgument
       else validateParts E 0 (mi_Parts input))"

definition validateCreateCommand :: "env \<Rightarrow> CreateTaskCommand \<Rightarrow> unit agent_result" where
  "validateCreateCommand E c =
     bind_res (validateMeta (ctc_Meta c) True) (\<lambda>_.
     bind_res (validateTaskRef (ctc_Task c)) (\<lambda>_.
     bind_res (validateContextRef (ctc_Context c)) (\<lambda>_.
       if tr_Authority (ctc_Task c) \<noteq> cr_Authority (ctc_Context c) then Inl ErrInvalidArgument
       else validateMessageInput E (ctc_Message c))))"

definition validateLeaseGrant :: "LeaseGrant \<Rightarrow> unit agent_result" where
  "validateLeaseGrant grant =
     bind_res (validateTaskRef (lg_Task grant)) (\<lambda>_.
     bind_res (validateStable (lg_Worker grant)) (\<lambda>_.
       if lg_Fence grant = 0 \<or> lg_Fence grant > MaxInt64 then Inl ErrInvalidArgument else Inr ()))"

definition commandMeta :: "WorkerCommandMeta \<Rightarrow> CommandMeta" where
  "commandMeta meta = \<lparr>cm_ID = wcm_ID meta, cm_ExpectedRevision = wcm_ExpectedRevision meta\<rparr>"

definition validateWorkerMeta :: "WorkerCommandMeta \<Rightarrow> TaskRef \<Rightarrow> unit agent_result" where
  "validateWorkerMeta meta task =
     bind_res (validateMeta (commandMeta meta) False) (\<lambda>_.
     bind_res (validateLeaseGrant (wcm_Grant meta)) (\<lambda>_.
       if lg_Task (wcm_Grant meta) \<noteq> task then Inl ErrInvalidArgument else Inr ()))"

definition maxRevisionBytes :: nat where
  "maxRevisionBytes = 512"

definition validateRevision :: "Revision \<Rightarrow> unit agent_result" where
  "validateRevision v =
     (if v = [] \<or> maxRevisionBytes < length v \<or> \<not> utf8_valid v \<or> contains_any v [0, 13, 10]
      then Inl ErrInvalidArgument else Inr ())"

definition validateDigest :: "Digest \<Rightarrow> unit agent_result" where
  "validateDigest v =
     (if length v \<noteq> 7 + 64 \<or> take 7 v \<noteq> ''sha256:'' then Inl ErrInvalidArgument
      else if \<not> hex_decodable (drop 7 v) then Inl ErrInvalidArgument
      else Inr ())"

definition validateArtifactPayloadShape :: "env \<Rightarrow> Payload \<Rightarrow> unit agent_result" where
  "validateArtifactPayloadShape E payload =
     (if \<not> media_type_ok E (pl_MediaType payload) then Inl ErrInvalidArgument
      else if pl_Data payload = [] \<or> int (length (pl_Data payload)) > absoluteArtifactMax
      then Inl ErrInvalidArgument
      else Inr ())"

definition validateReceiptCommand :: "RecordApplyReceiptCommand \<Rightarrow> unit agent_result" where
  "validateReceiptCommand c =
     bind_res (validateStable (rrc_CommandID c)) (\<lambda>_.
     bind_res (validateStable (rrc_Receipt c)) (\<lambda>_.
     bind_res (validateArtifactRef (rrc_Artifact c)) (\<lambda>_.
     bind_res (validateDigest (rrc_ArtifactDigest c)) (\<lambda>_.
     bind_res (validateRevision (rrc_BaseRevision c)) (\<lambda>_.
     bind_res (validateRevision (rrc_ResultRevision c)) (\<lambda>_.
       if \<not> Valid (rrc_Decision c) then Inl ErrInvalidArgument
       else bind_res
         (if rrc_ObservedRevision c \<noteq> [] then validateRevision (rrc_ObservedRevision c) else Inr ())
         (\<lambda>_.
           if rrc_Decision c = ApplySuccess \<and> rrc_ObservedRevision c \<noteq> rrc_ResultRevision c
           then Inl ErrInvalidArgument
           else if rrc_Decision c = ApplyConflict \<and> rrc_ObservedRevision c = []
           then Inl ErrInvalidArgument
           else if 128 < length (rrc_Code c) \<or> \<not> utf8_valid (rrc_Code c)
                   \<or> contains_any (rrc_Code c) [0, 13, 10]
           then Inl ErrInvalidArgument
           else if 4096 < length (rrc_Message c) \<or> \<not> utf8_valid (rrc_Message c)
                   \<or> contains_any (rrc_Message c) [0]
           then Inl ErrInvalidArgument
           else Inr ())))))))"


section \<open>The clock\<close>

text \<open>\<open>None\<close> is a nil clock, \<open>Some t\<close> a clock that answers \<open>t\<close>.\<close>

definition checkedClockTime :: "gotime option \<Rightarrow> gotime agent_result" where
  "checkedClockTime clock =
     (case clock of
        None \<Rightarrow> Inl ErrInvalidArgument
      | Some v \<Rightarrow>
          if v = zero_time then Inl ErrInvalidArgument
          else if fromUnixNano (unixNano v) \<noteq> v then Inl ErrInvalidArgument
          else Inr (fromUnixNano (unixNano v)))"

fun timestampAtLeast :: "gotime \<Rightarrow> gotime list \<Rightarrow> gotime" where
  "timestampAtLeast candidate [] = candidate"
| "timestampAtLeast candidate (floor # floors) =
     timestampAtLeast (if candidate < floor then floor else candidate) floors"

definition validLeaseTimestamp :: "gotime \<Rightarrow> bool" where
  "validLeaseTimestamp v = (v \<noteq> zero_time \<and> fromUnixNano (unixNano v) = v)"

definition validateQueryTime :: "gotime \<Rightarrow> unit agent_result" where
  "validateQueryTime v =
     (if v = zero_time \<or> fromUnixNano (unixNano v) \<noteq> v then Inl ErrInvalidArgument else Inr ())"

definition validateTaskCursor :: "TaskPageCursor \<Rightarrow> unit agent_result" where
  "validateTaskCursor c =
     (if tpc_CreatedAt c = zero_time \<or> fromUnixNano (unixNano (tpc_CreatedAt c)) \<noteq> tpc_CreatedAt c
      then Inl ErrInvalidArgument
      else bind_res (validateStable (tpc_Workspace c)) (\<lambda>_. validateStable (tpc_Task c)))"

definition validateTaskQueryCursor :: "TaskQueryCursor \<Rightarrow> unit agent_result" where
  "validateTaskQueryCursor c =
     bind_res (validateQueryTime (tqc_UpdatedAt c)) (\<lambda>_.
     bind_res (validateStable (tqc_Workspace c)) (\<lambda>_. validateStable (tqc_Task c)))"

definition normalizePageLimit :: "int \<Rightarrow> int agent_result" where
  "normalizePageLimit limit =
     (if limit = 0 then Inr MaxPageSize
      else if limit < 0 \<or> limit > MaxPageSize then Inl ErrInvalidArgument
      else Inr limit)"

definition normalizePageRequest :: "PageRequest \<Rightarrow> int agent_result" where
  "normalizePageRequest request =
     (if pr_After request > MaxInt64 then Inl ErrInvalidArgument
      else normalizePageLimit (pr_Limit request))"


section \<open>Stored records\<close>

definition validTaskState :: "TaskState \<Rightarrow> bool" where
  "validTaskState s = (case s of TaskStateOther _ \<Rightarrow> False | _ \<Rightarrow> True)"

definition submission_ok :: "Task \<Rightarrow> Submission \<Rightarrow> bool" where
  "submission_ok t sub =
     (\<not> (sub_Task sub \<noteq> task_Ref t \<or> \<not> ok (validateStable (sub_ID sub))
         \<or> \<not> ok (validateStable (sub_FinalMessage sub))
         \<or> sub_PublishedAt sub = zero_time \<or> sub_PublishedAt sub \<noteq> task_UpdatedAt t)
      \<and> task_Artifact t = sub_Artifact sub)"

definition validateStoredTask :: "Task \<Rightarrow> unit agent_result" where
  "validateStoredTask t =
     (if \<not> ok (validateTaskRef (task_Ref t)) then Inl ErrCorruptStore
      else if \<not> ok (validateContextRef (task_Context t))
              \<or> cr_Authority (task_Context t) \<noteq> tr_Authority (task_Ref t) then Inl ErrCorruptStore
      else if \<not> validTaskState (task_State t)
              \<or> task_Revision t = 0 \<or> task_Revision t > MaxInt64
              \<or> task_MessageCount t = 0 \<or> task_MessageCount t > MaxInt64
              \<or> task_EventCount t = 0 \<or> task_EventCount t > MaxInt64
              \<or> task_Revision t \<noteq> task_EventCount t \<or> task_MessageCount t > task_Revision t
              \<or> task_CreatedAt t = zero_time \<or> task_UpdatedAt t < task_CreatedAt t
      then Inl ErrCorruptStore
      else if (task_State t = TaskCompleted) \<noteq> (task_Submission t \<noteq> None) then Inl ErrCorruptStore
      else if (case task_Artifact t of None \<Rightarrow> False | Some a \<Rightarrow>
                 \<not> ok (validateArtifactRef a) \<or> ar_Workspace a \<noteq> tr_Workspace (task_Ref t))
      then Inl ErrCorruptStore
      else if (case task_Submission t of None \<Rightarrow> False | Some sub \<Rightarrow> \<not> submission_ok t sub)
      then Inl ErrCorruptStore
      else Inr ())"

definition artifact_state_matches :: "ArtifactState \<Rightarrow> TaskState \<Rightarrow> bool" where
  "artifact_state_matches state task_state =
     ((state = ArtifactFrozen \<and> (task_state = TaskWorking \<or> task_state = TaskInputRequired))
      \<or> (state = ArtifactPublished \<and> task_state = TaskCompleted)
      \<or> (state = ArtifactDiscarded \<and> (task_state = TaskCanceled \<or> task_state = TaskFailed)))"

definition validateStoreTaskRecord :: "StoreTaskRecord \<Rightarrow> unit agent_result" where
  "validateStoreTaskRecord r =
     bind_res (validateStoredTask (str_Task r)) (\<lambda>_.
       if ls_Owner (str_Lease r) \<noteq> []
          \<and> (ls_Fence (str_Lease r) = 0 \<or> Terminal (task_State (str_Task r)))
       then Inl ErrCorruptStore
       else if (task_Artifact (str_Task r) = None) \<noteq> (str_ArtifactState r = None)
       then Inl ErrCorruptStore
       else case str_ArtifactState r of
         None \<Rightarrow> Inr ()
       | Some st \<Rightarrow>
           if \<not> artifact_state_matches st (task_State (str_Task r)) then Inl ErrCorruptStore
           else Inr ())"

definition validateStoredMessage :: "env \<Rightarrow> Message \<Rightarrow> unit agent_result" where
  "validateStoredMessage E m =
     (if \<not> ok (validateTaskRef (msg_Task m)) then Inl ErrCorruptStore
      else if msg_Sequence m = 0 \<or> msg_Sequence m > MaxInt64
              \<or> msg_Author m \<noteq> (if msg_Sequence m mod 2 = 1 then AuthorCaller else AuthorAgent)
              \<or> msg_CreatedAt m = zero_time
      then Inl ErrCorruptStore
      else if \<not> ok (validateMessageInput E \<lparr>mi_ID = msg_ID m, mi_Parts = msg_Parts m\<rparr>)
      then Inl ErrCorruptStore
      else Inr ())"

fun event_want_state :: "EventType \<Rightarrow> TaskState option" where
  "event_want_state EventTaskSubmitted = Some TaskSubmitted"
| "event_want_state EventTaskAccepted = Some TaskWorking"
| "event_want_state EventTaskRejected = Some TaskRejected"
| "event_want_state EventInputRequired = Some TaskInputRequired"
| "event_want_state EventCallerReplied = Some TaskWorking"
| "event_want_state EventTaskCanceled = Some TaskCanceled"
| "event_want_state EventTaskFailed = Some TaskFailed"
| "event_want_state EventTaskCompleted = Some TaskCompleted"
| "event_want_state EventArtifactFrozen = Some TaskWorking"
| "event_want_state (EventTypeOther _) = None"

definition validateStoredEvent :: "Event \<Rightarrow> unit agent_result" where
  "validateStoredEvent e =
     (if \<not> ok (validateTaskRef (ev_Task e)) \<or> ev_Sequence e = 0 \<or> ev_Sequence e > MaxInt64
         \<or> ev_Revision e = 0 \<or> ev_Revision e > MaxInt64 \<or> ev_Sequence e \<noteq> ev_Revision e
         \<or> ev_OccurredAt e = zero_time
      then Inl ErrCorruptStore
      else if event_want_state (ev_Type e) \<noteq> Some (ev_State e) then Inl ErrCorruptStore
      else let wantsMessage = ev_Type e \<in> {EventTaskSubmitted, EventInputRequired,
                 EventCallerReplied, EventTaskCompleted};
               hasArtifact = (ev_Artifact e \<noteq> []);
               artifactInvalid = (ev_Type e = EventArtifactFrozen \<and> \<not> hasArtifact)
                 \<or> (ev_Type e \<noteq> EventArtifactFrozen \<and> ev_Type e \<noteq> EventTaskCompleted \<and> hasArtifact)
           in if wantsMessage \<noteq> (ev_Message e \<noteq> [])
                 \<or> (ev_Type e = EventTaskCompleted) \<noteq> (ev_Submission e \<noteq> []) \<or> artifactInvalid
              then Inl ErrCorruptStore
              else Inr ())"

definition validateLeaseAssignment :: "LeaseAssignment \<Rightarrow> unit agent_result" where
  "validateLeaseAssignment a =
     (if \<not> ok (validateLeaseGrant (la_Grant a)) then Inl ErrCorruptStore
      else if \<not> ok (validateStoredTask (la_Task a)) \<or> task_Ref (la_Task a) \<noteq> lg_Task (la_Grant a)
              \<or> Terminal (task_State (la_Task a)) \<or> \<not> validLeaseTimestamp (la_GrantedAt a)
              \<or> la_GrantedAt a < task_CreatedAt (la_Task a)
      then Inl ErrCorruptStore
      else Inr ())"

definition validateStoreCommandRecord ::
    "env \<Rightarrow> StoreCommandRecord \<Rightarrow> AuthorityID \<Rightarrow> CommandID \<Rightarrow> unit agent_result" where
  "validateStoreCommandRecord E r authority cid =
     (if scr_Authority r \<noteq> authority \<or> scr_ID r \<noteq> cid
         \<or> \<not> ok (validateStable (scr_Kind r)) \<or> scr_IntentDigest r = []
         \<or> \<not> ok (validateStable (scr_ResultKind r)) \<or> scr_Result r = [] \<or> scr_CreatedAt r = zero_time
      then Inl ErrCorruptStore
      else if byteDigest E (scr_Result r) \<noteq> scr_ResultDigest r then Inl ErrCorruptStore
      else Inr ())"

definition artifact_times_ok :: "Artifact \<Rightarrow> bool" where
  "artifact_times_ok a =
     (case art_State a of
        ArtifactFrozen \<Rightarrow> art_PublishedAt a = None \<and> art_DiscardedAt a = None
      | ArtifactPublished \<Rightarrow>
          (case art_PublishedAt a of None \<Rightarrow> False
           | Some p \<Rightarrow> art_DiscardedAt a = None \<and> art_FrozenAt a \<le> p)
      | ArtifactDiscarded \<Rightarrow>
          (case art_DiscardedAt a of None \<Rightarrow> False
           | Some x \<Rightarrow> art_PublishedAt a = None \<and> art_FrozenAt a \<le> x)
      | ArtifactStateOther _ \<Rightarrow> False)"

definition validateStoredArtifactMetadata :: "env \<Rightarrow> Artifact \<Rightarrow> unit agent_result" where
  "validateStoredArtifactMetadata E a =
     (if \<not> ok (validateArtifactRef (art_Ref a)) \<or> \<not> ok (validateTaskRef (art_Task a))
         \<or> tr_Workspace (art_Task a) \<noteq> ar_Workspace (art_Ref a) \<or> art_PayloadSize a \<le> 0
         \<or> art_PayloadSize a > absoluteArtifactMax \<or> art_FrozenAt a = zero_time
      then Inl ErrCorruptStore
      else if \<not> ok (validateRevision (art_BaseRevision a)) \<or> \<not> ok (validateRevision (art_ResultRevision a))
         \<or> \<not> ok (validateDigest (art_Digest a)) \<or> \<not> ok (validateDigest (art_PayloadDigest a))
         \<or> art_BaseRevision a = art_ResultRevision a
      then Inl ErrCorruptStore
      else if \<not> artifact_times_ok a then Inl ErrCorruptStore
      else if nextRevision E (art_BaseRevision a) (art_Ref a) (art_PayloadDigest a) \<noteq> art_ResultRevision a
         \<or> digestArtifact E (art_Ref a) (art_Task a) (art_BaseRevision a) (art_ResultRevision a)
             (art_PayloadDigest a) (art_MediaType a) \<noteq> art_Digest a
      then Inl ErrCorruptStore
      else Inr ())"

definition validateStoredArtifact :: "env \<Rightarrow> ArtifactContent \<Rightarrow> unit agent_result" where
  "validateStoredArtifact E c =
     (if \<not> ok (validateStoredArtifactMetadata E (ac_Artifact c))
         \<or> art_PayloadSize (ac_Artifact c) \<noteq> int (length (pl_Data (ac_Payload c)))
         \<or> art_MediaType (ac_Artifact c) \<noteq> pl_MediaType (ac_Payload c)
         \<or> pl_Data (ac_Payload c) = []
      then Inl ErrCorruptStore
      else if digestPayload E (ac_Payload c) \<noteq> art_PayloadDigest (ac_Artifact c)
      then Inl ErrCorruptStore
      else Inr ())"

definition validateStoredReceipt :: "ApplyReceipt \<Rightarrow> unit agent_result" where
  "validateStoredReceipt r =
     (if \<not> ok (validateReceiptCommand
            \<lparr>rrc_CommandID = ''stored-receipt'', rrc_Receipt = rcp_ID r, rrc_Artifact = rcp_Artifact r,
             rrc_ArtifactDigest = rcp_ArtifactDigest r, rrc_BaseRevision = rcp_BaseRevision r,
             rrc_ResultRevision = rcp_ResultRevision r, rrc_Decision = rcp_Decision r,
             rrc_ObservedRevision = rcp_ObservedRevision r, rrc_Code = rcp_Code r,
             rrc_Message = rcp_Message r\<rparr>)
         \<or> rcp_RecordedAt r = zero_time
      then Inl ErrCorruptStore else Inr ())"

definition validateFreezeResult :: "FreezeArtifactResult \<Rightarrow> unit agent_result" where
  "validateFreezeResult r =
     (if \<not> ok (validateStoredTask (far_Task r))
         \<or> task_Artifact (far_Task r) \<noteq> Some (art_Ref (far_Artifact r))
         \<or> art_State (far_Artifact r) \<noteq> ArtifactFrozen
         \<or> art_Task (far_Artifact r) \<noteq> task_Ref (far_Task r)
         \<or> art_PayloadSize (far_Artifact r) \<le> 0
         \<or> art_FrozenAt (far_Artifact r) = zero_time
         \<or> art_FrozenAt (far_Artifact r) \<noteq> task_UpdatedAt (far_Task r)
         \<or> art_PublishedAt (far_Artifact r) \<noteq> None \<or> art_DiscardedAt (far_Artifact r) \<noteq> None
         \<or> \<not> ok (validateRevision (art_BaseRevision (far_Artifact r)))
         \<or> \<not> ok (validateRevision (art_ResultRevision (far_Artifact r)))
         \<or> \<not> ok (validateDigest (art_Digest (far_Artifact r)))
         \<or> \<not> ok (validateDigest (art_PayloadDigest (far_Artifact r)))
      then Inl ErrCorruptStore else Inr ())"


section \<open>What the validators accept\<close>

lemma ok_validateStable [simp]: "ok (validateStable v) \<longleftrightarrow> match_stable v"
  by (simp add: validateStable_def)

lemma ok_validateWorkspaceRef [simp]:
  "ok (validateWorkspaceRef r) \<longleftrightarrow> match_stable (wr_Authority r) \<and> match_stable (wr_ID r)"
  by (simp add: validateWorkspaceRef_def res_simps)

lemma ok_validateTaskRef [simp]:
  "ok (validateTaskRef r) \<longleftrightarrow> ok (validateWorkspaceRef (tr_Workspace r)) \<and> match_stable (tr_ID r)"
  by (simp add: validateTaskRef_def res_simps)

lemma ok_validateArtifactRef [simp]:
  "ok (validateArtifactRef r) \<longleftrightarrow> ok (validateWorkspaceRef (ar_Workspace r)) \<and> match_stable (ar_ID r)"
  by (simp add: validateArtifactRef_def res_simps)

lemma ok_validateContextRef [simp]:
  "ok (validateContextRef r) \<longleftrightarrow> match_stable (cr_Authority r) \<and> match_stable (cr_ID r)"
  by (simp add: validateContextRef_def res_simps)

lemma ok_validateLeaseGrant [simp]:
  "ok (validateLeaseGrant g) \<longleftrightarrow>
     ok (validateTaskRef (lg_Task g)) \<and> match_stable (lg_Worker g)
     \<and> lg_Fence g \<noteq> 0 \<and> lg_Fence g \<le> MaxInt64"
  by (auto simp: validateLeaseGrant_def res_simps)

lemma ok_validateMeta:
  "ok (validateMeta m create) \<longleftrightarrow>
     match_stable (cm_ID m) \<and> cm_ExpectedRevision m \<le> MaxInt64
     \<and> (create \<longleftrightarrow> cm_ExpectedRevision m = 0)"
  by (auto simp: validateMeta_def res_simps)

lemma ok_validateWorkerMeta:
  "ok (validateWorkerMeta m task) \<longleftrightarrow>
     ok (validateMeta (commandMeta m) False) \<and> ok (validateLeaseGrant (wcm_Grant m))
     \<and> lg_Task (wcm_Grant m) = task"
  by (auto simp: validateWorkerMeta_def res_simps simp del: ok_validateLeaseGrant)

lemma ok_validateMessageInputD: "ok (validateMessageInput E i) \<Longrightarrow> match_stable (mi_ID i)"
  by (auto simp: validateMessageInput_def res_simps)

lemma ok_validateCreateCommand:
  "ok (validateCreateCommand E c) \<longleftrightarrow>
     ok (validateMeta (ctc_Meta c) True) \<and> ok (validateTaskRef (ctc_Task c))
     \<and> ok (validateContextRef (ctc_Context c))
     \<and> tr_Authority (ctc_Task c) = cr_Authority (ctc_Context c)
     \<and> ok (validateMessageInput E (ctc_Message c))"
  by (auto simp: validateCreateCommand_def res_simps
      simp del: ok_validateTaskRef ok_validateContextRef)

lemma checkedClockTime_Inr [simp]:
  "checkedClockTime c = Inr t \<longleftrightarrow> c = Some t \<and> validLeaseTimestamp t"
  by (auto simp: checkedClockTime_def validLeaseTimestamp_def split: option.splits)

lemma timestampAtLeast_foldl: "timestampAtLeast c fs = foldl max c fs"
  by (induction c fs rule: timestampAtLeast.induct) (simp_all add: max_def)

lemma timestampAtLeast_candidate: "c \<le> timestampAtLeast c fs"
proof (induction c fs rule: timestampAtLeast.induct)
  case (2 c f fs)
  then show ?case by (auto split: if_splits)
qed simp

lemma timestampAtLeast_floor: "f \<in> set fs \<Longrightarrow> f \<le> timestampAtLeast c fs"
proof (induction c fs rule: timestampAtLeast.induct)
  case (2 c g fs)
  show ?case
  proof (cases "f = g")
    case True
    have "f \<le> (if c < g then g else c)" using True by simp
    also have "\<dots> \<le> timestampAtLeast (if c < g then g else c) fs"
      by (rule timestampAtLeast_candidate)
    finally show ?thesis by simp
  next
    case False
    with 2 show ?thesis by simp
  qed
qed simp

lemma timestampAtLeast_in: "timestampAtLeast c fs \<in> insert c (set fs)"
  by (induction c fs rule: timestampAtLeast.induct) (auto split: if_splits)

lemma normalizePageLimit_Inr:
  "normalizePageLimit l = Inr n \<Longrightarrow> 1 \<le> n \<and> n \<le> MaxPageSize"
  by (auto simp: normalizePageLimit_def MaxPageSize_def split: if_splits)

lemma ok_validateStoredTask:
  "ok (validateStoredTask t) \<longleftrightarrow>
     ok (validateTaskRef (task_Ref t)) \<and> ok (validateContextRef (task_Context t))
     \<and> cr_Authority (task_Context t) = tr_Authority (task_Ref t)
     \<and> validTaskState (task_State t) \<and> task_Revision t \<noteq> 0 \<and> task_Revision t \<le> MaxInt64
     \<and> task_MessageCount t \<noteq> 0 \<and> task_EventCount t = task_Revision t
     \<and> task_MessageCount t \<le> task_Revision t
     \<and> task_CreatedAt t \<noteq> zero_time \<and> task_CreatedAt t \<le> task_UpdatedAt t
     \<and> (task_State t = TaskCompleted \<longleftrightarrow> task_Submission t \<noteq> None)
     \<and> (\<forall>a. task_Artifact t = Some a \<longrightarrow>
          ok (validateArtifactRef a) \<and> ar_Workspace a = tr_Workspace (task_Ref t))
     \<and> (\<forall>sub. task_Submission t = Some sub \<longrightarrow> submission_ok t sub)"
  by (auto simp: validateStoredTask_def simp del: ok_validateTaskRef ok_validateContextRef
      ok_validateArtifactRef split: option.splits)

lemma ok_validateStoreTaskRecord:
  "ok (validateStoreTaskRecord r) \<longleftrightarrow>
     ok (validateStoredTask (str_Task r))
     \<and> (ls_Owner (str_Lease r) \<noteq> [] \<longrightarrow>
          ls_Fence (str_Lease r) \<noteq> 0 \<and> \<not> Terminal (task_State (str_Task r)))
     \<and> (task_Artifact (str_Task r) = None \<longleftrightarrow> str_ArtifactState r = None)
     \<and> (\<forall>st. str_ArtifactState r = Some st \<longrightarrow> artifact_state_matches st (task_State (str_Task r)))"
  by (auto simp: validateStoreTaskRecord_def res_simps split: option.splits)

lemma ok_validateStoreCommandRecord:
  "ok (validateStoreCommandRecord E r authority cid) \<longleftrightarrow>
     scr_Authority r = authority \<and> scr_ID r = cid \<and> match_stable (scr_Kind r)
     \<and> scr_IntentDigest r \<noteq> [] \<and> match_stable (scr_ResultKind r) \<and> scr_Result r \<noteq> []
     \<and> scr_CreatedAt r \<noteq> zero_time \<and> byteDigest E (scr_Result r) = scr_ResultDigest r"
  by (auto simp: validateStoreCommandRecord_def)

lemma ok_validateLeaseAssignment:
  "ok (validateLeaseAssignment a) \<longleftrightarrow>
     ok (validateLeaseGrant (la_Grant a)) \<and> ok (validateStoredTask (la_Task a))
     \<and> task_Ref (la_Task a) = lg_Task (la_Grant a) \<and> \<not> Terminal (task_State (la_Task a))
     \<and> validLeaseTimestamp (la_GrantedAt a) \<and> task_CreatedAt (la_Task a) \<le> la_GrantedAt a"
  by (auto simp: validateLeaseAssignment_def simp del: ok_validateLeaseGrant)

lemma validate_errors_invalid:
  "validateStable v = Inl e \<Longrightarrow> e = ErrInvalidArgument"
  "validateTaskRef r = Inl e \<Longrightarrow> e = ErrInvalidArgument"
  "validateMeta m b = Inl e \<Longrightarrow> e = ErrInvalidArgument"
  "validateLeaseGrant g = Inl e \<Longrightarrow> e = ErrInvalidArgument"
  by (auto simp: validateStable_def validateTaskRef_def validateWorkspaceRef_def validateMeta_def
      validateLeaseGrant_def res_simps split: if_splits)

end
