(* ===== verification/Agent_Protection.thy ===== *)
theory Agent_Protection
  imports Agent_Validate
begin

text \<open>
  The Agent value and \<^verbatim>\<open>agent/protection.go\<close>: message parts and Artifact payloads are sealed (or
  framed as explicit plaintext when no Protector is configured) before they enter a store
  callback, and opened after they left one. Sealed and plain values are told apart by their
  recorded mode, never guessed.
\<close>

text \<open>
  The fields of \<open>Agent\<close> the operations read. \<open>ag_closed\<close> is the \<open>closed\<close> flag \<open>acquireStore\<close>
  tests; the life cycle around it is the theory \<open>Agent_Lifecycle\<close>.
\<close>

record agent =
  ag_closed :: bool
  ag_protector :: "Protector option"
  ag_allowPlaintext :: bool
  ag_maxArtifactBytes :: int

text \<open>
  What one call sees from outside: its context, the clock reading of the transaction and how its
  commit ends.
\<close>

record call =
  call_ctx :: go_context
  call_clock :: "gotime option"
  call_commit :: commit_outcome

definition acquireStore :: "agent \<Rightarrow> unit agent_result" where
  "acquireStore ag = (if ag_closed ag then Inl ErrClosed else Inr ())"

definition messageProtectionBinding :: "TaskRef \<Rightarrow> MessageID \<Rightarrow> Binding" where
  "messageProtectionBinding task message =
     \<lparr>bd_Component = ''human.agent'', bd_Purpose = ''persistence'',
      bd_Authority = tr_Authority task,
      bd_Namespace = wr_ID (tr_Workspace task) @ ''/'' @ tr_ID task,
      bd_RecordType = ''message'', bd_RecordID = message, bd_Field = ''parts'', bd_Schema = 1\<rparr>"

definition artifactProtectionBinding :: "Artifact \<Rightarrow> Binding" where
  "artifactProtectionBinding a =
     \<lparr>bd_Component = ''human.agent'', bd_Purpose = ''persistence'',
      bd_Authority = ar_Authority (art_Ref a),
      bd_Namespace = wr_ID (ar_Workspace (art_Ref a)) @ ''/'' @ tr_ID (art_Task a),
      bd_RecordType = ''artifact'', bd_RecordID = ar_ID (art_Ref a) @ ''/'' @ art_Digest a,
      bd_Field = ''payload'', bd_Schema = 1\<rparr>"

definition validateProtectorEnvelope :: "Protector \<Rightarrow> Envelope \<Rightarrow> protect_error + unit" where
  "validateProtectorEnvelope p e =
     bind_res (ValidateEnvelope e) (\<lambda>_.
       if en_Provider e \<noteq> ds_Provider (pt_Description p) \<or> en_Format e \<noteq> ds_Format (pt_Description p)
       then Inl ErrInvalidEnvelope
       else if slice_len (en_Nonce e) + slice_len (en_Data e) > ds_MaxEnvelopeBytes (pt_Description p)
       then Inl ErrInvalidEnvelope
       else Inr ())"

definition sealStoredValue ::
    "env \<Rightarrow> agent \<Rightarrow> Binding \<Rightarrow> bytes option \<Rightarrow> bytes agent_result" where
  "sealStoredValue E ag binding plaintext =
     (case ag_protector ag of
        None \<Rightarrow> map_err ProtectFailure (MarshalStoredValue (env_wire E) (NewPlainStoredValue plaintext))
      | Some p \<Rightarrow>
          if slice_len plaintext > ds_MaxPlaintextBytes (pt_Description p) then Inl ErrInvalidArgument
          else map_err ProtectFailure (
            bind_res (pt_Seal p binding plaintext) (\<lambda>e.
            bind_res (validateProtectorEnvelope p e) (\<lambda>_.
            bind_res (NewSealedStoredValue (plaintext = None) e) (\<lambda>value.
              MarshalStoredValue (env_wire E) value)))))"

definition validateStoredValueShape ::
    "env \<Rightarrow> agent \<Rightarrow> bytes \<Rightarrow> int \<Rightarrow> StoredValue agent_result" where
  "validateStoredValueShape E ag encoded maxBytes =
     bind_res (map_err (\<lambda>e. ErrJoined ErrCorruptStore (ProtectFailure e))
         (UnmarshalStoredValueLimited (env_wire E) encoded maxBytes)) (\<lambda>value.
       case sv_Mode value of
         StoredValuePlain \<Rightarrow>
           (if ag_protector ag \<noteq> None \<and> \<not> ag_allowPlaintext ag
            then Inl (ErrJoined ErrCorruptStore ErrProtectionDowngrade) else Inr value)
       | StoredValueSealed \<Rightarrow>
           (case (ag_protector ag, sv_Envelope value) of
              (Some p, Some e) \<Rightarrow>
                bind_res (map_err (\<lambda>e. ErrJoined ErrCorruptStore (ProtectFailure e))
                    (validateProtectorEnvelope p e)) (\<lambda>_. Inr value)
            | _ \<Rightarrow> Inl ErrCorruptStore)
       | StoredValueModeOther _ \<Rightarrow> Inl ErrCorruptStore)"

definition openStoredValue ::
    "env \<Rightarrow> agent \<Rightarrow> Binding \<Rightarrow> bytes \<Rightarrow> int \<Rightarrow> bytes option agent_result" where
  "openStoredValue E ag binding encoded maxBytes =
     bind_res (validateStoredValueShape E ag encoded maxBytes) (\<lambda>value.
       case sv_Mode value of
         StoredValuePlain \<Rightarrow> Inr (sv_Plain value)
       | StoredValueSealed \<Rightarrow>
           (case (ag_protector ag, sv_Envelope value) of
              (Some p, Some e) \<Rightarrow>
                bind_res
                  (map_err (\<lambda>err. if err = ErrAuthentication \<or> err = ErrInvalidEnvelope
                                 then ErrJoined ErrCorruptStore (ProtectFailure err)
                                 else ProtectFailure err)
                    (pt_Open p binding (CloneEnvelope e))) (\<lambda>plaintext.
                  if (plaintext = None) \<noteq> sv_Nil value then Inl ErrCorruptStore
                  else if slice_len plaintext > ds_MaxPlaintextBytes (pt_Description p)
                  then Inl ErrCorruptStore
                  else Inr plaintext)
            | _ \<Rightarrow> Inl ErrCorruptStore)
       | StoredValueModeOther _ \<Rightarrow> Inl ErrCorruptStore)"

record preparedMessageContent =
  pmc_encoded :: bytes
  pmc_digest :: StoreDigest

definition prepareMessageContent ::
    "env \<Rightarrow> agent \<Rightarrow> TaskRef \<Rightarrow> MessageInput \<Rightarrow> preparedMessageContent agent_result" where
  "prepareMessageContent E ag task message =
     (case json_Marshal E (JParts (mi_Parts message)) of
        None \<Rightarrow> Inl ErrEncode
      | Some plaintext \<Rightarrow>
          bind_res (contentDigest E (mi_Parts message)) (\<lambda>digest.
          bind_res (sealStoredValue E ag (messageProtectionBinding task (mi_ID message)) (Some plaintext))
            (\<lambda>encoded.
            if encoded = [] \<or> int (length encoded) > maxPageBytes then Inl ErrInvalidArgument
            else Inr \<lparr>pmc_encoded = encoded, pmc_digest = digest\<rparr>)))"

definition messageFromStoreRecord ::
    "env \<Rightarrow> agent \<Rightarrow> StoreMessageRecord \<Rightarrow> Message agent_result" where
  "messageFromStoreRecord E ag r =
     (if smr_EncodedParts r = [] \<or> int (length (smr_EncodedParts r)) > maxPageBytes
      then Inl ErrCorruptStore
      else bind_res (openStoredValue E ag (messageProtectionBinding (smr_Task r) (smr_ID r))
          (smr_EncodedParts r) maxPageBytes) (\<lambda>plaintext.
        case plaintext of
          None \<Rightarrow> Inl ErrCorruptStore
        | Some bs \<Rightarrow>
            (case json_Unmarshal E DParts bs of
               Some (JParts parts) \<Rightarrow>
                 let m = \<lparr>msg_ID = smr_ID r, msg_Task = smr_Task r, msg_Sequence = smr_Sequence r,
                          msg_Author = smr_Author r, msg_Parts = parts, msg_CreatedAt = smr_CreatedAt r\<rparr>
                 in (case contentDigest E parts of
                       Inl _ \<Rightarrow> Inl ErrCorruptStore
                     | Inr actual \<Rightarrow>
                         if actual \<noteq> smr_PartsDigest r then Inl ErrCorruptStore
                         else bind_res (validateStoredMessage E m) (\<lambda>_. Inr m))
             | _ \<Rightarrow> Inl ErrCorruptStore)))"

definition prepareArtifactPayload ::
    "env \<Rightarrow> agent \<Rightarrow> Artifact \<Rightarrow> Payload \<Rightarrow> bytes agent_result" where
  "prepareArtifactPayload E ag artifact payload =
     bind_res (sealStoredValue E ag (artifactProtectionBinding artifact)
         (append_nil (Some (pl_Data payload)))) (\<lambda>encoded.
       if encoded = [] \<or> int (length encoded) > MaxStoredValueBytes then Inl ErrInvalidArgument
       else Inr encoded)"

definition artifactContentFromStoreRecord ::
    "env \<Rightarrow> agent \<Rightarrow> StoreArtifactRecord \<Rightarrow> ArtifactContent agent_result" where
  "artifactContentFromStoreRecord E ag r =
     (if sar_EncodedPayload r = [] \<or> int (length (sar_EncodedPayload r)) > MaxStoredValueBytes
      then Inl ErrCorruptStore
      else bind_res (openStoredValue E ag (artifactProtectionBinding (sar_Artifact r))
          (sar_EncodedPayload r) MaxStoredValueBytes) (\<lambda>plaintext.
        let c = \<lparr>ac_Artifact = sar_Artifact r,
                 ac_Payload = \<lparr>pl_MediaType = art_MediaType (sar_Artifact r), pl_Data = opt_bytes plaintext\<rparr>\<rparr>
        in bind_res (validateStoredArtifact E c) (\<lambda>_. Inr c)))"

lemma prepareMessageContent_Inr:
  assumes "prepareMessageContent E ag task m = Inr p"
  shows "pmc_encoded p \<noteq> []" "int (length (pmc_encoded p)) \<le> maxPageBytes"
    "contentDigest E (mi_Parts m) = Inr (pmc_digest p)"
  using assms by (auto simp: prepareMessageContent_def res_simps split: option.splits if_splits)

text \<open>A configured Protector without the migration policy never lets plaintext through.\<close>

lemma openStoredValue_no_downgrade:
  assumes "openStoredValue E ag b enc n = Inr v" "ag_protector ag = Some p" "\<not> ag_allowPlaintext ag"
  shows "\<exists>v' e. UnmarshalStoredValueLimited (env_wire E) enc n = Inr v'
    \<and> sv_Mode v' = StoredValueSealed \<and> sv_Envelope v' = Some e
    \<and> pt_Open p b (CloneEnvelope e) = Inr v"
proof -
  from assms(1) obtain v' where shape: "validateStoredValueShape E ag enc n = Inr v'"
    by (auto simp: openStoredValue_def res_simps)
  then obtain x where x: "UnmarshalStoredValueLimited (env_wire E) enc n = Inr x"
    by (auto simp: validateStoredValueShape_def res_simps)
  from shape x assms(2,3) have un: "UnmarshalStoredValueLimited (env_wire E) enc n = Inr v'"
    and mode: "sv_Mode v' = StoredValueSealed"
    by (cases "sv_Mode x"; auto simp: validateStoredValueShape_def res_simps split: option.splits)+
  from assms(1,2) shape mode obtain e where "sv_Envelope v' = Some e"
    "pt_Open p b (CloneEnvelope e) = Inr v"
    by (auto simp: openStoredValue_def res_simps split: option.splits if_splits)
  with un mode show ?thesis by blast
qed

end
