(* ===== verification/Agent_Core.thy ===== *)
theory Agent_Core
  imports Agent_Protection
begin

text \<open>
  The task-oriented core, \<^verbatim>\<open>agent/store_core.go\<close> and \<^verbatim>\<open>agent/agent.go\<close>: loading and replaying
  through the Store port, \<open>CreateTask\<close>, and the one state machine step \<open>transition\<close> behind
  accept, reject, request-input, reply, cancel, fail and complete.

  An operation that first looks (\<open>store.View\<close>) and then commits (\<open>store.Update\<close>) takes the state
  it looked at, \<open>sv\<close>, and the state it commits on, \<open>s\<close>: other calls may have committed in
  between. Its result is the answer and the store state afterwards.
\<close>


section \<open>Store access\<close>

definition not_found_as :: "agent_error \<Rightarrow> store_error \<Rightarrow> agent_error" where
  "not_found_as err e = (if e = ErrStoreRecordNotFound then err else StoreFailure e)"

definition conflict_as :: "agent_error \<Rightarrow> store_error \<Rightarrow> agent_error" where
  "conflict_as err e = (case e of StoreConflictError _ \<Rightarrow> err | _ \<Rightarrow> StoreFailure e)"

definition loadTaskRecordFromStore ::
    "'s store_ops \<Rightarrow> 's \<Rightarrow> TaskRef \<Rightarrow> StoreTaskRecord agent_result" where
  "loadTaskRecordFromStore ops s ref =
     bind_res (map_err (not_found_as ErrNotFound) (LoadTask ops s ref)) (\<lambda>r.
       if task_Ref (str_Task r) \<noteq> ref then Inl ErrCorruptStore
       else bind_res (validateStoreTaskRecord r) (\<lambda>_. Inr r))"

definition loadTaskFromStore :: "'s store_ops \<Rightarrow> 's \<Rightarrow> TaskRef \<Rightarrow> Task agent_result" where
  "loadTaskFromStore ops s ref =
     bind_res (loadTaskRecordFromStore ops s ref) (\<lambda>r. Inr (str_Task r))"

text \<open>Decoding into a Go variable of the result's type.\<close>

fun as_Task :: "json_doc \<Rightarrow> Task option" where
  "as_Task (JTask t) = Some t" | "as_Task _ = None"

fun as_LeaseAssignment :: "json_doc \<Rightarrow> LeaseAssignment option" where
  "as_LeaseAssignment (JLeaseAssignment a) = Some a" | "as_LeaseAssignment _ = None"

fun as_LeaseGrant :: "json_doc \<Rightarrow> LeaseGrant option" where
  "as_LeaseGrant (JLeaseGrant g) = Some g" | "as_LeaseGrant _ = None"

fun as_FreezeResult :: "json_doc \<Rightarrow> FreezeArtifactResult option" where
  "as_FreezeResult (JFreezeResult r) = Some r" | "as_FreezeResult _ = None"

fun as_ApplyReceipt :: "json_doc \<Rightarrow> ApplyReceipt option" where
  "as_ApplyReceipt (JApplyReceipt r) = Some r" | "as_ApplyReceipt _ = None"

definition replayJSONCommandFromStore ::
    "env \<Rightarrow> 's store_ops \<Rightarrow> 's \<Rightarrow> AuthorityID \<Rightarrow> CommandID \<Rightarrow> string \<Rightarrow> string \<Rightarrow> string
     \<Rightarrow> json_dest \<Rightarrow> (json_doc \<Rightarrow> 'v option) \<Rightarrow> 'v option agent_result" where
  "replayJSONCommandFromStore E ops s authority cid kind digest resultKind dest as_type =
     (case LookupCommand ops s \<lparr>sck_Authority = authority, sck_ID = cid\<rparr> maxPageBytes of
        Inl e \<Rightarrow> if e = ErrStoreRecordNotFound then Inr None else Inl (StoreFailure e)
      | Inr r \<Rightarrow>
          bind_res (validateStoreCommandRecord E r authority cid) (\<lambda>_.
            if scr_Kind r \<noteq> kind \<or> scr_IntentDigest r \<noteq> digest \<or> scr_ResultKind r \<noteq> resultKind
            then Inl ErrIdempotencyConflict
            else case Option.bind (json_Unmarshal E dest (scr_Result r)) as_type of
              None \<Rightarrow> Inl ErrCorruptStore
            | Some v \<Rightarrow> Inr (Some v)))"

definition replayTaskCommandFromStore ::
    "env \<Rightarrow> 's store_ops \<Rightarrow> 's \<Rightarrow> AuthorityID \<Rightarrow> CommandID \<Rightarrow> string \<Rightarrow> string
     \<Rightarrow> Task option agent_result" where
  "replayTaskCommandFromStore E ops s authority cid kind digest =
     bind_res (replayJSONCommandFromStore E ops s authority cid kind digest ''task'' DTask as_Task)
       (\<lambda>found. case found of
          None \<Rightarrow> Inr None
        | Some t \<Rightarrow>
            bind_res (validateStoredTask t) (\<lambda>_.
              if tr_Authority (task_Ref t) \<noteq> authority then Inl ErrCorruptStore else Inr (Some t)))"

definition recordJSONCommandToStore ::
    "env \<Rightarrow> 's store_ops \<Rightarrow> 's \<Rightarrow> AuthorityID \<Rightarrow> CommandID \<Rightarrow> string \<Rightarrow> string \<Rightarrow> string
     \<Rightarrow> json_doc \<Rightarrow> gotime \<Rightarrow> 's agent_result" where
  "recordJSONCommandToStore E ops s authority cid kind digest resultKind result now =
     (case json_Marshal E result of
        None \<Rightarrow> Inl ErrEncode
      | Some encoded \<Rightarrow>
          map_err (conflict_as ErrIdempotencyConflict) (InsertCommand ops s
            \<lparr>scr_Authority = authority, scr_ID = cid, scr_Kind = kind, scr_IntentDigest = digest,
             scr_ResultKind = resultKind, scr_Result = encoded,
             scr_ResultDigest = byteDigest E encoded, scr_CreatedAt = now\<rparr>))"

definition recordTaskCommandToStore ::
    "env \<Rightarrow> 's store_ops \<Rightarrow> 's \<Rightarrow> AuthorityID \<Rightarrow> CommandID \<Rightarrow> string \<Rightarrow> string
     \<Rightarrow> Task \<Rightarrow> gotime \<Rightarrow> 's agent_result" where
  "recordTaskCommandToStore E ops s authority cid kind digest task now =
     recordJSONCommandToStore E ops s authority cid kind digest ''task'' (JTask task) now"

definition insertMessageToStore ::
    "'s store_ops \<Rightarrow> 's \<Rightarrow> Message \<Rightarrow> preparedMessageContent \<Rightarrow> 's agent_result" where
  "insertMessageToStore ops s m prepared =
     map_err (conflict_as ErrMessageConflict) (InsertMessage ops s
       \<lparr>smr_ID = msg_ID m, smr_Task = msg_Task m, smr_Sequence = msg_Sequence m,
        smr_Author = msg_Author m, smr_EncodedParts = pmc_encoded prepared,
        smr_PartsDigest = pmc_digest prepared, smr_CreatedAt = msg_CreatedAt m\<rparr>)"

definition insertEventToStore :: "'s store_ops \<Rightarrow> 's \<Rightarrow> Event \<Rightarrow> 's agent_result" where
  "insertEventToStore ops s e = map_err StoreFailure (InsertEvent ops s e)"


section \<open>Leases in the store\<close>

definition verifyLeaseGrantHistoryFromStore ::
    "'s store_ops \<Rightarrow> 's \<Rightarrow> LeaseGrant \<Rightarrow> gotime agent_result" where
  "verifyLeaseGrantHistoryFromStore ops s grant =
     bind_res (validateLeaseGrant grant) (\<lambda>_.
     bind_res (map_err (not_found_as ErrStaleLease)
         (LoadLeaseGrant ops s (lg_Task grant) (lg_Fence grant))) (\<lambda>r.
       if slg_Grant r \<noteq> grant \<or> slg_GrantedAt r = zero_time then Inl ErrCorruptStore
       else Inr (slg_GrantedAt r)))"

definition requireCurrentLeaseFromStore ::
    "'s store_ops \<Rightarrow> 's \<Rightarrow> LeaseGrant \<Rightarrow> unit agent_result" where
  "requireCurrentLeaseFromStore ops s grant =
     bind_res (verifyLeaseGrantHistoryFromStore ops s grant) (\<lambda>_.
     bind_res (loadTaskRecordFromStore ops s (lg_Task grant)) (\<lambda>r.
       if ls_Owner (str_Lease r) \<noteq> lg_Worker grant \<or> ls_Fence (str_Lease r) \<noteq> lg_Fence grant
       then Inl ErrStaleLease else Inr ()))"

definition validateLeaseHistoryHeadFromStore ::
    "'s store_ops \<Rightarrow> 's \<Rightarrow> StoreTaskRecord \<Rightarrow> gotime agent_result" where
  "validateLeaseHistoryHeadFromStore ops s r =
     (case LoadLatestLeaseGrant ops s (task_Ref (str_Task r)) of
        Inl e \<Rightarrow>
          if e = ErrStoreRecordNotFound
          then if ls_Fence (str_Lease r) \<noteq> 0 \<or> ls_Owner (str_Lease r) \<noteq> []
               then Inl ErrCorruptStore else Inr zero_time
          else Inl (StoreFailure e)
      | Inr latest \<Rightarrow>
          if \<not> ok (validateLeaseGrant (slg_Grant latest))
             \<or> lg_Task (slg_Grant latest) \<noteq> task_Ref (str_Task r)
             \<or> lg_Fence (slg_Grant latest) \<noteq> ls_Fence (str_Lease r)
             \<or> \<not> validLeaseTimestamp (slg_GrantedAt latest)
             \<or> slg_GrantedAt latest < task_CreatedAt (str_Task r)
             \<or> (ls_Owner (str_Lease r) \<noteq> [] \<and> lg_Worker (slg_Grant latest) \<noteq> ls_Owner (str_Lease r))
          then Inl ErrCorruptStore
          else Inr (slg_GrantedAt latest))"

definition verifyLeaseAssignmentFromStore ::
    "'s store_ops \<Rightarrow> 's \<Rightarrow> LeaseAssignment \<Rightarrow> unit agent_result" where
  "verifyLeaseAssignmentFromStore ops s a =
     bind_res (map_err (\<lambda>e. if e = ErrStaleLease then ErrCorruptStore else e)
         (verifyLeaseGrantHistoryFromStore ops s (la_Grant a))) (\<lambda>grantedAt.
       if grantedAt \<noteq> la_GrantedAt a then Inl ErrCorruptStore else Inr ())"

definition loadLeaseAssignmentFromStore ::
    "'s store_ops \<Rightarrow> 's \<Rightarrow> TaskRef \<Rightarrow> LeaseAssignment agent_result" where
  "loadLeaseAssignmentFromStore ops s ref =
     bind_res (loadTaskRecordFromStore ops s ref) (\<lambda>r.
     bind_res (validateLeaseHistoryHeadFromStore ops s r) (\<lambda>grantedAt.
       if ls_Owner (str_Lease r) = [] then Inl ErrLeaseNotFound
       else let a = \<lparr>la_Grant = \<lparr>lg_Task = ref, lg_Worker = ls_Owner (str_Lease r),
                                 lg_Fence = ls_Fence (str_Lease r)\<rparr>,
                    la_Task = str_Task r, la_GrantedAt = grantedAt\<rparr>
            in bind_res (validateLeaseAssignment a) (\<lambda>_. Inr a)))"


section \<open>CreateTask\<close>

definition unleased :: StoreLeaseState where
  "unleased = \<lparr>ls_Owner = [], ls_Fence = 0\<rparr>"

definition created_task :: "CreateTaskCommand \<Rightarrow> gotime \<Rightarrow> Task" where
  "created_task c now =
     \<lparr>task_Ref = ctc_Task c, task_Context = ctc_Context c, task_State = TaskSubmitted,
      task_Revision = 1, task_MessageCount = 1, task_EventCount = 1, task_Artifact = None,
      task_Submission = None, task_CreatedAt = now, task_UpdatedAt = now\<rparr>"

definition created_message :: "CreateTaskCommand \<Rightarrow> gotime \<Rightarrow> Message" where
  "created_message c now =
     \<lparr>msg_ID = mi_ID (ctc_Message c), msg_Task = ctc_Task c, msg_Sequence = 1,
      msg_Author = AuthorCaller, msg_Parts = mi_Parts (ctc_Message c), msg_CreatedAt = now\<rparr>"

definition created_event :: "CreateTaskCommand \<Rightarrow> gotime \<Rightarrow> Event" where
  "created_event c now =
     \<lparr>ev_Task = ctc_Task c, ev_Sequence = 1, ev_Type = EventTaskSubmitted, ev_State = TaskSubmitted,
      ev_Revision = 1, ev_Message = mi_ID (ctc_Message c), ev_Submission = [], ev_Artifact = [],
      ev_OccurredAt = now\<rparr>"

text \<open>The replay both callbacks of \<open>CreateTask\<close> begin with.\<close>

definition CreateTask_replay ::
    "env \<Rightarrow> 's store_ops \<Rightarrow> CreateTaskCommand \<Rightarrow> string \<Rightarrow> 's \<Rightarrow> Task option agent_result" where
  "CreateTask_replay E ops c digest s =
     bind_res (replayTaskCommandFromStore E ops s (tr_Authority (ctc_Task c)) (cm_ID (ctc_Meta c))
         ''create_task'' digest) (\<lambda>found. case found of
       None \<Rightarrow> Inr None
     | Some t \<Rightarrow>
         if task_Ref t \<noteq> ctc_Task c \<or> task_Context t \<noteq> ctc_Context c then Inl ErrCorruptStore
         else Inr (Some t))"

definition CreateTask_tx ::
    "env \<Rightarrow> 's store_ops \<Rightarrow> call \<Rightarrow> CreateTaskCommand \<Rightarrow> string \<Rightarrow> preparedMessageContent
     \<Rightarrow> 's \<Rightarrow> (Task \<times> 's) agent_result" where
  "CreateTask_tx E ops ce c digest prepared s =
     bind_res (CreateTask_replay E ops c digest s) (\<lambda>found. case found of
       Some t \<Rightarrow> Inr (t, s)
     | None \<Rightarrow>
         bind_res (checkedClockTime (call_clock ce)) (\<lambda>now.
         let task = created_task c now in
         bind_res (map_err (conflict_as ErrTaskConflict) (InsertTask ops s
             \<lparr>str_Task = task, str_Lease = unleased, str_ArtifactState = None\<rparr>)) (\<lambda>s1.
         bind_res (insertMessageToStore ops s1 (created_message c now) prepared) (\<lambda>s2.
         bind_res (insertEventToStore ops s2 (created_event c now)) (\<lambda>s3.
         bind_res (recordTaskCommandToStore E ops s3 (tr_Authority (ctc_Task c)) (cm_ID (ctc_Meta c))
             ''create_task'' digest task now) (\<lambda>s4.
           Inr (task, s4)))))))"

text \<open>
  Everything before the \<open>Update\<close>: the answer of an exact retry, or the digest and the prepared
  message.
\<close>

definition CreateTask_preflight ::
    "env \<Rightarrow> agent \<Rightarrow> 's store_ops \<Rightarrow> call \<Rightarrow> CreateTaskCommand \<Rightarrow> 's
     \<Rightarrow> (Task + string \<times> preparedMessageContent) agent_result" where
  "CreateTask_preflight E ag ops ce c sv =
     bind_res (validateCallContext (call_ctx ce)) (\<lambda>_.
     bind_res (validateCreateCommand E c) (\<lambda>_.
     bind_res (commandDigest E ''create_task'' (CmdCreateTask c)) (\<lambda>digest.
     bind_res (acquireStore ag) (\<lambda>_.
     bind_res (store_View (call_ctx ce) (CreateTask_replay E ops c digest) sv) (\<lambda>found. case found of
       Some t \<Rightarrow> Inr (Inl t)
     | None \<Rightarrow>
         bind_res (prepareMessageContent E ag (ctc_Task c) (ctc_Message c)) (\<lambda>prepared.
           Inr (Inr (digest, prepared))))))))"

definition CreateTask ::
    "env \<Rightarrow> agent \<Rightarrow> 's store_ops \<Rightarrow> call \<Rightarrow> CreateTaskCommand \<Rightarrow> 's \<Rightarrow> 's
     \<Rightarrow> Task agent_result \<times> 's" where
  "CreateTask E ag ops ce c sv s =
     (case CreateTask_preflight E ag ops ce c sv of
        Inl e \<Rightarrow> (Inl e, s)
      | Inr (Inl t) \<Rightarrow> (Inr t, s)
      | Inr (Inr (digest, prepared)) \<Rightarrow>
          store_Update (call_ctx ce) (call_commit ce) (CreateTask_tx E ops ce c digest prepared) s)"


section \<open>The state machine step\<close>

record transition =
  trn_allowed :: "TaskState list"
  trn_next :: TaskState
  trn_event :: EventType
  trn_author :: Author
  trn_message :: "MessageInput option"
  trn_submission :: SubmissionID
  trn_artifact :: "ArtifactRef option"
  trn_discardArtifact :: bool

definition containsState :: "TaskState list \<Rightarrow> TaskState \<Rightarrow> bool" where
  "containsState states candidate = list_ex (\<lambda>s. s = candidate) states"

definition transition_guard ::
    "string \<Rightarrow> CommandMeta \<Rightarrow> transition \<Rightarrow> Task \<Rightarrow> unit agent_result" where
  "transition_guard kind meta change current =
     (if task_Revision current \<noteq> cm_ExpectedRevision meta
      then Inl (RevisionConflictError (cm_ExpectedRevision meta) (task_Revision current))
      else if Terminal (task_State current) then Inl (TransitionError kind (task_State current) True)
      else if \<not> containsState (trn_allowed change) (task_State current)
      then Inl (TransitionError kind (task_State current) False)
      else if task_Revision current \<ge> MaxInt64 \<or> task_EventCount current \<ge> MaxInt64
              \<or> (trn_message change \<noteq> None \<and> task_MessageCount current \<ge> MaxInt64)
      then Inl ErrRevisionConflict
      else Inr ())"

definition transition_message_id :: "transition \<Rightarrow> MessageID" where
  "transition_message_id change = (case trn_message change of None \<Rightarrow> [] | Some m \<Rightarrow> mi_ID m)"

definition transition_submission :: "transition \<Rightarrow> TaskRef \<Rightarrow> gotime \<Rightarrow> Submission" where
  "transition_submission change ref now =
     \<lparr>sub_ID = trn_submission change, sub_Task = ref, sub_FinalMessage = transition_message_id change,
      sub_Artifact = trn_artifact change, sub_PublishedAt = now\<rparr>"

definition transition_next :: "transition \<Rightarrow> TaskRef \<Rightarrow> gotime \<Rightarrow> Task \<Rightarrow> Task" where
  "transition_next change ref now current =
     current\<lparr>task_State := trn_next change, task_Revision := task_Revision current + 1,
       task_EventCount := task_EventCount current + 1,
       task_MessageCount := (if trn_message change = None then task_MessageCount current
                             else task_MessageCount current + 1),
       task_Submission := (if trn_submission change = [] then task_Submission current
                           else Some (transition_submission change ref now)),
       task_UpdatedAt := now\<rparr>"

definition transition_record ::
    "transition \<Rightarrow> TaskRef \<Rightarrow> gotime \<Rightarrow> StoreTaskRecord \<Rightarrow> StoreTaskRecord" where
  "transition_record change ref now r =
     (let next = transition_next change ref now (str_Task r) in
      \<lparr>str_Task = next,
       str_Lease = (if Terminal (task_State next) then (str_Lease r)\<lparr>ls_Owner := []\<rparr> else str_Lease r),
       str_ArtifactState =
         (if trn_artifact change \<noteq> None then Some ArtifactPublished
          else if trn_discardArtifact change \<and> task_Artifact (str_Task r) \<noteq> None
          then Some ArtifactDiscarded
          else str_ArtifactState r)\<rparr>)"

definition transition_message :: "transition \<Rightarrow> TaskRef \<Rightarrow> gotime \<Rightarrow> Task \<Rightarrow> MessageInput \<Rightarrow> Message" where
  "transition_message change ref now next m =
     \<lparr>msg_ID = mi_ID m, msg_Task = ref, msg_Sequence = task_MessageCount next,
      msg_Author = trn_author change, msg_Parts = mi_Parts m, msg_CreatedAt = now\<rparr>"

definition transition_event :: "transition \<Rightarrow> TaskRef \<Rightarrow> gotime \<Rightarrow> Task \<Rightarrow> Event" where
  "transition_event change ref now next =
     \<lparr>ev_Task = ref, ev_Sequence = task_EventCount next, ev_Type = trn_event change,
      ev_State = task_State next, ev_Revision = task_Revision next,
      ev_Message = transition_message_id change, ev_Submission = trn_submission change,
      ev_Artifact = (case trn_artifact change of None \<Rightarrow> [] | Some a \<Rightarrow> ar_ID a),
      ev_OccurredAt = now\<rparr>"

definition transition_store_message ::
    "'s store_ops \<Rightarrow> transition \<Rightarrow> TaskRef \<Rightarrow> gotime \<Rightarrow> preparedMessageContent \<Rightarrow> Task \<Rightarrow> 's
     \<Rightarrow> 's agent_result" where
  "transition_store_message ops change ref now prepared next s =
     (case trn_message change of
        None \<Rightarrow> Inr s
      | Some m \<Rightarrow> insertMessageToStore ops s (transition_message change ref now next m) prepared)"

definition swap_artifact ::
    "'s store_ops \<Rightarrow> ArtifactRef \<Rightarrow> TaskRef \<Rightarrow> ArtifactState \<Rightarrow> gotime option \<Rightarrow> gotime option \<Rightarrow> 's
     \<Rightarrow> 's agent_result" where
  "swap_artifact ops a ref next_state published discarded s =
     bind_res (map_err StoreFailure (CompareAndSwapArtifact ops s
         \<lparr>sam_Ref = a, sam_Task = ref, sam_ExpectedState = ArtifactFrozen, sam_NextState = next_state,
          sam_PublishedAt = published, sam_DiscardedAt = discarded\<rparr>)) (\<lambda>(changed, s').
       if \<not> changed then Inl ErrArtifactState else Inr s')"

definition transition_discard_artifact ::
    "'s store_ops \<Rightarrow> transition \<Rightarrow> TaskRef \<Rightarrow> gotime \<Rightarrow> Task \<Rightarrow> 's \<Rightarrow> 's agent_result" where
  "transition_discard_artifact ops change ref now current s =
     (case task_Artifact current of
        Some a \<Rightarrow> if trn_discardArtifact change
                  then swap_artifact ops a ref ArtifactDiscarded None (Some now) s else Inr s
      | None \<Rightarrow> Inr s)"

definition transition_publish_artifact ::
    "'s store_ops \<Rightarrow> transition \<Rightarrow> TaskRef \<Rightarrow> gotime \<Rightarrow> 's \<Rightarrow> 's agent_result" where
  "transition_publish_artifact ops change ref now s =
     (case trn_artifact change of
        None \<Rightarrow> Inr s
      | Some a \<Rightarrow> swap_artifact ops a ref ArtifactPublished (Some now) None s)"

definition transition_store_submission ::
    "'s store_ops \<Rightarrow> transition \<Rightarrow> TaskRef \<Rightarrow> gotime \<Rightarrow> 's \<Rightarrow> 's agent_result" where
  "transition_store_submission ops change ref now s =
     (if trn_submission change = [] then Inr s
      else map_err (conflict_as ErrSubmissionConflict)
        (InsertSubmission ops s (transition_submission change ref now)))"

definition transition_effects ::
    "env \<Rightarrow> 's store_ops \<Rightarrow> string \<Rightarrow> CommandMeta \<Rightarrow> TaskRef \<Rightarrow> string \<Rightarrow> transition
     \<Rightarrow> preparedMessageContent \<Rightarrow> gotime \<Rightarrow> Task \<Rightarrow> 's \<Rightarrow> (Task \<times> 's) agent_result" where
  "transition_effects E ops kind meta ref digest change prepared now current s1 =
     (let next = transition_next change ref now current in
      bind_res (transition_store_message ops change ref now prepared next s1) (\<lambda>s2.
      bind_res (transition_discard_artifact ops change ref now current s2) (\<lambda>s3.
      bind_res (transition_publish_artifact ops change ref now s3) (\<lambda>s4.
      bind_res (transition_store_submission ops change ref now s4) (\<lambda>s5.
      bind_res (insertEventToStore ops s5 (transition_event change ref now next)) (\<lambda>s6.
      bind_res (recordTaskCommandToStore E ops s6 (tr_Authority ref) (cm_ID meta) kind digest next now)
        (\<lambda>s7. Inr (next, s7))))))))"

definition transition_replay ::
    "env \<Rightarrow> 's store_ops \<Rightarrow> string \<Rightarrow> CommandMeta \<Rightarrow> LeaseGrant option \<Rightarrow> TaskRef \<Rightarrow> string \<Rightarrow> 's
     \<Rightarrow> Task option agent_result" where
  "transition_replay E ops kind meta grant ref digest s =
     bind_res (replayTaskCommandFromStore E ops s (tr_Authority ref) (cm_ID meta) kind digest)
       (\<lambda>found. case found of
          None \<Rightarrow> Inr None
        | Some t \<Rightarrow>
            if task_Ref t \<noteq> ref then Inl ErrCorruptStore
            else (case grant of
                    None \<Rightarrow> Inr (Some t)
                  | Some g \<Rightarrow> bind_res (verifyLeaseGrantHistoryFromStore ops s g) (\<lambda>_. Inr (Some t))))"

definition require_grant :: "'s store_ops \<Rightarrow> 's \<Rightarrow> LeaseGrant option \<Rightarrow> unit agent_result" where
  "require_grant ops s grant =
     (case grant of None \<Rightarrow> Inr () | Some g \<Rightarrow> requireCurrentLeaseFromStore ops s g)"

definition transition_tx ::
    "env \<Rightarrow> 's store_ops \<Rightarrow> call \<Rightarrow> string \<Rightarrow> CommandMeta \<Rightarrow> LeaseGrant option \<Rightarrow> TaskRef \<Rightarrow> string
     \<Rightarrow> transition \<Rightarrow> preparedMessageContent \<Rightarrow> 's \<Rightarrow> (Task \<times> 's) agent_result" where
  "transition_tx E ops ce kind meta grant ref digest change prepared s =
     bind_res (transition_replay E ops kind meta grant ref digest s) (\<lambda>found. case found of
       Some t \<Rightarrow> Inr (t, s)
     | None \<Rightarrow>
         bind_res (loadTaskRecordFromStore ops s ref) (\<lambda>currentRecord.
         let current = str_Task currentRecord in
         bind_res (require_grant ops s grant) (\<lambda>_.
         bind_res (transition_guard kind meta change current) (\<lambda>_.
         bind_res (checkedClockTime (call_clock ce)) (\<lambda>clock.
         let now = timestampAtLeast clock [task_UpdatedAt current] in
         if trn_submission change \<noteq> [] \<and> task_Artifact current \<noteq> trn_artifact change
         then Inl ErrArtifactState
         else bind_res (map_err StoreFailure (CompareAndSwapTask ops s
             \<lparr>stm_Ref = ref,
              stm_Condition = \<lparr>stc_ExpectedRevision = cm_ExpectedRevision meta,
                stc_ExpectedLease = map_option (\<lambda>g. \<lparr>ls_Owner = lg_Worker g, ls_Fence = lg_Fence g\<rparr>) grant\<rparr>,
              stm_Next = transition_record change ref now currentRecord\<rparr>)) (\<lambda>(updated, s1).
           if \<not> updated then
             bind_res (require_grant ops s1 grant) (\<lambda>_.
             bind_res (loadTaskFromStore ops s1 ref) (\<lambda>latest.
               Inl (RevisionConflictError (cm_ExpectedRevision meta) (task_Revision latest))))
           else transition_effects E ops kind meta ref digest change prepared now current s1))))))"

definition no_content :: preparedMessageContent where
  "no_content = \<lparr>pmc_encoded = [], pmc_digest = []\<rparr>"

definition transition_preflight ::
    "env \<Rightarrow> agent \<Rightarrow> 's store_ops \<Rightarrow> call \<Rightarrow> string \<Rightarrow> CommandMeta \<Rightarrow> LeaseGrant option \<Rightarrow> TaskRef
     \<Rightarrow> agent_command \<Rightarrow> transition \<Rightarrow> 's \<Rightarrow> (Task + string \<times> preparedMessageContent) agent_result" where
  "transition_preflight E ag ops ce kind meta grant ref command change sv =
     bind_res (validateCallContext (call_ctx ce)) (\<lambda>_.
     bind_res (validateMeta meta False) (\<lambda>_.
     bind_res (validateTaskRef ref) (\<lambda>_.
     bind_res (commandDigest E kind command) (\<lambda>digest.
     bind_res (acquireStore ag) (\<lambda>_.
       case trn_message change of
         None \<Rightarrow> Inr (Inr (digest, no_content))
       | Some m \<Rightarrow>
           bind_res (store_View (call_ctx ce) (transition_replay E ops kind meta grant ref digest) sv)
             (\<lambda>found. case found of
                Some t \<Rightarrow> Inr (Inl t)
              | None \<Rightarrow> bind_res (prepareMessageContent E ag ref m) (\<lambda>prepared.
                  Inr (Inr (digest, prepared)))))))))"

definition run_transition ::
    "env \<Rightarrow> agent \<Rightarrow> 's store_ops \<Rightarrow> call \<Rightarrow> string \<Rightarrow> CommandMeta \<Rightarrow> LeaseGrant option \<Rightarrow> TaskRef
     \<Rightarrow> agent_command \<Rightarrow> transition \<Rightarrow> 's \<Rightarrow> 's \<Rightarrow> Task agent_result \<times> 's" where
  "run_transition E ag ops ce kind meta grant ref command change sv s =
     (case transition_preflight E ag ops ce kind meta grant ref command change sv of
        Inl e \<Rightarrow> (Inl e, s)
      | Inr (Inl t) \<Rightarrow> (Inr t, s)
      | Inr (Inr (digest, prepared)) \<Rightarrow>
          store_Update (call_ctx ce) (call_commit ce)
            (transition_tx E ops ce kind meta grant ref digest change prepared) s)"


section \<open>The commands over the state machine\<close>

definition accept_change :: transition where
  "accept_change = \<lparr>trn_allowed = [TaskSubmitted], trn_next = TaskWorking,
     trn_event = EventTaskAccepted, trn_author = AuthorOther [], trn_message = None,
     trn_submission = [], trn_artifact = None, trn_discardArtifact = False\<rparr>"

definition reject_change :: transition where
  "reject_change = \<lparr>trn_allowed = [TaskSubmitted], trn_next = TaskRejected,
     trn_event = EventTaskRejected, trn_author = AuthorOther [], trn_message = None,
     trn_submission = [], trn_artifact = None, trn_discardArtifact = False\<rparr>"

definition request_input_change :: "MessageInput \<Rightarrow> transition" where
  "request_input_change m = \<lparr>trn_allowed = [TaskWorking], trn_next = TaskInputRequired,
     trn_event = EventInputRequired, trn_author = AuthorAgent, trn_message = Some m,
     trn_submission = [], trn_artifact = None, trn_discardArtifact = False\<rparr>"

definition reply_change :: "MessageInput \<Rightarrow> transition" where
  "reply_change m = \<lparr>trn_allowed = [TaskInputRequired], trn_next = TaskWorking,
     trn_event = EventCallerReplied, trn_author = AuthorCaller, trn_message = Some m,
     trn_submission = [], trn_artifact = None, trn_discardArtifact = False\<rparr>"

definition cancel_change :: transition where
  "cancel_change = \<lparr>trn_allowed = [TaskSubmitted, TaskWorking, TaskInputRequired],
     trn_next = TaskCanceled, trn_event = EventTaskCanceled, trn_author = AuthorOther [],
     trn_message = None, trn_submission = [], trn_artifact = None, trn_discardArtifact = True\<rparr>"

definition fail_change :: transition where
  "fail_change = \<lparr>trn_allowed = [TaskWorking, TaskInputRequired], trn_next = TaskFailed,
     trn_event = EventTaskFailed, trn_author = AuthorOther [], trn_message = None,
     trn_submission = [], trn_artifact = None, trn_discardArtifact = True\<rparr>"

definition complete_change :: "MessageInput \<Rightarrow> SubmissionID \<Rightarrow> ArtifactRef option \<Rightarrow> transition" where
  "complete_change m sub artifact = \<lparr>trn_allowed = [TaskWorking], trn_next = TaskCompleted,
     trn_event = EventTaskCompleted, trn_author = AuthorAgent, trn_message = Some m,
     trn_submission = sub, trn_artifact = artifact, trn_discardArtifact = False\<rparr>"

definition AcceptTask ::
    "env \<Rightarrow> agent \<Rightarrow> 's store_ops \<Rightarrow> call \<Rightarrow> WorkerTaskCommand \<Rightarrow> 's \<Rightarrow> 's \<Rightarrow> Task agent_result \<times> 's" where
  "AcceptTask E ag ops ce c sv s =
     (case validateWorkerMeta (wtc_Meta c) (wtc_Task c) of
        Inl e \<Rightarrow> (Inl e, s)
      | Inr _ \<Rightarrow> run_transition E ag ops ce ''accept_task'' (commandMeta (wtc_Meta c))
          (Some (wcm_Grant (wtc_Meta c))) (wtc_Task c) (CmdWorkerTask c) accept_change sv s)"

definition RejectTask ::
    "env \<Rightarrow> agent \<Rightarrow> 's store_ops \<Rightarrow> call \<Rightarrow> WorkerTaskCommand \<Rightarrow> 's \<Rightarrow> 's \<Rightarrow> Task agent_result \<times> 's" where
  "RejectTask E ag ops ce c sv s =
     (case validateWorkerMeta (wtc_Meta c) (wtc_Task c) of
        Inl e \<Rightarrow> (Inl e, s)
      | Inr _ \<Rightarrow> run_transition E ag ops ce ''reject_task'' (commandMeta (wtc_Meta c))
          (Some (wcm_Grant (wtc_Meta c))) (wtc_Task c) (CmdWorkerTask c) reject_change sv s)"

definition RequestInput ::
    "env \<Rightarrow> agent \<Rightarrow> 's store_ops \<Rightarrow> call \<Rightarrow> WorkerMessageCommand \<Rightarrow> 's \<Rightarrow> 's \<Rightarrow> Task agent_result \<times> 's" where
  "RequestInput E ag ops ce c sv s =
     (case bind_res (validateCallContext (call_ctx ce)) (\<lambda>_.
           bind_res (validateWorkerMeta (wmc_Meta c) (wmc_Task c)) (\<lambda>_.
             validateMessageInput E (wmc_Message c))) of
        Inl e \<Rightarrow> (Inl e, s)
      | Inr _ \<Rightarrow> run_transition E ag ops ce ''request_input'' (commandMeta (wmc_Meta c))
          (Some (wcm_Grant (wmc_Meta c))) (wmc_Task c) (CmdWorkerMessage c)
          (request_input_change (wmc_Message c)) sv s)"

definition ReplyTask ::
    "env \<Rightarrow> agent \<Rightarrow> 's store_ops \<Rightarrow> call \<Rightarrow> MessageCommand \<Rightarrow> 's \<Rightarrow> 's \<Rightarrow> Task agent_result \<times> 's" where
  "ReplyTask E ag ops ce c sv s =
     (case bind_res (validateCallContext (call_ctx ce)) (\<lambda>_. validateMessageInput E (mc_Message c)) of
        Inl e \<Rightarrow> (Inl e, s)
      | Inr _ \<Rightarrow> run_transition E ag ops ce ''reply_task'' (mc_Meta c) None (mc_Task c) (CmdMessage c)
          (reply_change (mc_Message c)) sv s)"

definition CancelTask ::
    "env \<Rightarrow> agent \<Rightarrow> 's store_ops \<Rightarrow> call \<Rightarrow> TaskCommand \<Rightarrow> 's \<Rightarrow> 's \<Rightarrow> Task agent_result \<times> 's" where
  "CancelTask E ag ops ce c sv s =
     run_transition E ag ops ce ''cancel_task'' (tc_Meta c) None (tc_Task c) (CmdTask c)
       cancel_change sv s"

definition FailTask ::
    "env \<Rightarrow> agent \<Rightarrow> 's store_ops \<Rightarrow> call \<Rightarrow> WorkerTaskCommand \<Rightarrow> 's \<Rightarrow> 's \<Rightarrow> Task agent_result \<times> 's" where
  "FailTask E ag ops ce c sv s =
     (case validateWorkerMeta (wtc_Meta c) (wtc_Task c) of
        Inl e \<Rightarrow> (Inl e, s)
      | Inr _ \<Rightarrow> run_transition E ag ops ce ''fail_task'' (commandMeta (wtc_Meta c))
          (Some (wcm_Grant (wtc_Meta c))) (wtc_Task c) (CmdWorkerTask c) fail_change sv s)"

definition CompleteTask ::
    "env \<Rightarrow> agent \<Rightarrow> 's store_ops \<Rightarrow> call \<Rightarrow> CompleteTaskCommand \<Rightarrow> 's \<Rightarrow> 's \<Rightarrow> Task agent_result \<times> 's" where
  "CompleteTask E ag ops ce c sv s =
     (case bind_res (validateCallContext (call_ctx ce)) (\<lambda>_.
           bind_res (validateWorkerMeta (cmp_Meta c) (cmp_Task c)) (\<lambda>_.
           bind_res (case cmp_Artifact c of
               None \<Rightarrow> Inr ()
             | Some a \<Rightarrow>
                 if \<not> ok (validateArtifactRef a) \<or> ar_Workspace a \<noteq> tr_Workspace (cmp_Task c)
                 then Inl ErrInvalidArgument else Inr ()) (\<lambda>_.
           bind_res (validateStable (cmp_Submission c)) (\<lambda>_.
             validateMessageInput E (cmp_Message c))))) of
        Inl e \<Rightarrow> (Inl e, s)
      | Inr _ \<Rightarrow> run_transition E ag ops ce ''complete_task'' (commandMeta (cmp_Meta c))
          (Some (wcm_Grant (cmp_Meta c))) (cmp_Task c) (CmdCompleteTask c)
          (complete_change (cmp_Message c) (cmp_Submission c) (cmp_Artifact c)) sv s)"

end
