(* ===== verification/Agent_Lease.thy ===== *)
theory Agent_Lease
  imports Agent_Core
begin

text \<open>
  Leases, \<^verbatim>\<open>agent/lease.go\<close> and \<^verbatim>\<open>agent/dispatch.go\<close>: \<open>AcquireLease\<close> grants one named Task,
  \<open>ClaimLease\<close> the oldest claimable one, \<open>FenceLease\<close> retires a generation, \<open>GetLease\<close> and
  \<open>ListLeases\<close> read the current assignments. A grant writes its generation into the immutable
  history, moves the Task's lease and records the command in one transaction.
\<close>


section \<open>Granting\<close>

definition lease_assignment :: "StoreTaskRecord \<Rightarrow> WorkerID \<Rightarrow> gotime \<Rightarrow> LeaseAssignment" where
  "lease_assignment r worker now =
     \<lparr>la_Grant = \<lparr>lg_Task = task_Ref (str_Task r), lg_Worker = worker,
                 lg_Fence = ls_Fence (str_Lease r) + 1\<rparr>,
      la_Task = str_Task r, la_GrantedAt = now\<rparr>"

text \<open>The tail both grants share: the history entry, the swap of the Task, the receipt.\<close>

definition grant_lease ::
    "env \<Rightarrow> 's store_ops \<Rightarrow> string \<Rightarrow> string \<Rightarrow> AuthorityID \<Rightarrow> CommandID \<Rightarrow> StoreTaskRecord
     \<Rightarrow> LeaseAssignment \<Rightarrow> gotime \<Rightarrow> 's \<Rightarrow> (LeaseAssignment \<times> 's) agent_result" where
  "grant_lease E ops kind digest authority cid r a now s =
     bind_res (map_err (conflict_as ErrCorruptStore) (InsertLeaseGrant ops s
         \<lparr>slg_Grant = la_Grant a, slg_GrantedAt = now\<rparr>)) (\<lambda>s1.
     bind_res (map_err StoreFailure (CompareAndSwapTask ops s1
         \<lparr>stm_Ref = task_Ref (str_Task r),
          stm_Condition = \<lparr>stc_ExpectedRevision = task_Revision (str_Task r),
                          stc_ExpectedLease = Some (str_Lease r)\<rparr>,
          stm_Next = r\<lparr>str_Lease := \<lparr>ls_Owner = lg_Worker (la_Grant a), ls_Fence = lg_Fence (la_Grant a)\<rparr>\<rparr>\<rparr>))
       (\<lambda>(changed, s2).
         if \<not> changed then Inl ErrLeaseUnavailable
         else bind_res (recordJSONCommandToStore E ops s2 authority cid kind digest
             ''lease_assignment'' (JLeaseAssignment a) now) (\<lambda>s3. Inr (a, s3))))"


section \<open>AcquireLease\<close>

definition AcquireLease_replay ::
    "env \<Rightarrow> 's store_ops \<Rightarrow> AcquireLeaseCommand \<Rightarrow> string \<Rightarrow> 's \<Rightarrow> LeaseAssignment option agent_result"
where
  "AcquireLease_replay E ops c digest s =
     bind_res (replayJSONCommandFromStore E ops s (tr_Authority (alc_Task c)) (alc_ID c)
         ''acquire_lease'' digest ''lease_assignment'' DLeaseAssignment as_LeaseAssignment)
       (\<lambda>found. case found of
          None \<Rightarrow> Inr None
        | Some a \<Rightarrow>
            if \<not> ok (validateLeaseAssignment a) \<or> lg_Task (la_Grant a) \<noteq> alc_Task c
               \<or> lg_Worker (la_Grant a) \<noteq> alc_Worker c
            then Inl ErrCorruptStore
            else bind_res (verifyLeaseAssignmentFromStore ops s a) (\<lambda>_. Inr (Some a)))"

definition AcquireLease_tx ::
    "env \<Rightarrow> 's store_ops \<Rightarrow> call \<Rightarrow> AcquireLeaseCommand \<Rightarrow> string \<Rightarrow> 's
     \<Rightarrow> (LeaseAssignment \<times> 's) agent_result" where
  "AcquireLease_tx E ops ce c digest s =
     bind_res (AcquireLease_replay E ops c digest s) (\<lambda>found. case found of
       Some a \<Rightarrow> Inr (a, s)
     | None \<Rightarrow>
         bind_res (loadTaskRecordFromStore ops s (alc_Task c)) (\<lambda>r.
         bind_res (validateLeaseHistoryHeadFromStore ops s r) (\<lambda>previousGrantedAt.
           if Terminal (task_State (str_Task r))
           then Inl (TransitionError ''acquire_lease'' (task_State (str_Task r)) True)
           else if ls_Owner (str_Lease r) \<noteq> [] then Inl ErrLeaseUnavailable
           else if ls_Fence (str_Lease r) \<ge> MaxInt64 then Inl ErrLeaseFenceExhausted
           else bind_res (checkedClockTime (call_clock ce)) (\<lambda>clock.
             let now = timestampAtLeast clock [task_UpdatedAt (str_Task r), previousGrantedAt]
             in grant_lease E ops ''acquire_lease'' digest (tr_Authority (alc_Task c)) (alc_ID c) r
                  (lease_assignment r (alc_Worker c) now) now s))))"

definition AcquireLease_preflight :: "env \<Rightarrow> agent \<Rightarrow> call \<Rightarrow> AcquireLeaseCommand \<Rightarrow> string agent_result"
where
  "AcquireLease_preflight E ag ce c =
     bind_res (validateCallContext (call_ctx ce)) (\<lambda>_.
     bind_res (validateStable (alc_ID c)) (\<lambda>_.
     bind_res (validateTaskRef (alc_Task c)) (\<lambda>_.
     bind_res (validateStable (alc_Worker c)) (\<lambda>_.
     bind_res (commandDigest E ''acquire_lease'' (CmdAcquireLease c)) (\<lambda>digest.
     bind_res (acquireStore ag) (\<lambda>_. Inr digest))))))"

definition AcquireLease ::
    "env \<Rightarrow> agent \<Rightarrow> 's store_ops \<Rightarrow> call \<Rightarrow> AcquireLeaseCommand \<Rightarrow> 's
     \<Rightarrow> LeaseAssignment agent_result \<times> 's" where
  "AcquireLease E ag ops ce c s =
     (case AcquireLease_preflight E ag ce c of
        Inl e \<Rightarrow> (Inl e, s)
      | Inr digest \<Rightarrow>
          store_Update (call_ctx ce) (call_commit ce) (AcquireLease_tx E ops ce c digest) s)"


section \<open>ClaimLease\<close>

definition ClaimLease_replay ::
    "env \<Rightarrow> 's store_ops \<Rightarrow> ClaimLeaseCommand \<Rightarrow> string \<Rightarrow> 's \<Rightarrow> LeaseAssignment option agent_result"
where
  "ClaimLease_replay E ops c digest s =
     bind_res (replayJSONCommandFromStore E ops s (clc_Authority c) (clc_ID c)
         ''claim_lease'' digest ''lease_assignment'' DLeaseAssignment as_LeaseAssignment)
       (\<lambda>found. case found of
          None \<Rightarrow> Inr None
        | Some a \<Rightarrow>
            if \<not> ok (validateLeaseAssignment a) \<or> tr_Authority (lg_Task (la_Grant a)) \<noteq> clc_Authority c
               \<or> lg_Worker (la_Grant a) \<noteq> clc_Worker c
            then Inl ErrCorruptStore
            else bind_res (verifyLeaseAssignmentFromStore ops s a) (\<lambda>_. Inr (Some a)))"

definition ClaimLease_tx ::
    "env \<Rightarrow> 's store_ops \<Rightarrow> call \<Rightarrow> ClaimLeaseCommand \<Rightarrow> string \<Rightarrow> 's
     \<Rightarrow> (LeaseAssignment \<times> 's) agent_result" where
  "ClaimLease_tx E ops ce c digest s =
     bind_res (ClaimLease_replay E ops c digest s) (\<lambda>found. case found of
       Some a \<Rightarrow> Inr (a, s)
     | None \<Rightarrow>
         bind_res (map_err (not_found_as ErrLeaseNotFound) (FindClaimableTask ops s (clc_Authority c)))
         (\<lambda>r.
           if \<not> ok (validateStoreTaskRecord r)
              \<or> tr_Authority (task_Ref (str_Task r)) \<noteq> clc_Authority c
              \<or> Terminal (task_State (str_Task r)) \<or> ls_Owner (str_Lease r) \<noteq> []
           then Inl ErrCorruptStore
           else bind_res (validateLeaseHistoryHeadFromStore ops s r) (\<lambda>previousGrantedAt.
             if ls_Fence (str_Lease r) \<ge> MaxInt64 then Inl ErrLeaseFenceExhausted
             else bind_res (checkedClockTime (call_clock ce)) (\<lambda>clock.
               let now = timestampAtLeast clock [task_UpdatedAt (str_Task r), previousGrantedAt];
                   a = lease_assignment r (clc_Worker c) now
               in bind_res (validateLeaseAssignment a) (\<lambda>_.
                    grant_lease E ops ''claim_lease'' digest (clc_Authority c) (clc_ID c) r a now s)))))"

definition ClaimLease_preflight :: "env \<Rightarrow> agent \<Rightarrow> call \<Rightarrow> ClaimLeaseCommand \<Rightarrow> string agent_result"
where
  "ClaimLease_preflight E ag ce c =
     bind_res (validateCallContext (call_ctx ce)) (\<lambda>_.
     bind_res (validateStable (clc_ID c)) (\<lambda>_.
     bind_res (validateStable (clc_Authority c)) (\<lambda>_.
     bind_res (validateStable (clc_Worker c)) (\<lambda>_.
     bind_res (commandDigest E ''claim_lease'' (CmdClaimLease c)) (\<lambda>digest.
     bind_res (acquireStore ag) (\<lambda>_. Inr digest))))))"

definition ClaimLease ::
    "env \<Rightarrow> agent \<Rightarrow> 's store_ops \<Rightarrow> call \<Rightarrow> ClaimLeaseCommand \<Rightarrow> 's
     \<Rightarrow> LeaseAssignment agent_result \<times> 's" where
  "ClaimLease E ag ops ce c s =
     (case ClaimLease_preflight E ag ce c of
        Inl e \<Rightarrow> (Inl e, s)
      | Inr digest \<Rightarrow>
          store_Update (call_ctx ce) (call_commit ce) (ClaimLease_tx E ops ce c digest) s)"


section \<open>FenceLease\<close>

definition FenceLease_replay ::
    "env \<Rightarrow> 's store_ops \<Rightarrow> FenceLeaseCommand \<Rightarrow> string \<Rightarrow> 's \<Rightarrow> LeaseGrant option agent_result"
where
  "FenceLease_replay E ops c digest s =
     bind_res (replayJSONCommandFromStore E ops s (tr_Authority (lg_Task (flc_Grant c))) (flc_ID c)
         ''fence_lease'' digest ''lease_grant'' DLeaseGrant as_LeaseGrant)
       (\<lambda>found. case found of
          None \<Rightarrow> Inr None
        | Some g \<Rightarrow>
            if g \<noteq> flc_Grant c \<or> \<not> ok (validateLeaseGrant g) then Inl ErrCorruptStore
            else bind_res (map_err (\<lambda>e. if e = ErrStaleLease then ErrCorruptStore else e)
                (verifyLeaseGrantHistoryFromStore ops s g)) (\<lambda>_. Inr (Some g)))"

definition FenceLease_tx ::
    "env \<Rightarrow> 's store_ops \<Rightarrow> call \<Rightarrow> FenceLeaseCommand \<Rightarrow> string \<Rightarrow> 's \<Rightarrow> (unit \<times> 's) agent_result" where
  "FenceLease_tx E ops ce c digest s =
     bind_res (FenceLease_replay E ops c digest s) (\<lambda>found. case found of
       Some _ \<Rightarrow> Inr ((), s)
     | None \<Rightarrow>
         bind_res (loadTaskRecordFromStore ops s (lg_Task (flc_Grant c))) (\<lambda>r.
         bind_res (requireCurrentLeaseFromStore ops s (flc_Grant c)) (\<lambda>_.
         bind_res (map_err StoreFailure (CompareAndSwapTask ops s
             \<lparr>stm_Ref = lg_Task (flc_Grant c),
              stm_Condition = \<lparr>stc_ExpectedRevision = task_Revision (str_Task r),
                              stc_ExpectedLease = Some (str_Lease r)\<rparr>,
              stm_Next = r\<lparr>str_Lease := \<lparr>ls_Owner = [], ls_Fence = lg_Fence (flc_Grant c)\<rparr>\<rparr>\<rparr>))
         (\<lambda>(changed, s1).
           if \<not> changed then Inl ErrStaleLease
           else bind_res (checkedClockTime (call_clock ce)) (\<lambda>now.
             bind_res (recordJSONCommandToStore E ops s1 (tr_Authority (lg_Task (flc_Grant c)))
                 (flc_ID c) ''fence_lease'' digest ''lease_grant'' (JLeaseGrant (flc_Grant c)) now)
               (\<lambda>s2. Inr ((), s2)))))))"

definition FenceLease_preflight :: "env \<Rightarrow> agent \<Rightarrow> call \<Rightarrow> FenceLeaseCommand \<Rightarrow> string agent_result"
where
  "FenceLease_preflight E ag ce c =
     bind_res (validateCallContext (call_ctx ce)) (\<lambda>_.
     bind_res (validateStable (flc_ID c)) (\<lambda>_.
     bind_res (validateLeaseGrant (flc_Grant c)) (\<lambda>_.
     bind_res (commandDigest E ''fence_lease'' (CmdFenceLease c)) (\<lambda>digest.
     bind_res (acquireStore ag) (\<lambda>_. Inr digest)))))"

definition FenceLease ::
    "env \<Rightarrow> agent \<Rightarrow> 's store_ops \<Rightarrow> call \<Rightarrow> FenceLeaseCommand \<Rightarrow> 's \<Rightarrow> unit agent_result \<times> 's" where
  "FenceLease E ag ops ce c s =
     (case FenceLease_preflight E ag ce c of
        Inl e \<Rightarrow> (Inl e, s)
      | Inr digest \<Rightarrow>
          store_Update (call_ctx ce) (call_commit ce) (FenceLease_tx E ops ce c digest) s)"


section \<open>Reading leases\<close>

definition GetLease ::
    "agent \<Rightarrow> 's store_ops \<Rightarrow> call \<Rightarrow> TaskRef \<Rightarrow> 's \<Rightarrow> LeaseAssignment agent_result" where
  "GetLease ag ops ce ref s =
     bind_res (validateCallContext (call_ctx ce)) (\<lambda>_.
     bind_res (validateTaskRef ref) (\<lambda>_.
     bind_res (acquireStore ag) (\<lambda>_.
       store_View (call_ctx ce) (\<lambda>v. loadLeaseAssignmentFromStore ops v ref) s)))"

text \<open>The body of the loop over the listed rows.\<close>

fun check_leases ::
    "'s store_ops \<Rightarrow> 's \<Rightarrow> AuthorityID \<Rightarrow> WorkerID \<Rightarrow> LeaseAssignment list
     \<Rightarrow> LeaseAssignment list agent_result" where
  "check_leases ops s authority worker [] = Inr []"
| "check_leases ops s authority worker (a # rest) =
     (if \<not> ok (validateLeaseAssignment a) \<or> tr_Authority (lg_Task (la_Grant a)) \<noteq> authority
         \<or> lg_Worker (la_Grant a) \<noteq> worker
      then Inl ErrCorruptStore
      else bind_res (verifyLeaseAssignmentFromStore ops s a) (\<lambda>_.
           bind_res (loadTaskRecordFromStore ops s (lg_Task (la_Grant a))) (\<lambda>r.
             if ls_Owner (str_Lease r) \<noteq> worker \<or> ls_Fence (str_Lease r) \<noteq> lg_Fence (la_Grant a)
                \<or> task_Revision (str_Task r) \<noteq> task_Revision (la_Task a)
             then Inl ErrCorruptStore
             else bind_res (check_leases ops s authority worker rest) (\<lambda>items. Inr (a # items)))))"

definition lease_cursor_invalid :: "LeasePageCursor \<Rightarrow> bool" where
  "lease_cursor_invalid c =
     (\<not> validLeaseTimestamp (lpc_GrantedAt c) \<or> \<not> ok (validateStable (lpc_Workspace c))
      \<or> \<not> ok (validateStable (lpc_Task c)) \<or> lpc_Fence c = 0 \<or> lpc_Fence c > MaxInt64)"

definition ListLeases ::
    "agent \<Rightarrow> 's store_ops \<Rightarrow> call \<Rightarrow> AuthorityID \<Rightarrow> WorkerID \<Rightarrow> LeasePageRequest \<Rightarrow> 's
     \<Rightarrow> LeasePage agent_result" where
  "ListLeases ag ops ce authority worker request s =
     bind_res (validateCallContext (call_ctx ce)) (\<lambda>_.
     bind_res (validateStable authority) (\<lambda>_.
     bind_res (validateStable worker) (\<lambda>_.
     bind_res (normalizePageLimit (lpr_Limit request)) (\<lambda>limit.
       if (case lpr_After request of None \<Rightarrow> False | Some c \<Rightarrow> lease_cursor_invalid c)
       then Inl ErrInvalidArgument
       else bind_res (acquireStore ag) (\<lambda>_.
         store_View (call_ctx ce) (\<lambda>v.
           bind_res (map_err StoreFailure (ScanLeases ops v
               \<lparr>sls_Authority = authority, sls_Worker = worker, sls_After = lpr_After request,
                sls_Limit = limit + 1\<rparr>)) (\<lambda>listed.
           let hasMore = (int (length listed) > limit);
               kept = (if hasMore then take (nat limit) listed else listed)
           in bind_res (check_leases ops v authority worker kept) (\<lambda>items.
             Inr \<lparr>lp_Items = items,
                  lp_Next = (if hasMore \<and> items \<noteq> [] then
                     let a = last items in
                     Some (LeasePageCursor (la_GrantedAt a) (wr_ID (tr_Workspace (lg_Task (la_Grant a))))
                       (tr_ID (lg_Task (la_Grant a))) (lg_Fence (la_Grant a)))
                   else None),
                  lp_HasMore = hasMore\<rparr>))) s)))))"

end
