(* ===== verification/Agent_Artifact.thy ===== *)
theory Agent_Artifact
  imports Agent_Core
begin

text \<open>
  Artifacts, apply receipts and the confirmed workspace head, \<^verbatim>\<open>agent/artifact.go\<close>:
  \<open>FreezeArtifact\<close> binds one immutable payload to a working Task and to the confirmed head,
  \<open>RecordApplyReceipt\<close> records the caller's decision once and on success moves the head by a
  compare-and-swap, \<open>GetArtifact\<close>, \<open>GetApplyReceipt\<close> and \<open>GetWorkspaceHead\<close> read.
\<close>


section \<open>Loading\<close>

definition artifact_load_error :: "store_error \<Rightarrow> agent_error" where
  "artifact_load_error e =
     (if e = ErrStoreRecordNotFound then ErrArtifactNotFound
      else if e = ErrStoreRecordTooLarge then ErrCorruptStore
      else StoreFailure e)"

definition loadArtifactRecord ::
    "env \<Rightarrow> 's store_ops \<Rightarrow> 's \<Rightarrow> ArtifactRef \<Rightarrow> StoreArtifactRecord agent_result" where
  "loadArtifactRecord E ops s ref =
     bind_res (map_err artifact_load_error (LoadArtifact ops s ref MaxStoredValueBytes)) (\<lambda>r.
       if art_Ref (sar_Artifact r) \<noteq> ref then Inl ErrCorruptStore
       else if \<not> ok (validateStoredArtifactMetadata E (sar_Artifact r)) \<or> sar_EncodedPayload r = []
               \<or> int (length (sar_EncodedPayload r)) > MaxStoredValueBytes
       then Inl ErrCorruptStore
       else Inr r)"

definition loadApplyReceipt ::
    "'s store_ops \<Rightarrow> 's \<Rightarrow> ArtifactRef \<Rightarrow> ApplyReceipt option agent_result" where
  "loadApplyReceipt ops s ref =
     (case LoadApplyReceipt ops s ref of
        Inl e \<Rightarrow> if e = ErrStoreRecordNotFound then Inr None else Inl (StoreFailure e)
      | Inr r \<Rightarrow>
          if rcp_Artifact r \<noteq> ref then Inl ErrCorruptStore
          else bind_res (validateStoredReceipt r) (\<lambda>_. Inr (Some r)))"

definition receipt_matches_artifact :: "ApplyReceipt \<Rightarrow> Artifact \<Rightarrow> bool" where
  "receipt_matches_artifact r a =
     (art_State a = ArtifactPublished
      \<and> rcp_ArtifactDigest r = art_Digest a \<and> rcp_BaseRevision r = art_BaseRevision a
      \<and> rcp_ResultRevision r = art_ResultRevision a
      \<and> (case art_PublishedAt a of None \<Rightarrow> False | Some p \<Rightarrow> \<not> rcp_RecordedAt r < p))"

definition loadVerifiedApplyReceipt ::
    "env \<Rightarrow> 's store_ops \<Rightarrow> 's \<Rightarrow> ArtifactRef \<Rightarrow> ApplyReceipt option agent_result" where
  "loadVerifiedApplyReceipt E ops s ref =
     bind_res (loadApplyReceipt ops s ref) (\<lambda>found. case found of
       None \<Rightarrow> Inr None
     | Some r \<Rightarrow>
         bind_res (loadArtifactRecord E ops s ref) (\<lambda>stored.
           if \<not> receipt_matches_artifact r (sar_Artifact stored) then Inl ErrCorruptStore
           else Inr (Some r)))"

definition loadArtifactWorkspaceHead ::
    "'s store_ops \<Rightarrow> 's \<Rightarrow> WorkspaceRef \<Rightarrow> WorkspaceHead agent_result" where
  "loadArtifactWorkspaceHead ops s ref =
     bind_res (map_err (not_found_as ErrWorkspaceNotFound) (LoadWorkspaceHead ops s ref)) (\<lambda>head.
       if wh_Workspace head \<noteq> ref \<or> \<not> ok (validateRevision (wh_ConfirmedRevision head))
          \<or> wh_UpdatedAt head = zero_time
       then Inl ErrCorruptStore else Inr head)"

definition verifyArtifactLeaseGrantHistory ::
    "'s store_ops \<Rightarrow> 's \<Rightarrow> LeaseGrant \<Rightarrow> gotime agent_result" where
  "verifyArtifactLeaseGrantHistory ops s grant =
     bind_res (validateLeaseGrant grant) (\<lambda>_.
     bind_res (map_err (\<lambda>e. if e = ErrNotFound then ErrCorruptStore else e)
         (loadTaskRecordFromStore ops s (lg_Task grant))) (\<lambda>t.
     bind_res (map_err (not_found_as ErrCorruptStore)
         (LoadLeaseGrant ops s (lg_Task grant) (lg_Fence grant))) (\<lambda>r.
       if slg_Grant r \<noteq> grant \<or> \<not> validLeaseTimestamp (slg_GrantedAt r) then Inl ErrCorruptStore
       else if slg_GrantedAt r < task_CreatedAt (str_Task t) then Inl ErrCorruptStore
       else Inr (slg_GrantedAt r))))"

definition requireArtifactCurrentLease ::
    "'s store_ops \<Rightarrow> 's \<Rightarrow> StoreTaskRecord \<Rightarrow> LeaseGrant \<Rightarrow> unit agent_result" where
  "requireArtifactCurrentLease ops s t grant =
     bind_res (validateLeaseGrant grant) (\<lambda>_.
     if task_Ref (str_Task t) \<noteq> lg_Task grant then Inl ErrCorruptStore
     else if ls_Fence (str_Lease t) > MaxInt64
             \<or> (ls_Fence (str_Lease t) = 0 \<and> ls_Owner (str_Lease t) \<noteq> []) then Inl ErrCorruptStore
     else if ls_Owner (str_Lease t) \<noteq> [] \<and> \<not> ok (validateStable (ls_Owner (str_Lease t)))
     then Inl ErrCorruptStore
     else case LoadLatestLeaseGrant ops s (lg_Task grant) of
       Inl e \<Rightarrow>
         if e = ErrStoreRecordNotFound
         then Inl (if ls_Fence (str_Lease t) \<noteq> 0 then ErrCorruptStore else ErrStaleLease)
         else Inl (StoreFailure e)
     | Inr latest \<Rightarrow>
         if \<not> ok (validateLeaseGrant (slg_Grant latest))
            \<or> lg_Task (slg_Grant latest) \<noteq> lg_Task grant
            \<or> lg_Fence (slg_Grant latest) \<noteq> ls_Fence (str_Lease t)
            \<or> \<not> validLeaseTimestamp (slg_GrantedAt latest)
            \<or> slg_GrantedAt latest < task_CreatedAt (str_Task t)
         then Inl ErrCorruptStore
         else if ls_Owner (str_Lease t) \<noteq> [] \<and> lg_Worker (slg_Grant latest) \<noteq> ls_Owner (str_Lease t)
         then Inl ErrCorruptStore
         else if ls_Owner (str_Lease t) \<noteq> lg_Worker grant \<or> ls_Fence (str_Lease t) \<noteq> lg_Fence grant
         then Inl ErrStaleLease
         else if slg_Grant latest \<noteq> grant then Inl ErrCorruptStore
         else bind_res (map_err (not_found_as ErrCorruptStore)
             (LoadLeaseGrant ops s (lg_Task grant) (lg_Fence grant))) (\<lambda>exact.
           if slg_Grant exact \<noteq> slg_Grant latest \<or> slg_GrantedAt exact \<noteq> slg_GrantedAt latest
           then Inl ErrCorruptStore else Inr ()))"

definition sameReceiptDecision :: "ApplyReceipt \<Rightarrow> ApplyReceipt \<Rightarrow> bool" where
  "sameReceiptDecision l r =
     (rcp_ID l = rcp_ID r \<and> rcp_Artifact l = rcp_Artifact r
      \<and> rcp_ArtifactDigest l = rcp_ArtifactDigest r \<and> rcp_BaseRevision l = rcp_BaseRevision r
      \<and> rcp_ResultRevision l = rcp_ResultRevision r \<and> rcp_Decision l = rcp_Decision r
      \<and> rcp_ObservedRevision l = rcp_ObservedRevision r \<and> rcp_Code l = rcp_Code r
      \<and> rcp_Message l = rcp_Message r)"

definition sameReceipt :: "ApplyReceipt \<Rightarrow> ApplyReceipt \<Rightarrow> bool" where
  "sameReceipt l r = (sameReceiptDecision l r \<and> rcp_RecordedAt l = rcp_RecordedAt r)"

definition sameArtifactIdentity :: "Artifact \<Rightarrow> Artifact \<Rightarrow> bool" where
  "sameArtifactIdentity l r =
     (art_Ref l = art_Ref r \<and> art_Task l = art_Task r
      \<and> art_BaseRevision l = art_BaseRevision r \<and> art_ResultRevision l = art_ResultRevision r
      \<and> art_Digest l = art_Digest r \<and> art_PayloadDigest l = art_PayloadDigest r
      \<and> art_PayloadSize l = art_PayloadSize r \<and> art_MediaType l = art_MediaType r
      \<and> art_FrozenAt l = art_FrozenAt r)"


section \<open>FreezeArtifact\<close>

definition freeze_ref :: "FreezeArtifactCommand \<Rightarrow> ArtifactRef" where
  "freeze_ref c = \<lparr>ar_Workspace = tr_Workspace (fac_Task c), ar_ID = fac_Artifact c\<rparr>"

text \<open>The Artifact before its freeze time is known, \<open>artifactIdentity\<close>.\<close>

definition artifactIdentity :: "env \<Rightarrow> FreezeArtifactCommand \<Rightarrow> Artifact" where
  "artifactIdentity E c =
     (let payloadDigest = digestPayload E (fac_Payload c);
          resultRevision = nextRevision E (fac_ExpectedBaseRevision c) (freeze_ref c) payloadDigest in
      \<lparr>art_Ref = freeze_ref c, art_Task = fac_Task c, art_State = ArtifactFrozen,
       art_BaseRevision = fac_ExpectedBaseRevision c, art_ResultRevision = resultRevision,
       art_Digest = digestArtifact E (freeze_ref c) (fac_Task c) (fac_ExpectedBaseRevision c)
         resultRevision payloadDigest (pl_MediaType (fac_Payload c)),
       art_PayloadDigest = payloadDigest, art_PayloadSize = int (length (pl_Data (fac_Payload c))),
       art_MediaType = pl_MediaType (fac_Payload c), art_FrozenAt = zero_time,
       art_PublishedAt = None, art_DiscardedAt = None\<rparr>)"

definition FreezeArtifact_replay ::
    "env \<Rightarrow> 's store_ops \<Rightarrow> FreezeArtifactCommand \<Rightarrow> string \<Rightarrow> 's
     \<Rightarrow> (FreezeArtifactResult \<times> StoreArtifactRecord) option agent_result" where
  "FreezeArtifact_replay E ops c digest s =
     bind_res (replayJSONCommandFromStore E ops s (tr_Authority (fac_Task c)) (wcm_ID (fac_Meta c))
         ''freeze_artifact'' digest ''freeze_artifact'' DFreezeResult as_FreezeResult)
       (\<lambda>found. case found of
          None \<Rightarrow> Inr None
        | Some r \<Rightarrow>
            bind_res (validateFreezeResult r) (\<lambda>_.
              if task_Ref (far_Task r) \<noteq> fac_Task c \<or> art_Ref (far_Artifact r) \<noteq> freeze_ref c
              then Inl ErrCorruptStore
              else bind_res (verifyArtifactLeaseGrantHistory ops s (wcm_Grant (fac_Meta c))) (\<lambda>_.
                case loadArtifactRecord E ops s (art_Ref (far_Artifact r)) of
                  Inl _ \<Rightarrow> Inl ErrCorruptStore
                | Inr stored \<Rightarrow>
                    if \<not> sameArtifactIdentity (sar_Artifact stored) (far_Artifact r)
                    then Inl ErrCorruptStore else Inr (Some (r, stored)))))"

definition freeze_guard :: "FreezeArtifactCommand \<Rightarrow> Task \<Rightarrow> unit agent_result" where
  "freeze_guard c current =
     (if task_Revision current \<noteq> wcm_ExpectedRevision (fac_Meta c)
      then Inl (RevisionConflictError (wcm_ExpectedRevision (fac_Meta c)) (task_Revision current))
      else if Terminal (task_State current)
      then Inl (TransitionError ''freeze_artifact'' (task_State current) True)
      else if task_State current \<noteq> TaskWorking
      then Inl (TransitionError ''freeze_artifact'' (task_State current) False)
      else if task_Artifact current \<noteq> None \<or> task_Submission current \<noteq> None
      then Inl ErrArtifactConflict
      else if task_Revision current \<ge> MaxInt64 \<or> task_EventCount current \<ge> MaxInt64
      then Inl ErrRevisionConflict
      else Inr ())"

definition freeze_next :: "FreezeArtifactCommand \<Rightarrow> gotime \<Rightarrow> Task \<Rightarrow> Task" where
  "freeze_next c now current =
     current\<lparr>task_Revision := task_Revision current + 1, task_EventCount := task_EventCount current + 1,
       task_UpdatedAt := now, task_Artifact := Some (freeze_ref c)\<rparr>"

definition freeze_event :: "FreezeArtifactCommand \<Rightarrow> gotime \<Rightarrow> Task \<Rightarrow> Event" where
  "freeze_event c now next =
     \<lparr>ev_Task = fac_Task c, ev_Sequence = task_EventCount next, ev_Type = EventArtifactFrozen,
      ev_State = TaskWorking, ev_Revision = task_Revision next, ev_Message = [], ev_Submission = [],
      ev_Artifact = ar_ID (freeze_ref c), ev_OccurredAt = now\<rparr>"

text \<open>After the guards: the head, the Artifact, the Task, the event and the receipt.\<close>

definition freeze_effects ::
    "env \<Rightarrow> 's store_ops \<Rightarrow> FreezeArtifactCommand \<Rightarrow> string \<Rightarrow> bytes \<Rightarrow> gotime \<Rightarrow> StoreTaskRecord \<Rightarrow> 's
     \<Rightarrow> (FreezeArtifactResult \<times> 's) agent_result" where
  "freeze_effects E ops c digest preparedPayload now r s =
     bind_res (map_err StoreFailure (InsertWorkspaceHead ops s
         \<lparr>wh_Workspace = tr_Workspace (fac_Task c), wh_ConfirmedRevision = fac_ExpectedBaseRevision c,
          wh_UpdatedAt = now\<rparr>)) (\<lambda>(_, s1).
     bind_res (loadArtifactWorkspaceHead ops s1 (tr_Workspace (fac_Task c))) (\<lambda>head.
       if wh_ConfirmedRevision head \<noteq> fac_ExpectedBaseRevision c then Inl ErrWorkspaceConflict
       else
         let artifact = (artifactIdentity E c)\<lparr>art_FrozenAt := now\<rparr>;
             next = freeze_next c now (str_Task r) in
         bind_res (map_err (conflict_as ErrArtifactConflict) (InsertArtifact ops s1
             \<lparr>sar_Artifact = artifact, sar_EncodedPayload = preparedPayload\<rparr>)) (\<lambda>s2.
         bind_res (map_err StoreFailure (CompareAndSwapTask ops s2
             \<lparr>stm_Ref = fac_Task c,
              stm_Condition = \<lparr>stc_ExpectedRevision = wcm_ExpectedRevision (fac_Meta c),
                stc_ExpectedLease = Some \<lparr>ls_Owner = lg_Worker (wcm_Grant (fac_Meta c)),
                                         ls_Fence = lg_Fence (wcm_Grant (fac_Meta c))\<rparr>\<rparr>,
              stm_Next = r\<lparr>str_Task := next, str_ArtifactState := Some ArtifactFrozen\<rparr>\<rparr>))
           (\<lambda>(changed, s3).
             if \<not> changed then
               bind_res (loadTaskRecordFromStore ops s3 (fac_Task c)) (\<lambda>latest.
               bind_res (requireArtifactCurrentLease ops s3 latest (wcm_Grant (fac_Meta c))) (\<lambda>_.
                 Inl (RevisionConflictError (wcm_ExpectedRevision (fac_Meta c))
                        (task_Revision (str_Task latest)))))
             else
               bind_res (insertEventToStore ops s3 (freeze_event c now next)) (\<lambda>s4.
               let frozen = \<lparr>far_Task = next, far_Artifact = artifact\<rparr> in
               bind_res (recordJSONCommandToStore E ops s4 (tr_Authority (fac_Task c))
                   (wcm_ID (fac_Meta c)) ''freeze_artifact'' digest ''freeze_artifact''
                   (JFreezeResult frozen) now) (\<lambda>s5. Inr (frozen, s5)))))))"

definition FreezeArtifact_tx ::
    "env \<Rightarrow> 's store_ops \<Rightarrow> call \<Rightarrow> FreezeArtifactCommand \<Rightarrow> string \<Rightarrow> bytes \<Rightarrow> 's
     \<Rightarrow> ((FreezeArtifactResult \<times> StoreArtifactRecord option) \<times> 's) agent_result" where
  "FreezeArtifact_tx E ops ce c digest preparedPayload s =
     bind_res (FreezeArtifact_replay E ops c digest s) (\<lambda>found. case found of
       Some (r, stored) \<Rightarrow> Inr ((r, Some stored), s)
     | None \<Rightarrow>
         bind_res (loadTaskRecordFromStore ops s (fac_Task c)) (\<lambda>r.
         bind_res (requireArtifactCurrentLease ops s r (wcm_Grant (fac_Meta c))) (\<lambda>_.
         bind_res (freeze_guard c (str_Task r)) (\<lambda>_.
         bind_res (checkedClockTime (call_clock ce)) (\<lambda>clock.
         let now = timestampAtLeast clock [task_UpdatedAt (str_Task r)] in
         bind_res (freeze_effects E ops c digest preparedPayload now r s) (\<lambda>(frozen, s').
           Inr ((frozen, None), s')))))))"

definition FreezeArtifact_preflight ::
    "env \<Rightarrow> agent \<Rightarrow> 's store_ops \<Rightarrow> call \<Rightarrow> FreezeArtifactCommand \<Rightarrow> 's
     \<Rightarrow> (FreezeArtifactResult + string \<times> bytes) agent_result" where
  "FreezeArtifact_preflight E ag ops ce c sv =
     bind_res (validateCallContext (call_ctx ce)) (\<lambda>_.
     bind_res (validateWorkerMeta (fac_Meta c) (fac_Task c)) (\<lambda>_.
     bind_res (validateTaskRef (fac_Task c)) (\<lambda>_.
     bind_res (validateStable (fac_Artifact c)) (\<lambda>_.
     bind_res (validateRevision (fac_ExpectedBaseRevision c)) (\<lambda>_.
     bind_res (validateArtifactPayloadShape E (fac_Payload c)) (\<lambda>_.
     bind_res (commandDigest E ''freeze_artifact'' (CmdFreezeArtifact c)) (\<lambda>digest.
     bind_res (acquireStore ag) (\<lambda>_.
     bind_res (store_View (call_ctx ce) (FreezeArtifact_replay E ops c digest) sv) (\<lambda>found.
       case found of
         Some (r, stored) \<Rightarrow>
           bind_res (validateStoredValueShape E ag (sar_EncodedPayload stored) MaxStoredValueBytes)
             (\<lambda>_. Inr (Inl r))
       | None \<Rightarrow>
           if int (length (pl_Data (fac_Payload c))) > ag_maxArtifactBytes ag
           then Inl ErrInvalidArgument
           else bind_res (prepareArtifactPayload E ag (artifactIdentity E c) (fac_Payload c))
             (\<lambda>preparedPayload. Inr (Inr (digest, preparedPayload))))))))))))"

definition FreezeArtifact ::
    "env \<Rightarrow> agent \<Rightarrow> 's store_ops \<Rightarrow> call \<Rightarrow> FreezeArtifactCommand \<Rightarrow> 's \<Rightarrow> 's
     \<Rightarrow> FreezeArtifactResult agent_result \<times> 's" where
  "FreezeArtifact E ag ops ce c sv s =
     (case FreezeArtifact_preflight E ag ops ce c sv of
        Inl e \<Rightarrow> (Inl e, s)
      | Inr (Inl r) \<Rightarrow> (Inr r, s)
      | Inr (Inr (digest, preparedPayload)) \<Rightarrow>
          (case store_Update (call_ctx ce) (call_commit ce)
                  (FreezeArtifact_tx E ops ce c digest preparedPayload) s of
             (Inl e, s') \<Rightarrow> (Inl e, s')
           | (Inr (r, None), s') \<Rightarrow> (Inr r, s')
           | (Inr (r, Some stored), s') \<Rightarrow>
               (bind_res (validateStoredValueShape E ag (sar_EncodedPayload stored) MaxStoredValueBytes)
                  (\<lambda>_. Inr r), s')))"


section \<open>RecordApplyReceipt\<close>

definition RecordApplyReceipt_replay ::
    "env \<Rightarrow> 's store_ops \<Rightarrow> RecordApplyReceiptCommand \<Rightarrow> string \<Rightarrow> 's
     \<Rightarrow> ApplyReceipt option agent_result" where
  "RecordApplyReceipt_replay E ops c digest s =
     bind_res (replayJSONCommandFromStore E ops s (ar_Authority (rrc_Artifact c)) (rrc_CommandID c)
         ''record_apply_receipt'' digest ''apply_receipt'' DApplyReceipt as_ApplyReceipt)
       (\<lambda>found. case found of
          None \<Rightarrow> Inr None
        | Some r \<Rightarrow>
            bind_res (validateStoredReceipt r) (\<lambda>_.
              if rcp_Artifact r \<noteq> rrc_Artifact c \<or> rcp_ID r \<noteq> rrc_Receipt c then Inl ErrCorruptStore
              else bind_res (loadVerifiedApplyReceipt E ops s (rcp_Artifact r)) (\<lambda>authoritative.
                case authoritative of
                  None \<Rightarrow> Inl ErrCorruptStore
                | Some r' \<Rightarrow> if \<not> sameReceipt r r' then Inl ErrCorruptStore else Inr (Some r))))"

definition new_receipt :: "RecordApplyReceiptCommand \<Rightarrow> gotime \<Rightarrow> ApplyReceipt" where
  "new_receipt c now =
     \<lparr>rcp_ID = rrc_Receipt c, rcp_Artifact = rrc_Artifact c, rcp_ArtifactDigest = rrc_ArtifactDigest c,
      rcp_BaseRevision = rrc_BaseRevision c, rcp_ResultRevision = rrc_ResultRevision c,
      rcp_Decision = rrc_Decision c, rcp_ObservedRevision = rrc_ObservedRevision c,
      rcp_Code = rrc_Code c, rcp_Message = rrc_Message c, rcp_RecordedAt = now\<rparr>"

definition advance_head ::
    "'s store_ops \<Rightarrow> Artifact \<Rightarrow> gotime \<Rightarrow> 's \<Rightarrow> 's agent_result" where
  "advance_head ops artifact now s =
     bind_res (map_err StoreFailure (CompareAndSwapWorkspaceHead ops s
         \<lparr>swm_Workspace = ar_Workspace (art_Ref artifact),
          swm_ExpectedRevision = art_BaseRevision artifact,
          swm_Next = \<lparr>wh_Workspace = ar_Workspace (art_Ref artifact),
                     wh_ConfirmedRevision = art_ResultRevision artifact, wh_UpdatedAt = now\<rparr>\<rparr>))
       (\<lambda>(changed, s'). if \<not> changed then Inl ErrWorkspaceConflict else Inr s')"

text \<open>
  A Published Artifact that \<open>loadArtifactRecord\<close> accepted has its publication time, so the
  dereference of \<open>PublishedAt\<close> finds one.
\<close>

definition receipt_floors :: "Artifact \<Rightarrow> gotime list" where
  "receipt_floors a = art_FrozenAt a # (case art_PublishedAt a of None \<Rightarrow> [] | Some p \<Rightarrow> [p])"

text \<open>The durable decision: the one already there, or the new one with its move of the head.\<close>

definition settle_receipt ::
    "'s store_ops \<Rightarrow> RecordApplyReceiptCommand \<Rightarrow> Artifact \<Rightarrow> ApplyReceipt option \<Rightarrow> gotime \<Rightarrow> 's
     \<Rightarrow> (ApplyReceipt \<times> 's) agent_result" where
  "settle_receipt ops c artifact existing now s =
     (let receipt = new_receipt c now in
      case existing of
        Some r \<Rightarrow> if \<not> sameReceiptDecision r receipt then Inl ErrReceiptConflict else Inr (r, s)
      | None \<Rightarrow>
          bind_res (if rrc_Decision c = ApplySuccess then advance_head ops artifact now s else Inr s) (\<lambda>s1.
          bind_res (map_err (conflict_as ErrReceiptConflict) (InsertApplyReceipt ops s1 receipt))
            (\<lambda>s2. Inr (receipt, s2))))"

definition RecordApplyReceipt_tx ::
    "env \<Rightarrow> 's store_ops \<Rightarrow> call \<Rightarrow> RecordApplyReceiptCommand \<Rightarrow> string \<Rightarrow> 's
     \<Rightarrow> (ApplyReceipt \<times> 's) agent_result" where
  "RecordApplyReceipt_tx E ops ce c digest s =
     bind_res (RecordApplyReceipt_replay E ops c digest s) (\<lambda>found. case found of
       Some r \<Rightarrow> Inr (r, s)
     | None \<Rightarrow>
         bind_res (loadArtifactRecord E ops s (rrc_Artifact c)) (\<lambda>stored.
         let artifact = sar_Artifact stored in
         if art_State artifact \<noteq> ArtifactPublished then Inl ErrArtifactState
         else if rrc_ArtifactDigest c \<noteq> art_Digest artifact \<or> rrc_BaseRevision c \<noteq> art_BaseRevision artifact
                 \<or> rrc_ResultRevision c \<noteq> art_ResultRevision artifact
         then Inl ErrReceiptConflict
         else bind_res (loadVerifiedApplyReceipt E ops s (rrc_Artifact c)) (\<lambda>existing.
              bind_res (checkedClockTime (call_clock ce)) (\<lambda>clock.
              let now = timestampAtLeast clock (receipt_floors artifact) in
              bind_res (settle_receipt ops c artifact existing now s) (\<lambda>(receipt, s3).
              bind_res (recordJSONCommandToStore E ops s3 (ar_Authority (rrc_Artifact c))
                  (rrc_CommandID c) ''record_apply_receipt'' digest ''apply_receipt''
                  (JApplyReceipt receipt) now) (\<lambda>s4. Inr (receipt, s4)))))))"

definition RecordApplyReceipt_preflight ::
    "env \<Rightarrow> agent \<Rightarrow> call \<Rightarrow> RecordApplyReceiptCommand \<Rightarrow> string agent_result" where
  "RecordApplyReceipt_preflight E ag ce c =
     bind_res (validateCallContext (call_ctx ce)) (\<lambda>_.
     bind_res (validateReceiptCommand c) (\<lambda>_.
     bind_res (commandDigest E ''record_apply_receipt'' (CmdRecordApplyReceipt c)) (\<lambda>digest.
     bind_res (acquireStore ag) (\<lambda>_. Inr digest))))"

definition RecordApplyReceipt ::
    "env \<Rightarrow> agent \<Rightarrow> 's store_ops \<Rightarrow> call \<Rightarrow> RecordApplyReceiptCommand \<Rightarrow> 's
     \<Rightarrow> ApplyReceipt agent_result \<times> 's" where
  "RecordApplyReceipt E ag ops ce c s =
     (case RecordApplyReceipt_preflight E ag ce c of
        Inl e \<Rightarrow> (Inl e, s)
      | Inr digest \<Rightarrow>
          store_Update (call_ctx ce) (call_commit ce) (RecordApplyReceipt_tx E ops ce c digest) s)"


section \<open>Reading\<close>

definition GetArtifact ::
    "env \<Rightarrow> agent \<Rightarrow> 's store_ops \<Rightarrow> call \<Rightarrow> ArtifactRef \<Rightarrow> 's \<Rightarrow> ArtifactContent agent_result" where
  "GetArtifact E ag ops ce ref s =
     bind_res (validateCallContext (call_ctx ce)) (\<lambda>_.
     bind_res (validateArtifactRef ref) (\<lambda>_.
     bind_res (acquireStore ag) (\<lambda>_.
     bind_res (store_View (call_ctx ce) (\<lambda>v. loadArtifactRecord E ops v ref) s) (\<lambda>r.
       artifactContentFromStoreRecord E ag r))))"

definition GetApplyReceipt ::
    "env \<Rightarrow> agent \<Rightarrow> 's store_ops \<Rightarrow> call \<Rightarrow> ArtifactRef \<Rightarrow> 's \<Rightarrow> ApplyReceipt agent_result" where
  "GetApplyReceipt E ag ops ce ref s =
     bind_res (validateCallContext (call_ctx ce)) (\<lambda>_.
     bind_res (validateArtifactRef ref) (\<lambda>_.
     bind_res (acquireStore ag) (\<lambda>_.
     bind_res (store_View (call_ctx ce) (\<lambda>v. loadVerifiedApplyReceipt E ops v ref) s) (\<lambda>found.
       case found of None \<Rightarrow> Inl ErrReceiptNotFound | Some r \<Rightarrow> Inr r))))"

definition GetWorkspaceHead ::
    "agent \<Rightarrow> 's store_ops \<Rightarrow> call \<Rightarrow> WorkspaceRef \<Rightarrow> 's \<Rightarrow> WorkspaceHead agent_result" where
  "GetWorkspaceHead ag ops ce ref s =
     bind_res (validateCallContext (call_ctx ce)) (\<lambda>_.
     bind_res (validateWorkspaceRef ref) (\<lambda>_.
     bind_res (acquireStore ag) (\<lambda>_.
       store_View (call_ctx ce) (\<lambda>v. loadArtifactWorkspaceHead ops v ref) s)))"

end
