(* ===== verification/Agent_Effects.thy ===== *)
theory Agent_Effects
  imports Agent_Lease Agent_Artifact
begin

text \<open>
  The abstract specification of the Agent: what a committed command does to the abstract
  database, and the step relation \<open>agent_step\<close> of the whole domain with the guards under which
  each command may commit. \<open>Agent_Refine\<close> shows that the operations of \<^verbatim>\<open>agent/\<close> only take such
  steps, whatever store provides the port.
\<close>


section \<open>Effects on the database\<close>

definition command_record ::
    "env \<Rightarrow> AuthorityID \<Rightarrow> CommandID \<Rightarrow> string \<Rightarrow> string \<Rightarrow> string \<Rightarrow> bytes \<Rightarrow> gotime \<Rightarrow> StoreCommandRecord"
where
  "command_record E authority cid kind digest resultKind encoded now =
     \<lparr>scr_Authority = authority, scr_ID = cid, scr_Kind = kind, scr_IntentDigest = digest,
      scr_ResultKind = resultKind, scr_Result = encoded, scr_ResultDigest = byteDigest E encoded,
      scr_CreatedAt = now\<rparr>"

definition put_command :: "StoreCommandRecord \<Rightarrow> agent_db \<Rightarrow> agent_db" where
  "put_command r d = d\<lparr>db_commands := (db_commands d)(command_key r \<mapsto> r)\<rparr>"

definition put_task :: "StoreTaskRecord \<Rightarrow> agent_db \<Rightarrow> agent_db" where
  "put_task r d = d\<lparr>db_tasks := (db_tasks d)(task_Ref (str_Task r) \<mapsto> r)\<rparr>"

definition put_event :: "Event \<Rightarrow> agent_db \<Rightarrow> agent_db" where
  "put_event e d = d\<lparr>db_events := (db_events d)((ev_Task e, ev_Sequence e) \<mapsto> e)\<rparr>"

definition message_record :: "Message \<Rightarrow> preparedMessageContent \<Rightarrow> StoreMessageRecord" where
  "message_record m p =
     \<lparr>smr_ID = msg_ID m, smr_Task = msg_Task m, smr_Sequence = msg_Sequence m,
      smr_Author = msg_Author m, smr_EncodedParts = pmc_encoded p, smr_PartsDigest = pmc_digest p,
      smr_CreatedAt = msg_CreatedAt m\<rparr>"

definition put_message :: "StoreMessageRecord \<Rightarrow> agent_db \<Rightarrow> agent_db" where
  "put_message r d = d\<lparr>db_messages := (db_messages d)(message_key r \<mapsto> r)\<rparr>"

definition put_grant :: "StoreLeaseGrantRecord \<Rightarrow> agent_db \<Rightarrow> agent_db" where
  "put_grant r d =
     d\<lparr>db_leaseGrants := (db_leaseGrants d)((lg_Task (slg_Grant r), lg_Fence (slg_Grant r)) \<mapsto> r)\<rparr>"

definition put_artifact :: "StoreArtifactRecord \<Rightarrow> agent_db \<Rightarrow> agent_db" where
  "put_artifact r d = d\<lparr>db_artifacts := (db_artifacts d)(art_Ref (sar_Artifact r) \<mapsto> r)\<rparr>"

definition put_submission :: "Submission \<Rightarrow> agent_db \<Rightarrow> agent_db" where
  "put_submission r d = d\<lparr>db_submissions := (db_submissions d)(sub_Task r \<mapsto> r)\<rparr>"

definition put_head :: "WorkspaceHead \<Rightarrow> agent_db \<Rightarrow> agent_db" where
  "put_head h d = d\<lparr>db_workspaceHeads := (db_workspaceHeads d)(wh_Workspace h \<mapsto> h)\<rparr>"

definition put_receipt :: "ApplyReceipt \<Rightarrow> agent_db \<Rightarrow> agent_db" where
  "put_receipt r d = d\<lparr>db_applyReceipts := (db_applyReceipts d)(rcp_Artifact r \<mapsto> r)\<rparr>"

lemmas put_defs = put_command_def put_task_def put_event_def put_message_def put_grant_def
  put_artifact_def put_submission_def put_head_def put_receipt_def


section \<open>Guards\<close>

definition fresh_command :: "agent_db \<Rightarrow> AuthorityID \<Rightarrow> CommandID \<Rightarrow> bool" where
  "fresh_command d authority cid \<longleftrightarrow> \<lparr>sck_Authority = authority, sck_ID = cid\<rparr> \<notin> dom (db_commands d)"

definition fresh_message :: "agent_db \<Rightarrow> StoreMessageRecord \<Rightarrow> bool" where
  "fresh_message d r \<longleftrightarrow> message_key r \<notin> dom (db_messages d)
     \<and> (\<forall>r' \<in> ran (db_messages d). smr_Task r' = smr_Task r \<longrightarrow> smr_Sequence r' \<noteq> smr_Sequence r)"

definition fresh_public_id :: "agent_db \<Rightarrow> TaskRef \<Rightarrow> bool" where
  "fresh_public_id d ref \<longleftrightarrow>
     (\<forall>ref' \<in> dom (db_tasks d). \<not> (tr_Authority ref' = tr_Authority ref \<and> tr_ID ref' = tr_ID ref))"

definition content_ok :: "preparedMessageContent \<Rightarrow> bool" where
  "content_ok p \<longleftrightarrow> pmc_encoded p \<noteq> [] \<and> int (length (pmc_encoded p)) \<le> maxPageBytes"

text \<open>The time of a step: a valid clock reading, raised to the floors.\<close>

definition stamped :: "gotime \<Rightarrow> gotime list \<Rightarrow> bool" where
  "stamped now floors \<longleftrightarrow> (\<exists>clock. validLeaseTimestamp clock \<and> now = timestampAtLeast clock floors)"

definition latest_granted_at :: "agent_db \<Rightarrow> StoreTaskRecord \<Rightarrow> gotime" where
  "latest_granted_at d r =
     (case db_leaseGrants d (task_Ref (str_Task r), ls_Fence (str_Lease r)) of
        None \<Rightarrow> zero_time | Some h \<Rightarrow> slg_GrantedAt h)"

text \<open>The grant is in the history and is the Task's lease now.\<close>

definition holds_lease :: "agent_db \<Rightarrow> StoreTaskRecord \<Rightarrow> LeaseGrant \<Rightarrow> bool" where
  "holds_lease d r g \<longleftrightarrow>
     (\<exists>h. db_leaseGrants d (lg_Task g, lg_Fence g) = Some h \<and> slg_Grant h = g)
     \<and> lg_Task g = task_Ref (str_Task r)
     \<and> str_Lease r = \<lparr>ls_Owner = lg_Worker g, ls_Fence = lg_Fence g\<rparr>"

text \<open>The seven commands over the state machine, and who may issue them.\<close>

datatype issuer = Caller | Worker LeaseGrant

fun issuer_grant :: "issuer \<Rightarrow> LeaseGrant option" where
  "issuer_grant Caller = None" | "issuer_grant (Worker g) = Some g"

inductive task_change :: "env \<Rightarrow> TaskRef \<Rightarrow> string \<Rightarrow> issuer \<Rightarrow> transition \<Rightarrow> bool" for E ref where
  accept: "task_change E ref ''accept_task'' (Worker g) accept_change"
| reject: "task_change E ref ''reject_task'' (Worker g) reject_change"
| request: "ok (validateMessageInput E m) \<Longrightarrow>
    task_change E ref ''request_input'' (Worker g) (request_input_change m)"
| reply: "ok (validateMessageInput E m) \<Longrightarrow> task_change E ref ''reply_task'' Caller (reply_change m)"
| cancel: "task_change E ref ''cancel_task'' Caller cancel_change"
| fail: "task_change E ref ''fail_task'' (Worker g) fail_change"
| complete: "ok (validateMessageInput E m) \<Longrightarrow> match_stable sub \<Longrightarrow>
    (\<And>a. artifact = Some a \<Longrightarrow> ok (validateArtifactRef a) \<and> ar_Workspace a = tr_Workspace ref) \<Longrightarrow>
    task_change E ref ''complete_task'' (Worker g) (complete_change m sub artifact)"

inductive_cases task_changeE: "task_change E ref kind who change"

definition frozen_artifact :: "agent_db \<Rightarrow> ArtifactRef \<Rightarrow> TaskRef \<Rightarrow> bool" where
  "frozen_artifact d a ref \<longleftrightarrow>
     (\<exists>r. db_artifacts d a = Some r \<and> art_Task (sar_Artifact r) = ref
        \<and> art_State (sar_Artifact r) = ArtifactFrozen)"

text \<open>Moving an Artifact out of the frozen state.\<close>

definition set_artifact_state ::
    "ArtifactRef \<Rightarrow> ArtifactState \<Rightarrow> gotime option \<Rightarrow> gotime option \<Rightarrow> agent_db \<Rightarrow> agent_db" where
  "set_artifact_state a st published discarded d =
     (case db_artifacts d a of
        None \<Rightarrow> d
      | Some r \<Rightarrow> d\<lparr>db_artifacts := (db_artifacts d)(a \<mapsto>
          r\<lparr>sar_Artifact := (sar_Artifact r)\<lparr>art_State := st, art_PublishedAt := published,
             art_DiscardedAt := discarded\<rparr>\<rparr>)\<rparr>)"

definition artifact_effect :: "transition \<Rightarrow> gotime \<Rightarrow> Task \<Rightarrow> agent_db \<Rightarrow> agent_db" where
  "artifact_effect change now current d =
     (case trn_artifact change of
        Some a \<Rightarrow> set_artifact_state a ArtifactPublished (Some now) None d
      | None \<Rightarrow> (case task_Artifact current of
          Some a \<Rightarrow> if trn_discardArtifact change
                    then set_artifact_state a ArtifactDiscarded None (Some now) d else d
        | None \<Rightarrow> d))"

definition transition_message_record ::
    "transition \<Rightarrow> TaskRef \<Rightarrow> gotime \<Rightarrow> preparedMessageContent \<Rightarrow> Task \<Rightarrow> StoreMessageRecord option" where
  "transition_message_record change ref now p next =
     map_option (\<lambda>m. message_record (transition_message change ref now next m) p) (trn_message change)"

definition transition_effect ::
    "transition \<Rightarrow> TaskRef \<Rightarrow> gotime \<Rightarrow> preparedMessageContent \<Rightarrow> StoreTaskRecord \<Rightarrow> agent_db \<Rightarrow> agent_db" where
  "transition_effect change ref now p r d =
     (let next = transition_next change ref now (str_Task r);
          d1 = put_task (transition_record change ref now r) d;
          d2 = (case transition_message_record change ref now p next of None \<Rightarrow> d1 | Some m \<Rightarrow> put_message m d1);
          d3 = artifact_effect change now (str_Task r) d2;
          d4 = (if trn_submission change = [] then d3
                else put_submission (transition_submission change ref now) d3)
      in put_event (transition_event change ref now next) d4)"

definition transition_allowed ::
    "env \<Rightarrow> agent_db \<Rightarrow> TaskRef \<Rightarrow> string \<Rightarrow> issuer \<Rightarrow> CommandMeta \<Rightarrow> transition \<Rightarrow> StoreTaskRecord
     \<Rightarrow> preparedMessageContent \<Rightarrow> gotime \<Rightarrow> bool" where
  "transition_allowed E d ref kind who meta change r p now \<longleftrightarrow>
     task_change E ref kind who change \<and> ok (validateTaskRef ref) \<and> match_stable (cm_ID meta)
     \<and> db_tasks d ref = Some r \<and> ok (validateStoreTaskRecord r) \<and> task_Ref (str_Task r) = ref
     \<and> (\<forall>g. who = Worker g \<longrightarrow> holds_lease d r g)
     \<and> transition_guard kind meta change (str_Task r) = Inr ()
     \<and> stamped now [task_UpdatedAt (str_Task r)]
     \<and> (trn_submission change \<noteq> [] \<longrightarrow> task_Artifact (str_Task r) = trn_artifact change)
     \<and> (trn_message change \<noteq> None \<longrightarrow> content_ok p)
     \<and> (\<forall>m. transition_message_record change ref now p (transition_next change ref now (str_Task r)) = Some m
          \<longrightarrow> fresh_message d m)
     \<and> (\<forall>a. (trn_artifact change = Some a \<or> trn_discardArtifact change \<and> task_Artifact (str_Task r) = Some a)
          \<longrightarrow> frozen_artifact d a ref)
     \<and> (trn_submission change \<noteq> [] \<longrightarrow> ref \<notin> dom (db_submissions d))
     \<and> (ref, task_EventCount (str_Task r) + 1) \<notin> dom (db_events d)"

definition grant_allowed :: "agent_db \<Rightarrow> StoreTaskRecord \<Rightarrow> WorkerID \<Rightarrow> gotime \<Rightarrow> bool" where
  "grant_allowed d r worker now \<longleftrightarrow>
     db_tasks d (task_Ref (str_Task r)) = Some r \<and> ok (validateStoreTaskRecord r)
     \<and> \<not> Terminal (task_State (str_Task r)) \<and> ls_Owner (str_Lease r) = []
     \<and> ls_Fence (str_Lease r) < MaxInt64 \<and> match_stable worker
     \<and> stamped now [task_UpdatedAt (str_Task r), latest_granted_at d r]
     \<and> (task_Ref (str_Task r), ls_Fence (str_Lease r) + 1) \<notin> dom (db_leaseGrants d)"

definition grant_effect :: "StoreTaskRecord \<Rightarrow> WorkerID \<Rightarrow> gotime \<Rightarrow> agent_db \<Rightarrow> agent_db" where
  "grant_effect r worker now d =
     put_task (r\<lparr>str_Lease := \<lparr>ls_Owner = worker, ls_Fence = ls_Fence (str_Lease r) + 1\<rparr>\<rparr>)
       (put_grant \<lparr>slg_Grant = la_Grant (lease_assignment r worker now), slg_GrantedAt = now\<rparr> d)"

definition freeze_record :: "FreezeArtifactCommand \<Rightarrow> gotime \<Rightarrow> StoreTaskRecord \<Rightarrow> StoreTaskRecord" where
  "freeze_record c now r =
     r\<lparr>str_Task := freeze_next c now (str_Task r), str_ArtifactState := Some ArtifactFrozen\<rparr>"

definition freeze_allowed :: "env \<Rightarrow> agent_db \<Rightarrow> FreezeArtifactCommand \<Rightarrow> StoreTaskRecord \<Rightarrow> bytes \<Rightarrow> gotime \<Rightarrow> bool"
where
  "freeze_allowed E d c r payload now \<longleftrightarrow>
     ok (validateTaskRef (fac_Task c)) \<and> match_stable (fac_Artifact c)
     \<and> ok (validateRevision (fac_ExpectedBaseRevision c))
     \<and> ok (validateArtifactPayloadShape E (fac_Payload c)) \<and> match_stable (wcm_ID (fac_Meta c))
     \<and> db_tasks d (fac_Task c) = Some r \<and> ok (validateStoreTaskRecord r)
     \<and> task_Ref (str_Task r) = fac_Task c
     \<and> holds_lease d r (wcm_Grant (fac_Meta c)) \<and> freeze_guard c (str_Task r) = Inr ()
     \<and> stamped now [task_UpdatedAt (str_Task r)]
     \<and> payload \<noteq> [] \<and> int (length payload) \<le> MaxStoredValueBytes
     \<and> (\<forall>h. db_workspaceHeads d (tr_Workspace (fac_Task c)) = Some h
          \<longrightarrow> wh_ConfirmedRevision h = fac_ExpectedBaseRevision c)
     \<and> freeze_ref c \<notin> dom (db_artifacts d)
     \<and> (\<forall>a \<in> ran (db_artifacts d). art_Task (sar_Artifact a) \<noteq> fac_Task c)
     \<and> (fac_Task c, task_EventCount (str_Task r) + 1) \<notin> dom (db_events d)"

definition freeze_artifact_record ::
    "env \<Rightarrow> FreezeArtifactCommand \<Rightarrow> bytes \<Rightarrow> gotime \<Rightarrow> StoreArtifactRecord" where
  "freeze_artifact_record E c payload now =
     \<lparr>sar_Artifact = (artifactIdentity E c)\<lparr>art_FrozenAt := now\<rparr>, sar_EncodedPayload = payload\<rparr>"

definition initial_head :: "FreezeArtifactCommand \<Rightarrow> gotime \<Rightarrow> agent_db \<Rightarrow> agent_db" where
  "initial_head c now d =
     (if tr_Workspace (fac_Task c) \<in> dom (db_workspaceHeads d) then d
      else put_head \<lparr>wh_Workspace = tr_Workspace (fac_Task c),
             wh_ConfirmedRevision = fac_ExpectedBaseRevision c, wh_UpdatedAt = now\<rparr> d)"

definition freeze_effect ::
    "env \<Rightarrow> FreezeArtifactCommand \<Rightarrow> bytes \<Rightarrow> gotime \<Rightarrow> StoreTaskRecord \<Rightarrow> agent_db \<Rightarrow> agent_db" where
  "freeze_effect E c payload now r d =
     put_event (freeze_event c now (freeze_next c now (str_Task r)))
       (put_task (freeze_record c now r)
         (put_artifact (freeze_artifact_record E c payload now) (initial_head c now d)))"

definition receipt_allowed :: "agent_db \<Rightarrow> RecordApplyReceiptCommand \<Rightarrow> Artifact \<Rightarrow> gotime \<Rightarrow> bool" where
  "receipt_allowed d c a now \<longleftrightarrow>
     ok (validateReceiptCommand c) \<and> art_Ref a = rrc_Artifact c
     \<and> (\<exists>stored. db_artifacts d (rrc_Artifact c) = Some stored \<and> sar_Artifact stored = a)
     \<and> art_State a = ArtifactPublished \<and> rrc_ArtifactDigest c = art_Digest a
     \<and> rrc_BaseRevision c = art_BaseRevision a \<and> rrc_ResultRevision c = art_ResultRevision a
     \<and> stamped now (receipt_floors a)"

definition receipt_effect ::
    "RecordApplyReceiptCommand \<Rightarrow> Artifact \<Rightarrow> gotime \<Rightarrow> agent_db \<Rightarrow> agent_db" where
  "receipt_effect c a now d =
     put_receipt (new_receipt c now)
       (if rrc_Decision c = ApplySuccess
        then put_head \<lparr>wh_Workspace = ar_Workspace (rrc_Artifact c),
               wh_ConfirmedRevision = art_ResultRevision a, wh_UpdatedAt = now\<rparr> d
        else d)"


section \<open>The steps of the domain\<close>

text \<open>
  Every step records its command, under a key that was free, with the encoding of its result;
  nothing else is written by a repeated receipt decision.
\<close>

definition create_effect :: "CreateTaskCommand \<Rightarrow> preparedMessageContent \<Rightarrow> gotime \<Rightarrow> agent_db \<Rightarrow> agent_db" where
  "create_effect c p now d =
     put_event (created_event c now)
       (put_message (message_record (created_message c now) p)
         (put_task \<lparr>str_Task = created_task c now, str_Lease = unleased, str_ArtifactState = None\<rparr> d))"

definition create_allowed :: "env \<Rightarrow> agent_db \<Rightarrow> CreateTaskCommand \<Rightarrow> preparedMessageContent \<Rightarrow> gotime \<Rightarrow> bool" where
  "create_allowed E d c p now \<longleftrightarrow>
     ok (validateCreateCommand E c) \<and> validLeaseTimestamp now \<and> content_ok p
     \<and> ctc_Task c \<notin> dom (db_tasks d) \<and> fresh_public_id d (ctc_Task c)
     \<and> fresh_message d (message_record (created_message c now) p)
     \<and> (ctc_Task c, 1) \<notin> dom (db_events d)"

datatype agent_effect =
  Created CreateTaskCommand preparedMessageContent
| Transitioned string issuer CommandMeta TaskRef transition preparedMessageContent StoreTaskRecord
| Granted string StoreTaskRecord WorkerID
| Fenced LeaseGrant StoreTaskRecord
| Froze FreezeArtifactCommand bytes StoreTaskRecord
| Receipted RecordApplyReceiptCommand Artifact
| Rereceipted RecordApplyReceiptCommand Artifact ApplyReceipt

fun effect_allowed :: "env \<Rightarrow> agent_db \<Rightarrow> agent_effect \<Rightarrow> gotime \<Rightarrow> bool" where
  "effect_allowed E d (Created c p) now = create_allowed E d c p now"
| "effect_allowed E d (Transitioned kind who meta ref change p r) now =
     transition_allowed E d ref kind who meta change r p now"
| "effect_allowed E d (Granted kind r worker) now =
     (kind \<in> {''acquire_lease'', ''claim_lease''} \<and> grant_allowed d r worker now)"
| "effect_allowed E d (Fenced g r) now =
     (db_tasks d (lg_Task g) = Some r \<and> ok (validateStoreTaskRecord r) \<and> ok (validateLeaseGrant g)
      \<and> holds_lease d r g \<and> validLeaseTimestamp now)"
| "effect_allowed E d (Froze c payload r) now = freeze_allowed E d c r payload now"
| "effect_allowed E d (Receipted c a) now =
     (receipt_allowed d c a now \<and> rrc_Artifact c \<notin> dom (db_applyReceipts d)
      \<and> (rrc_Decision c = ApplySuccess \<longrightarrow>
           (\<exists>h. db_workspaceHeads d (ar_Workspace (rrc_Artifact c)) = Some h
              \<and> wh_ConfirmedRevision h = rrc_BaseRevision c)))"
| "effect_allowed E d (Rereceipted c a rcp) now =
     (receipt_allowed d c a now
      \<and> db_applyReceipts d (rrc_Artifact c) = Some rcp \<and> sameReceiptDecision rcp (new_receipt c now))"

fun effect_db :: "env \<Rightarrow> agent_effect \<Rightarrow> gotime \<Rightarrow> agent_db \<Rightarrow> agent_db" where
  "effect_db E (Created c p) now d = create_effect c p now d"
| "effect_db E (Transitioned kind who meta ref change p r) now d = transition_effect change ref now p r d"
| "effect_db E (Granted kind r worker) now d = grant_effect r worker now d"
| "effect_db E (Fenced g r) now d = put_task (r\<lparr>str_Lease := \<lparr>ls_Owner = [], ls_Fence = lg_Fence g\<rparr>\<rparr>) d"
| "effect_db E (Froze c payload r) now d = freeze_effect E c payload now r d"
| "effect_db E (Receipted c a) now d = receipt_effect c a now d"
| "effect_db E (Rereceipted c a rcp) now d = d"

text \<open>The kind, result kind and result the step's receipt records.\<close>

fun effect_result :: "env \<Rightarrow> agent_effect \<Rightarrow> gotime \<Rightarrow> string \<times> string \<times> json_doc" where
  "effect_result E (Created c p) now = (''create_task'', ''task'', JTask (created_task c now))"
| "effect_result E (Transitioned kind who meta ref change p r) now =
     (kind, ''task'', JTask (transition_next change ref now (str_Task r)))"
| "effect_result E (Granted kind r worker) now =
     (kind, ''lease_assignment'', JLeaseAssignment (lease_assignment r worker now))"
| "effect_result E (Fenced g r) now = (''fence_lease'', ''lease_grant'', JLeaseGrant g)"
| "effect_result E (Froze c payload r) now =
     (''freeze_artifact'', ''freeze_artifact'',
      JFreezeResult \<lparr>far_Task = freeze_next c now (str_Task r),
                     far_Artifact = (artifactIdentity E c)\<lparr>art_FrozenAt := now\<rparr>\<rparr>)"
| "effect_result E (Receipted c a) now =
     (''record_apply_receipt'', ''apply_receipt'', JApplyReceipt (new_receipt c now))"
| "effect_result E (Rereceipted c a rcp) now = (''record_apply_receipt'', ''apply_receipt'', JApplyReceipt rcp)"

fun effect_authority :: "agent_effect \<Rightarrow> AuthorityID" where
  "effect_authority (Created c p) = tr_Authority (ctc_Task c)"
| "effect_authority (Transitioned kind who meta ref change p r) = tr_Authority ref"
| "effect_authority (Granted kind r worker) = tr_Authority (task_Ref (str_Task r))"
| "effect_authority (Fenced g r) = tr_Authority (lg_Task g)"
| "effect_authority (Froze c payload r) = tr_Authority (fac_Task c)"
| "effect_authority (Receipted c a) = ar_Authority (rrc_Artifact c)"
| "effect_authority (Rereceipted c a rcp) = ar_Authority (rrc_Artifact c)"

definition effect_record ::
    "env \<Rightarrow> agent_effect \<Rightarrow> CommandID \<Rightarrow> string \<Rightarrow> bytes \<Rightarrow> gotime \<Rightarrow> StoreCommandRecord" where
  "effect_record E eff cid digest encoded now =
     (case effect_result E eff now of (kind, resultKind, doc) \<Rightarrow>
        command_record E (effect_authority eff) cid kind digest resultKind encoded now)"

inductive agent_step :: "env \<Rightarrow> agent_effect \<Rightarrow> CommandID \<Rightarrow> string \<Rightarrow> gotime \<Rightarrow> agent_db \<Rightarrow> agent_db \<Rightarrow> bool"
  for E where
  commit: "effect_allowed E d eff now \<Longrightarrow> fresh_command d (effect_authority eff) cid \<Longrightarrow>
    json_Marshal E (snd (snd (effect_result E eff now))) = Some encoded \<Longrightarrow>
    agent_step E eff cid digest now d
      (put_command (effect_record E eff cid digest encoded now) (effect_db E eff now d))"

inductive_cases agent_stepE: "agent_step E eff cid digest now d d'"

text \<open>What an effect leaves alone.\<close>

lemma task_change_artifact: "task_change E ref kind who change \<Longrightarrow> trn_artifact change = None \<or> \<not> trn_discardArtifact change"
  by (erule task_changeE) (simp_all add: accept_change_def reject_change_def request_input_change_def
      reply_change_def cancel_change_def fail_change_def complete_change_def)

lemma put_task_other [simp]:
  "db_commands (put_task r d) = db_commands d" "db_messages (put_task r d) = db_messages d"
  "db_events (put_task r d) = db_events d" "db_leaseGrants (put_task r d) = db_leaseGrants d"
  "db_artifacts (put_task r d) = db_artifacts d" "db_submissions (put_task r d) = db_submissions d"
  "db_workspaceHeads (put_task r d) = db_workspaceHeads d"
  "db_applyReceipts (put_task r d) = db_applyReceipts d"
  by (simp_all add: put_task_def)

lemma artifact_effect_other [simp]:
  "db_submissions (artifact_effect change now t d) = db_submissions d"
  "db_events (artifact_effect change now t d) = db_events d"
  by (simp_all add: artifact_effect_def set_artifact_state_def split: option.splits)

lemma put_message_other [simp]:
  "db_artifacts (put_message m d) = db_artifacts d"
  "db_submissions (put_message m d) = db_submissions d" "db_events (put_message m d) = db_events d"
  by (simp_all add: put_message_def)

lemma put_submission_other [simp]: "db_events (put_submission m d) = db_events d"
  by (simp add: put_submission_def)

lemma frozen_artifact_cong: "db_artifacts d = db_artifacts d' \<Longrightarrow> frozen_artifact d a ref \<longleftrightarrow> frozen_artifact d' a ref"
  by (simp add: frozen_artifact_def)

lemma fresh_message_cong: "db_messages d = db_messages d' \<Longrightarrow> fresh_message d m \<longleftrightarrow> fresh_message d' m"
  by (simp add: fresh_message_def)

end
