(* ===== verification/Memory_Store.thy ===== *)
theory Memory_Store
  imports Agent_Store
begin

text \<open>
  The reference Store, \<^verbatim>\<open>humantest/agent_store_memory.go\<close>: nine Go maps, the callback-scoped unit
  that every primitive checks for being active, and the image with its single live handle. Go
  maps are association lists in some iteration order; the clone functions copy byte slices and
  pointers, which values do not need. The file ends with the interpretation of the contract.
\<close>


section \<open>State\<close>

record memoryAgentState =
  ms_commands :: "(StoreCommandKey, StoreCommandRecord) gomap"
  ms_tasks :: "(TaskRef, StoreTaskRecord) gomap"
  ms_messages :: "(StoreMessageKey, StoreMessageRecord) gomap"
  ms_events :: "(TaskRef, (uint64, StoreEventRecord) gomap) gomap"
  ms_leaseGrants :: "(TaskRef \<times> LeaseFence, StoreLeaseGrantRecord) gomap"
  ms_artifacts :: "(ArtifactRef, StoreArtifactRecord) gomap"
  ms_submissions :: "(TaskRef, StoreSubmissionRecord) gomap"
  ms_workspaceHeads :: "(WorkspaceRef, StoreWorkspaceHeadRecord) gomap"
  ms_applyReceipts :: "(ArtifactRef, StoreApplyReceiptRecord) gomap"

definition newMemoryAgentState :: memoryAgentState where
  "newMemoryAgentState =
     \<lparr>ms_commands = [], ms_tasks = [], ms_messages = [], ms_events = [], ms_leaseGrants = [],
      ms_artifacts = [], ms_submissions = [], ms_workspaceHeads = [], ms_applyReceipts = []\<rparr>"

record memoryAgentUnit =
  unit_state :: memoryAgentState
  unit_active :: bool

definition ensureActive :: "memoryAgentUnit \<Rightarrow> unit store_result" where
  "ensureActive u = (if \<not> unit_active u then Inl ErrStoreClosed else Inr ())"

definition memoryAgentReadLimit :: "StoreReadLimit \<Rightarrow> unit store_result" where
  "memoryAgentReadLimit limit = (if limit < 1 then Inl ErrStoreRecordTooLarge else Inr ())"

definition memoryAgentScanLimit :: "int \<Rightarrow> unit store_result" where
  "memoryAgentScanLimit limit =
     (if limit < 1 \<or> limit > MaxPageSize + 1 then Inl StoreInvalidArgument else Inr ())"


section \<open>Comparisons\<close>

definition memoryAgentTaskCreatedLess :: "StoreTaskRecord \<Rightarrow> StoreTaskRecord \<Rightarrow> bool" where
  "memoryAgentTaskCreatedLess l r =
     (let left = str_Task l; right = str_Task r in
      if task_CreatedAt left \<noteq> task_CreatedAt right then task_CreatedAt left < task_CreatedAt right
      else if wr_ID (tr_Workspace (task_Ref left)) \<noteq> wr_ID (tr_Workspace (task_Ref right))
      then wr_ID (tr_Workspace (task_Ref left)) < wr_ID (tr_Workspace (task_Ref right))
      else tr_ID (task_Ref left) < tr_ID (task_Ref right))"

definition memoryAgentTaskUpdatedLess :: "StoreTaskRecord \<Rightarrow> StoreTaskRecord \<Rightarrow> bool" where
  "memoryAgentTaskUpdatedLess l r =
     (let left = str_Task l; right = str_Task r in
      if task_UpdatedAt left \<noteq> task_UpdatedAt right then task_UpdatedAt left > task_UpdatedAt right
      else if wr_ID (tr_Workspace (task_Ref left)) \<noteq> wr_ID (tr_Workspace (task_Ref right))
      then wr_ID (tr_Workspace (task_Ref left)) < wr_ID (tr_Workspace (task_Ref right))
      else tr_ID (task_Ref left) < tr_ID (task_Ref right))"

definition memoryAgentTaskAfterContextCursor :: "Task \<Rightarrow> TaskPageCursor option \<Rightarrow> bool" where
  "memoryAgentTaskAfterContextCursor task cursor =
     (case cursor of
        None \<Rightarrow> True
      | Some c \<Rightarrow>
          if task_CreatedAt task \<noteq> tpc_CreatedAt c then task_CreatedAt task > tpc_CreatedAt c
          else if wr_ID (tr_Workspace (task_Ref task)) \<noteq> tpc_Workspace c
          then wr_ID (tr_Workspace (task_Ref task)) > tpc_Workspace c
          else tr_ID (task_Ref task) > tpc_Task c)"

definition memoryAgentTaskAfterAuthorityCursor :: "Task \<Rightarrow> TaskQueryCursor option \<Rightarrow> bool" where
  "memoryAgentTaskAfterAuthorityCursor task cursor =
     (case cursor of
        None \<Rightarrow> True
      | Some c \<Rightarrow>
          if task_UpdatedAt task \<noteq> tqc_UpdatedAt c then task_UpdatedAt task < tqc_UpdatedAt c
          else if wr_ID (tr_Workspace (task_Ref task)) \<noteq> tqc_Workspace c
          then wr_ID (tr_Workspace (task_Ref task)) > tqc_Workspace c
          else tr_ID (task_Ref task) > tqc_Task c)"

definition memoryAgentLeaseLess :: "LeaseAssignment \<Rightarrow> LeaseAssignment \<Rightarrow> bool" where
  "memoryAgentLeaseLess left right =
     (if la_GrantedAt left \<noteq> la_GrantedAt right then la_GrantedAt left < la_GrantedAt right
      else if wr_ID (tr_Workspace (task_Ref (la_Task left))) \<noteq> wr_ID (tr_Workspace (task_Ref (la_Task right)))
      then wr_ID (tr_Workspace (task_Ref (la_Task left))) < wr_ID (tr_Workspace (task_Ref (la_Task right)))
      else if tr_ID (task_Ref (la_Task left)) \<noteq> tr_ID (task_Ref (la_Task right))
      then tr_ID (task_Ref (la_Task left)) < tr_ID (task_Ref (la_Task right))
      else lg_Fence (la_Grant left) < lg_Fence (la_Grant right))"

definition memoryAgentLeaseAfterCursor :: "LeaseAssignment \<Rightarrow> LeasePageCursor option \<Rightarrow> bool" where
  "memoryAgentLeaseAfterCursor a cursor =
     (case cursor of
        None \<Rightarrow> True
      | Some c \<Rightarrow>
          if la_GrantedAt a \<noteq> lpc_GrantedAt c then la_GrantedAt a > lpc_GrantedAt c
          else if wr_ID (tr_Workspace (task_Ref (la_Task a))) \<noteq> lpc_Workspace c
          then wr_ID (tr_Workspace (task_Ref (la_Task a))) > lpc_Workspace c
          else if tr_ID (task_Ref (la_Task a)) \<noteq> lpc_Task c
          then tr_ID (task_Ref (la_Task a)) > lpc_Task c
          else lg_Fence (la_Grant a) > lpc_Fence c)"


section \<open>StoreView\<close>

definition mem_LookupCommand ::
    "memoryAgentUnit \<Rightarrow> StoreCommandKey \<Rightarrow> StoreReadLimit \<Rightarrow> StoreCommandRecord store_result" where
  "mem_LookupCommand u key limit =
     bind_res (ensureActive u) (\<lambda>_.
     bind_res (memoryAgentReadLimit limit) (\<lambda>_.
       case map_of (ms_commands (unit_state u)) key of
         None \<Rightarrow> Inl ErrStoreRecordNotFound
       | Some r \<Rightarrow> if int (length (scr_Result r)) > limit then Inl ErrStoreRecordTooLarge else Inr r))"

definition mem_LoadTask :: "memoryAgentUnit \<Rightarrow> TaskRef \<Rightarrow> StoreTaskRecord store_result" where
  "mem_LoadTask u ref =
     bind_res (ensureActive u) (\<lambda>_.
       case map_of (ms_tasks (unit_state u)) ref of
         None \<Rightarrow> Inl ErrStoreRecordNotFound | Some r \<Rightarrow> Inr r)"

definition mem_ResolveTask :: "memoryAgentUnit \<Rightarrow> AuthorityID \<Rightarrow> TaskID \<Rightarrow> TaskRef store_result" where
  "mem_ResolveTask u authority tid =
     bind_res (ensureActive u) (\<lambda>_.
       case find (\<lambda>ref. tr_Authority ref = authority \<and> tr_ID ref = tid) (map fst (ms_tasks (unit_state u))) of
         None \<Rightarrow> Inl ErrStoreRecordNotFound | Some ref \<Rightarrow> Inr ref)"

definition mem_LoadMessage ::
    "memoryAgentUnit \<Rightarrow> StoreMessageKey \<Rightarrow> StoreReadLimit \<Rightarrow> StoreMessageRecord store_result" where
  "mem_LoadMessage u key limit =
     bind_res (ensureActive u) (\<lambda>_.
     bind_res (memoryAgentReadLimit limit) (\<lambda>_.
       case map_of (ms_messages (unit_state u)) key of
         None \<Rightarrow> Inl ErrStoreRecordNotFound
       | Some r \<Rightarrow> if int (length (smr_EncodedParts r)) > limit then Inl ErrStoreRecordTooLarge else Inr r))"

definition mem_LoadArtifact ::
    "memoryAgentUnit \<Rightarrow> ArtifactRef \<Rightarrow> StoreReadLimit \<Rightarrow> StoreArtifactRecord store_result" where
  "mem_LoadArtifact u ref limit =
     bind_res (ensureActive u) (\<lambda>_.
     bind_res (memoryAgentReadLimit limit) (\<lambda>_.
       case map_of (ms_artifacts (unit_state u)) ref of
         None \<Rightarrow> Inl ErrStoreRecordNotFound
       | Some r \<Rightarrow> if int (length (sar_EncodedPayload r)) > limit then Inl ErrStoreRecordTooLarge else Inr r))"

definition mem_LoadApplyReceipt ::
    "memoryAgentUnit \<Rightarrow> ArtifactRef \<Rightarrow> StoreApplyReceiptRecord store_result" where
  "mem_LoadApplyReceipt u ref =
     bind_res (ensureActive u) (\<lambda>_.
       case map_of (ms_applyReceipts (unit_state u)) ref of
         None \<Rightarrow> Inl ErrStoreRecordNotFound | Some r \<Rightarrow> Inr r)"

definition mem_LoadWorkspaceHead ::
    "memoryAgentUnit \<Rightarrow> WorkspaceRef \<Rightarrow> StoreWorkspaceHeadRecord store_result" where
  "mem_LoadWorkspaceHead u ref =
     bind_res (ensureActive u) (\<lambda>_.
       case map_of (ms_workspaceHeads (unit_state u)) ref of
         None \<Rightarrow> Inl ErrStoreRecordNotFound | Some r \<Rightarrow> Inr r)"

definition mem_LoadLeaseGrant ::
    "memoryAgentUnit \<Rightarrow> TaskRef \<Rightarrow> LeaseFence \<Rightarrow> StoreLeaseGrantRecord store_result" where
  "mem_LoadLeaseGrant u ref fence =
     bind_res (ensureActive u) (\<lambda>_.
       case map_of (ms_leaseGrants (unit_state u)) (ref, fence) of
         None \<Rightarrow> Inl ErrStoreRecordNotFound | Some r \<Rightarrow> Inr r)"

fun latest_grant ::
    "TaskRef \<Rightarrow> StoreLeaseGrantRecord option \<Rightarrow> (TaskRef \<times> LeaseFence, StoreLeaseGrantRecord) gomap
     \<Rightarrow> StoreLeaseGrantRecord option" where
  "latest_grant ref latest [] = latest"
| "latest_grant ref latest (((task, fence), r) # rest) =
     latest_grant ref
       (if task = ref \<and> (case latest of None \<Rightarrow> True | Some l \<Rightarrow> fence > lg_Fence (slg_Grant l))
        then Some r else latest) rest"

definition mem_LoadLatestLeaseGrant ::
    "memoryAgentUnit \<Rightarrow> TaskRef \<Rightarrow> StoreLeaseGrantRecord store_result" where
  "mem_LoadLatestLeaseGrant u ref =
     bind_res (ensureActive u) (\<lambda>_.
       case latest_grant ref None (ms_leaseGrants (unit_state u)) of
         None \<Rightarrow> Inl ErrStoreRecordNotFound | Some r \<Rightarrow> Inr r)"

definition mem_FindClaimableTask :: "memoryAgentUnit \<Rightarrow> AuthorityID \<Rightarrow> StoreTaskRecord store_result" where
  "mem_FindClaimableTask u authority =
     bind_res (ensureActive u) (\<lambda>_.
       case sort_Slice memoryAgentTaskCreatedLess
              (filter (\<lambda>r. tr_Authority (task_Ref (str_Task r)) = authority \<and> ls_Owner (str_Lease r) = []
                         \<and> \<not> Terminal (task_State (str_Task r)))
                 (map snd (ms_tasks (unit_state u)))) of
         [] \<Rightarrow> Inl ErrStoreRecordNotFound
       | r # _ \<Rightarrow> Inr r)"

definition mem_ScanContextTasks ::
    "memoryAgentUnit \<Rightarrow> StoreTaskContextScan \<Rightarrow> StoreTaskRecord list store_result" where
  "mem_ScanContextTasks u scan =
     bind_res (ensureActive u) (\<lambda>_.
     bind_res (memoryAgentScanLimit (tcs_Limit scan)) (\<lambda>_.
       Inr (take (nat (tcs_Limit scan)) (sort_Slice memoryAgentTaskCreatedLess
         (filter (\<lambda>r. \<not> (task_Context (str_Task r) \<noteq> tcs_Context scan
                         \<or> \<not> memoryAgentTaskAfterContextCursor (str_Task r) (tcs_After scan)))
            (map snd (ms_tasks (unit_state u))))))))"

definition mem_ScanAuthorityTasks ::
    "memoryAgentUnit \<Rightarrow> StoreTaskAuthorityScan \<Rightarrow> StoreTaskAuthorityResult store_result" where
  "mem_ScanAuthorityTasks u scan =
     bind_res (ensureActive u) (\<lambda>_.
     bind_res (memoryAgentScanLimit (tas_Limit scan)) (\<lambda>_.
       let filtered = sort_Slice memoryAgentTaskUpdatedLess
             (filter (\<lambda>r. \<not> (tr_Authority (task_Ref (str_Task r)) \<noteq> tas_Authority scan
                   \<or> (tas_Context scan \<noteq> [] \<and> cr_ID (task_Context (str_Task r)) \<noteq> tas_Context scan)
                   \<or> (tas_State scan \<noteq> TaskStateOther [] \<and> task_State (str_Task r) \<noteq> tas_State scan)
                   \<or> (case tas_UpdatedAtOrAfter scan of None \<Rightarrow> False
                      | Some t \<Rightarrow> task_UpdatedAt (str_Task r) < t)))
                (map snd (ms_tasks (unit_state u))))
       in Inr \<lparr>tar_Records = take (nat (tas_Limit scan))
                 (filter (\<lambda>r. memoryAgentTaskAfterAuthorityCursor (str_Task r) (tas_After scan)) filtered),
               tar_TotalSize = of_nat (length filtered)\<rparr>))"

text \<open>The loop that keeps a page of messages within its byte budget.\<close>

fun take_budget ::
    "StoreReadLimit \<Rightarrow> int \<Rightarrow> bool \<Rightarrow> StoreMessageRecord list \<Rightarrow> StoreMessageRecord list store_result" where
  "take_budget limit taken started [] = Inr []"
| "take_budget limit taken started (r # rest) =
     (let size = int (length (smr_EncodedParts r)) in
      if size > limit then (if started then Inr [] else Inl ErrStoreRecordTooLarge)
      else if taken > limit - size then Inr []
      else bind_res (take_budget limit (taken + size) True rest) (\<lambda>rs. Inr (r # rs)))"

definition mem_ScanMessages ::
    "memoryAgentUnit \<Rightarrow> StoreMessageScan \<Rightarrow> StoreMessageRecord list store_result" where
  "mem_ScanMessages u scan =
     bind_res (ensureActive u) (\<lambda>_.
     bind_res (memoryAgentScanLimit (sms_Limit scan)) (\<lambda>_.
     bind_res (memoryAgentReadLimit (sms_ReadLimit scan)) (\<lambda>_.
       take_budget (sms_ReadLimit scan) 0 False
         (take (nat (sms_Limit scan)) (sort_Slice (\<lambda>l r. smr_Sequence l < smr_Sequence r)
           (filter (\<lambda>r. smr_Task r = sms_Task scan \<and> smr_Sequence r > sms_After scan)
              (map snd (ms_messages (unit_state u)))))))))"

definition event_map :: "memoryAgentState \<Rightarrow> TaskRef \<Rightarrow> (uint64, StoreEventRecord) gomap" where
  "event_map st task = (case map_of (ms_events st) task of None \<Rightarrow> [] | Some m \<Rightarrow> m)"

definition mem_ScanEvents ::
    "memoryAgentUnit \<Rightarrow> StoreEventScan \<Rightarrow> StoreEventRecord list store_result" where
  "mem_ScanEvents u scan =
     bind_res (ensureActive u) (\<lambda>_.
     bind_res (memoryAgentScanLimit (ses_Limit scan)) (\<lambda>_.
       let events = event_map (unit_state u) (ses_Task scan);
           sequences = take (nat (ses_Limit scan)) (sort_Slice (\<lambda>l r. l < r)
             (filter (\<lambda>sequence. sequence > ses_After scan) (map fst events)))
       in Inr (map (\<lambda>sequence. the (map_of events sequence)) sequences)))"

fun scan_assignments ::
    "memoryAgentState \<Rightarrow> StoreLeaseScan \<Rightarrow> (TaskRef, StoreTaskRecord) gomap
     \<Rightarrow> LeaseAssignment list store_result" where
  "scan_assignments st scan [] = Inr []"
| "scan_assignments st scan ((ref, r) # rest) =
     (if tr_Authority ref \<noteq> sls_Authority scan \<or> ls_Owner (str_Lease r) \<noteq> sls_Worker scan
      then scan_assignments st scan rest
      else case map_of (ms_leaseGrants st) (ref, ls_Fence (str_Lease r)) of
        None \<Rightarrow> Inl StoreCorrupt
      | Some grant \<Rightarrow>
          if lg_Worker (slg_Grant grant) \<noteq> sls_Worker scan then Inl StoreCorrupt
          else let a = \<lparr>la_Grant = slg_Grant grant, la_Task = str_Task r, la_GrantedAt = slg_GrantedAt grant\<rparr>
               in bind_res (scan_assignments st scan rest) (\<lambda>as.
                    Inr (if memoryAgentLeaseAfterCursor a (sls_After scan) then a # as else as)))"

definition mem_ScanLeases ::
    "memoryAgentUnit \<Rightarrow> StoreLeaseScan \<Rightarrow> LeaseAssignment list store_result" where
  "mem_ScanLeases u scan =
     bind_res (ensureActive u) (\<lambda>_.
     bind_res (memoryAgentScanLimit (sls_Limit scan)) (\<lambda>_.
     bind_res (scan_assignments (unit_state u) scan (ms_tasks (unit_state u))) (\<lambda>as.
       Inr (take (nat (sls_Limit scan)) (sort_Slice memoryAgentLeaseLess as)))))"


section \<open>StoreTx\<close>

definition set_state :: "memoryAgentUnit \<Rightarrow> memoryAgentState \<Rightarrow> memoryAgentUnit" where
  "set_state u st = u\<lparr>unit_state := st\<rparr>"

definition mem_InsertCommand :: "memoryAgentUnit \<Rightarrow> StoreCommandRecord \<Rightarrow> memoryAgentUnit store_result" where
  "mem_InsertCommand u r =
     bind_res (ensureActive u) (\<lambda>_.
     let st = unit_state u; key = \<lparr>sck_Authority = scr_Authority r, sck_ID = scr_ID r\<rparr> in
     if map_of (ms_commands st) key \<noteq> None then Inl (StoreConflictError StoreConstraintCommandID)
     else Inr (set_state u (st\<lparr>ms_commands := gomap_put key r (ms_commands st)\<rparr>)))"

definition mem_InsertTask :: "memoryAgentUnit \<Rightarrow> StoreTaskRecord \<Rightarrow> memoryAgentUnit store_result" where
  "mem_InsertTask u r =
     bind_res (ensureActive u) (\<lambda>_.
     let st = unit_state u; ref = task_Ref (str_Task r) in
     if map_of (ms_tasks st) ref \<noteq> None then Inl (StoreConflictError StoreConstraintTaskKey)
     else if list_ex (\<lambda>(ref', _). tr_Authority ref' = tr_Authority ref \<and> tr_ID ref' = tr_ID ref) (ms_tasks st)
     then Inl (StoreConflictError StoreConstraintPublicTaskID)
     else Inr (set_state u (st\<lparr>ms_tasks := gomap_put ref r (ms_tasks st)\<rparr>)))"

definition mem_CompareAndSwapTask ::
    "memoryAgentUnit \<Rightarrow> StoreTaskMutation \<Rightarrow> (bool \<times> memoryAgentUnit) store_result" where
  "mem_CompareAndSwapTask u m =
     bind_res (ensureActive u) (\<lambda>_.
     let st = unit_state u; c = stm_Condition m; next = str_Task (stm_Next m) in
     case map_of (ms_tasks st) (stm_Ref m) of
       None \<Rightarrow> Inl ErrStoreRecordNotFound
     | Some current \<Rightarrow>
         if stm_Ref m \<noteq> task_Ref next \<or> stc_ExpectedRevision c = 0 then Inl StoreInvalidArgument
         else if task_Revision (str_Task current) \<noteq> stc_ExpectedRevision c
                 \<or> (case stc_ExpectedLease c of None \<Rightarrow> False | Some l \<Rightarrow> str_Lease current \<noteq> l)
         then Inr (False, u)
         else if task_Context (str_Task current) \<noteq> task_Context next
                 \<or> task_CreatedAt (str_Task current) \<noteq> task_CreatedAt next
         then Inl StoreInvalidArgument
         else Inr (True, set_state u (st\<lparr>ms_tasks := gomap_put (stm_Ref m) (stm_Next m) (ms_tasks st)\<rparr>)))"

definition mem_InsertMessage :: "memoryAgentUnit \<Rightarrow> StoreMessageRecord \<Rightarrow> memoryAgentUnit store_result" where
  "mem_InsertMessage u r =
     bind_res (ensureActive u) (\<lambda>_.
     let st = unit_state u; key = \<lparr>smk_Authority = tr_Authority (smr_Task r), smk_ID = smr_ID r\<rparr> in
     if map_of (ms_messages st) key \<noteq> None then Inl (StoreConflictError StoreConstraintMessageID)
     else if list_ex (\<lambda>(_, r'). smr_Task r' = smr_Task r \<and> smr_Sequence r' = smr_Sequence r) (ms_messages st)
     then Inl (StoreConflictError StoreConstraintMessageSequence)
     else Inr (set_state u (st\<lparr>ms_messages := gomap_put key r (ms_messages st)\<rparr>)))"

text \<open>A missing inner map is made before the sequence is tested.\<close>

definition mem_InsertEvent :: "memoryAgentUnit \<Rightarrow> StoreEventRecord \<Rightarrow> memoryAgentUnit store_result" where
  "mem_InsertEvent u e =
     bind_res (ensureActive u) (\<lambda>_.
     let st = unit_state u; inner = event_map st (ev_Task e) in
     if map_of inner (ev_Sequence e) \<noteq> None then Inl (StoreConflictError StoreConstraintEventSequence)
     else Inr (set_state u (st\<lparr>ms_events :=
       gomap_put (ev_Task e) (gomap_put (ev_Sequence e) e inner) (ms_events st)\<rparr>)))"

definition mem_InsertLeaseGrant ::
    "memoryAgentUnit \<Rightarrow> StoreLeaseGrantRecord \<Rightarrow> memoryAgentUnit store_result" where
  "mem_InsertLeaseGrant u r =
     bind_res (ensureActive u) (\<lambda>_.
     let st = unit_state u; key = (lg_Task (slg_Grant r), lg_Fence (slg_Grant r)) in
     if map_of (ms_leaseGrants st) key \<noteq> None then Inl (StoreConflictError StoreConstraintLeaseFence)
     else Inr (set_state u (st\<lparr>ms_leaseGrants := gomap_put key r (ms_leaseGrants st)\<rparr>)))"

fun artifact_conflict ::
    "Artifact \<Rightarrow> (ArtifactRef, StoreArtifactRecord) gomap \<Rightarrow> StoreConstraint option" where
  "artifact_conflict a [] = None"
| "artifact_conflict a ((_, r) # rest) =
     (let b = sar_Artifact r in
      if ar_Authority (art_Ref b) = ar_Authority (art_Ref a) \<and> ar_ID (art_Ref b) = ar_ID (art_Ref a)
      then Some StoreConstraintArtifactID
      else if art_Task b = art_Task a then Some StoreConstraintArtifactTask
      else artifact_conflict a rest)"

definition mem_InsertArtifact :: "memoryAgentUnit \<Rightarrow> StoreArtifactRecord \<Rightarrow> memoryAgentUnit store_result" where
  "mem_InsertArtifact u r =
     bind_res (ensureActive u) (\<lambda>_.
     let st = unit_state u; a = sar_Artifact r in
     if map_of (ms_artifacts st) (art_Ref a) \<noteq> None then Inl (StoreConflictError StoreConstraintArtifactID)
     else case artifact_conflict a (ms_artifacts st) of
       Some c \<Rightarrow> Inl (StoreConflictError c)
     | None \<Rightarrow> Inr (set_state u (st\<lparr>ms_artifacts := gomap_put (art_Ref a) r (ms_artifacts st)\<rparr>)))"

definition mem_CompareAndSwapArtifact ::
    "memoryAgentUnit \<Rightarrow> StoreArtifactMutation \<Rightarrow> (bool \<times> memoryAgentUnit) store_result" where
  "mem_CompareAndSwapArtifact u m =
     bind_res (ensureActive u) (\<lambda>_.
     if tr_Workspace (sam_Task m) \<noteq> ar_Workspace (sam_Ref m) then Inl StoreInvalidArgument
     else let st = unit_state u in case map_of (ms_artifacts st) (sam_Ref m) of
       None \<Rightarrow> Inr (False, u)
     | Some current \<Rightarrow>
         let a = sar_Artifact current in
         if art_Task a \<noteq> sam_Task m \<or> art_State a \<noteq> sam_ExpectedState m then Inr (False, u)
         else Inr (True, set_state u (st\<lparr>ms_artifacts := gomap_put (sam_Ref m)
                (current\<lparr>sar_Artifact := a\<lparr>art_State := sam_NextState m,
                   art_PublishedAt := sam_PublishedAt m, art_DiscardedAt := sam_DiscardedAt m\<rparr>\<rparr>)
                (ms_artifacts st)\<rparr>)))"

definition mem_InsertSubmission ::
    "memoryAgentUnit \<Rightarrow> StoreSubmissionRecord \<Rightarrow> memoryAgentUnit store_result" where
  "mem_InsertSubmission u r =
     bind_res (ensureActive u) (\<lambda>_.
     let st = unit_state u in
     if map_of (ms_submissions st) (sub_Task r) \<noteq> None
     then Inl (StoreConflictError StoreConstraintSubmissionID)
     else if list_ex (\<lambda>(_, r'). tr_Authority (sub_Task r') = tr_Authority (sub_Task r) \<and> sub_ID r' = sub_ID r)
               (ms_submissions st)
     then Inl (StoreConflictError StoreConstraintSubmissionID)
     else Inr (set_state u (st\<lparr>ms_submissions := gomap_put (sub_Task r) r (ms_submissions st)\<rparr>)))"

definition mem_InsertWorkspaceHead ::
    "memoryAgentUnit \<Rightarrow> StoreWorkspaceHeadRecord \<Rightarrow> (bool \<times> memoryAgentUnit) store_result" where
  "mem_InsertWorkspaceHead u r =
     bind_res (ensureActive u) (\<lambda>_.
     let st = unit_state u in
     if map_of (ms_workspaceHeads st) (wh_Workspace r) \<noteq> None then Inr (False, u)
     else Inr (True, set_state u
       (st\<lparr>ms_workspaceHeads := gomap_put (wh_Workspace r) r (ms_workspaceHeads st)\<rparr>)))"

definition mem_CompareAndSwapWorkspaceHead ::
    "memoryAgentUnit \<Rightarrow> StoreWorkspaceHeadMutation \<Rightarrow> (bool \<times> memoryAgentUnit) store_result" where
  "mem_CompareAndSwapWorkspaceHead u m =
     bind_res (ensureActive u) (\<lambda>_.
     if wh_Workspace (swm_Next m) \<noteq> swm_Workspace m then Inl StoreInvalidArgument
     else let st = unit_state u in case map_of (ms_workspaceHeads st) (swm_Workspace m) of
       None \<Rightarrow> Inr (False, u)
     | Some current \<Rightarrow>
         if wh_ConfirmedRevision current \<noteq> swm_ExpectedRevision m then Inr (False, u)
         else Inr (True, set_state u
           (st\<lparr>ms_workspaceHeads := gomap_put (swm_Workspace m) (swm_Next m) (ms_workspaceHeads st)\<rparr>)))"

definition mem_InsertApplyReceipt ::
    "memoryAgentUnit \<Rightarrow> StoreApplyReceiptRecord \<Rightarrow> memoryAgentUnit store_result" where
  "mem_InsertApplyReceipt u r =
     bind_res (ensureActive u) (\<lambda>_.
     let st = unit_state u in
     if map_of (ms_applyReceipts st) (rcp_Artifact r) \<noteq> None
     then Inl (StoreConflictError StoreConstraintReceiptID)
     else if list_ex (\<lambda>(_, r'). ar_Authority (rcp_Artifact r') = ar_Authority (rcp_Artifact r)
                              \<and> rcp_ID r' = rcp_ID r) (ms_applyReceipts st)
     then Inl (StoreConflictError StoreConstraintReceiptID)
     else Inr (set_state u (st\<lparr>ms_applyReceipts := gomap_put (rcp_Artifact r) r (ms_applyReceipts st)\<rparr>)))"

definition memory_ops :: "memoryAgentUnit store_ops" where
  "memory_ops =
     \<lparr>LookupCommand = mem_LookupCommand, LoadTask = mem_LoadTask, ResolveTask = mem_ResolveTask,
      LoadMessage = mem_LoadMessage, LoadArtifact = mem_LoadArtifact,
      LoadApplyReceipt = mem_LoadApplyReceipt, LoadWorkspaceHead = mem_LoadWorkspaceHead,
      LoadLeaseGrant = mem_LoadLeaseGrant, LoadLatestLeaseGrant = mem_LoadLatestLeaseGrant,
      FindClaimableTask = mem_FindClaimableTask, ScanContextTasks = mem_ScanContextTasks,
      ScanAuthorityTasks = mem_ScanAuthorityTasks, ScanMessages = mem_ScanMessages,
      ScanEvents = mem_ScanEvents, ScanLeases = mem_ScanLeases, InsertCommand = mem_InsertCommand,
      InsertTask = mem_InsertTask, CompareAndSwapTask = mem_CompareAndSwapTask,
      InsertMessage = mem_InsertMessage, InsertEvent = mem_InsertEvent,
      InsertLeaseGrant = mem_InsertLeaseGrant, InsertArtifact = mem_InsertArtifact,
      CompareAndSwapArtifact = mem_CompareAndSwapArtifact, InsertSubmission = mem_InsertSubmission,
      InsertWorkspaceHead = mem_InsertWorkspaceHead,
      CompareAndSwapWorkspaceHead = mem_CompareAndSwapWorkspaceHead,
      InsertApplyReceipt = mem_InsertApplyReceipt\<rparr>"


section \<open>The memory store provides the contract\<close>

definition mem_db :: "memoryAgentUnit \<Rightarrow> agent_db" where
  "mem_db u =
     \<lparr>db_commands = map_of (ms_commands (unit_state u)), db_tasks = map_of (ms_tasks (unit_state u)),
      db_messages = map_of (ms_messages (unit_state u)),
      db_events = (\<lambda>(task, sequence). map_of (event_map (unit_state u) task) sequence),
      db_leaseGrants = map_of (ms_leaseGrants (unit_state u)),
      db_artifacts = map_of (ms_artifacts (unit_state u)),
      db_submissions = map_of (ms_submissions (unit_state u)),
      db_workspaceHeads = map_of (ms_workspaceHeads (unit_state u)),
      db_applyReceipts = map_of (ms_applyReceipts (unit_state u))\<rparr>"

text \<open>Go maps have one entry per key, and the unit is inside its callback.\<close>

definition maps_ok :: "memoryAgentState \<Rightarrow> bool" where
  "maps_ok st =
     (gomap_ok (ms_commands st) \<and> gomap_ok (ms_tasks st) \<and> gomap_ok (ms_messages st)
      \<and> gomap_ok (ms_events st) \<and> (\<forall>task. gomap_ok (event_map st task))
      \<and> gomap_ok (ms_leaseGrants st) \<and> gomap_ok (ms_artifacts st) \<and> gomap_ok (ms_submissions st)
      \<and> gomap_ok (ms_workspaceHeads st) \<and> gomap_ok (ms_applyReceipts st))"

definition mem_inv :: "memoryAgentUnit \<Rightarrow> bool" where
  "mem_inv u = (unit_active u \<and> maps_ok (unit_state u) \<and> db_keyed (mem_db u))"

lemma mem_inv_active: "mem_inv u \<Longrightarrow> ensureActive u = Inr ()"
  by (simp add: mem_inv_def ensureActive_def)

lemma mem_inv_maps_ok: "mem_inv u \<Longrightarrow> maps_ok (unit_state u)"
  by (simp add: mem_inv_def)

lemma event_map_put [simp]:
  "event_map (st\<lparr>ms_events := gomap_put t m (ms_events st)\<rparr>) t' = (if t' = t then m else event_map st t')"
  by (simp add: event_map_def)

lemma memoryAgentTaskCreatedLess_iff:
  "memoryAgentTaskCreatedLess l r \<longleftrightarrow>
     task_created_cursor (str_Task l) < task_created_cursor (str_Task r)"
  by (auto simp: memoryAgentTaskCreatedLess_def task_created_cursor_def less_TaskPageCursor_def Let_def)

lemma memoryAgentTaskUpdatedLess_iff:
  "memoryAgentTaskUpdatedLess l r \<longleftrightarrow>
     task_updated_cursor (str_Task l) < task_updated_cursor (str_Task r)"
  by (auto simp: memoryAgentTaskUpdatedLess_def task_updated_cursor_def less_TaskQueryCursor_def Let_def)

lemma memoryAgentLeaseLess_iff: "memoryAgentLeaseLess l r \<longleftrightarrow> lease_cursor l < lease_cursor r"
  by (auto simp: memoryAgentLeaseLess_def lease_cursor_def less_LeasePageCursor_def)

lemma memoryAgentTaskAfterContextCursor_iff:
  "memoryAgentTaskAfterContextCursor t c \<longleftrightarrow> (\<forall>x. c = Some x \<longrightarrow> x < task_created_cursor t)"
  by (auto simp: memoryAgentTaskAfterContextCursor_def task_created_cursor_def less_TaskPageCursor_def
      split: option.splits)

lemma memoryAgentTaskAfterAuthorityCursor_iff:
  "memoryAgentTaskAfterAuthorityCursor t c \<longleftrightarrow> (\<forall>x. c = Some x \<longrightarrow> x < task_updated_cursor t)"
  by (auto simp: memoryAgentTaskAfterAuthorityCursor_def task_updated_cursor_def less_TaskQueryCursor_def
      split: option.splits)

lemma memoryAgentLeaseAfterCursor_iff:
  "memoryAgentLeaseAfterCursor a c \<longleftrightarrow> (\<forall>x. c = Some x \<longrightarrow> x < lease_cursor a)"
  by (auto simp: memoryAgentLeaseAfterCursor_def lease_cursor_def less_LeasePageCursor_def
      split: option.splits)

text \<open>The running maximum of \<open>LoadLatestLeaseGrant\<close>.\<close>

lemma latest_grant_Some:
  assumes "\<forall>((t, f), r) \<in> set m. lg_Task (slg_Grant r) = t \<and> lg_Fence (slg_Grant r) = f"
  shows "latest_grant ref latest m = Some g \<Longrightarrow>
     (latest = Some g \<or> (\<exists>f. ((ref, f), g) \<in> set m))
     \<and> (\<forall>l. latest = Some l \<longrightarrow> lg_Fence (slg_Grant l) \<le> lg_Fence (slg_Grant g))
     \<and> (\<forall>f r. ((ref, f), r) \<in> set m \<longrightarrow> f \<le> lg_Fence (slg_Grant g))"
  using assms
proof (induction ref latest m rule: latest_grant.induct)
  case (2 ref latest task fence r rest)
  then show ?case
    by (cases latest) (auto split: if_splits; force)+
qed auto

lemma latest_grant_None:
  "latest_grant ref latest m = None \<Longrightarrow> latest = None \<and> (\<forall>f r. ((ref, f), r) \<notin> set m)"
proof (induction ref latest m rule: latest_grant.induct)
  case (2 ref latest task fence r rest)
  then show ?case
    by (cases latest) (auto split: if_splits)
qed auto

lemma artifact_conflict_iff:
  "artifact_conflict a m = None \<longleftrightarrow>
     (\<forall>(k, r) \<in> set m. \<not> (ar_Authority (art_Ref (sar_Artifact r)) = ar_Authority (art_Ref a)
          \<and> ar_ID (art_Ref (sar_Artifact r)) = ar_ID (art_Ref a))
        \<and> art_Task (sar_Artifact r) \<noteq> art_Task a)"
  by (induction a m rule: artifact_conflict.induct) (auto simp: Let_def)

lemma artifact_conflict_Some:
  "artifact_conflict a m = Some c \<Longrightarrow> c \<in> {StoreConstraintArtifactID, StoreConstraintArtifactTask}"
  by (induction a m rule: artifact_conflict.induct) (auto simp: Let_def split: if_splits)

lemmas mem_defs = mem_LookupCommand_def mem_LoadTask_def mem_ResolveTask_def mem_LoadMessage_def
  mem_LoadArtifact_def mem_LoadApplyReceipt_def mem_LoadWorkspaceHead_def mem_LoadLeaseGrant_def
  mem_LoadLatestLeaseGrant_def mem_FindClaimableTask_def mem_InsertCommand_def mem_InsertTask_def
  mem_CompareAndSwapTask_def mem_InsertMessage_def mem_InsertEvent_def mem_InsertLeaseGrant_def
  mem_InsertArtifact_def mem_CompareAndSwapArtifact_def mem_InsertSubmission_def
  mem_InsertWorkspaceHead_def mem_CompareAndSwapWorkspaceHead_def mem_InsertApplyReceipt_def

lemmas mem_write_simps = memory_ops_def mem_db_def mem_inv_def maps_ok_def ensureActive_def set_state_def
  Let_def res_simps

lemma mem_LookupCommand_law:
  "mem_inv u \<Longrightarrow> LookupCommand memory_ops u key lim =
     lookup_limited lim scr_Result (db_commands (mem_db u) key)"
  by (simp add: mem_defs mem_write_simps memoryAgentReadLimit_def lookup_limited_def split: option.splits)

lemma mem_LoadTask_law:
  "mem_inv u \<Longrightarrow> LoadTask memory_ops u ref = lookup_db (db_tasks (mem_db u) ref)"
  by (simp add: mem_defs mem_write_simps lookup_db_def)

lemma mem_LoadMessage_law:
  "mem_inv u \<Longrightarrow> LoadMessage memory_ops u key lim =
     lookup_limited lim smr_EncodedParts (db_messages (mem_db u) key)"
  by (simp add: mem_defs mem_write_simps memoryAgentReadLimit_def lookup_limited_def split: option.splits)

lemma mem_LoadArtifact_law:
  "mem_inv u \<Longrightarrow> LoadArtifact memory_ops u ref lim =
     lookup_limited lim sar_EncodedPayload (db_artifacts (mem_db u) ref)"
  by (simp add: mem_defs mem_write_simps memoryAgentReadLimit_def lookup_limited_def split: option.splits)

lemma mem_LoadApplyReceipt_law:
  "mem_inv u \<Longrightarrow> LoadApplyReceipt memory_ops u ref = lookup_db (db_applyReceipts (mem_db u) ref)"
  by (simp add: mem_defs mem_write_simps lookup_db_def)

lemma mem_LoadWorkspaceHead_law:
  "mem_inv u \<Longrightarrow> LoadWorkspaceHead memory_ops u ref = lookup_db (db_workspaceHeads (mem_db u) ref)"
  by (simp add: mem_defs mem_write_simps lookup_db_def)

lemma mem_LoadLeaseGrant_law:
  "mem_inv u \<Longrightarrow> LoadLeaseGrant memory_ops u ref f = lookup_db (db_leaseGrants (mem_db u) (ref, f))"
  by (simp add: mem_defs mem_write_simps lookup_db_def)

lemma mem_ResolveTask_law:
  assumes "mem_inv u"
  shows "ResolveTask memory_ops u authority tid = Inr ref \<Longrightarrow>
      ref \<in> dom (db_tasks (mem_db u)) \<and> tr_Authority ref = authority \<and> tr_ID ref = tid"
    and "ResolveTask memory_ops u authority tid = Inl e \<Longrightarrow>
      e = ErrStoreRecordNotFound
      \<and> (\<forall>ref \<in> dom (db_tasks (mem_db u)). \<not> (tr_Authority ref = authority \<and> tr_ID ref = tid))"
proof -
  have res: "ResolveTask memory_ops u authority tid =
      (case find (\<lambda>ref. tr_Authority ref = authority \<and> tr_ID ref = tid)
              (map fst (ms_tasks (unit_state u))) of
         None \<Rightarrow> Inl ErrStoreRecordNotFound | Some ref \<Rightarrow> Inr ref)"
    using assms by (simp add: mem_defs memory_ops_def mem_inv_active res_simps)
  have dom: "dom (db_tasks (mem_db u)) = set (map fst (ms_tasks (unit_state u)))"
    by (simp add: mem_db_def dom_map_of_conv_image_fst)
  show "ref \<in> dom (db_tasks (mem_db u)) \<and> tr_Authority ref = authority \<and> tr_ID ref = tid"
    if "ResolveTask memory_ops u authority tid = Inr ref"
    using that find_SomeD unfolding res dom by (fastforce split: option.splits)
  show "e = ErrStoreRecordNotFound
      \<and> (\<forall>ref \<in> dom (db_tasks (mem_db u)). \<not> (tr_Authority ref = authority \<and> tr_ID ref = tid))"
    if "ResolveTask memory_ops u authority tid = Inl e"
    using that unfolding res dom by (simp add: find_None_iff split: option.splits)
qed

lemma mem_LoadLatestLeaseGrant_law:
  assumes "mem_inv u"
  shows "LoadLatestLeaseGrant memory_ops u ref = Inr g \<Longrightarrow>
      \<exists>fence. db_leaseGrants (mem_db u) (ref, fence) = Some g
        \<and> (\<forall>f. (ref, f) \<in> dom (db_leaseGrants (mem_db u)) \<longrightarrow> f \<le> fence)"
    and "LoadLatestLeaseGrant memory_ops u ref = Inl e \<Longrightarrow>
      e = ErrStoreRecordNotFound \<and> (\<forall>f. (ref, f) \<notin> dom (db_leaseGrants (mem_db u)))"
proof -
  let ?m = "ms_leaseGrants (unit_state u)"
  have ok: "gomap_ok ?m" using assms by (simp add: mem_inv_def maps_ok_def)
  have keyed: "\<forall>((t, f), r) \<in> set ?m. lg_Task (slg_Grant r) = t \<and> lg_Fence (slg_Grant r) = f"
    using assms ok by (auto simp: mem_inv_def db_keyed_def mem_db_def gomap_range)
  show "\<exists>fence. db_leaseGrants (mem_db u) (ref, fence) = Some g
        \<and> (\<forall>f. (ref, f) \<in> dom (db_leaseGrants (mem_db u)) \<longrightarrow> f \<le> fence)"
    if "LoadLatestLeaseGrant memory_ops u ref = Inr g"
  proof -
    from that assms have "latest_grant ref None ?m = Some g"
      by (auto simp: mem_defs mem_write_simps split: option.splits)
    from latest_grant_Some [OF keyed this] obtain f where f: "((ref, f), g) \<in> set ?m"
      and bound: "\<forall>f' r. ((ref, f'), r) \<in> set ?m \<longrightarrow> f' \<le> lg_Fence (slg_Grant g)" by auto
    from f keyed have "lg_Fence (slg_Grant g) = f" by auto
    with f bound ok show ?thesis by (auto simp: mem_db_def gomap_range)
  qed
  show "e = ErrStoreRecordNotFound \<and> (\<forall>f. (ref, f) \<notin> dom (db_leaseGrants (mem_db u)))"
    if "LoadLatestLeaseGrant memory_ops u ref = Inl e"
  proof -
    from that assms have e: "e = ErrStoreRecordNotFound" and "latest_grant ref None ?m = None"
      by (auto simp: mem_defs mem_write_simps split: option.splits)
    from latest_grant_None [OF this(2)] ok e show ?thesis by (auto simp: mem_db_def gomap_range)
  qed
qed

lemma mem_task_values: "mem_inv u \<Longrightarrow> snd ` set (ms_tasks (unit_state u)) = ran (db_tasks (mem_db u))"
  by (simp add: mem_inv_def maps_ok_def mem_db_def gomap_ran)

lemma mem_FindClaimableTask_law:
  assumes "mem_inv u"
  shows "FindClaimableTask memory_ops u authority = Inr r \<Longrightarrow>
      claimable authority r \<and> r \<in> ran (db_tasks (mem_db u))
      \<and> (\<forall>r' \<in> ran (db_tasks (mem_db u)). claimable authority r' \<longrightarrow>
           task_created_cursor (str_Task r) \<le> task_created_cursor (str_Task r'))"
    and "FindClaimableTask memory_ops u authority = Inl e \<Longrightarrow>
      e = ErrStoreRecordNotFound \<and> (\<forall>r' \<in> ran (db_tasks (mem_db u)). \<not> claimable authority r')"
proof -
  let ?xs = "filter (claimable authority) (map snd (ms_tasks (unit_state u)))"
  let ?ys = "sort_Slice memoryAgentTaskCreatedLess ?xs"
  have set: "set ?ys = {r \<in> ran (db_tasks (mem_db u)). claimable authority r}"
    using mem_task_values [OF assms] by auto
  have res: "FindClaimableTask memory_ops u authority =
      (case ?ys of [] \<Rightarrow> Inl ErrStoreRecordNotFound | r # _ \<Rightarrow> Inr r)"
    using assms by (simp add: mem_defs mem_write_simps claimable_def [abs_def])
  have sorted: "sorted (map (task_created_cursor \<circ> str_Task) ?ys)"
    by (rule sorted_sort_Slice) (simp add: memoryAgentTaskCreatedLess_iff)
  show "claimable authority r \<and> r \<in> ran (db_tasks (mem_db u))
      \<and> (\<forall>r' \<in> ran (db_tasks (mem_db u)). claimable authority r' \<longrightarrow>
           task_created_cursor (str_Task r) \<le> task_created_cursor (str_Task r'))"
    if "FindClaimableTask memory_ops u authority = Inr r"
  proof -
    from that res obtain rest where "?ys = r # rest" by (auto split: list.splits)
    with set sorted have "\<And>x. x \<in> set (r # rest) \<longleftrightarrow> x \<in> ran (db_tasks (mem_db u)) \<and> claimable authority x"
      and "\<And>x. x \<in> set rest \<Longrightarrow> task_created_cursor (str_Task r) \<le> task_created_cursor (str_Task x)"
      by auto
    then show ?thesis by (metis list.set_intros(1) order_refl set_ConsD)
  qed
  show "e = ErrStoreRecordNotFound \<and> (\<forall>r' \<in> ran (db_tasks (mem_db u)). \<not> claimable authority r')"
    if "FindClaimableTask memory_ops u authority = Inl e"
    using that res set mem_task_values [OF assms] by (cases ?ys) auto
qed


lemma mem_inv_write:
  "mem_inv u \<Longrightarrow> maps_ok st \<Longrightarrow> db_keyed (mem_db (set_state u st)) \<Longrightarrow> mem_inv (set_state u st)"
  by (simp add: mem_inv_def set_state_def)

lemma mem_InsertCommand_law:
  "mem_inv u \<Longrightarrow> rel_sum (=) (\<lambda>s' d'. mem_inv s' \<and> mem_db s' = d')
     (InsertCommand memory_ops u cmd) (spec_InsertCommand cmd (mem_db u))"
  by (auto simp: mem_defs mem_write_simps spec_InsertCommand_def command_key_def db_keyed_def event_map_def)

lemma mem_InsertTask_law:
  "mem_inv u \<Longrightarrow> rel_sum (=) (\<lambda>s' d'. mem_inv s' \<and> mem_db s' = d')
     (InsertTask memory_ops u r) (spec_InsertTask r (mem_db u))"
  by (auto simp: mem_defs mem_write_simps spec_InsertTask_def gomap_list_ex_dom db_keyed_def event_map_def)


lemma mem_CompareAndSwapTask_law:
  "mem_inv u \<Longrightarrow> rel_sum (=) (\<lambda>(b, s') (b', d'). b = b' \<and> mem_inv s' \<and> mem_db s' = d')
     (CompareAndSwapTask memory_ops u m) (spec_CompareAndSwapTask m (mem_db u))"
  by (auto simp: mem_defs mem_write_simps spec_CompareAndSwapTask_def db_keyed_def event_map_def
      split: option.splits)

lemma mem_InsertMessage_law:
  "mem_inv u \<Longrightarrow> rel_sum (=) (\<lambda>s' d'. mem_inv s' \<and> mem_db s' = d')
     (InsertMessage memory_ops u r) (spec_InsertMessage r (mem_db u))"
  by (auto simp: mem_defs mem_write_simps spec_InsertMessage_def message_key_def gomap_list_ex_ran
      db_keyed_def event_map_def)

lemma mem_InsertEvent_law:
  "mem_inv u \<Longrightarrow> rel_sum (=) (\<lambda>s' d'. mem_inv s' \<and> mem_db s' = d')
     (InsertEvent memory_ops u e) (spec_InsertEvent e (mem_db u))"
  by (auto simp: mem_defs mem_write_simps spec_InsertEvent_def db_keyed_def fun_eq_iff)

lemma mem_InsertLeaseGrant_law:
  "mem_inv u \<Longrightarrow> rel_sum (=) (\<lambda>s' d'. mem_inv s' \<and> mem_db s' = d')
     (InsertLeaseGrant memory_ops u r) (spec_InsertLeaseGrant r (mem_db u))"
  by (auto simp: mem_defs mem_write_simps spec_InsertLeaseGrant_def db_keyed_def event_map_def)

lemma mem_CompareAndSwapArtifact_law:
  "mem_inv u \<Longrightarrow> rel_sum (=) (\<lambda>(b, s') (b', d'). b = b' \<and> mem_inv s' \<and> mem_db s' = d')
     (CompareAndSwapArtifact memory_ops u m) (spec_CompareAndSwapArtifact m (mem_db u))"
  by (auto simp: mem_defs mem_write_simps spec_CompareAndSwapArtifact_def db_keyed_def event_map_def
      split: option.splits)

lemma mem_InsertSubmission_law:
  "mem_inv u \<Longrightarrow> rel_sum (=) (\<lambda>s' d'. mem_inv s' \<and> mem_db s' = d')
     (InsertSubmission memory_ops u r) (spec_InsertSubmission r (mem_db u))"
  by (auto simp: mem_defs mem_write_simps spec_InsertSubmission_def gomap_list_ex_ran
      db_keyed_def event_map_def)

lemma mem_InsertWorkspaceHead_law:
  "mem_inv u \<Longrightarrow> rel_sum (=) (\<lambda>(b, s') (b', d'). b = b' \<and> mem_inv s' \<and> mem_db s' = d')
     (InsertWorkspaceHead memory_ops u h) (spec_InsertWorkspaceHead h (mem_db u))"
  by (auto simp: mem_defs mem_write_simps spec_InsertWorkspaceHead_def db_keyed_def event_map_def)

lemma mem_CompareAndSwapWorkspaceHead_law:
  "mem_inv u \<Longrightarrow> rel_sum (=) (\<lambda>(b, s') (b', d'). b = b' \<and> mem_inv s' \<and> mem_db s' = d')
     (CompareAndSwapWorkspaceHead memory_ops u m) (spec_CompareAndSwapWorkspaceHead m (mem_db u))"
  by (auto simp: mem_defs mem_write_simps spec_CompareAndSwapWorkspaceHead_def db_keyed_def event_map_def
      split: option.splits)

lemma mem_InsertApplyReceipt_law:
  "mem_inv u \<Longrightarrow> rel_sum (=) (\<lambda>s' d'. mem_inv s' \<and> mem_db s' = d')
     (InsertApplyReceipt memory_ops u r) (spec_InsertApplyReceipt r (mem_db u))"
  by (auto simp: mem_defs mem_write_simps spec_InsertApplyReceipt_def gomap_list_ex_ran
      db_keyed_def event_map_def)


lemma mem_InsertArtifact_law:
  "mem_inv u \<Longrightarrow> spec_InsertArtifact r (mem_db u) (map_sum id mem_db (InsertArtifact memory_ops u r))
     \<and> (\<forall>u'. InsertArtifact memory_ops u r = Inr u' \<longrightarrow> mem_inv u')"
proof -
  assume inv: "mem_inv u"
  let ?m = "ms_artifacts (unit_state u)" and ?a = "sar_Artifact r"
  have ran: "snd ` set ?m = ran (db_artifacts (mem_db u))"
    using inv by (simp add: mem_inv_def maps_ok_def mem_db_def gomap_ran)
  have "artifact_conflict ?a ?m = None \<longleftrightarrow> (\<forall>r' \<in> ran (db_artifacts (mem_db u)).
      \<not> (ar_Authority (art_Ref (sar_Artifact r')) = ar_Authority (art_Ref ?a)
         \<and> ar_ID (art_Ref (sar_Artifact r')) = ar_ID (art_Ref ?a))
      \<and> art_Task (sar_Artifact r') \<noteq> art_Task ?a)"
    unfolding artifact_conflict_iff ran [symmetric] by auto
  moreover have "db_artifacts (mem_db u) (art_Ref ?a) = map_of ?m (art_Ref ?a)" by (simp add: mem_db_def)
  moreover have "InsertArtifact memory_ops u r = mem_InsertArtifact u r" by (simp add: memory_ops_def)
  moreover have "map_of ?m (art_Ref ?a) = None \<Longrightarrow> artifact_conflict ?a ?m = None \<Longrightarrow>
      \<exists>u'. mem_InsertArtifact u r = Inr u' \<and> mem_inv u'
        \<and> mem_db u' = (mem_db u)\<lparr>db_artifacts := (db_artifacts (mem_db u))(art_Ref ?a \<mapsto> r)\<rparr>"
    using inv by (auto simp: mem_defs mem_write_simps db_keyed_def event_map_def)
  moreover have "mem_InsertArtifact u r = (if map_of ?m (art_Ref ?a) \<noteq> None
       then Inl (StoreConflictError StoreConstraintArtifactID)
       else case artifact_conflict ?a ?m of Some c \<Rightarrow> Inl (StoreConflictError c)
         | None \<Rightarrow> mem_InsertArtifact u r)"
    using inv by (auto simp: mem_defs Let_def mem_inv_active res_simps split: option.splits)
  ultimately show ?thesis
    by (cases "map_of ?m (art_Ref ?a)"; cases "artifact_conflict ?a ?m")
      (auto simp: spec_InsertArtifact_def Let_def dest: artifact_conflict_Some)
qed

lemma mem_keyed: "mem_inv u \<Longrightarrow> db_keyed (mem_db u)"
  by (simp add: mem_inv_def)

lemmas memory_laws = mem_keyed mem_LookupCommand_law mem_LoadTask_law mem_ResolveTask_law
  mem_LoadMessage_law mem_LoadArtifact_law mem_LoadApplyReceipt_law mem_LoadWorkspaceHead_law
  mem_LoadLeaseGrant_law mem_LoadLatestLeaseGrant_law mem_FindClaimableTask_law
  mem_InsertCommand_law mem_InsertTask_law mem_CompareAndSwapTask_law mem_InsertMessage_law
  mem_InsertEvent_law mem_InsertLeaseGrant_law mem_InsertArtifact_law mem_CompareAndSwapArtifact_law
  mem_InsertSubmission_law mem_InsertWorkspaceHead_law mem_CompareAndSwapWorkspaceHead_law
  mem_InsertApplyReceipt_law

interpretation mem: agent_store memory_ops mem_db mem_inv
  by unfold_locales (fact memory_laws)+

lemma mem_task_values_distinct: "mem_inv u \<Longrightarrow> distinct (map snd (ms_tasks (unit_state u)))"
  by (rule gomap_distinct_values [where key = "\<lambda>r. task_Ref (str_Task r)"])
    (auto simp: mem_inv_def maps_ok_def db_keyed_def mem_db_def gomap_range)

lemma mem_message_values: "mem_inv u \<Longrightarrow> snd ` set (ms_messages (unit_state u)) = ran (db_messages (mem_db u))"
  by (simp add: mem_inv_def maps_ok_def mem_db_def gomap_ran)

lemma mem_message_values_distinct: "mem_inv u \<Longrightarrow> distinct (map snd (ms_messages (unit_state u)))"
  by (rule gomap_distinct_values [where key = message_key])
    (auto simp: mem_inv_def maps_ok_def db_keyed_def mem_db_def gomap_range)

lemma scan_limit_ok_mem [simp]: "scan_limit_ok n \<Longrightarrow> memoryAgentScanLimit n = Inr ()"
  by (simp add: scan_limit_ok_def memoryAgentScanLimit_def)

lemma mem_ScanContextTasks_law:
  assumes "mem_inv u" "scan_limit_ok (tcs_Limit scan)"
  shows "\<exists>xs. ordered_rows (\<lambda>r. task_created_cursor (str_Task r))
             {r \<in> ran (db_tasks (mem_db u)). task_Context (str_Task r) = tcs_Context scan
                \<and> (\<forall>x. tcs_After scan = Some x \<longrightarrow> x < task_created_cursor (str_Task r))} xs
           \<and> ScanContextTasks memory_ops u scan = Inr (take (nat (tcs_Limit scan)) xs)"
proof -
  let ?xs = "filter (\<lambda>r. \<not> (task_Context (str_Task r) \<noteq> tcs_Context scan
      \<or> \<not> memoryAgentTaskAfterContextCursor (str_Task r) (tcs_After scan))) (map snd (ms_tasks (unit_state u)))"
  have "ordered_rows (\<lambda>r. task_created_cursor (str_Task r))
      {r \<in> ran (db_tasks (mem_db u)). task_Context (str_Task r) = tcs_Context scan
         \<and> (\<forall>x. tcs_After scan = Some x \<longrightarrow> x < task_created_cursor (str_Task r))}
      (sort_Slice memoryAgentTaskCreatedLess ?xs)"
    using mem_task_values [OF assms(1)] mem_task_values_distinct [OF assms(1)]
    by (intro ordered_rows_sort_Slice)
      (auto simp: memoryAgentTaskCreatedLess_iff memoryAgentTaskAfterContextCursor_iff)
  moreover have "ScanContextTasks memory_ops u scan =
      Inr (take (nat (tcs_Limit scan)) (sort_Slice memoryAgentTaskCreatedLess ?xs))"
    using assms by (simp add: memory_ops_def mem_ScanContextTasks_def mem_inv_active res_simps)
  ultimately show ?thesis by blast
qed

lemma sorted_map_filter: "sorted (map f xs) \<Longrightarrow> sorted (map f (filter P xs))"
  by (induction xs) auto

lemma mem_ScanAuthorityTasks_law:
  assumes "mem_inv u" "scan_limit_ok (tas_Limit scan)"
  shows "\<exists>xs. ordered_rows (\<lambda>r. task_updated_cursor (str_Task r))
             {r \<in> authority_rows (mem_db u) scan.
                \<forall>x. tas_After scan = Some x \<longrightarrow> x < task_updated_cursor (str_Task r)} xs
           \<and> ScanAuthorityTasks memory_ops u scan =
               Inr \<lparr>tar_Records = take (nat (tas_Limit scan)) xs,
                    tar_TotalSize = of_nat (card (authority_rows (mem_db u) scan))\<rparr>"
proof -
  let ?P = "\<lambda>r. \<not> (tr_Authority (task_Ref (str_Task r)) \<noteq> tas_Authority scan
      \<or> (tas_Context scan \<noteq> [] \<and> cr_ID (task_Context (str_Task r)) \<noteq> tas_Context scan)
      \<or> (tas_State scan \<noteq> TaskStateOther [] \<and> task_State (str_Task r) \<noteq> tas_State scan)
      \<or> (case tas_UpdatedAtOrAfter scan of None \<Rightarrow> False | Some t \<Rightarrow> task_UpdatedAt (str_Task r) < t))"
  let ?xs = "filter ?P (map snd (ms_tasks (unit_state u)))"
  let ?ys = "sort_Slice memoryAgentTaskUpdatedLess ?xs"
  let ?zs = "filter (\<lambda>r. memoryAgentTaskAfterAuthorityCursor (str_Task r) (tas_After scan)) ?ys"
  have rows: "ordered_rows (\<lambda>r. task_updated_cursor (str_Task r)) (authority_rows (mem_db u) scan) ?ys"
    using mem_task_values [OF assms(1)] mem_task_values_distinct [OF assms(1)]
    by (intro ordered_rows_sort_Slice)
      (auto simp: memoryAgentTaskUpdatedLess_iff authority_rows_def split: option.splits)
  then have "ordered_rows (\<lambda>r. task_updated_cursor (str_Task r))
      {r \<in> authority_rows (mem_db u) scan.
         \<forall>x. tas_After scan = Some x \<longrightarrow> x < task_updated_cursor (str_Task r)} ?zs"
    by (auto simp: ordered_rows_def memoryAgentTaskAfterAuthorityCursor_iff sorted_map_filter)
  moreover have "length ?ys = card (authority_rows (mem_db u) scan)"
    using rows distinct_card [of ?ys] by (simp add: ordered_rows_def)
  moreover have "ScanAuthorityTasks memory_ops u scan =
      Inr \<lparr>tar_Records = take (nat (tas_Limit scan)) ?zs, tar_TotalSize = of_nat (length ?ys)\<rparr>"
    using assms
    by (simp add: memory_ops_def mem_ScanAuthorityTasks_def mem_inv_active res_simps Let_def)
  ultimately show ?thesis by auto
qed

text \<open>The budget loop takes a prefix that fits, and fails only on a first row that does not.\<close>

lemma take_budget_Inr:
  "take_budget limit taken started xs = Inr ys \<Longrightarrow>
     (\<exists>n \<le> length xs. ys = take n xs)
     \<and> (taken \<le> limit \<longrightarrow> taken + message_bytes ys \<le> limit)
     \<and> (\<not> started \<longrightarrow> taken = 0 \<longrightarrow> ys = [] \<longrightarrow> xs = [])"
proof (induction limit taken started xs arbitrary: ys rule: take_budget.induct)
  case (2 limit taken started r rest)
  show ?case
  proof (cases "int (length (smr_EncodedParts r)) > limit \<or> taken > limit - int (length (smr_EncodedParts r))")
    case True
    with 2(2) show ?thesis by (auto simp: Let_def message_bytes_def split: if_splits)
  next
    case False
    then obtain zs where zs: "take_budget limit (taken + int (length (smr_EncodedParts r))) True rest = Inr zs"
        and ys: "ys = r # zs"
      using 2(2) by (auto simp: Let_def res_simps split: if_splits)
    from 2(1) [OF refl _ _ zs] False obtain n where "n \<le> length rest" "zs = take n rest"
      and "taken + int (length (smr_EncodedParts r)) + message_bytes zs \<le> limit"
      by auto
    then show ?thesis
      unfolding ys by (auto simp: message_bytes_def intro!: exI [of _ "Suc n"])
  qed
qed (auto simp: message_bytes_def)

lemma take_budget_started_ok: "\<exists>ys. take_budget limit taken True xs = Inr ys"
proof (induction xs arbitrary: taken)
  case (Cons r rest)
  from Cons [of "taken + int (length (smr_EncodedParts r))"] show ?case
    by (auto simp: Let_def res_simps)
qed simp

lemma take_budget_Inl:
  assumes "take_budget limit 0 False xs = Inl e"
  shows "e = ErrStoreRecordTooLarge \<and> xs \<noteq> [] \<and> limit < int (length (smr_EncodedParts (hd xs)))"
proof (cases xs)
  case (Cons r rest)
  from take_budget_started_ok [of limit "int (length (smr_EncodedParts r))" rest] assms Cons
  show ?thesis by (auto simp: Let_def res_simps split: if_splits)
qed (use assms in simp)

lemma mem_ScanMessages_law:
  assumes "mem_inv u" "scan_limit_ok (sms_Limit scan)" "1 \<le> sms_ReadLimit scan"
  shows "\<exists>xs. ordered_rows smr_Sequence (message_rows (mem_db u) (sms_Task scan) (sms_After scan)) xs
           \<and> (case ScanMessages memory_ops u scan of
                Inr ys \<Rightarrow> (\<exists>n \<le> nat (sms_Limit scan). ys = take n xs)
                  \<and> message_bytes ys \<le> sms_ReadLimit scan \<and> (ys = [] \<longrightarrow> xs = [])
              | Inl e \<Rightarrow> e = ErrStoreRecordTooLarge \<and> xs \<noteq> []
                  \<and> sms_ReadLimit scan < int (length (smr_EncodedParts (hd xs))))"
proof -
  let ?xs = "sort_Slice (\<lambda>l r. smr_Sequence l < smr_Sequence r)
      (filter (\<lambda>r. smr_Task r = sms_Task scan \<and> smr_Sequence r > sms_After scan)
         (map snd (ms_messages (unit_state u))))"
  let ?n = "nat (sms_Limit scan)"
  have n: "?n \<noteq> 0" using assms(2) by (simp add: scan_limit_ok_def)
  have rows: "ordered_rows smr_Sequence (message_rows (mem_db u) (sms_Task scan) (sms_After scan)) ?xs"
    using mem_message_values [OF assms(1)] mem_message_values_distinct [OF assms(1)]
    by (intro ordered_rows_sort_Slice) (auto simp: message_rows_def)
  have res: "ScanMessages memory_ops u scan = take_budget (sms_ReadLimit scan) 0 False (take ?n ?xs)"
    using assms
    by (simp add: memory_ops_def mem_ScanMessages_def mem_inv_active memoryAgentReadLimit_def res_simps)
  show ?thesis
  proof (intro exI conjI, fact rows, cases "take_budget (sms_ReadLimit scan) 0 False (take ?n ?xs)")
    case (Inl e)
    with take_budget_Inl [OF Inl] res n show "case ScanMessages memory_ops u scan of
        Inr ys \<Rightarrow> (\<exists>n \<le> ?n. ys = take n ?xs) \<and> message_bytes ys \<le> sms_ReadLimit scan \<and> (ys = [] \<longrightarrow> ?xs = [])
      | Inl e \<Rightarrow> e = ErrStoreRecordTooLarge \<and> ?xs \<noteq> []
          \<and> sms_ReadLimit scan < int (length (smr_EncodedParts (hd ?xs)))" by auto
  next
    case (Inr ys)
    from take_budget_Inr [OF Inr] obtain m where "m \<le> ?n" "ys = take m (take ?n ?xs)"
      and "message_bytes ys \<le> sms_ReadLimit scan" "ys = [] \<longrightarrow> take ?n ?xs = []"
      using assms(3) by auto
    with res Inr n show "case ScanMessages memory_ops u scan of
        Inr ys \<Rightarrow> (\<exists>n \<le> ?n. ys = take n ?xs) \<and> message_bytes ys \<le> sms_ReadLimit scan \<and> (ys = [] \<longrightarrow> ?xs = [])
      | Inl e \<Rightarrow> e = ErrStoreRecordTooLarge \<and> ?xs \<noteq> []
          \<and> sms_ReadLimit scan < int (length (smr_EncodedParts (hd ?xs)))"
      by (auto simp: min_absorb1 intro!: exI [of _ m])
  qed
qed

lemma map_of_row: "gomap_ok m \<Longrightarrow> sequence \<in> fst ` set m \<Longrightarrow> map_of m sequence = Some (the (map_of m sequence))"
  by (auto simp: gomap_range dest: weak_map_of_SomeI)

lemma sorted_distinct_map_key:
  assumes "\<And>x. x \<in> set xs \<Longrightarrow> key (f x) = x" "distinct xs" "sorted xs"
  shows "distinct (map f xs)" "sorted (map key (map f xs))"
proof -
  have "map key (map f xs) = xs" using assms(1) by (simp add: map_idI)
  with assms(2,3) show "distinct (map f xs)" "sorted (map key (map f xs))"
    by (metis distinct_map, simp)
qed

lemma mem_event_rows:
  assumes "mem_inv u"
  shows "event_rows (mem_db u) task after =
    (\<lambda>sequence. the (map_of (event_map (unit_state u) task) sequence)) `
      {sequence \<in> fst ` set (event_map (unit_state u) task). after < sequence}"
    (is "_ = ?f ` ?S")
proof -
  let ?m = "event_map (unit_state u) task"
  have ok: "gomap_ok ?m" and keyed: "\<And>n e. map_of ?m n = Some e \<Longrightarrow> ev_Task e = task \<and> ev_Sequence e = n"
    and keyed': "\<And>t n e. map_of (event_map (unit_state u) t) n = Some e \<Longrightarrow> ev_Task e = t"
    using assms by (auto simp: mem_inv_def maps_ok_def db_keyed_def mem_db_def)
  show ?thesis
  proof (intro set_eqI iffI)
    fix e assume "e \<in> event_rows (mem_db u) task after"
    then have "map_of ?m (ev_Sequence e) = Some e" "after < ev_Sequence e"
      using keyed keyed' by (auto simp: event_rows_def mem_db_def ran_def)
    then have "ev_Sequence e \<in> ?S" "e = ?f (ev_Sequence e)" by (force dest: map_of_SomeD)+
    then show "e \<in> ?f ` ?S" by (rule rev_image_eqI)
  next
    fix e assume "e \<in> ?f ` ?S"
    then obtain n where "map_of ?m n = Some e" "after < n" using map_of_row [OF ok] by auto
    with keyed show "e \<in> event_rows (mem_db u) task after"
      by (auto simp: event_rows_def mem_db_def ran_def intro!: exI [of _ task] exI [of _ n])
  qed
qed

lemma mem_ScanEvents_law:
  assumes "mem_inv u" "scan_limit_ok (ses_Limit scan)"
  shows "\<exists>xs. ordered_rows ev_Sequence (event_rows (mem_db u) (ses_Task scan) (ses_After scan)) xs
           \<and> ScanEvents memory_ops u scan = Inr (take (nat (ses_Limit scan)) xs)"
proof -
  let ?m = "event_map (unit_state u) (ses_Task scan)"
  let ?ns = "sort_Slice (\<lambda>l r. l < r) (filter (\<lambda>n. n > ses_After scan) (map fst ?m))"
  let ?f = "\<lambda>n. the (map_of ?m n)"
  have ok: "gomap_ok ?m" and keyed: "\<And>n e. map_of ?m n = Some e \<Longrightarrow> ev_Sequence e = n"
    using assms by (auto simp: mem_inv_def maps_ok_def db_keyed_def mem_db_def)
  have key: "\<And>n. n \<in> set ?ns \<Longrightarrow> ev_Sequence (?f n) = n"
    using map_of_row [OF ok] keyed by auto
  have "distinct ?ns" using ok by (simp add: gomap_ok_def)
  moreover have "sorted ?ns" using sorted_sort_Slice [of "\<lambda>l r. l < r" "\<lambda>n. n"] by simp
  ultimately have "ordered_rows ev_Sequence (event_rows (mem_db u) (ses_Task scan) (ses_After scan)) (map ?f ?ns)"
    using sorted_distinct_map_key [of ?ns ev_Sequence ?f, OF key] mem_event_rows [OF assms(1)]
    by (auto simp: ordered_rows_def)
  moreover have "ScanEvents memory_ops u scan = Inr (take (nat (ses_Limit scan)) (map ?f ?ns))"
    using assms by (simp add: memory_ops_def mem_ScanEvents_def mem_inv_active res_simps Let_def take_map)
  ultimately show ?thesis by blast
qed

definition assignment_row :: "memoryAgentState \<Rightarrow> TaskRef \<times> StoreTaskRecord \<Rightarrow> LeaseAssignment" where
  "assignment_row st = (\<lambda>(ref, r).
     let g = the (map_of (ms_leaseGrants st) (ref, ls_Fence (str_Lease r))) in
     \<lparr>la_Grant = slg_Grant g, la_Task = str_Task r, la_GrantedAt = slg_GrantedAt g\<rparr>)"

definition owned_by :: "StoreLeaseScan \<Rightarrow> TaskRef \<times> StoreTaskRecord \<Rightarrow> bool" where
  "owned_by scan = (\<lambda>(ref, r). tr_Authority ref = sls_Authority scan \<and> ls_Owner (str_Lease r) = sls_Worker scan)"

lemma scan_assignments_complete:
  assumes "\<And>ref r. (ref, r) \<in> set rows \<Longrightarrow> owned_by scan (ref, r) \<Longrightarrow>
    \<exists>g. map_of (ms_leaseGrants st) (ref, ls_Fence (str_Lease r)) = Some g \<and> lg_Worker (slg_Grant g) = sls_Worker scan"
  shows "scan_assignments st scan rows =
    Inr (filter (\<lambda>a. memoryAgentLeaseAfterCursor a (sls_After scan)) (map (assignment_row st) (filter (owned_by scan) rows)))"
  using assms
proof (induction st scan rows rule: scan_assignments.induct)
  case (2 st scan ref r rest)
  show ?case
  proof (cases "owned_by scan (ref, r)")
    case True
    with 2(3) obtain g where "map_of (ms_leaseGrants st) (ref, ls_Fence (str_Lease r)) = Some g"
      "lg_Worker (slg_Grant g) = sls_Worker scan" by (metis list.set_intros(1))
    with 2 True show ?thesis
      by (auto simp: Let_def res_simps owned_by_def assignment_row_def)
  next
    case False
    with 2 show ?thesis by (auto simp: owned_by_def)
  qed
qed simp

lemma mem_ScanLeases_law:
  assumes "mem_inv u" "scan_limit_ok (sls_Limit scan)"
    "lease_history_complete (mem_db u) (sls_Authority scan) (sls_Worker scan)"
  shows "\<exists>xs. ordered_rows lease_cursor
             {a \<in> lease_rows (mem_db u) scan. \<forall>x. sls_After scan = Some x \<longrightarrow> x < lease_cursor a} xs
           \<and> ScanLeases memory_ops u scan = Inr (take (nat (sls_Limit scan)) xs)"
proof -
  let ?st = "unit_state u" and ?m = "ms_tasks (unit_state u)"
  let ?as = "map (assignment_row ?st) (filter (owned_by scan) ?m)"
  let ?xs = "filter (\<lambda>a. memoryAgentLeaseAfterCursor a (sls_After scan)) ?as"
  have ok: "gomap_ok ?m" and keyed: "\<And>k r. (k, r) \<in> set ?m \<Longrightarrow> task_Ref (str_Task r) = k"
    using assms(1) by (auto simp: mem_inv_def maps_ok_def db_keyed_def mem_db_def gomap_range)
  have hist: "\<exists>g. map_of (ms_leaseGrants ?st) (ref, ls_Fence (str_Lease r)) = Some g
      \<and> lg_Worker (slg_Grant g) = sls_Worker scan"
    if "(ref, r) \<in> set ?m" "owned_by scan (ref, r)" for ref r
    using that assms(3) ok by (auto simp: lease_history_complete_def mem_db_def owned_by_def gomap_range)
  have "distinct (map (\<lambda>a. task_Ref (la_Task a)) ?as)"
  proof -
    have "map (\<lambda>a. task_Ref (la_Task a)) ?as = map fst (filter (owned_by scan) ?m)"
      using keyed by (auto simp: assignment_row_def Let_def)
    with ok show ?thesis by (simp only: gomap_ok_def distinct_map_filter)
  qed
  then have "distinct ?as" by (simp only: distinct_map)
  moreover have "set ?as = lease_rows (mem_db u) scan"
    using hist ok unfolding lease_rows_def
    by (force simp: mem_db_def gomap_range owned_by_def assignment_row_def Let_def)
  ultimately have "ordered_rows lease_cursor
      {a \<in> lease_rows (mem_db u) scan. \<forall>x. sls_After scan = Some x \<longrightarrow> x < lease_cursor a}
      (sort_Slice memoryAgentLeaseLess ?xs)"
    by (intro ordered_rows_sort_Slice) (auto simp: memoryAgentLeaseLess_iff memoryAgentLeaseAfterCursor_iff)
  moreover have "ScanLeases memory_ops u scan = Inr (take (nat (sls_Limit scan)) (sort_Slice memoryAgentLeaseLess ?xs))"
    using assms(1,2) scan_assignments_complete [of ?m scan ?st, OF hist]
    by (simp add: memory_ops_def mem_ScanLeases_def mem_inv_active res_simps)
  ultimately show ?thesis by blast
qed

interpretation mem: agent_store_scans memory_ops mem_db mem_inv
  by unfold_locales (fact mem_ScanContextTasks_law mem_ScanAuthorityTasks_law mem_ScanMessages_law
    mem_ScanEvents_law mem_ScanLeases_law)+

text \<open>
  C29 (refinement). The memory store keeps the contract of the Store port: every view and every
  transaction operation, and every ordered scan, answers as the abstract database says and keeps
  the representation invariant. This is what the theorems about the Agent rest on.
\<close>

theorem memory_store_contract: "agent_store_scans memory_ops mem_db mem_inv"
  by (rule mem.agent_store_scans_axioms)

end
