(* ===== verification/Agent_Refine.thy ===== *)
theory Agent_Refine
  imports Agent_Effects Memory_Store
begin

text \<open>
  The operations of the Agent refine the abstract steps, over any provider of the Store port:
  each call leaves the store as it was or takes one \<open>agent_step\<close>, and its answer is the step's
  result or the result an earlier step recorded.
\<close>

lemma ok_of_Inr: "f = Inr x \<Longrightarrow> ok f"
  by (simp add: ok_iff)

lemma map_err_Inl_D: "map_err f r = Inl e \<Longrightarrow> \<exists>e'. r = Inl e' \<and> e = f e'"
  by (cases r) (simp_all add: map_err_def)

text \<open>A replay found nothing only if the lookup it starts with found nothing.\<close>

lemma bind_found_None:
  assumes "bind_res X (\<lambda>found. case found of None \<Rightarrow> Inr None | Some v \<Rightarrow> G v) = Inr None"
    and "\<And>v. G v \<noteq> Inr None"
  shows "X = Inr None"
  using assms by (auto simp: res_simps split: option.splits)

lemma bind_found_Some:
  assumes "bind_res X (\<lambda>found. case found of None \<Rightarrow> Inr None | Some v \<Rightarrow> G v) = Inr (Some w)"
  shows "\<exists>v. X = Inr (Some v) \<and> G v = Inr (Some w)"
  using assms by (auto simp: res_simps split: option.splits)

text \<open>An \<open>Update\<close> that changed the state ran its callback to the end.\<close>

lemma store_Update_changed:
  "store_Update ctx out f s = (res, s') \<Longrightarrow> s' \<noteq> s \<Longrightarrow>
     \<exists>a. f s = Inr (a, s') \<and> (res = Inr a \<or> res = Inl (StoreFailure ErrStoreCommitUnknown))"
  by (cases ctx; cases out) (auto simp: store_Update_def split: sum.splits if_splits)

text \<open>Every mutating call of the Agent, with any configuration, caller and command.\<close>

inductive agent_call :: "env \<Rightarrow> 's store_ops \<Rightarrow> 's \<Rightarrow> 's \<Rightarrow> bool" for E ops where
  CreateTask: "CreateTask E ag ops ce c sv s = (res, s') \<Longrightarrow> agent_call E ops s s'"
| AcceptTask: "AcceptTask E ag ops ce wc sv s = (res, s') \<Longrightarrow> agent_call E ops s s'"
| RejectTask: "RejectTask E ag ops ce wc sv s = (res, s') \<Longrightarrow> agent_call E ops s s'"
| RequestInput: "RequestInput E ag ops ce wm sv s = (res, s') \<Longrightarrow> agent_call E ops s s'"
| ReplyTask: "ReplyTask E ag ops ce mc sv s = (res, s') \<Longrightarrow> agent_call E ops s s'"
| CancelTask: "CancelTask E ag ops ce tc sv s = (res, s') \<Longrightarrow> agent_call E ops s s'"
| FailTask: "FailTask E ag ops ce wc sv s = (res, s') \<Longrightarrow> agent_call E ops s s'"
| CompleteTask: "CompleteTask E ag ops ce cc sv s = (res, s') \<Longrightarrow> agent_call E ops s s'"
| AcquireLease: "AcquireLease E ag ops ce al s = (lres, s') \<Longrightarrow> agent_call E ops s s'"
| ClaimLease: "ClaimLease E ag ops ce cl s = (lres, s') \<Longrightarrow> agent_call E ops s s'"
| FenceLease: "FenceLease E ag ops ce fl s = (ures, s') \<Longrightarrow> agent_call E ops s s'"
| FreezeArtifact: "FreezeArtifact E ag ops ce fa sv s = (fres, s') \<Longrightarrow> agent_call E ops s s'"
| RecordApplyReceipt: "RecordApplyReceipt E ag ops ce rr s = (rres, s') \<Longrightarrow> agent_call E ops s s'"

text \<open>The issuer and the change behind each command of the state machine.\<close>

lemma worker_ok: "validateWorkerMeta m ref = Inr x \<Longrightarrow> lg_Task (wcm_Grant m) = ref"
  using ok_validateWorkerMeta [of m ref] by (simp add: ok_of_Inr)

lemma AcceptTask_run:
  assumes "AcceptTask E ag ops ce c sv s = (res, s')" "s' \<noteq> s"
  shows "run_transition E ag ops ce ''accept_task'' (commandMeta (wtc_Meta c))
      (issuer_grant (Worker (wcm_Grant (wtc_Meta c)))) (wtc_Task c) (CmdWorkerTask c) accept_change sv s = (res, s')
    \<and> lg_Task (wcm_Grant (wtc_Meta c)) = wtc_Task c"
  using assms worker_ok by (auto simp: AcceptTask_def split: sum.splits)

lemma RejectTask_run:
  assumes "RejectTask E ag ops ce c sv s = (res, s')" "s' \<noteq> s"
  shows "run_transition E ag ops ce ''reject_task'' (commandMeta (wtc_Meta c))
      (issuer_grant (Worker (wcm_Grant (wtc_Meta c)))) (wtc_Task c) (CmdWorkerTask c) reject_change sv s = (res, s')
    \<and> lg_Task (wcm_Grant (wtc_Meta c)) = wtc_Task c"
  using assms worker_ok by (auto simp: RejectTask_def split: sum.splits)

lemma FailTask_run:
  assumes "FailTask E ag ops ce c sv s = (res, s')" "s' \<noteq> s"
  shows "run_transition E ag ops ce ''fail_task'' (commandMeta (wtc_Meta c))
      (issuer_grant (Worker (wcm_Grant (wtc_Meta c)))) (wtc_Task c) (CmdWorkerTask c) fail_change sv s = (res, s')
    \<and> lg_Task (wcm_Grant (wtc_Meta c)) = wtc_Task c"
  using assms worker_ok by (auto simp: FailTask_def split: sum.splits)

lemma RequestInput_run:
  assumes "RequestInput E ag ops ce c sv s = (res, s')" "s' \<noteq> s"
  shows "run_transition E ag ops ce ''request_input'' (commandMeta (wmc_Meta c))
      (issuer_grant (Worker (wcm_Grant (wmc_Meta c)))) (wmc_Task c) (CmdWorkerMessage c)
      (request_input_change (wmc_Message c)) sv s = (res, s')
    \<and> lg_Task (wcm_Grant (wmc_Meta c)) = wmc_Task c \<and> ok (validateMessageInput E (wmc_Message c))"
  using assms worker_ok by (auto simp: RequestInput_def bind_res_Inr ok_of_Inr split: sum.splits)

lemma ReplyTask_run:
  assumes "ReplyTask E ag ops ce c sv s = (res, s')" "s' \<noteq> s"
  shows "run_transition E ag ops ce ''reply_task'' (mc_Meta c) (issuer_grant Caller) (mc_Task c) (CmdMessage c)
      (reply_change (mc_Message c)) sv s = (res, s') \<and> ok (validateMessageInput E (mc_Message c))"
  using assms by (auto simp: ReplyTask_def bind_res_Inr ok_of_Inr split: sum.splits)

lemma CancelTask_run:
  "CancelTask E ag ops ce c sv s =
     run_transition E ag ops ce ''cancel_task'' (tc_Meta c) (issuer_grant Caller) (tc_Task c) (CmdTask c) cancel_change sv s"
  by (simp add: CancelTask_def)

lemma CompleteTask_run:
  assumes "CompleteTask E ag ops ce c sv s = (res, s')" "s' \<noteq> s"
  shows "run_transition E ag ops ce ''complete_task'' (commandMeta (cmp_Meta c))
      (issuer_grant (Worker (wcm_Grant (cmp_Meta c)))) (cmp_Task c) (CmdCompleteTask c)
      (complete_change (cmp_Message c) (cmp_Submission c) (cmp_Artifact c)) sv s = (res, s')
    \<and> lg_Task (wcm_Grant (cmp_Meta c)) = cmp_Task c
    \<and> task_change E (cmp_Task c) ''complete_task'' (Worker (wcm_Grant (cmp_Meta c)))
        (complete_change (cmp_Message c) (cmp_Submission c) (cmp_Artifact c))"
proof -
  from assms obtain x y where v: "validateWorkerMeta (cmp_Meta c) (cmp_Task c) = Inr x"
    and a: "\<And>a. cmp_Artifact c = Some a \<Longrightarrow> ok (validateArtifactRef a) \<and> ar_Workspace a = tr_Workspace (cmp_Task c)"
    and sub: "validateStable (cmp_Submission c) = Inr y" and m: "ok (validateMessageInput E (cmp_Message c))"
    and run: "run_transition E ag ops ce ''complete_task'' (commandMeta (cmp_Meta c))
      (issuer_grant (Worker (wcm_Grant (cmp_Meta c)))) (cmp_Task c) (CmdCompleteTask c)
      (complete_change (cmp_Message c) (cmp_Submission c) (cmp_Artifact c)) sv s = (res, s')"
    by (cases "cmp_Artifact c") (auto simp: CompleteTask_def bind_res_Inr ok_of_Inr split: sum.splits if_splits)
  from sub have "match_stable (cmp_Submission c)" by (simp add: validateStable_def split: if_splits)
  from m this a have "task_change E (cmp_Task c) ''complete_task'' (Worker (wcm_Grant (cmp_Meta c)))
        (complete_change (cmp_Message c) (cmp_Submission c) (cmp_Artifact c))" by (rule task_change.complete)
  with run worker_ok [OF v] show ?thesis by blast
qed

context agent_store
begin

lemma loadTaskRecordFromStore_Inr:
  "inv s \<Longrightarrow> loadTaskRecordFromStore ops s ref = Inr r \<longleftrightarrow>
     db_tasks (db s) ref = Some r \<and> task_Ref (str_Task r) = ref \<and> ok (validateStoreTaskRecord r)"
  using keyed [of s] by (auto simp: loadTaskRecordFromStore_def res_simps LoadTask ok_unit)

lemma replayJSON_None:
  "inv s \<Longrightarrow> replayJSONCommandFromStore E ops s authority cid kind digest rk dest as_t = Inr None \<Longrightarrow>
     fresh_command (db s) authority cid"
  by (auto simp: replayJSONCommandFromStore_def LookupCommand lookup_limited_def fresh_command_def
      res_simps maxPageBytes_def split: sum.splits option.splits if_splits)

lemma replayJSON_Some:
  assumes "inv s" "replayJSONCommandFromStore E ops s authority cid kind digest rk dest as_t = Inr (Some v)"
  shows "\<exists>r doc. db_commands (db s) \<lparr>sck_Authority = authority, sck_ID = cid\<rparr> = Some r
     \<and> scr_Kind r = kind \<and> scr_IntentDigest r = digest \<and> scr_ResultKind r = rk
     \<and> json_Unmarshal E dest (scr_Result r) = Some doc \<and> as_t doc = Some v"
  using assms
  by (auto simp: replayJSONCommandFromStore_def LookupCommand res_simps bind_eq_Some_conv
      split: sum.splits option.splits if_splits)

lemma recordJSONCommandToStore_Inr:
  assumes "inv s" "recordJSONCommandToStore E ops s authority cid kind digest rk doc now = Inr s'"
  shows "inv s'" "\<exists>encoded. json_Marshal E doc = Some encoded
     \<and> db s' = put_command (command_record E authority cid kind digest rk encoded now) (db s)"
  using assms InsertCommand_Inr
  by (auto simp: recordJSONCommandToStore_def put_command_def command_record_def split: option.splits)

lemma insertMessageToStore_Inr:
  assumes "inv s" "insertMessageToStore ops s m p = Inr s'"
  shows "inv s'" "fresh_message (db s) (message_record m p)"
    "db s' = put_message (message_record m p) (db s)"
proof -
  have "InsertMessage ops s (message_record m p) = Inr s'"
    using assms by (simp add: insertMessageToStore_def message_record_def)
  from InsertMessage_Inr [OF assms(1) this] show "inv s'" "fresh_message (db s) (message_record m p)"
    "db s' = put_message (message_record m p) (db s)"
    by (simp_all add: fresh_message_def put_message_def)
qed

lemma insertEventToStore_Inr:
  assumes "inv s" "insertEventToStore ops s e = Inr s'"
  shows "inv s'" "(ev_Task e, ev_Sequence e) \<notin> dom (db_events (db s))" "db s' = put_event e (db s)"
  using assms InsertEvent_Inr
  by (auto simp: insertEventToStore_def put_event_def)

lemma swap_artifact_Inr:
  assumes "inv s" "swap_artifact ops a ref st p x s = Inr s'"
  shows "inv s'" "frozen_artifact (db s) a ref" "db s' = set_artifact_state a st p x (db s)"
  using assms CompareAndSwapArtifact_Inr
  by (fastforce simp: swap_artifact_def res_simps frozen_artifact_def set_artifact_state_def split: if_splits)+

lemma verifyLeaseGrantHistoryFromStore_Inr:
  assumes "inv s" "verifyLeaseGrantHistoryFromStore ops s g = Inr t"
  shows "ok (validateLeaseGrant g)"
    "\<exists>h. db_leaseGrants (db s) (lg_Task g, lg_Fence g) = Some h \<and> slg_Grant h = g \<and> slg_GrantedAt h = t"
proof -
  from assms(2) obtain x h where "validateLeaseGrant g = Inr x"
    and h: "LoadLeaseGrant ops s (lg_Task g) (lg_Fence g) = Inr h" "slg_Grant h = g" "slg_GrantedAt h = t"
    by (auto simp: verifyLeaseGrantHistoryFromStore_def res_simps split: if_splits)
  then show "ok (validateLeaseGrant g)" by (intro ok_of_Inr)
  from h LoadLeaseGrant [OF assms(1)]
  show "\<exists>h. db_leaseGrants (db s) (lg_Task g, lg_Fence g) = Some h \<and> slg_Grant h = g \<and> slg_GrantedAt h = t"
    by simp
qed

lemma requireCurrentLeaseFromStore_Inr:
  assumes "inv s" "requireCurrentLeaseFromStore ops s g = Inr ()" "db_tasks (db s) (lg_Task g) = Some r"
  shows "ok (validateLeaseGrant g)" "holds_lease (db s) r g"
proof -
  from assms(2) obtain t where hist: "verifyLeaseGrantHistoryFromStore ops s g = Inr t"
    by (auto simp: requireCurrentLeaseFromStore_def res_simps)
  from assms(2,3) loadTaskRecordFromStore_Inr [OF assms(1), of "lg_Task g"]
  have "task_Ref (str_Task r) = lg_Task g" "str_Lease r = \<lparr>ls_Owner = lg_Worker g, ls_Fence = lg_Fence g\<rparr>"
    by (auto simp: requireCurrentLeaseFromStore_def res_simps split: if_splits)
  with verifyLeaseGrantHistoryFromStore_Inr [OF assms(1) hist]
  show "ok (validateLeaseGrant g)" "holds_lease (db s) r g" by (auto simp: holds_lease_def)
qed

text \<open>CreateTask.\<close>

lemma replayTask_None:
  "inv s \<Longrightarrow> replayTaskCommandFromStore E ops s authority cid kind digest = Inr None \<Longrightarrow>
     fresh_command (db s) authority cid"
  unfolding replayTaskCommandFromStore_def
  by (drule bind_found_None) (auto simp: res_simps replayJSON_None split: if_splits)

lemma CreateTask_replay_None:
  "inv s \<Longrightarrow> CreateTask_replay E ops c digest s = Inr None \<Longrightarrow>
     fresh_command (db s) (tr_Authority (ctc_Task c)) (cm_ID (ctc_Meta c))"
  unfolding CreateTask_replay_def by (drule bind_found_None) (auto simp: replayTask_None)

lemma CreateTask_tx_fresh:
  assumes s: "inv s" and tx: "CreateTask_tx E ops ce c digest p s = Inr (t, s')"
    and new: "CreateTask_replay E ops c digest s = Inr None"
    and cmd: "ok (validateCreateCommand E c)" and p: "content_ok p"
  obtains now where "inv s'" "call_clock ce = Some now" "t = created_task c now"
    "agent_step E (Created c p) (cm_ID (ctc_Meta c)) digest now (db s) (db s')"
proof -
  let ?r = "\<lambda>now. \<lparr>str_Task = created_task c now, str_Lease = unleased, str_ArtifactState = None\<rparr>"
  from tx new obtain now s1 s2 s3 where now: "call_clock ce = Some now" "validLeaseTimestamp now"
    and s1: "InsertTask ops s (?r now) = Inr s1"
    and s2: "insertMessageToStore ops s1 (created_message c now) p = Inr s2"
    and s3: "insertEventToStore ops s2 (created_event c now) = Inr s3"
    and s4: "recordTaskCommandToStore E ops s3 (tr_Authority (ctc_Task c)) (cm_ID (ctc_Meta c))
        ''create_task'' digest (created_task c now) now = Inr s'"
    and t: "t = created_task c now"
    by (auto simp: CreateTask_tx_def res_simps Let_def)
  note i1 = InsertTask_Inr [OF s s1]
  note i2 = insertMessageToStore_Inr [OF i1(1) s2]
  note i3 = insertEventToStore_Inr [OF i2(1) s3]
  note i4 = recordJSONCommandToStore_Inr [OF i3(1) s4 [unfolded recordTaskCommandToStore_def]]
  have d1: "db s1 = put_task (?r now) (db s)" using i1(3) by (simp add: put_task_def created_task_def)
  have "create_allowed E (db s) c p now"
    using cmd now p i1(2) i2(2) i3(2) d1 i2(3)
    by (auto simp: create_allowed_def fresh_public_id_def fresh_message_def put_defs created_task_def
        created_event_def)
  moreover have "fresh_command (db s) (tr_Authority (ctc_Task c)) (cm_ID (ctc_Meta c))"
    using CreateTask_replay_None [OF s new] .
  moreover obtain encoded where "json_Marshal E (JTask (created_task c now)) = Some encoded"
    and "db s' = put_command (command_record E (tr_Authority (ctc_Task c)) (cm_ID (ctc_Meta c))
        ''create_task'' digest ''task'' encoded now) (db s3)" using i4(2) by blast
  moreover have "db s3 = create_effect c p now (db s)"
    using d1 i2(3) i3(3) by (simp add: create_effect_def)
  ultimately have "agent_step E (Created c p) (cm_ID (ctc_Meta c)) digest now (db s) (db s')"
    using agent_step.commit [of E "db s" "Created c p" now "cm_ID (ctc_Meta c)" encoded digest]
    by (simp add: effect_record_def)
  with that i4(1) now(1) t show thesis by blast
qed

text \<open>The state machine.\<close>

lemma transition_replay_None:
  "inv s \<Longrightarrow> transition_replay E ops kind meta grant ref digest s = Inr None \<Longrightarrow>
     fresh_command (db s) (tr_Authority ref) (cm_ID meta)"
  unfolding transition_replay_def
  by (drule bind_found_None) (auto simp: replayTask_None res_simps split: option.splits)

lemma require_grant_Inr:
  assumes "inv s" "require_grant ops s (issuer_grant who) = Inr ()" "db_tasks (db s) ref = Some r"
    "\<And>g. who = Worker g \<Longrightarrow> lg_Task g = ref"
  shows "\<forall>g. who = Worker g \<longrightarrow> holds_lease (db s) r g"
  using assms requireCurrentLeaseFromStore_Inr(2) by (cases who) (auto simp: require_grant_def)

lemma transition_store_message_Inr:
  assumes "inv s" "transition_store_message ops change ref now p next s = Inr s'"
  shows "inv s'"
    "\<forall>m. transition_message_record change ref now p next = Some m \<longrightarrow> fresh_message (db s) m"
    "db s' = (case transition_message_record change ref now p next of None \<Rightarrow> db s | Some m \<Rightarrow> put_message m (db s))"
  using assms insertMessageToStore_Inr
  by (auto simp: transition_store_message_def transition_message_record_def split: option.splits)

lemma transition_artifacts_Inr:
  assumes "inv s" "transition_discard_artifact ops change ref now current s = Inr s2"
    "transition_publish_artifact ops change ref now s2 = Inr s'"
    "trn_artifact change = None \<or> \<not> trn_discardArtifact change"
  shows "inv s'"
    "\<forall>a. (trn_artifact change = Some a \<or> trn_discardArtifact change \<and> task_Artifact current = Some a)
       \<longrightarrow> frozen_artifact (db s) a ref"
    "db s' = artifact_effect change now current (db s)"
proof -
  show "inv s'" using assms swap_artifact_Inr(1)
    by (auto simp: transition_discard_artifact_def transition_publish_artifact_def split: option.splits if_splits)
  show "\<forall>a. (trn_artifact change = Some a \<or> trn_discardArtifact change \<and> task_Artifact current = Some a)
       \<longrightarrow> frozen_artifact (db s) a ref"
    using assms swap_artifact_Inr(2)
    by (auto simp: transition_discard_artifact_def transition_publish_artifact_def split: option.splits if_splits)
  show "db s' = artifact_effect change now current (db s)"
    using assms swap_artifact_Inr(3)
    by (auto simp: transition_discard_artifact_def transition_publish_artifact_def artifact_effect_def
        split: option.splits if_splits)
qed

lemma transition_store_submission_Inr:
  assumes "inv s" "transition_store_submission ops change ref now s = Inr s'"
  shows "inv s'" "trn_submission change \<noteq> [] \<longrightarrow> ref \<notin> dom (db_submissions (db s))"
    "db s' = (if trn_submission change = [] then db s
              else put_submission (transition_submission change ref now) (db s))"
proof -
  have sub: "sub_Task (transition_submission change ref now) = ref" by (simp add: transition_submission_def)
  have "trn_submission change = [] \<and> s' = s \<or>
      trn_submission change \<noteq> [] \<and> InsertSubmission ops s (transition_submission change ref now) = Inr s'"
    using assms(2) by (auto simp: transition_store_submission_def split: if_splits)
  with assms(1) InsertSubmission_Inr [of s "transition_submission change ref now" s'] sub
  show "inv s'" "trn_submission change \<noteq> [] \<longrightarrow> ref \<notin> dom (db_submissions (db s))"
    "db s' = (if trn_submission change = [] then db s
              else put_submission (transition_submission change ref now) (db s))"
    by (auto simp: put_submission_def)
qed

lemma transition_effects_Inr:
  assumes "inv s1" "transition_effects E ops kind meta ref digest change p now current s1 = Inr (t, s')"
    and excl: "trn_artifact change = None \<or> \<not> trn_discardArtifact change"
  shows "inv s'" "t = transition_next change ref now current"
    "\<forall>m. transition_message_record change ref now p t = Some m \<longrightarrow> fresh_message (db s1) m"
    "\<forall>a. (trn_artifact change = Some a \<or> trn_discardArtifact change \<and> task_Artifact current = Some a)
       \<longrightarrow> frozen_artifact (db s1) a ref"
    "trn_submission change \<noteq> [] \<longrightarrow> ref \<notin> dom (db_submissions (db s1))"
    "(ref, task_EventCount t) \<notin> dom (db_events (db s1))"
    "\<exists>encoded. json_Marshal E (JTask t) = Some encoded \<and> db s' =
       put_command (command_record E (tr_Authority ref) (cm_ID meta) kind digest ''task'' encoded now)
         (put_event (transition_event change ref now t)
           (let d2 = (case transition_message_record change ref now p t of None \<Rightarrow> db s1 | Some m \<Rightarrow> put_message m (db s1));
                d3 = artifact_effect change now current d2
            in if trn_submission change = [] then d3
               else put_submission (transition_submission change ref now) d3))"
proof -
  let ?next = "transition_next change ref now current"
  from assms(2) obtain s2 s3 s4 s5 s6 where t: "t = ?next"
    and e2: "transition_store_message ops change ref now p ?next s1 = Inr s2"
    and e3: "transition_discard_artifact ops change ref now current s2 = Inr s3"
    and e4: "transition_publish_artifact ops change ref now s3 = Inr s4"
    and e5: "transition_store_submission ops change ref now s4 = Inr s5"
    and e6: "insertEventToStore ops s5 (transition_event change ref now ?next) = Inr s6"
    and e7: "recordTaskCommandToStore E ops s6 (tr_Authority ref) (cm_ID meta) kind digest ?next now = Inr s'"
    by (auto simp: transition_effects_def res_simps Let_def)
  note i2 = transition_store_message_Inr [OF assms(1) e2]
  note i4 = transition_artifacts_Inr [OF i2(1) e3 e4 excl]
  note i5 = transition_store_submission_Inr [OF i4(1) e5]
  note i6 = insertEventToStore_Inr [OF i5(1) e6]
  note i7 = recordJSONCommandToStore_Inr [OF i6(1) e7 [unfolded recordTaskCommandToStore_def]]
  have same: "db_artifacts (db s2) = db_artifacts (db s1)" "db_submissions (db s4) = db_submissions (db s1)"
    "db_events (db s5) = db_events (db s1)"
    using i2(3) i4(3) i5(3) by (simp_all split: option.splits)
  show "inv s'" "t = ?next" by (fact i7(1), fact t)
  show "\<forall>m. transition_message_record change ref now p t = Some m \<longrightarrow> fresh_message (db s1) m"
    using i2(2) t by simp
  show "\<forall>a. (trn_artifact change = Some a \<or> trn_discardArtifact change \<and> task_Artifact current = Some a)
       \<longrightarrow> frozen_artifact (db s1) a ref"
    using i4(2) frozen_artifact_cong [OF same(1)] by simp
  show "trn_submission change \<noteq> [] \<longrightarrow> ref \<notin> dom (db_submissions (db s1))"
    using i5(2) same(2) by simp
  show "(ref, task_EventCount t) \<notin> dom (db_events (db s1))"
    using i6(2) same(3) t by (simp add: transition_event_def)
  show "\<exists>encoded. json_Marshal E (JTask t) = Some encoded \<and> db s' =
       put_command (command_record E (tr_Authority ref) (cm_ID meta) kind digest ''task'' encoded now)
         (put_event (transition_event change ref now t)
           (let d2 = (case transition_message_record change ref now p t of None \<Rightarrow> db s1 | Some m \<Rightarrow> put_message m (db s1));
                d3 = artifact_effect change now current d2
            in if trn_submission change = [] then d3
               else put_submission (transition_submission change ref now) d3))"
    using i7(2) unfolding i6(3) i5(3) i4(3) i2(3) t Let_def .
qed

lemma transition_tx_fresh:
  assumes s: "inv s" and tx: "transition_tx E ops ce kind meta (issuer_grant who) ref digest change p s = Inr (t, s')"
    and new: "transition_replay E ops kind meta (issuer_grant who) ref digest s = Inr None"
    and req: "task_change E ref kind who change" "ok (validateTaskRef ref)" "match_stable (cm_ID meta)"
      "trn_message change \<noteq> None \<longrightarrow> content_ok p" "\<And>g. who = Worker g \<Longrightarrow> lg_Task g = ref"
  obtains r now where "inv s'" "t = transition_next change ref now (str_Task r)"
    "agent_step E (Transitioned kind who meta ref change p r) (cm_ID meta) digest now (db s) (db s')"
proof -
  from tx new obtain r clock s1 where r: "loadTaskRecordFromStore ops s ref = Inr r"
    and grant: "require_grant ops s (issuer_grant who) = Inr ()"
    and guard: "transition_guard kind meta change (str_Task r) = Inr ()"
    and clock: "validLeaseTimestamp clock"
    and art: "trn_submission change \<noteq> [] \<longrightarrow> task_Artifact (str_Task r) = trn_artifact change"
    and cas: "CompareAndSwapTask ops s
             \<lparr>stm_Ref = ref,
              stm_Condition = \<lparr>stc_ExpectedRevision = cm_ExpectedRevision meta,
                stc_ExpectedLease = map_option (\<lambda>g. \<lparr>ls_Owner = lg_Worker g, ls_Fence = lg_Fence g\<rparr>) (issuer_grant who)\<rparr>,
              stm_Next = transition_record change ref (timestampAtLeast clock [task_UpdatedAt (str_Task r)]) r\<rparr>
            = Inr (True, s1)"
    and eff: "transition_effects E ops kind meta ref digest change p
            (timestampAtLeast clock [task_UpdatedAt (str_Task r)]) (str_Task r) s1 = Inr (t, s')"
    by (auto simp: transition_tx_def res_simps Let_def simp del: timestampAtLeast.simps split: if_splits)
  let ?now = "timestampAtLeast clock [task_UpdatedAt (str_Task r)]"
  have r': "db_tasks (db s) ref = Some r" "task_Ref (str_Task r) = ref" "ok (validateStoreTaskRecord r)"
    using r loadTaskRecordFromStore_Inr [OF s] by auto
  note c = CompareAndSwapTask_Inr [OF s cas]
  have d1: "db s1 = put_task (transition_record change ref ?now r) (db s)"
    using c(3) r'(2) by (simp add: put_task_def transition_record_def transition_next_def Let_def)
  note e = transition_effects_Inr [OF c(1) eff task_change_artifact [OF req(1)]]
  have "transition_allowed E (db s) ref kind who meta change r p ?now"
    unfolding transition_allowed_def
    using req(1-4) r' guard art require_grant_Inr [OF s grant r'(1) req(5)] e(3-6) clock d1
      fresh_message_cong [of "db s1" "db s"] frozen_artifact_cong [of "db s1" "db s"]
    by (auto simp: stamped_def e(2) transition_next_def simp del: timestampAtLeast.simps)
  moreover have "fresh_command (db s) (tr_Authority ref) (cm_ID meta)"
    using transition_replay_None [OF s new] .
  moreover obtain encoded where enc: "json_Marshal E (JTask t) = Some encoded" and "db s' =
      put_command (command_record E (tr_Authority ref) (cm_ID meta) kind digest ''task'' encoded ?now)
        (transition_effect change ref ?now p r (db s))"
    using e(7) unfolding d1 e(2) transition_effect_def Let_def by blast
  ultimately have "agent_step E (Transitioned kind who meta ref change p r) (cm_ID meta) digest ?now (db s) (db s')"
    using agent_step.commit [of E "db s" "Transitioned kind who meta ref change p r" ?now "cm_ID meta" encoded digest]
      enc e(2) by (simp add: effect_record_def del: timestampAtLeast.simps)
  with that e(1,2) show thesis by blast
qed

text \<open>Leases.\<close>

lemma AcquireLease_replay_None:
  "inv s \<Longrightarrow> AcquireLease_replay E ops c digest s = Inr None \<Longrightarrow>
     fresh_command (db s) (tr_Authority (alc_Task c)) (alc_ID c)"
  unfolding AcquireLease_replay_def
  by (drule bind_found_None) (auto simp: replayJSON_None res_simps)

lemma ClaimLease_replay_None:
  "inv s \<Longrightarrow> ClaimLease_replay E ops c digest s = Inr None \<Longrightarrow>
     fresh_command (db s) (clc_Authority c) (clc_ID c)"
  unfolding ClaimLease_replay_def
  by (drule bind_found_None) (auto simp: replayJSON_None res_simps)

lemma FenceLease_replay_None:
  "inv s \<Longrightarrow> FenceLease_replay E ops c digest s = Inr None \<Longrightarrow>
     fresh_command (db s) (tr_Authority (lg_Task (flc_Grant c))) (flc_ID c)"
  unfolding FenceLease_replay_def
  by (drule bind_found_None) (auto simp: replayJSON_None res_simps)

lemma validateLeaseHistoryHead_Inr:
  assumes "inv s" "validateLeaseHistoryHeadFromStore ops s r = Inr t" "task_Ref (str_Task r) = ref"
  shows "t = latest_granted_at (db s) r"
proof (cases "LoadLatestLeaseGrant ops s ref")
  case (Inl e)
  with assms LoadLatestLeaseGrant_Inl [OF assms(1) Inl] show ?thesis
    by (auto simp: validateLeaseHistoryHeadFromStore_def latest_granted_at_def domIff split: if_splits option.splits)
next
  case (Inr g)
  from LoadLatestLeaseGrant_Inr [OF assms(1) Inr] obtain f where f: "db_leaseGrants (db s) (ref, f) = Some g"
    by blast
  with keyed [OF assms(1)] have "lg_Fence (slg_Grant g) = f" by (simp add: db_keyed_def)
  with assms Inr f show ?thesis
    by (auto simp: validateLeaseHistoryHeadFromStore_def latest_granted_at_def split: if_splits)
qed

lemma grant_lease_chain:
  "grant_lease E ops kind digest authority cid r b now s = Inr (a, s') \<Longrightarrow>
     \<exists>s1 s2. InsertLeaseGrant ops s \<lparr>slg_Grant = la_Grant b, slg_GrantedAt = now\<rparr> = Inr s1
       \<and> CompareAndSwapTask ops s1
         \<lparr>stm_Ref = task_Ref (str_Task r),
          stm_Condition = \<lparr>stc_ExpectedRevision = task_Revision (str_Task r), stc_ExpectedLease = Some (str_Lease r)\<rparr>,
          stm_Next = r\<lparr>str_Lease := \<lparr>ls_Owner = lg_Worker (la_Grant b), ls_Fence = lg_Fence (la_Grant b)\<rparr>\<rparr>\<rparr> = Inr (True, s2)
       \<and> recordJSONCommandToStore E ops s2 authority cid kind digest ''lease_assignment'' (JLeaseAssignment b) now = Inr s'
       \<and> a = b"
  by (auto simp: grant_lease_def res_simps split: if_splits)

lemma grant_lease_Inr:
  assumes s: "inv s" and g: "grant_lease E ops kind digest authority cid r (lease_assignment r worker now) now s = Inr (a, s')"
    and r: "db_tasks (db s) (task_Ref (str_Task r)) = Some r" "ok (validateStoreTaskRecord r)"
      "\<not> Terminal (task_State (str_Task r))" "ls_Owner (str_Lease r) = []" "ls_Fence (str_Lease r) < MaxInt64"
    and w: "match_stable worker" and now: "stamped now [task_UpdatedAt (str_Task r), latest_granted_at (db s) r]"
    and kind: "kind \<in> {''acquire_lease'', ''claim_lease''}"
    and auth: "authority = tr_Authority (task_Ref (str_Task r))" and fresh: "fresh_command (db s) authority cid"
  shows "inv s'" "a = lease_assignment r worker now"
    "agent_step E (Granted kind r worker) cid digest now (db s) (db s')"
proof -
  let ?a = "lease_assignment r worker now"
  let ?next = "r\<lparr>str_Lease := \<lparr>ls_Owner = worker, ls_Fence = ls_Fence (str_Lease r) + 1\<rparr>\<rparr>"
  have a: "lg_Worker (la_Grant ?a) = worker" "lg_Fence (la_Grant ?a) = ls_Fence (str_Lease r) + 1"
    "lg_Task (la_Grant ?a) = task_Ref (str_Task r)" by (simp_all add: lease_assignment_def)
  from grant_lease_chain [OF g] obtain s1 s2
    where s1: "InsertLeaseGrant ops s \<lparr>slg_Grant = la_Grant ?a, slg_GrantedAt = now\<rparr> = Inr s1"
    and s2: "CompareAndSwapTask ops s1
         \<lparr>stm_Ref = task_Ref (str_Task r),
          stm_Condition = \<lparr>stc_ExpectedRevision = task_Revision (str_Task r), stc_ExpectedLease = Some (str_Lease r)\<rparr>,
          stm_Next = ?next\<rparr> = Inr (True, s2)"
    and s3: "recordJSONCommandToStore E ops s2 authority cid kind digest ''lease_assignment'' (JLeaseAssignment ?a) now = Inr s'"
    and res: "a = ?a"
    unfolding a by blast
  note i1 = InsertLeaseGrant_Inr [OF s s1]
  note i2 = CompareAndSwapTask_Inr [OF i1(1) s2]
  note i3 = recordJSONCommandToStore_Inr [OF i2(1) s3]
  have "db s2 = grant_effect r worker now (db s)"
    using i1(3) i2(3) by (simp add: grant_effect_def put_task_def put_grant_def)
  moreover have "grant_allowed (db s) r worker now"
    using i1(2) r w now by (simp add: grant_allowed_def a)
  moreover obtain encoded where "json_Marshal E (JLeaseAssignment ?a) = Some encoded"
    "db s' = put_command (command_record E authority cid kind digest ''lease_assignment'' encoded now) (db s2)"
    using i3(2) by blast
  ultimately show "agent_step E (Granted kind r worker) cid digest now (db s) (db s')"
    using agent_step.commit [of E "db s" "Granted kind r worker" now cid encoded digest] kind auth fresh
    by (auto simp: effect_record_def)
  show "inv s'" "a = ?a" using i3(1) res by auto
qed

lemma AcquireLease_tx_fresh:
  assumes s: "inv s" and tx: "AcquireLease_tx E ops ce c digest s = Inr (a, s')"
    and new: "AcquireLease_replay E ops c digest s = Inr None" and w: "match_stable (alc_Worker c)"
  obtains r now where "inv s'" "a = lease_assignment r (alc_Worker c) now" "task_Ref (str_Task r) = alc_Task c"
    "agent_step E (Granted ''acquire_lease'' r (alc_Worker c)) (alc_ID c) digest now (db s) (db s')"
proof -
  from tx new obtain r prev clock where r: "loadTaskRecordFromStore ops s (alc_Task c) = Inr r"
    and prev: "validateLeaseHistoryHeadFromStore ops s r = Inr prev"
    and guards: "\<not> Terminal (task_State (str_Task r))" "ls_Owner (str_Lease r) = []" "ls_Fence (str_Lease r) < MaxInt64"
    and clock: "validLeaseTimestamp clock"
    and g: "grant_lease E ops ''acquire_lease'' digest (tr_Authority (alc_Task c)) (alc_ID c) r
        (lease_assignment r (alc_Worker c) (timestampAtLeast clock [task_UpdatedAt (str_Task r), prev]))
        (timestampAtLeast clock [task_UpdatedAt (str_Task r), prev]) s = Inr (a, s')"
    by (auto simp: AcquireLease_tx_def res_simps Let_def simp del: timestampAtLeast.simps split: if_splits)
  have r': "db_tasks (db s) (alc_Task c) = Some r" "task_Ref (str_Task r) = alc_Task c" "ok (validateStoreTaskRecord r)"
    using r loadTaskRecordFromStore_Inr [OF s] by auto
  have "prev = latest_granted_at (db s) r" using validateLeaseHistoryHead_Inr [OF s prev r'(2)] .
  then have "stamped (timestampAtLeast clock [task_UpdatedAt (str_Task r), prev])
      [task_UpdatedAt (str_Task r), latest_granted_at (db s) r]" using clock unfolding stamped_def by blast
  from grant_lease_Inr [OF s g _ r'(3) guards w this] r'(1,2) AcquireLease_replay_None [OF s new] r'(2)
  show thesis by (auto simp del: timestampAtLeast.simps intro!: that)
qed

lemma ClaimLease_tx_fresh:
  assumes s: "inv s" and tx: "ClaimLease_tx E ops ce c digest s = Inr (a, s')"
    and new: "ClaimLease_replay E ops c digest s = Inr None" and w: "match_stable (clc_Worker c)"
  obtains r now where "inv s'" "a = lease_assignment r (clc_Worker c) now" "claimable (clc_Authority c) r"
    "\<forall>r' \<in> ran (db_tasks (db s)). claimable (clc_Authority c) r' \<longrightarrow>
       task_created_cursor (str_Task r) \<le> task_created_cursor (str_Task r')"
    "agent_step E (Granted ''claim_lease'' r (clc_Worker c)) (clc_ID c) digest now (db s) (db s')"
proof -
  from tx new obtain r prev clock where r: "FindClaimableTask ops s (clc_Authority c) = Inr r"
    and val: "ok (validateStoreTaskRecord r)"
    and prev: "validateLeaseHistoryHeadFromStore ops s r = Inr prev"
    and guards: "tr_Authority (task_Ref (str_Task r)) = clc_Authority c"
      "\<not> Terminal (task_State (str_Task r))" "ls_Owner (str_Lease r) = []" "ls_Fence (str_Lease r) < MaxInt64"
    and clock: "validLeaseTimestamp clock"
    and g: "grant_lease E ops ''claim_lease'' digest (clc_Authority c) (clc_ID c) r
        (lease_assignment r (clc_Worker c) (timestampAtLeast clock [task_UpdatedAt (str_Task r), prev]))
        (timestampAtLeast clock [task_UpdatedAt (str_Task r), prev]) s = Inr (a, s')"
    by (auto simp: ClaimLease_tx_def res_simps Let_def simp del: timestampAtLeast.simps split: if_splits)
  note f = FindClaimableTask_Inr [OF s r]
  from f keyed [OF s] have r': "db_tasks (db s) (task_Ref (str_Task r)) = Some r"
    by (auto simp: ran_def db_keyed_def)
  have "prev = latest_granted_at (db s) r" using validateLeaseHistoryHead_Inr [OF s prev refl] .
  then have "stamped (timestampAtLeast clock [task_UpdatedAt (str_Task r), prev])
      [task_UpdatedAt (str_Task r), latest_granted_at (db s) r]" using clock unfolding stamped_def by blast
  from grant_lease_Inr [OF s g r' val guards(2-4) w this] guards(1) ClaimLease_replay_None [OF s new] f
  show thesis by (auto simp del: timestampAtLeast.simps intro!: that)
qed

lemma FenceLease_tx_fresh:
  assumes s: "inv s" and tx: "FenceLease_tx E ops ce c digest s = Inr (x, s')"
    and new: "FenceLease_replay E ops c digest s = Inr None"
  obtains r now where "inv s'" "agent_step E (Fenced (flc_Grant c) r) (flc_ID c) digest now (db s) (db s')"
proof -
  let ?g = "flc_Grant c"
  from tx new obtain r s1 now where r: "loadTaskRecordFromStore ops s (lg_Task ?g) = Inr r"
    and cur: "requireCurrentLeaseFromStore ops s ?g = Inr ()"
    and s1: "CompareAndSwapTask ops s
             \<lparr>stm_Ref = lg_Task ?g,
              stm_Condition = \<lparr>stc_ExpectedRevision = task_Revision (str_Task r), stc_ExpectedLease = Some (str_Lease r)\<rparr>,
              stm_Next = r\<lparr>str_Lease := \<lparr>ls_Owner = [], ls_Fence = lg_Fence ?g\<rparr>\<rparr>\<rparr> = Inr (True, s1)"
    and now: "validLeaseTimestamp now"
    and s2: "recordJSONCommandToStore E ops s1 (tr_Authority (lg_Task ?g)) (flc_ID c) ''fence_lease''
        digest ''lease_grant'' (JLeaseGrant ?g) now = Inr s'"
    by (auto simp: FenceLease_tx_def res_simps split: if_splits)
  have r': "db_tasks (db s) (lg_Task ?g) = Some r" "task_Ref (str_Task r) = lg_Task ?g" "ok (validateStoreTaskRecord r)"
    using r loadTaskRecordFromStore_Inr [OF s] by auto
  note h = requireCurrentLeaseFromStore_Inr [OF s cur r'(1)]
  note i1 = CompareAndSwapTask_Inr [OF s s1]
  note i2 = recordJSONCommandToStore_Inr [OF i1(1) s2]
  obtain encoded where enc: "json_Marshal E (JLeaseGrant ?g) = Some encoded" "db s' =
      put_command (command_record E (tr_Authority (lg_Task ?g)) (flc_ID c) ''fence_lease'' digest ''lease_grant'' encoded now) (db s1)"
    using i2(2) by blast
  have "agent_step E (Fenced ?g r) (flc_ID c) digest now (db s) (db s')"
    using agent_step.commit [of E "db s" "Fenced ?g r" now "flc_ID c" encoded digest] enc i1(3) r' h now
      FenceLease_replay_None [OF s new]
    by (simp add: effect_record_def put_task_def del: ok_validateLeaseGrant)
  with that i2(1) show thesis by blast
qed

text \<open>Artifacts and receipts.\<close>

lemma loadArtifactRecord_Inr:
  assumes "inv s" "loadArtifactRecord E ops s ref = Inr r"
  shows "db_artifacts (db s) ref = Some r" "art_Ref (sar_Artifact r) = ref"
    "ok (validateStoredArtifactMetadata E (sar_Artifact r))"
  using assms by (auto simp: loadArtifactRecord_def res_simps LoadArtifact split: if_splits)

lemma loadArtifactWorkspaceHead_Inr:
  assumes "inv s" "loadArtifactWorkspaceHead ops s ref = Inr h"
  shows "db_workspaceHeads (db s) ref = Some h" "wh_Workspace h = ref"
    "ok (validateRevision (wh_ConfirmedRevision h))"
  using assms by (auto simp: loadArtifactWorkspaceHead_def res_simps LoadWorkspaceHead split: if_splits)

lemma requireArtifactCurrentLease_Inr:
  assumes "inv s" "requireArtifactCurrentLease ops s r g = Inr ()"
  shows "ok (validateLeaseGrant g)" "holds_lease (db s) r g"
proof -
  from assms(2) obtain x exact where v: "validateLeaseGrant g = Inr x"
    and t: "task_Ref (str_Task r) = lg_Task g"
    and l: "ls_Owner (str_Lease r) = lg_Worker g" "ls_Fence (str_Lease r) = lg_Fence g"
    and exact: "LoadLeaseGrant ops s (lg_Task g) (lg_Fence g) = Inr exact" "slg_Grant exact = g"
    unfolding requireArtifactCurrentLease_def bind_res_Inr by (auto simp: bind_res_Inr split: if_splits sum.splits)
  show "ok (validateLeaseGrant g)" using v by (rule ok_of_Inr)
  have "db_leaseGrants (db s) (lg_Task g, lg_Fence g) = Some exact"
    using exact(1) LoadLeaseGrant [OF assms(1)] by simp
  moreover have "str_Lease r = \<lparr>ls_Owner = lg_Worker g, ls_Fence = lg_Fence g\<rparr>"
    using l by (cases "str_Lease r") simp
  ultimately show "holds_lease (db s) r g" using t exact(2) by (simp add: holds_lease_def)
qed

lemma FreezeArtifact_replay_None:
  "inv s \<Longrightarrow> FreezeArtifact_replay E ops c digest s = Inr None \<Longrightarrow>
     fresh_command (db s) (tr_Authority (fac_Task c)) (wcm_ID (fac_Meta c))"
  unfolding FreezeArtifact_replay_def
  by (drule bind_found_None) (auto simp: replayJSON_None res_simps split: sum.splits if_splits)

lemma freeze_effects_chain:
  "freeze_effects E ops c digest payload now r s = Inr (f, s') \<Longrightarrow>
     \<exists>b s1 head s2 s3 s4. InsertWorkspaceHead ops s
         \<lparr>wh_Workspace = tr_Workspace (fac_Task c), wh_ConfirmedRevision = fac_ExpectedBaseRevision c,
          wh_UpdatedAt = now\<rparr> = Inr (b, s1)
       \<and> loadArtifactWorkspaceHead ops s1 (tr_Workspace (fac_Task c)) = Inr head
       \<and> wh_ConfirmedRevision head = fac_ExpectedBaseRevision c
       \<and> InsertArtifact ops s1 (freeze_artifact_record E c payload now) = Inr s2
       \<and> CompareAndSwapTask ops s2
             \<lparr>stm_Ref = fac_Task c,
              stm_Condition = \<lparr>stc_ExpectedRevision = wcm_ExpectedRevision (fac_Meta c),
                stc_ExpectedLease = Some \<lparr>ls_Owner = lg_Worker (wcm_Grant (fac_Meta c)),
                                         ls_Fence = lg_Fence (wcm_Grant (fac_Meta c))\<rparr>\<rparr>,
              stm_Next = freeze_record c now r\<rparr> = Inr (True, s3)
       \<and> insertEventToStore ops s3 (freeze_event c now (freeze_next c now (str_Task r))) = Inr s4
       \<and> f = \<lparr>far_Task = freeze_next c now (str_Task r), far_Artifact = (artifactIdentity E c)\<lparr>art_FrozenAt := now\<rparr>\<rparr>
       \<and> recordJSONCommandToStore E ops s4 (tr_Authority (fac_Task c)) (wcm_ID (fac_Meta c))
           ''freeze_artifact'' digest ''freeze_artifact'' (JFreezeResult f) now = Inr s'"
  by (fastforce simp: freeze_effects_def freeze_artifact_record_def freeze_record_def res_simps Let_def
      split: if_splits)

lemma initial_head_eq:
  assumes "inv s" "InsertWorkspaceHead ops s \<lparr>wh_Workspace = tr_Workspace (fac_Task c),
      wh_ConfirmedRevision = fac_ExpectedBaseRevision c, wh_UpdatedAt = now\<rparr> = Inr (b, s1)"
    "loadArtifactWorkspaceHead ops s1 (tr_Workspace (fac_Task c)) = Inr head"
    "wh_ConfirmedRevision head = fac_ExpectedBaseRevision c"
  shows "db s1 = initial_head c now (db s)"
    "\<forall>h. db_workspaceHeads (db s) (tr_Workspace (fac_Task c)) = Some h
       \<longrightarrow> wh_ConfirmedRevision h = fac_ExpectedBaseRevision c"
proof -
  note i = InsertWorkspaceHead_Inr [OF assms(1,2)]
  show "db s1 = initial_head c now (db s)"
    using i(2,3) by (auto simp: initial_head_def put_head_def)
  show "\<forall>h. db_workspaceHeads (db s) (tr_Workspace (fac_Task c)) = Some h
       \<longrightarrow> wh_ConfirmedRevision h = fac_ExpectedBaseRevision c"
    using i loadArtifactWorkspaceHead_Inr(1) [OF i(1) assms(3)] assms(4) by (auto split: if_splits)
qed

lemma FreezeArtifact_tx_fresh:
  assumes s: "inv s" and tx: "FreezeArtifact_tx E ops ce c digest payload s = Inr ((f, x), s')"
    and new: "FreezeArtifact_replay E ops c digest s = Inr None"
    and cmd: "ok (validateTaskRef (fac_Task c))" "match_stable (fac_Artifact c)"
      "ok (validateRevision (fac_ExpectedBaseRevision c))" "ok (validateArtifactPayloadShape E (fac_Payload c))"
      "match_stable (wcm_ID (fac_Meta c))"
    and payload: "payload \<noteq> []" "int (length payload) \<le> MaxStoredValueBytes"
  obtains r now where "inv s'" "x = None"
    "f = \<lparr>far_Task = freeze_next c now (str_Task r), far_Artifact = (artifactIdentity E c)\<lparr>art_FrozenAt := now\<rparr>\<rparr>"
    "agent_step E (Froze c payload r) (wcm_ID (fac_Meta c)) digest now (db s) (db s')"
proof -
  from tx new obtain r clock where r: "loadTaskRecordFromStore ops s (fac_Task c) = Inr r"
    and lease: "requireArtifactCurrentLease ops s r (wcm_Grant (fac_Meta c)) = Inr ()"
    and guard: "freeze_guard c (str_Task r) = Inr ()" and clock: "validLeaseTimestamp clock"
    and eff: "freeze_effects E ops c digest payload (timestampAtLeast clock [task_UpdatedAt (str_Task r)]) r s = Inr (f, s')"
    and x: "x = None"
    by (auto simp: FreezeArtifact_tx_def res_simps Let_def simp del: timestampAtLeast.simps)
  define now where "now = timestampAtLeast clock [task_UpdatedAt (str_Task r)]"
  have r': "db_tasks (db s) (fac_Task c) = Some r" "task_Ref (str_Task r) = fac_Task c" "ok (validateStoreTaskRecord r)"
    using r loadTaskRecordFromStore_Inr [OF s] by auto
  note chain = freeze_effects_chain [OF eff, folded now_def]
  then obtain b s1 head s2 s3 s4 where h: "InsertWorkspaceHead ops s
         \<lparr>wh_Workspace = tr_Workspace (fac_Task c), wh_ConfirmedRevision = fac_ExpectedBaseRevision c,
          wh_UpdatedAt = now\<rparr> = Inr (b, s1)" "loadArtifactWorkspaceHead ops s1 (tr_Workspace (fac_Task c)) = Inr head"
      "wh_ConfirmedRevision head = fac_ExpectedBaseRevision c"
    and a: "InsertArtifact ops s1 (freeze_artifact_record E c payload now) = Inr s2"
    and cas: "CompareAndSwapTask ops s2
             \<lparr>stm_Ref = fac_Task c,
              stm_Condition = \<lparr>stc_ExpectedRevision = wcm_ExpectedRevision (fac_Meta c),
                stc_ExpectedLease = Some \<lparr>ls_Owner = lg_Worker (wcm_Grant (fac_Meta c)),
                                         ls_Fence = lg_Fence (wcm_Grant (fac_Meta c))\<rparr>\<rparr>,
              stm_Next = freeze_record c now r\<rparr> = Inr (True, s3)"
    and ev: "insertEventToStore ops s3 (freeze_event c now (freeze_next c now (str_Task r))) = Inr s4"
    and f: "f = \<lparr>far_Task = freeze_next c now (str_Task r), far_Artifact = (artifactIdentity E c)\<lparr>art_FrozenAt := now\<rparr>\<rparr>"
    and rec: "recordJSONCommandToStore E ops s4 (tr_Authority (fac_Task c)) (wcm_ID (fac_Meta c))
           ''freeze_artifact'' digest ''freeze_artifact'' (JFreezeResult f) now = Inr s'" by blast
  note i1 = InsertWorkspaceHead_Inr(1) [OF s h(1)]
  note i2 = InsertArtifact_Inr [OF i1 a]
  note i3 = CompareAndSwapTask_Inr [OF i2(1) cas]
  note i4 = insertEventToStore_Inr [OF i3(1) ev]
  note i5 = recordJSONCommandToStore_Inr [OF i4(1) rec]
  note head = initial_head_eq [OF s h]
  have ids: "art_Ref (sar_Artifact (freeze_artifact_record E c payload now)) = freeze_ref c"
    "art_Task (sar_Artifact (freeze_artifact_record E c payload now)) = fac_Task c"
    by (simp_all add: freeze_artifact_record_def artifactIdentity_def Let_def)
  have d3: "db s3 = put_task (freeze_record c now r) (put_artifact (freeze_artifact_record E c payload now) (initial_head c now (db s)))"
    using i3(3) i2(4) head(1) r'(2)
    by (simp add: put_task_def put_artifact_def freeze_record_def freeze_next_def)
  have same: "db_artifacts (db s1) = db_artifacts (db s)" "db_events (db s3) = db_events (db s)"
    using head(1) d3 by (simp_all add: initial_head_def put_defs)
  have "freeze_allowed E (db s) c r payload now"
    unfolding freeze_allowed_def
    using cmd payload r' requireArtifactCurrentLease_Inr(2) [OF s lease] guard clock head(2) i2(2,3) i4(2) ids same
    by (auto simp: stamped_def now_def freeze_event_def freeze_next_def simp del: timestampAtLeast.simps)
  moreover obtain encoded where "json_Marshal E (JFreezeResult f) = Some encoded"
    "db s' = put_command (command_record E (tr_Authority (fac_Task c)) (wcm_ID (fac_Meta c))
        ''freeze_artifact'' digest ''freeze_artifact'' encoded now) (freeze_effect E c payload now r (db s))"
    using i5(2) i4(3) d3 unfolding freeze_effect_def by auto
  ultimately have "agent_step E (Froze c payload r) (wcm_ID (fac_Meta c)) digest now (db s) (db s')"
    using agent_step.commit [of E "db s" "Froze c payload r" now "wcm_ID (fac_Meta c)" encoded digest] f
      FreezeArtifact_replay_None [OF s new] by (simp add: effect_record_def)
  with that i5(1) x f show thesis by blast
qed

lemma RecordApplyReceipt_replay_None:
  "inv s \<Longrightarrow> RecordApplyReceipt_replay E ops c digest s = Inr None \<Longrightarrow>
     fresh_command (db s) (ar_Authority (rrc_Artifact c)) (rrc_CommandID c)"
  unfolding RecordApplyReceipt_replay_def
  by (drule bind_found_None) (auto simp: replayJSON_None res_simps split: option.splits if_splits)

lemma loadVerifiedApplyReceipt_None:
  "inv s \<Longrightarrow> loadVerifiedApplyReceipt E ops s ref = Inr None \<Longrightarrow> ref \<notin> dom (db_applyReceipts (db s))"
  by (auto simp: loadVerifiedApplyReceipt_def loadApplyReceipt_def LoadApplyReceipt res_simps
      split: option.splits sum.splits if_splits)

lemma loadVerifiedApplyReceipt_Some:
  "inv s \<Longrightarrow> loadVerifiedApplyReceipt E ops s ref = Inr (Some r) \<Longrightarrow> db_applyReceipts (db s) ref = Some r"
  by (auto simp: loadVerifiedApplyReceipt_def loadApplyReceipt_def LoadApplyReceipt res_simps
      split: option.splits sum.splits if_splits)

lemma advance_head_Inr:
  assumes "inv s" "advance_head ops a now s = Inr s'"
  shows "inv s'" "\<exists>h. db_workspaceHeads (db s) (ar_Workspace (art_Ref a)) = Some h
      \<and> wh_ConfirmedRevision h = art_BaseRevision a"
    "db s' = put_head \<lparr>wh_Workspace = ar_Workspace (art_Ref a), wh_ConfirmedRevision = art_ResultRevision a,
       wh_UpdatedAt = now\<rparr> (db s)"
proof -
  have cas: "CompareAndSwapWorkspaceHead ops s
         \<lparr>swm_Workspace = ar_Workspace (art_Ref a), swm_ExpectedRevision = art_BaseRevision a,
          swm_Next = \<lparr>wh_Workspace = ar_Workspace (art_Ref a),
                     wh_ConfirmedRevision = art_ResultRevision a, wh_UpdatedAt = now\<rparr>\<rparr> = Inr (True, s')"
    using assms(2) by (auto simp: advance_head_def res_simps split: if_splits)
  from CompareAndSwapWorkspaceHead_Inr [OF assms(1) cas] show "inv s'"
    "\<exists>h. db_workspaceHeads (db s) (ar_Workspace (art_Ref a)) = Some h \<and> wh_ConfirmedRevision h = art_BaseRevision a"
    "db s' = put_head \<lparr>wh_Workspace = ar_Workspace (art_Ref a), wh_ConfirmedRevision = art_ResultRevision a,
       wh_UpdatedAt = now\<rparr> (db s)"
    by (simp_all add: put_head_def)
qed

lemma RecordApplyReceipt_tx_chain:
  assumes "RecordApplyReceipt_tx E ops ce c digest s = Inr (r, s')"
    and "RecordApplyReceipt_replay E ops c digest s = Inr None"
  shows "\<exists>stored existing clock s3.
     loadArtifactRecord E ops s (rrc_Artifact c) = Inr stored
     \<and> art_State (sar_Artifact stored) = ArtifactPublished
     \<and> rrc_ArtifactDigest c = art_Digest (sar_Artifact stored)
     \<and> rrc_BaseRevision c = art_BaseRevision (sar_Artifact stored)
     \<and> rrc_ResultRevision c = art_ResultRevision (sar_Artifact stored)
     \<and> loadVerifiedApplyReceipt E ops s (rrc_Artifact c) = Inr existing
     \<and> validLeaseTimestamp clock
     \<and> settle_receipt ops c (sar_Artifact stored) existing
         (timestampAtLeast clock (receipt_floors (sar_Artifact stored))) s = Inr (r, s3)
     \<and> recordJSONCommandToStore E ops s3 (ar_Authority (rrc_Artifact c)) (rrc_CommandID c)
       ''record_apply_receipt'' digest ''apply_receipt'' (JApplyReceipt r)
       (timestampAtLeast clock (receipt_floors (sar_Artifact stored))) = Inr s'"
  using assms
  by (auto simp: RecordApplyReceipt_tx_def bind_res_Inr Let_def split: if_splits)

lemma RecordApplyReceipt_tx_fresh:
  assumes s: "inv s" and tx: "RecordApplyReceipt_tx E ops ce c digest s = Inr (r, s')"
    and new: "RecordApplyReceipt_replay E ops c digest s = Inr None" and cmd: "ok (validateReceiptCommand c)"
  obtains a now where "inv s'" "r = new_receipt c now"
      "agent_step E (Receipted c a) (rrc_CommandID c) digest now (db s) (db s')"
  | a now where "inv s'" "agent_step E (Rereceipted c a r) (rrc_CommandID c) digest now (db s) (db s')"
proof -
  from RecordApplyReceipt_tx_chain [OF tx new] obtain stored existing clock s3 where
    l: "loadArtifactRecord E ops s (rrc_Artifact c) = Inr stored"
    and g: "art_State (sar_Artifact stored) = ArtifactPublished"
      "rrc_ArtifactDigest c = art_Digest (sar_Artifact stored)"
      "rrc_BaseRevision c = art_BaseRevision (sar_Artifact stored)"
      "rrc_ResultRevision c = art_ResultRevision (sar_Artifact stored)"
    and ex: "loadVerifiedApplyReceipt E ops s (rrc_Artifact c) = Inr existing"
    and clock: "validLeaseTimestamp clock"
    and body': "settle_receipt ops c (sar_Artifact stored) existing
         (timestampAtLeast clock (receipt_floors (sar_Artifact stored))) s = Inr (r, s3)"
    and rec': "recordJSONCommandToStore E ops s3 (ar_Authority (rrc_Artifact c)) (rrc_CommandID c)
       ''record_apply_receipt'' digest ''apply_receipt'' (JApplyReceipt r)
       (timestampAtLeast clock (receipt_floors (sar_Artifact stored))) = Inr s'" by blast
  define now where "now = timestampAtLeast clock (receipt_floors (sar_Artifact stored))"
  note body = body' [folded now_def] and rec = rec' [folded now_def]
  note la = loadArtifactRecord_Inr [OF s l]
  note fresh = RecordApplyReceipt_replay_None [OF s new]
  have allowed: "receipt_allowed (db s) c (sar_Artifact stored) now"
    unfolding receipt_allowed_def stamped_def using cmd la(1,2) g clock now_def by blast
  show thesis
  proof (cases existing)
    case (Some old)
    with body have old: "sameReceiptDecision r (new_receipt c now)" "s3 = s" "existing = Some r"
      by (auto simp: settle_receipt_def split: if_splits)
    note i = recordJSONCommandToStore_Inr [OF s rec [unfolded old(2)]]
    obtain encoded where "json_Marshal E (JApplyReceipt r) = Some encoded"
      "db s' = put_command (command_record E (ar_Authority (rrc_Artifact c)) (rrc_CommandID c)
         ''record_apply_receipt'' digest ''apply_receipt'' encoded now) (db s)" using i(2) by blast
    then have "agent_step E (Rereceipted c (sar_Artifact stored) r) (rrc_CommandID c) digest now (db s) (db s')"
      using agent_step.commit [of E "db s" "Rereceipted c (sar_Artifact stored) r" now "rrc_CommandID c" encoded digest]
        allowed old(1) fresh loadVerifiedApplyReceipt_Some [OF s ex [unfolded old(3)]]
      by (simp add: effect_record_def)
    with that(2) i(1) show thesis by blast
  next
    case None
    with body obtain s1 where r: "r = new_receipt c now"
      and adv: "(if rrc_Decision c = ApplySuccess then advance_head ops (sar_Artifact stored) now s else Inr s) = Inr s1"
      and ins: "InsertApplyReceipt ops s1 r = Inr s3" by (auto simp: settle_receipt_def bind_res_Inr Let_def)
    have d1: "inv s1 \<and> db s1 = (if rrc_Decision c = ApplySuccess
        then put_head \<lparr>wh_Workspace = ar_Workspace (rrc_Artifact c),
               wh_ConfirmedRevision = art_ResultRevision (sar_Artifact stored), wh_UpdatedAt = now\<rparr> (db s) else db s)
      \<and> (rrc_Decision c = ApplySuccess \<longrightarrow> (\<exists>h. db_workspaceHeads (db s) (ar_Workspace (rrc_Artifact c)) = Some h
         \<and> wh_ConfirmedRevision h = rrc_BaseRevision c))"
    proof (cases "rrc_Decision c = ApplySuccess")
      case True
      with adv have "advance_head ops (sar_Artifact stored) now s = Inr s1" by simp
      from advance_head_Inr [OF s this] True show ?thesis by (simp add: la(2) g(3))
    qed (use adv s in simp)
    note i2 = InsertApplyReceipt_Inr [OF conjunct1 [OF d1] ins]
    note i3 = recordJSONCommandToStore_Inr [OF i2(1) rec]
    have "rrc_Artifact c \<notin> dom (db_applyReceipts (db s))"
      using loadVerifiedApplyReceipt_None [OF s ex [unfolded None]] .
    moreover have "db s3 = receipt_effect c (sar_Artifact stored) now (db s)"
      using i2(3) d1 r by (simp add: receipt_effect_def put_receipt_def)
    moreover obtain encoded where "json_Marshal E (JApplyReceipt r) = Some encoded"
      "db s' = put_command (command_record E (ar_Authority (rrc_Artifact c)) (rrc_CommandID c)
         ''record_apply_receipt'' digest ''apply_receipt'' encoded now) (db s3)" using i3(2) by blast
    ultimately have "agent_step E (Receipted c (sar_Artifact stored)) (rrc_CommandID c) digest now (db s) (db s')"
      using agent_step.commit [of E "db s" "Receipted c (sar_Artifact stored)" now "rrc_CommandID c" encoded digest]
        allowed fresh d1 r by (simp add: effect_record_def)
    with that(1) i3(1) r show thesis by blast
  qed
qed

text \<open>
  The operations. Whatever a call answers, the store is as it was or one step further; and a call
  that answers a value either replayed a recorded one or took the step.
\<close>

lemma CreateTask_preflight_cases:
  assumes "CreateTask_preflight E ag ops ce c sv = Inr (Inr (digest, p))"
  shows "ok (validateCreateCommand E c)" "commandDigest E ''create_task'' (CmdCreateTask c) = Inr digest" "content_ok p"
  using assms prepareMessageContent_Inr
  by (auto simp: CreateTask_preflight_def bind_res_Inr content_ok_def ok_of_Inr split: option.splits)

lemma CreateTask_tx_replayed:
  "CreateTask_replay E ops c digest s = Inr (Some x) \<Longrightarrow> CreateTask_tx E ops ce c digest p s = Inr (t, s') \<Longrightarrow>
     t = x \<and> s' = s"
  by (auto simp: CreateTask_tx_def)

lemma CreateTask_step:
  assumes s: "inv s" and call: "CreateTask E ag ops ce c sv s = (res, s')" and changed: "s' \<noteq> s"
  obtains p digest now where "inv s'" "res = Inr (created_task c now) \<or> res = Inl (StoreFailure ErrStoreCommitUnknown)"
    "commandDigest E ''create_task'' (CmdCreateTask c) = Inr digest"
    "agent_step E (Created c p) (cm_ID (ctc_Meta c)) digest now (db s) (db s')"
proof -
  from call changed obtain digest p where pre: "CreateTask_preflight E ag ops ce c sv = Inr (Inr (digest, p))"
    and upd: "store_Update (call_ctx ce) (call_commit ce) (CreateTask_tx E ops ce c digest p) s = (res, s')"
    by (auto simp: CreateTask_def split: sum.splits)
  note pf = CreateTask_preflight_cases [OF pre]
  from store_Update_changed [OF upd changed] obtain t where tx: "CreateTask_tx E ops ce c digest p s = Inr (t, s')"
    and res: "res = Inr t \<or> res = Inl (StoreFailure ErrStoreCommitUnknown)" by blast
  have "CreateTask_replay E ops c digest s = Inr None"
    using tx changed CreateTask_tx_replayed
    by (cases "CreateTask_replay E ops c digest s") (auto simp: CreateTask_tx_def split: option.splits)
  from s tx this pf(1,3) obtain now where "inv s'" "t = created_task c now"
    "agent_step E (Created c p) (cm_ID (ctc_Meta c)) digest now (db s) (db s')" by (rule CreateTask_tx_fresh)
  with res pf(2) show thesis by (intro that) auto
qed

lemma transition_preflight_cases:
  assumes "transition_preflight E ag ops ce kind meta grant ref cmd change sv = Inr (Inr (digest, p))"
  shows "ok (validateMeta meta False)" "ok (validateTaskRef ref)" "commandDigest E kind cmd = Inr digest"
    "trn_message change \<noteq> None \<longrightarrow> content_ok p"
  using assms prepareMessageContent_Inr
  by (auto simp: transition_preflight_def bind_res_Inr content_ok_def ok_of_Inr split: option.splits)

lemma transition_tx_replayed:
  "transition_tx E ops ce kind meta grant ref digest change p s = Inr (t, s') \<Longrightarrow> s' \<noteq> s \<Longrightarrow>
     transition_replay E ops kind meta grant ref digest s = Inr None"
  by (cases "transition_replay E ops kind meta grant ref digest s") (auto simp: transition_tx_def split: option.splits)

lemma run_transition_step:
  assumes s: "inv s"
    and call: "run_transition E ag ops ce kind meta (issuer_grant who) ref cmd change sv s = (res, s')"
    and changed: "s' \<noteq> s" and req: "task_change E ref kind who change" "\<And>g. who = Worker g \<Longrightarrow> lg_Task g = ref"
  obtains p r digest now where "inv s'"
    "res = Inr (transition_next change ref now (str_Task r)) \<or> res = Inl (StoreFailure ErrStoreCommitUnknown)"
    "commandDigest E kind cmd = Inr digest"
    "agent_step E (Transitioned kind who meta ref change p r) (cm_ID meta) digest now (db s) (db s')"
proof -
  from call changed obtain digest p where
    pre: "transition_preflight E ag ops ce kind meta (issuer_grant who) ref cmd change sv = Inr (Inr (digest, p))"
    and upd: "store_Update (call_ctx ce) (call_commit ce)
        (transition_tx E ops ce kind meta (issuer_grant who) ref digest change p) s = (res, s')"
    by (auto simp: run_transition_def split: sum.splits)
  note pf = transition_preflight_cases [OF pre]
  from pf(1) have stable: "match_stable (cm_ID meta)" by (simp add: ok_validateMeta)
  from store_Update_changed [OF upd changed] obtain t
    where tx: "transition_tx E ops ce kind meta (issuer_grant who) ref digest change p s = Inr (t, s')"
    and res: "res = Inr t \<or> res = Inl (StoreFailure ErrStoreCommitUnknown)" by blast
  from s tx transition_tx_replayed [OF tx changed] req(1) pf(2) stable pf(4) req(2)
  obtain r now where "inv s'" "t = transition_next change ref now (str_Task r)"
    "agent_step E (Transitioned kind who meta ref change p r) (cm_ID meta) digest now (db s) (db s')"
    by (rule transition_tx_fresh)
  with res pf(3) show thesis by (intro that) auto
qed

lemma AcquireLease_step:
  assumes s: "inv s" and call: "AcquireLease E ag ops ce c s = (res, s')" and changed: "s' \<noteq> s"
  obtains r digest now where "inv s'" "task_Ref (str_Task r) = alc_Task c"
    "res = Inr (lease_assignment r (alc_Worker c) now) \<or> res = Inl (StoreFailure ErrStoreCommitUnknown)"
    "commandDigest E ''acquire_lease'' (CmdAcquireLease c) = Inr digest"
    "agent_step E (Granted ''acquire_lease'' r (alc_Worker c)) (alc_ID c) digest now (db s) (db s')"
proof -
  from call changed obtain digest where pre: "AcquireLease_preflight E ag ce c = Inr digest"
    and upd: "store_Update (call_ctx ce) (call_commit ce) (AcquireLease_tx E ops ce c digest) s = (res, s')"
    by (auto simp: AcquireLease_def split: sum.splits)
  from pre have w: "match_stable (alc_Worker c)" and d: "commandDigest E ''acquire_lease'' (CmdAcquireLease c) = Inr digest"
    by (auto simp: AcquireLease_preflight_def bind_res_Inr validateStable_def split: if_splits)
  from store_Update_changed [OF upd changed] obtain a where tx: "AcquireLease_tx E ops ce c digest s = Inr (a, s')"
    and res: "res = Inr a \<or> res = Inl (StoreFailure ErrStoreCommitUnknown)" by blast
  have "AcquireLease_replay E ops c digest s = Inr None"
    using tx changed by (cases "AcquireLease_replay E ops c digest s") (auto simp: AcquireLease_tx_def split: option.splits)
  from s tx this w obtain r now where "inv s'" "a = lease_assignment r (alc_Worker c) now" "task_Ref (str_Task r) = alc_Task c"
    "agent_step E (Granted ''acquire_lease'' r (alc_Worker c)) (alc_ID c) digest now (db s) (db s')"
    by (rule AcquireLease_tx_fresh)
  with res d show thesis by (intro that) auto
qed

lemma ClaimLease_step:
  assumes s: "inv s" and call: "ClaimLease E ag ops ce c s = (res, s')" and changed: "s' \<noteq> s"
  obtains r digest now where "inv s'" "claimable (clc_Authority c) r"
    "\<forall>r' \<in> ran (db_tasks (db s)). claimable (clc_Authority c) r' \<longrightarrow>
       task_created_cursor (str_Task r) \<le> task_created_cursor (str_Task r')"
    "res = Inr (lease_assignment r (clc_Worker c) now) \<or> res = Inl (StoreFailure ErrStoreCommitUnknown)"
    "commandDigest E ''claim_lease'' (CmdClaimLease c) = Inr digest"
    "agent_step E (Granted ''claim_lease'' r (clc_Worker c)) (clc_ID c) digest now (db s) (db s')"
proof -
  from call changed obtain digest where pre: "ClaimLease_preflight E ag ce c = Inr digest"
    and upd: "store_Update (call_ctx ce) (call_commit ce) (ClaimLease_tx E ops ce c digest) s = (res, s')"
    by (auto simp: ClaimLease_def split: sum.splits)
  from pre have w: "match_stable (clc_Worker c)" and d: "commandDigest E ''claim_lease'' (CmdClaimLease c) = Inr digest"
    by (auto simp: ClaimLease_preflight_def bind_res_Inr validateStable_def split: if_splits)
  from store_Update_changed [OF upd changed] obtain a where tx: "ClaimLease_tx E ops ce c digest s = Inr (a, s')"
    and res: "res = Inr a \<or> res = Inl (StoreFailure ErrStoreCommitUnknown)" by blast
  have "ClaimLease_replay E ops c digest s = Inr None"
    using tx changed by (cases "ClaimLease_replay E ops c digest s") (auto simp: ClaimLease_tx_def split: option.splits)
  from s tx this w obtain r now where "inv s'" "a = lease_assignment r (clc_Worker c) now" "claimable (clc_Authority c) r"
    "\<forall>r' \<in> ran (db_tasks (db s)). claimable (clc_Authority c) r' \<longrightarrow>
       task_created_cursor (str_Task r) \<le> task_created_cursor (str_Task r')"
    "agent_step E (Granted ''claim_lease'' r (clc_Worker c)) (clc_ID c) digest now (db s) (db s')"
    by (rule ClaimLease_tx_fresh)
  with res d show thesis by (intro that) auto
qed

lemma FenceLease_step:
  assumes s: "inv s" and call: "FenceLease E ag ops ce c s = (res, s')" and changed: "s' \<noteq> s"
  obtains r digest now where "inv s'" "commandDigest E ''fence_lease'' (CmdFenceLease c) = Inr digest"
    "agent_step E (Fenced (flc_Grant c) r) (flc_ID c) digest now (db s) (db s')"
proof -
  from call changed obtain digest where pre: "FenceLease_preflight E ag ce c = Inr digest"
    and upd: "store_Update (call_ctx ce) (call_commit ce) (FenceLease_tx E ops ce c digest) s = (res, s')"
    by (auto simp: FenceLease_def split: sum.splits)
  from pre have d: "commandDigest E ''fence_lease'' (CmdFenceLease c) = Inr digest"
    by (auto simp: FenceLease_preflight_def bind_res_Inr)
  from store_Update_changed [OF upd changed] obtain x where tx: "FenceLease_tx E ops ce c digest s = Inr (x, s')" by blast
  have "FenceLease_replay E ops c digest s = Inr None"
    using tx changed by (cases "FenceLease_replay E ops c digest s") (auto simp: FenceLease_tx_def split: option.splits)
  from s tx this obtain r now where "inv s'" "agent_step E (Fenced (flc_Grant c) r) (flc_ID c) digest now (db s) (db s')"
    by (rule FenceLease_tx_fresh)
  with d show thesis by (intro that)
qed

lemma FreezeArtifact_preflight_cases:
  assumes "FreezeArtifact_preflight E ag ops ce c sv = Inr (Inr (digest, payload))"
  shows "ok (validateWorkerMeta (fac_Meta c) (fac_Task c))" "ok (validateTaskRef (fac_Task c))" "ok (validateStable (fac_Artifact c))"
    "ok (validateRevision (fac_ExpectedBaseRevision c))" "ok (validateArtifactPayloadShape E (fac_Payload c))"
    "commandDigest E ''freeze_artifact'' (CmdFreezeArtifact c) = Inr digest"
    "payload \<noteq> []" "int (length payload) \<le> MaxStoredValueBytes"
    "int (length (pl_Data (fac_Payload c))) \<le> ag_maxArtifactBytes ag"
  using assms unfolding FreezeArtifact_preflight_def bind_res_Inr
  by (auto simp: bind_res_Inr prepareArtifactPayload_def intro!: ok_of_Inr simp del: ok_validateTaskRef ok_validateStable
      split: option.splits if_splits)

lemma FreezeArtifact_step:
  assumes s: "inv s" and call: "FreezeArtifact E ag ops ce c sv s = (res, s')" and changed: "s' \<noteq> s"
  obtains r payload digest now where "inv s'"
    "res = Inr \<lparr>far_Task = freeze_next c now (str_Task r), far_Artifact = (artifactIdentity E c)\<lparr>art_FrozenAt := now\<rparr>\<rparr>
       \<or> res = Inl (StoreFailure ErrStoreCommitUnknown)"
    "commandDigest E ''freeze_artifact'' (CmdFreezeArtifact c) = Inr digest"
    "agent_step E (Froze c payload r) (wcm_ID (fac_Meta c)) digest now (db s) (db s')"
proof -
  from call changed obtain digest payload res1 where
    pre: "FreezeArtifact_preflight E ag ops ce c sv = Inr (Inr (digest, payload))"
    and upd: "store_Update (call_ctx ce) (call_commit ce) (FreezeArtifact_tx E ops ce c digest payload) s = (res1, s')"
    and post: "case res1 of Inl e \<Rightarrow> res = Inl e | Inr (f, None) \<Rightarrow> res = Inr f | Inr (f, Some _) \<Rightarrow> True"
    by (fastforce simp: FreezeArtifact_def split: sum.splits prod.splits option.splits)
  note pf = FreezeArtifact_preflight_cases [OF pre]
  from pf(1) have stable: "match_stable (wcm_ID (fac_Meta c))"
    by (simp add: ok_validateWorkerMeta ok_validateMeta commandMeta_def)
  from store_Update_changed [OF upd changed] obtain f x where tx: "FreezeArtifact_tx E ops ce c digest payload s = Inr ((f, x), s')"
    and res: "res1 = Inr (f, x) \<or> res1 = Inl (StoreFailure ErrStoreCommitUnknown)" by fast
  have "FreezeArtifact_replay E ops c digest s = Inr None"
    using tx changed by (cases "FreezeArtifact_replay E ops c digest s") (auto simp: FreezeArtifact_tx_def split: option.splits)
  from s tx this pf(2) pf(3) [simplified] pf(4,5) stable pf(7,8) obtain r now where "inv s'" "x = None"
    "f = \<lparr>far_Task = freeze_next c now (str_Task r), far_Artifact = (artifactIdentity E c)\<lparr>art_FrozenAt := now\<rparr>\<rparr>"
    "agent_step E (Froze c payload r) (wcm_ID (fac_Meta c)) digest now (db s) (db s')"
    by (rule FreezeArtifact_tx_fresh)
  with res post pf(6) show thesis by (intro that) auto
qed

lemma RecordApplyReceipt_step:
  assumes s: "inv s" and call: "RecordApplyReceipt E ag ops ce c s = (res, s')" and changed: "s' \<noteq> s"
  obtains a digest now where "inv s'"
      "res = Inr (new_receipt c now) \<or> res = Inl (StoreFailure ErrStoreCommitUnknown)"
      "commandDigest E ''record_apply_receipt'' (CmdRecordApplyReceipt c) = Inr digest"
      "agent_step E (Receipted c a) (rrc_CommandID c) digest now (db s) (db s')"
  | a rcp digest now where "inv s'" "res = Inr rcp \<or> res = Inl (StoreFailure ErrStoreCommitUnknown)"
      "commandDigest E ''record_apply_receipt'' (CmdRecordApplyReceipt c) = Inr digest"
      "agent_step E (Rereceipted c a rcp) (rrc_CommandID c) digest now (db s) (db s')"
proof -
  from call changed obtain digest where pre: "RecordApplyReceipt_preflight E ag ce c = Inr digest"
    and upd: "store_Update (call_ctx ce) (call_commit ce) (RecordApplyReceipt_tx E ops ce c digest) s = (res, s')"
    by (auto simp: RecordApplyReceipt_def split: sum.splits)
  from pre have d: "commandDigest E ''record_apply_receipt'' (CmdRecordApplyReceipt c) = Inr digest"
    and v: "ok (validateReceiptCommand c)"
    by (auto simp: RecordApplyReceipt_preflight_def bind_res_Inr ok_of_Inr)
  from store_Update_changed [OF upd changed] obtain r where tx: "RecordApplyReceipt_tx E ops ce c digest s = Inr (r, s')"
    and res: "res = Inr r \<or> res = Inl (StoreFailure ErrStoreCommitUnknown)" by blast
  have new: "RecordApplyReceipt_replay E ops c digest s = Inr None"
    using tx changed by (cases "RecordApplyReceipt_replay E ops c digest s") (auto simp: RecordApplyReceipt_tx_def split: option.splits)
  from RecordApplyReceipt_tx_fresh [OF s tx new v] show thesis
    using that res d by metis
qed

lemma run_transition_stepped:
  assumes "inv s" "run_transition E ag ops ce kind meta (issuer_grant who) ref cmd change sv s = (res, s')"
    "s' \<noteq> s" "task_change E ref kind who change" "\<And>g. who = Worker g \<Longrightarrow> lg_Task g = ref"
  shows "inv s' \<and> (\<exists>eff cid digest now. agent_step E eff cid digest now (db s) (db s'))"
  using assms by (rule run_transition_step) blast+

lemma agent_call_refines:
  assumes "agent_call E ops s s'" "inv s" "s' \<noteq> s"
  shows "inv s' \<and> (\<exists>eff cid digest now. agent_step E eff cid digest now (db s) (db s'))"
  using assms
proof (cases rule: agent_call.cases)
  case (CreateTask ag ce c sv res)
  then show ?thesis using CreateTask_step [OF assms(2) _ assms(3)] by metis
next
  case (AcceptTask ag ce wc sv res)
  from AcceptTask_run [OF AcceptTask assms(3)] show ?thesis
    by (elim conjE, intro run_transition_stepped [OF assms(2) _ assms(3) task_change.accept]) auto
next
  case (RejectTask ag ce wc sv res)
  from RejectTask_run [OF RejectTask assms(3)] show ?thesis
    by (elim conjE, intro run_transition_stepped [OF assms(2) _ assms(3) task_change.reject]) auto
next
  case (RequestInput ag ce wm sv res)
  from RequestInput_run [OF RequestInput assms(3)] show ?thesis
    by (elim conjE, intro run_transition_stepped [OF assms(2) _ assms(3) task_change.request]) auto
next
  case (ReplyTask ag ce mc sv res)
  from ReplyTask_run [OF ReplyTask assms(3)] show ?thesis
    by (elim conjE, intro run_transition_stepped [OF assms(2) _ assms(3) task_change.reply]) auto
next
  case (CancelTask ag ce tc sv res)
  then show ?thesis
    by (intro run_transition_stepped [OF assms(2) _ assms(3) task_change.cancel]) (auto simp: CancelTask_run)
next
  case (FailTask ag ce wc sv res)
  from FailTask_run [OF FailTask assms(3)] show ?thesis
    by (elim conjE, intro run_transition_stepped [OF assms(2) _ assms(3) task_change.fail]) auto
next
  case (CompleteTask ag ce cc sv res)
  from CompleteTask_run [OF CompleteTask assms(3)] show ?thesis
    by (elim conjE, intro run_transition_stepped [OF assms(2) _ assms(3)]) auto
next
  case (AcquireLease ag ce al lres)
  then show ?thesis using AcquireLease_step [OF assms(2) _ assms(3)] by metis
next
  case (ClaimLease ag ce cl lres)
  then show ?thesis using ClaimLease_step [OF assms(2) _ assms(3)] by metis
next
  case (FenceLease ag ce fl ures)
  then show ?thesis using FenceLease_step [OF assms(2) _ assms(3)] by metis
next
  case (FreezeArtifact ag ce fa sv fres)
  then show ?thesis using FreezeArtifact_step [OF assms(2) _ assms(3)] by metis
next
  case (RecordApplyReceipt ag ce rr rres)
  then show ?thesis using RecordApplyReceipt_step [OF assms(2) _ assms(3)] by metis
qed

end

end
