(* ===== verification/Agent_Invariant.thy ===== *)
theory Agent_Invariant
  imports Agent_Refine
begin

text \<open>
  The invariant of the domain: what every database reached by \<open>agent_step\<close> from the empty one
  satisfies. Each part is preserved by each kind of step.
\<close>

section \<open>The parts\<close>

definition message_parity :: "Task \<Rightarrow> bool" where
  "message_parity t \<longleftrightarrow>
     (task_State t \<in> {TaskSubmitted, TaskWorking, TaskRejected} \<longrightarrow> odd (unat (task_MessageCount t)))
     \<and> (task_State t \<in> {TaskInputRequired, TaskCompleted} \<longrightarrow> even (unat (task_MessageCount t)))"

definition tasks_inv :: "agent_db \<Rightarrow> bool" where
  "tasks_inv d \<longleftrightarrow>
     (\<forall>ref r. db_tasks d ref = Some r \<longrightarrow>
        task_Ref (str_Task r) = ref \<and> ok (validateStoreTaskRecord r) \<and> message_parity (str_Task r)
        \<and> validLeaseTimestamp (task_CreatedAt (str_Task r)) \<and> validLeaseTimestamp (task_UpdatedAt (str_Task r)))"

definition ids_inv :: "agent_db \<Rightarrow> bool" where
  "ids_inv d \<longleftrightarrow>
     (\<forall>ref \<in> dom (db_tasks d). \<forall>ref' \<in> dom (db_tasks d).
        tr_Authority ref = tr_Authority ref' \<and> tr_ID ref = tr_ID ref' \<longrightarrow> ref = ref')"

definition events_inv :: "agent_db \<Rightarrow> bool" where
  "events_inv d \<longleftrightarrow>
     (\<forall>ref n. (ref, n) \<in> dom (db_events d) \<longleftrightarrow>
        (\<exists>r. db_tasks d ref = Some r \<and> 1 \<le> n \<and> n \<le> task_EventCount (str_Task r)))
     \<and> (\<forall>ref n e. db_events d (ref, n) = Some e \<longrightarrow>
          ev_Task e = ref \<and> ev_Sequence e = n \<and> ok (validateStoredEvent e))
     \<and> (\<forall>ref r e. db_tasks d ref = Some r \<longrightarrow> db_events d (ref, task_EventCount (str_Task r)) = Some e
          \<longrightarrow> ev_State e = task_State (str_Task r))"

definition message_record_ok :: "agent_db \<Rightarrow> StoreMessageRecord \<Rightarrow> bool" where
  "message_record_ok d r \<longleftrightarrow>
     (\<exists>t. db_tasks d (smr_Task r) = Some t \<and> 1 \<le> smr_Sequence r
        \<and> smr_Sequence r \<le> task_MessageCount (str_Task t))
     \<and> smr_Author r = (if odd (unat (smr_Sequence r)) then AuthorCaller else AuthorAgent)
     \<and> match_stable (smr_ID r) \<and> validLeaseTimestamp (smr_CreatedAt r)
     \<and> smr_EncodedParts r \<noteq> [] \<and> int (length (smr_EncodedParts r)) \<le> maxPageBytes"

definition messages_inv :: "agent_db \<Rightarrow> bool" where
  "messages_inv d \<longleftrightarrow>
     (\<forall>k r. db_messages d k = Some r \<longrightarrow> message_key r = k \<and> message_record_ok d r)
     \<and> (\<forall>r \<in> ran (db_messages d). \<forall>r' \<in> ran (db_messages d).
          smr_Task r = smr_Task r' \<and> smr_Sequence r = smr_Sequence r' \<longrightarrow> r = r')
     \<and> (\<forall>ref t n. db_tasks d ref = Some t \<longrightarrow> 1 \<le> n \<longrightarrow> n \<le> task_MessageCount (str_Task t) \<longrightarrow>
          (\<exists>r \<in> ran (db_messages d). smr_Task r = ref \<and> smr_Sequence r = n))"

definition leases_inv :: "agent_db \<Rightarrow> bool" where
  "leases_inv d \<longleftrightarrow>
     (\<forall>ref f. (ref, f) \<in> dom (db_leaseGrants d) \<longleftrightarrow>
        (\<exists>r. db_tasks d ref = Some r \<and> 1 \<le> f \<and> f \<le> ls_Fence (str_Lease r)))
     \<and> (\<forall>ref f h. db_leaseGrants d (ref, f) = Some h \<longrightarrow>
          lg_Task (slg_Grant h) = ref \<and> lg_Fence (slg_Grant h) = f \<and> ok (validateLeaseGrant (slg_Grant h))
          \<and> validLeaseTimestamp (slg_GrantedAt h)
          \<and> (\<exists>r. db_tasks d ref = Some r \<and> task_CreatedAt (str_Task r) \<le> slg_GrantedAt h))
     \<and> (\<forall>ref f f' h h'. db_leaseGrants d (ref, f) = Some h \<longrightarrow> db_leaseGrants d (ref, f') = Some h' \<longrightarrow>
          f \<le> f' \<longrightarrow> slg_GrantedAt h \<le> slg_GrantedAt h')
     \<and> (\<forall>ref r. db_tasks d ref = Some r \<longrightarrow> ls_Fence (str_Lease r) \<le> MaxInt64
          \<and> (ls_Owner (str_Lease r) \<noteq> [] \<longrightarrow>
               (\<exists>h. db_leaseGrants d (ref, ls_Fence (str_Lease r)) = Some h
                  \<and> lg_Worker (slg_Grant h) = ls_Owner (str_Lease r))))"

definition artifact_ok :: "agent_db \<Rightarrow> StoreArtifactRecord \<Rightarrow> bool" where
  "artifact_ok d s \<longleftrightarrow>
     artifact_times_ok (sar_Artifact s)
     \<and> (\<exists>r. db_tasks d (art_Task (sar_Artifact s)) = Some r
          \<and> task_Artifact (str_Task r) = Some (art_Ref (sar_Artifact s))
          \<and> str_ArtifactState r = Some (art_State (sar_Artifact s))
          \<and> art_FrozenAt (sar_Artifact s) \<le> task_UpdatedAt (str_Task r))"

definition artifacts_inv :: "agent_db \<Rightarrow> bool" where
  "artifacts_inv d \<longleftrightarrow>
     (\<forall>a s. db_artifacts d a = Some s \<longrightarrow> art_Ref (sar_Artifact s) = a \<and> artifact_ok d s)
     \<and> (\<forall>ref r a. db_tasks d ref = Some r \<longrightarrow> task_Artifact (str_Task r) = Some a \<longrightarrow>
          (\<exists>s. db_artifacts d a = Some s \<and> art_Task (sar_Artifact s) = ref))"

definition submissions_inv :: "agent_db \<Rightarrow> bool" where
  "submissions_inv d \<longleftrightarrow>
     (\<forall>ref. db_submissions d ref = Option.bind (db_tasks d ref) (\<lambda>r. task_Submission (str_Task r)))"

definition receipts_inv :: "agent_db \<Rightarrow> bool" where
  "receipts_inv d \<longleftrightarrow>
     (\<forall>a r. db_applyReceipts d a = Some r \<longrightarrow> rcp_Artifact r = a
        \<and> (\<exists>s. db_artifacts d a = Some s \<and> receipt_matches_artifact r (sar_Artifact s))
        \<and> ok (validateStoredReceipt r))"

text \<open>
  The confirmed revision of a workspace is the result of a success receipt, or nothing was
  successfully applied there yet.
\<close>

definition head_origin :: "agent_db \<Rightarrow> WorkspaceHead \<Rightarrow> bool" where
  "head_origin d h \<longleftrightarrow>
     (\<exists>r \<in> ran (db_applyReceipts d). ar_Workspace (rcp_Artifact r) = wh_Workspace h
        \<and> rcp_Decision r = ApplySuccess \<and> rcp_ResultRevision r = wh_ConfirmedRevision h)
     \<or> (\<forall>r \<in> ran (db_applyReceipts d). ar_Workspace (rcp_Artifact r) = wh_Workspace h \<longrightarrow> rcp_Decision r \<noteq> ApplySuccess)"

definition heads_inv :: "agent_db \<Rightarrow> bool" where
  "heads_inv d \<longleftrightarrow>
     (\<forall>a \<in> dom (db_artifacts d). ar_Workspace a \<in> dom (db_workspaceHeads d))
     \<and> (\<forall>w h. db_workspaceHeads d w = Some h \<longrightarrow>
          wh_Workspace h = w \<and> ok (validateRevision (wh_ConfirmedRevision h)) \<and> wh_UpdatedAt h \<noteq> zero_time
          \<and> head_origin d h)"

definition commands_inv :: "env \<Rightarrow> agent_db \<Rightarrow> bool" where
  "commands_inv E d \<longleftrightarrow>
     (\<forall>k r. db_commands d k = Some r \<longrightarrow>
        command_key r = k \<and> scr_ResultDigest r = byteDigest E (scr_Result r)
        \<and> scr_CreatedAt r \<noteq> zero_time)"

definition domain_inv :: "agent_db \<Rightarrow> bool" where
  "domain_inv d \<longleftrightarrow> tasks_inv d \<and> ids_inv d \<and> events_inv d \<and> messages_inv d \<and> leases_inv d
     \<and> artifacts_inv d \<and> submissions_inv d \<and> receipts_inv d \<and> heads_inv d"

definition db_inv :: "env \<Rightarrow> agent_db \<Rightarrow> bool" where
  "db_inv E d \<longleftrightarrow> domain_inv d \<and> commands_inv E d"

lemmas db_inv_defs = tasks_inv_def ids_inv_def events_inv_def messages_inv_def leases_inv_def
  artifacts_inv_def submissions_inv_def receipts_inv_def heads_inv_def commands_inv_def

lemma db_inv_empty: "db_inv E empty_db"
  by (simp add: db_inv_def domain_inv_def db_inv_defs empty_db_def)

text \<open>The fields of an effect.\<close>

lemma put_command_fields [simp]:
  "db_commands (put_command r d) = (db_commands d)(command_key r \<mapsto> r)"
  "db_tasks (put_command r d) = db_tasks d" "db_messages (put_command r d) = db_messages d"
  "db_events (put_command r d) = db_events d" "db_leaseGrants (put_command r d) = db_leaseGrants d"
  "db_artifacts (put_command r d) = db_artifacts d" "db_submissions (put_command r d) = db_submissions d"
  "db_workspaceHeads (put_command r d) = db_workspaceHeads d"
  "db_applyReceipts (put_command r d) = db_applyReceipts d"
  by (simp_all add: put_command_def)

text \<open>Only the commands part sees the command record of a step.\<close>

lemma put_command_parts [simp]:
  "tasks_inv (put_command r d) \<longleftrightarrow> tasks_inv d" "ids_inv (put_command r d) \<longleftrightarrow> ids_inv d"
  "events_inv (put_command r d) \<longleftrightarrow> events_inv d" "messages_inv (put_command r d) \<longleftrightarrow> messages_inv d"
  "leases_inv (put_command r d) \<longleftrightarrow> leases_inv d" "artifacts_inv (put_command r d) \<longleftrightarrow> artifacts_inv d"
  "submissions_inv (put_command r d) \<longleftrightarrow> submissions_inv d" "receipts_inv (put_command r d) \<longleftrightarrow> receipts_inv d"
  "heads_inv (put_command r d) \<longleftrightarrow> heads_inv d"
  by (simp_all add: tasks_inv_def ids_inv_def events_inv_def messages_inv_def message_record_ok_def leases_inv_def
      artifacts_inv_def artifact_ok_def submissions_inv_def receipts_inv_def heads_inv_def head_origin_def)

lemma validLeaseTimestamp_iff: "validLeaseTimestamp t \<longleftrightarrow> - (2 ^ 63) \<le> t \<and> t < 2 ^ 63"
  using zero_time_not_unixNano by (auto simp: validLeaseTimestamp_def unixNano_id_iff zero_time_def)

lemma valid_not_zero: "validLeaseTimestamp t \<Longrightarrow> t \<noteq> zero_time"
  by (simp add: validLeaseTimestamp_def)

lemma stamped_valid:
  assumes "stamped now floors" "\<And>f. f \<in> set floors \<Longrightarrow> validLeaseTimestamp f \<or> f = zero_time"
  shows "validLeaseTimestamp now"
proof -
  from assms(1) obtain clock where c: "validLeaseTimestamp clock" "now = timestampAtLeast clock floors"
    by (auto simp: stamped_def)
  then have "clock \<le> now" "now = clock \<or> validLeaseTimestamp now \<or> now = zero_time"
    using timestampAtLeast_in [of clock floors] assms(2) timestampAtLeast_candidate by auto
  with c(1) show ?thesis by (auto simp: validLeaseTimestamp_iff zero_time_def)
qed

lemma stamped_floor: "stamped now floors \<Longrightarrow> f \<in> set floors \<Longrightarrow> f \<le> now"
  by (auto simp: stamped_def timestampAtLeast_floor)


lemma head_origin_cong: "db_applyReceipts d' = db_applyReceipts d \<Longrightarrow> head_origin d' h \<longleftrightarrow> head_origin d h"
  by (simp add: head_origin_def)

lemma heads_inv_same:
  "heads_inv d \<Longrightarrow> dom (db_artifacts d') = dom (db_artifacts d) \<Longrightarrow> db_workspaceHeads d' = db_workspaceHeads d
   \<Longrightarrow> db_applyReceipts d' = db_applyReceipts d \<Longrightarrow> heads_inv d'"
  using head_origin_cong [of d' d] by (simp add: heads_inv_def)


section \<open>One step of a Task\<close>

lemmas change_defs = accept_change_def reject_change_def request_input_change_def reply_change_def
  cancel_change_def fail_change_def complete_change_def containsState_def

text \<open>What the guard leaves of the current state.\<close>

lemma transition_guard_Inr:
  "transition_guard kind meta change t = Inr () \<longleftrightarrow>
     task_Revision t = cm_ExpectedRevision meta \<and> \<not> Terminal (task_State t)
     \<and> task_State t \<in> set (trn_allowed change)
     \<and> task_Revision t < MaxInt64 \<and> task_EventCount t < MaxInt64
     \<and> (trn_message change \<noteq> None \<longrightarrow> task_MessageCount t < MaxInt64)"
  by (auto simp: transition_guard_def containsState_def list_ex_iff)

lemma freeze_guard_Inr:
  "freeze_guard c t = Inr () \<longleftrightarrow>
     task_Revision t = wcm_ExpectedRevision (fac_Meta c) \<and> task_State t = TaskWorking
     \<and> task_Artifact t = None \<and> task_Submission t = None
     \<and> task_Revision t < MaxInt64 \<and> task_EventCount t < MaxInt64"
  by (auto simp: freeze_guard_def)

lemma transition_next_fields [simp]:
  "task_Ref (transition_next change ref now t) = task_Ref t"
  "task_Context (transition_next change ref now t) = task_Context t"
  "task_State (transition_next change ref now t) = trn_next change"
  "task_Revision (transition_next change ref now t) = task_Revision t + 1"
  "task_EventCount (transition_next change ref now t) = task_EventCount t + 1"
  "task_MessageCount (transition_next change ref now t) =
     (if trn_message change = None then task_MessageCount t else task_MessageCount t + 1)"
  "task_Artifact (transition_next change ref now t) = task_Artifact t"
  "task_Submission (transition_next change ref now t) =
     (if trn_submission change = [] then task_Submission t else Some (transition_submission change ref now))"
  "task_CreatedAt (transition_next change ref now t) = task_CreatedAt t"
  "task_UpdatedAt (transition_next change ref now t) = now"
  by (simp_all add: transition_next_def)

lemma transition_record_fields [simp]:
  "str_Task (transition_record change ref now r) = transition_next change ref now (str_Task r)"
  "ls_Fence (str_Lease (transition_record change ref now r)) = ls_Fence (str_Lease r)"
  "ls_Owner (str_Lease (transition_record change ref now r)) =
     (if Terminal (trn_next change) then [] else ls_Owner (str_Lease r))"
  "str_ArtifactState (transition_record change ref now r) =
     (if trn_artifact change \<noteq> None then Some ArtifactPublished
      else if trn_discardArtifact change \<and> task_Artifact (str_Task r) \<noteq> None then Some ArtifactDiscarded
      else str_ArtifactState r)"
  by (simp_all add: transition_record_def Let_def)

text \<open>The counters of a Task after one more revision.\<close>

lemma next_counters:
  assumes "(r::uint64) < MaxInt64" "m \<le> r" "m \<noteq> 0" "m' \<in> {m, m + 1}"
  shows "r + 1 \<noteq> 0" "r + 1 \<le> MaxInt64" "m' \<noteq> 0" "m' \<le> r + 1"
proof -
  have m: "m < MaxInt64" using assms(1,2) by simp
  show "r + 1 \<noteq> 0" "r + 1 \<le> MaxInt64"
    using assms(1) succ_neq_0_MaxInt64 succ_le_MaxInt64 by auto
  show "m' \<noteq> 0" using assms(3,4) succ_neq_0_MaxInt64 [OF m] by auto
  show "m' \<le> r + 1"
    using assms(2,4) less_succ_MaxInt64 [OF assms(1)]
    by (auto simp: uint64_le_nat uint64_less_nat unat_succ_MaxInt64 [OF m] unat_succ_MaxInt64 [OF assms(1)])
qed


lemma transition_record_ok:
  assumes change: "task_change E ref kind who change" and guard: "transition_guard kind meta change (str_Task r) = Inr ()"
    and r: "ok (validateStoreTaskRecord r)" "task_Ref (str_Task r) = ref" "message_parity (str_Task r)"
    and now: "validLeaseTimestamp now" "task_UpdatedAt (str_Task r) \<le> now"
    and art: "trn_submission change \<noteq> [] \<longrightarrow> task_Artifact (str_Task r) = trn_artifact change"
  shows "ok (validateStoreTaskRecord (transition_record change ref now r))"
    "message_parity (transition_next change ref now (str_Task r))"
proof -
  let ?t = "str_Task r"
  from r(1) have t: "ok (validateStoredTask ?t)" by (simp add: ok_validateStoreTaskRecord)
  note ts = t [unfolded ok_validateStoredTask] and g = guard [unfolded transition_guard_Inr]
  have sub: "task_Submission ?t = None" using ts g by (cases "task_Submission ?t") auto
  have counters: "task_Revision ?t + 1 \<noteq> 0" "task_Revision ?t + 1 \<le> MaxInt64"
    "task_MessageCount (transition_next change ref now ?t) \<noteq> 0"
    "task_MessageCount (transition_next change ref now ?t) \<le> task_Revision ?t + 1"
    using next_counters [of "task_Revision ?t" "task_MessageCount ?t" "task_MessageCount (transition_next change ref now ?t)"]
      ts g by auto
  have m: "task_MessageCount ?t < MaxInt64" using ts g by auto
  show "message_parity (transition_next change ref now ?t)"
    using change g r(3) odd_succ_MaxInt64 [OF m]
    by (elim task_changeE) (auto simp: message_parity_def change_defs)
  have "ok (validateStoredTask (transition_next change ref now ?t))"
    unfolding ok_validateStoredTask
    using change ts g counters sub art now r(2) valid_not_zero [OF now(1)]
    by (elim task_changeE)
      (auto simp: change_defs validTaskState_def submission_ok_def transition_submission_def
        transition_message_id_def dest: ok_validateMessageInputD)
  with change g r(1) art show "ok (validateStoreTaskRecord (transition_record change ref now r))"
    by (elim task_changeE)
      (auto simp: ok_validateStoreTaskRecord change_defs artifact_state_matches_def)
qed

lemma transition_effect_fields:
  assumes "task_Ref (str_Task r) = ref"
  shows "db_tasks (transition_effect change ref now p r d) = (db_tasks d)(ref \<mapsto> transition_record change ref now r)"
    "db_commands (transition_effect change ref now p r d) = db_commands d"
    "db_events (transition_effect change ref now p r d) =
       (db_events d)((ref, task_EventCount (str_Task r) + 1) \<mapsto>
          transition_event change ref now (transition_next change ref now (str_Task r)))"
    "db_messages (transition_effect change ref now p r d) =
       (case transition_message_record change ref now p (transition_next change ref now (str_Task r)) of
          None \<Rightarrow> db_messages d | Some m \<Rightarrow> (db_messages d)(message_key m \<mapsto> m))"
    "db_leaseGrants (transition_effect change ref now p r d) = db_leaseGrants d"
    "db_artifacts (transition_effect change ref now p r d) = db_artifacts (artifact_effect change now (str_Task r) d)"
    "db_submissions (transition_effect change ref now p r d) =
       (if trn_submission change = [] then db_submissions d
        else (db_submissions d)(ref \<mapsto> transition_submission change ref now))"
    "db_workspaceHeads (transition_effect change ref now p r d) = db_workspaceHeads d"
    "db_applyReceipts (transition_effect change ref now p r d) = db_applyReceipts d"
  using assms
  by (simp_all add: transition_effect_def put_defs Let_def artifact_effect_def set_artifact_state_def
      transition_event_def transition_submission_def split: option.splits)

lemma grant_effect_fields:
  "db_tasks (grant_effect r w now d) = (db_tasks d)(task_Ref (str_Task r) \<mapsto>
     r\<lparr>str_Lease := \<lparr>ls_Owner = w, ls_Fence = ls_Fence (str_Lease r) + 1\<rparr>\<rparr>)"
  "db_commands (grant_effect r w now d) = db_commands d" "db_events (grant_effect r w now d) = db_events d"
  "db_messages (grant_effect r w now d) = db_messages d"
  "db_leaseGrants (grant_effect r w now d) =
     (db_leaseGrants d)((task_Ref (str_Task r), ls_Fence (str_Lease r) + 1) \<mapsto>
        \<lparr>slg_Grant = la_Grant (lease_assignment r w now), slg_GrantedAt = now\<rparr>)"
  "db_artifacts (grant_effect r w now d) = db_artifacts d"
  "db_submissions (grant_effect r w now d) = db_submissions d"
  "db_workspaceHeads (grant_effect r w now d) = db_workspaceHeads d"
  "db_applyReceipts (grant_effect r w now d) = db_applyReceipts d"
  by (simp_all add: grant_effect_def put_defs lease_assignment_def)

lemma freeze_effect_fields:
  assumes "task_Ref (str_Task r) = fac_Task c"
  shows "db_tasks (freeze_effect E c payload now r d) = (db_tasks d)(fac_Task c \<mapsto> freeze_record c now r)"
  "db_commands (freeze_effect E c payload now r d) = db_commands d"
  "db_events (freeze_effect E c payload now r d) = (db_events d)((fac_Task c, task_EventCount (str_Task r) + 1) \<mapsto>
     freeze_event c now (freeze_next c now (str_Task r)))"
  "db_messages (freeze_effect E c payload now r d) = db_messages d"
  "db_leaseGrants (freeze_effect E c payload now r d) = db_leaseGrants d"
  "db_artifacts (freeze_effect E c payload now r d) =
     (db_artifacts d)(freeze_ref c \<mapsto> freeze_artifact_record E c payload now)"
  "db_submissions (freeze_effect E c payload now r d) = db_submissions d"
  "db_workspaceHeads (freeze_effect E c payload now r d) = db_workspaceHeads (initial_head c now d)"
  "db_applyReceipts (freeze_effect E c payload now r d) = db_applyReceipts d"
  using assms
  by (simp_all add: freeze_effect_def put_defs initial_head_def freeze_event_def freeze_record_def freeze_next_def
      freeze_artifact_record_def artifactIdentity_def Let_def)

lemma create_effect_fields:
  "db_tasks (create_effect c p now d) = (db_tasks d)(ctc_Task c \<mapsto>
     \<lparr>str_Task = created_task c now, str_Lease = unleased, str_ArtifactState = None\<rparr>)"
  "db_commands (create_effect c p now d) = db_commands d"
  "db_events (create_effect c p now d) = (db_events d)((ctc_Task c, 1) \<mapsto> created_event c now)"
  "db_messages (create_effect c p now d) = (db_messages d)
     (message_key (message_record (created_message c now) p) \<mapsto> message_record (created_message c now) p)"
  "db_leaseGrants (create_effect c p now d) = db_leaseGrants d"
  "db_artifacts (create_effect c p now d) = db_artifacts d"
  "db_submissions (create_effect c p now d) = db_submissions d"
  "db_workspaceHeads (create_effect c p now d) = db_workspaceHeads d"
  "db_applyReceipts (create_effect c p now d) = db_applyReceipts d"
  by (simp_all add: create_effect_def put_defs created_task_def created_event_def)

lemma receipt_effect_fields:
  "db_tasks (receipt_effect c a now d) = db_tasks d" "db_commands (receipt_effect c a now d) = db_commands d"
  "db_events (receipt_effect c a now d) = db_events d" "db_messages (receipt_effect c a now d) = db_messages d"
  "db_leaseGrants (receipt_effect c a now d) = db_leaseGrants d"
  "db_artifacts (receipt_effect c a now d) = db_artifacts d"
  "db_submissions (receipt_effect c a now d) = db_submissions d"
  "db_workspaceHeads (receipt_effect c a now d) =
     (if rrc_Decision c = ApplySuccess
      then (db_workspaceHeads d)(ar_Workspace (rrc_Artifact c) \<mapsto>
        \<lparr>wh_Workspace = ar_Workspace (rrc_Artifact c), wh_ConfirmedRevision = art_ResultRevision a, wh_UpdatedAt = now\<rparr>)
      else db_workspaceHeads d)"
  "db_applyReceipts (receipt_effect c a now d) = (db_applyReceipts d)(rrc_Artifact c \<mapsto> new_receipt c now)"
  by (simp_all add: receipt_effect_def put_defs new_receipt_def)


section \<open>How the parts react to a change\<close>

text \<open>A Task record replaced.\<close>

lemma tasks_inv_upd:
  assumes "tasks_inv d" "db_tasks d' = (db_tasks d)(ref \<mapsto> r)"
    "task_Ref (str_Task r) = ref" "ok (validateStoreTaskRecord r)" "message_parity (str_Task r)"
    "validLeaseTimestamp (task_CreatedAt (str_Task r))" "validLeaseTimestamp (task_UpdatedAt (str_Task r))"
  shows "tasks_inv d'"
  using assms by (auto simp: tasks_inv_def split: if_splits)

lemma ids_inv_upd:
  "ids_inv d \<Longrightarrow> db_tasks d' = (db_tasks d)(ref \<mapsto> r) \<Longrightarrow> ref \<in> dom (db_tasks d) \<or> fresh_public_id d ref \<Longrightarrow> ids_inv d'"
  by (auto simp: ids_inv_def fresh_public_id_def)

text \<open>Events: a record with the same count and state, or one more event.\<close>

lemma events_inv_touch:
  assumes "events_inv d" "db_tasks d ref = Some r" "db_tasks d' = (db_tasks d)(ref \<mapsto> r')"
    "db_events d' = db_events d" "task_EventCount (str_Task r') = task_EventCount (str_Task r)"
    "task_State (str_Task r') = task_State (str_Task r)"
  shows "events_inv d'"
  using assms unfolding events_inv_def by (auto split: if_splits)

lemma events_inv_append:
  assumes inv: "events_inv d" and "db_tasks d ref = Some r" "db_tasks d' = (db_tasks d)(ref \<mapsto> r')"
    and "task_EventCount (str_Task r') = task_EventCount (str_Task r) + 1" "task_EventCount (str_Task r) < MaxInt64"
    and "db_events d' = (db_events d)((ref, task_EventCount (str_Task r) + 1) \<mapsto> e)"
    and "ev_Task e = ref" "ev_Sequence e = task_EventCount (str_Task r) + 1" "ok (validateStoredEvent e)"
      "ev_State e = task_State (str_Task r')"
  shows "events_inv d'"
proof -
  let ?n = "task_EventCount (str_Task r)"
  have n: "1 \<le> ?n + 1" "\<And>m. m \<le> ?n + 1 \<longleftrightarrow> m \<le> ?n \<or> m = ?n + 1"
    using succ_le_iff_MaxInt64 [OF assms(5)] succ_neq_0_MaxInt64 [OF assms(5)]
    by (auto simp: uint64_le_nat unat_succ_MaxInt64 [OF assms(5)])
  have "(ref', m) \<in> dom (db_events d') \<longleftrightarrow>
      (\<exists>r. db_tasks d' ref' = Some r \<and> 1 \<le> m \<and> m \<le> task_EventCount (str_Task r))" for ref' m
    using inv assms n by (auto simp: events_inv_def)
  moreover have "ev_Task e' = ref' \<and> ev_Sequence e' = m \<and> ok (validateStoredEvent e')"
    if "db_events d' (ref', m) = Some e'" for ref' m e'
    using that inv assms by (auto simp: events_inv_def split: if_splits)
  moreover have "ev_State e' = task_State (str_Task r'')"
    if "db_tasks d' ref' = Some r''" "db_events d' (ref', task_EventCount (str_Task r'')) = Some e'" for ref' r'' e'
    using that inv assms by (auto simp: events_inv_def split: if_splits)
  ultimately show ?thesis unfolding events_inv_def by blast
qed

lemma events_inv_create:
  assumes "events_inv d" "db_tasks d ref = None" "db_tasks d' = (db_tasks d)(ref \<mapsto> r)"
    "task_EventCount (str_Task r) = 1" "db_events d' = (db_events d)((ref, 1) \<mapsto> e)"
    "ev_Task e = ref" "ev_Sequence e = 1" "ok (validateStoredEvent e)" "ev_State e = task_State (str_Task r)"
  shows "events_inv d'"
proof -
  have one: "\<And>m::uint64. 1 \<le> m \<and> m \<le> 1 \<longleftrightarrow> m = 1" by auto
  have "(ref', m) \<in> dom (db_events d') \<longleftrightarrow>
      (\<exists>r. db_tasks d' ref' = Some r \<and> 1 \<le> m \<and> m \<le> task_EventCount (str_Task r))" for ref' m
    using assms one [of m] by (auto simp: events_inv_def)
  moreover have "ev_Task e' = ref' \<and> ev_Sequence e' = m \<and> ok (validateStoredEvent e')"
    if "db_events d' (ref', m) = Some e'" for ref' m e'
    using that assms by (auto simp: events_inv_def split: if_splits)
  moreover have "ev_State e' = task_State (str_Task r'')"
    if "db_tasks d' ref' = Some r''" "db_events d' (ref', task_EventCount (str_Task r'')) = Some e'" for ref' r'' e'
    using that assms by (auto simp: events_inv_def split: if_splits)
  ultimately show ?thesis unfolding events_inv_def by blast
qed

text \<open>Messages.\<close>

lemma message_record_ok_upd:
  assumes "message_record_ok d m" "db_tasks d' = (db_tasks d)(ref \<mapsto> r')"
    "\<And>r. db_tasks d ref = Some r \<Longrightarrow> task_MessageCount (str_Task r) \<le> task_MessageCount (str_Task r')"
  shows "message_record_ok d' m"
  using assms by (auto simp: message_record_ok_def intro: order_trans)

lemma messages_inv_touch:
  assumes "messages_inv d" "db_tasks d ref = Some r" "db_tasks d' = (db_tasks d)(ref \<mapsto> r')"
    "db_messages d' = db_messages d" "task_MessageCount (str_Task r') = task_MessageCount (str_Task r)"
  shows "messages_inv d'"
proof -
  have "message_record_ok d' m" if "message_record_ok d m" for m
    using that assms by (auto intro: message_record_ok_upd)
  then show ?thesis using assms unfolding messages_inv_def by (simp split: if_splits)
qed

lemma messages_inv_add:
  assumes inv: "messages_inv d" and tasks: "db_tasks d' = (db_tasks d)(ref \<mapsto> r')"
    and msgs: "db_messages d' = (db_messages d)(message_key m \<mapsto> m)" and fresh: "fresh_message d m"
    and m: "smr_Task m = ref" "smr_Sequence m = task_MessageCount (str_Task r')" "message_record_ok d' m"
    and count: "\<And>r. db_tasks d ref = Some r \<Longrightarrow> task_MessageCount (str_Task r) \<le> task_MessageCount (str_Task r')"
      "\<And>n. 1 \<le> n \<Longrightarrow> n \<le> task_MessageCount (str_Task r') \<Longrightarrow> n = task_MessageCount (str_Task r')
         \<or> (\<exists>r. db_tasks d ref = Some r \<and> n \<le> task_MessageCount (str_Task r))"
  shows "messages_inv d'"
proof -
  have ran: "ran (db_messages d') = insert m (ran (db_messages d))"
    using fresh unfolding msgs fresh_message_def by (subst ran_map_upd) (auto simp: domIff)
  have old: "message_record_ok d' x" if "message_record_ok d x" for x
    using that tasks count(1) by (rule message_record_ok_upd)
  have "message_key x = k \<and> message_record_ok d' x" if "db_messages d' k = Some x" for k x
    using that inv old m(3) unfolding msgs by (auto simp: messages_inv_def split: if_splits)
  moreover have "x = x'" if "x \<in> ran (db_messages d')" "x' \<in> ran (db_messages d')"
      "smr_Task x = smr_Task x'" "smr_Sequence x = smr_Sequence x'" for x x'
    using that inv fresh unfolding ran by (auto simp: messages_inv_def fresh_message_def)
  moreover have "\<exists>x \<in> ran (db_messages d'). smr_Task x = ref' \<and> smr_Sequence x = n"
    if "db_tasks d' ref' = Some t" "1 \<le> n" "n \<le> task_MessageCount (str_Task t)" for ref' t n
  proof (cases "ref' = ref \<and> n = smr_Sequence m")
    case False
    with that count(2) [of n] m(2) tasks obtain t' where "db_tasks d ref' = Some t'" "n \<le> task_MessageCount (str_Task t')"
      by (auto split: if_splits)
    with inv that(2) show ?thesis unfolding ran messages_inv_def by blast
  qed (use ran m in auto)
  ultimately show ?thesis unfolding messages_inv_def by blast
qed

text \<open>Leases.\<close>

lemma leases_inv_touch:
  assumes "leases_inv d" "db_tasks d ref = Some r" "db_tasks d' = (db_tasks d)(ref \<mapsto> r')"
    "db_leaseGrants d' = db_leaseGrants d" "ls_Fence (str_Lease r') = ls_Fence (str_Lease r)"
    "task_CreatedAt (str_Task r') = task_CreatedAt (str_Task r)"
    "ls_Owner (str_Lease r') \<in> {[], ls_Owner (str_Lease r)}"
  shows "leases_inv d'"
proof -
  have "(ref', f) \<in> dom (db_leaseGrants d') \<longleftrightarrow>
      (\<exists>r. db_tasks d' ref' = Some r \<and> 1 \<le> f \<and> f \<le> ls_Fence (str_Lease r))" for ref' f
    using assms by (auto simp: leases_inv_def)
  moreover have "lg_Task (slg_Grant h) = ref' \<and> lg_Fence (slg_Grant h) = f \<and> ok (validateLeaseGrant (slg_Grant h))
      \<and> validLeaseTimestamp (slg_GrantedAt h)
      \<and> (\<exists>r. db_tasks d' ref' = Some r \<and> task_CreatedAt (str_Task r) \<le> slg_GrantedAt h)"
    if "db_leaseGrants d' (ref', f) = Some h" for ref' f h
    using that assms by (fastforce simp: leases_inv_def simp del: ok_validateLeaseGrant)
  moreover have "ls_Fence (str_Lease x) \<le> MaxInt64 \<and> (ls_Owner (str_Lease x) \<noteq> [] \<longrightarrow>
      (\<exists>h. db_leaseGrants d' (ref', ls_Fence (str_Lease x)) = Some h \<and> lg_Worker (slg_Grant h) = ls_Owner (str_Lease x)))"
    if "db_tasks d' ref' = Some x" for ref' x
    using that assms by (auto simp: leases_inv_def split: if_splits)
  ultimately show ?thesis using assms(1,4) unfolding leases_inv_def by (simp only:) blast
qed

lemma leases_inv_create:
  assumes "leases_inv d" "db_tasks d ref = None" "db_tasks d' = (db_tasks d)(ref \<mapsto> r)"
    "db_leaseGrants d' = db_leaseGrants d" "str_Lease r = unleased"
  shows "leases_inv d'"
proof -
  have "(ref', f) \<in> dom (db_leaseGrants d') \<longleftrightarrow>
      (\<exists>r. db_tasks d' ref' = Some r \<and> 1 \<le> f \<and> f \<le> ls_Fence (str_Lease r))" for ref' f
    using assms by (auto simp: leases_inv_def unleased_def)
  moreover have "lg_Task (slg_Grant h) = ref' \<and> lg_Fence (slg_Grant h) = f \<and> ok (validateLeaseGrant (slg_Grant h))
      \<and> validLeaseTimestamp (slg_GrantedAt h)
      \<and> (\<exists>r. db_tasks d' ref' = Some r \<and> task_CreatedAt (str_Task r) \<le> slg_GrantedAt h)"
    if "db_leaseGrants d' (ref', f) = Some h" for ref' f h
    using that assms by (fastforce simp: leases_inv_def simp del: ok_validateLeaseGrant)
  moreover have "ls_Fence (str_Lease x) \<le> MaxInt64 \<and> (ls_Owner (str_Lease x) \<noteq> [] \<longrightarrow>
      (\<exists>h. db_leaseGrants d' (ref', ls_Fence (str_Lease x)) = Some h \<and> lg_Worker (slg_Grant h) = ls_Owner (str_Lease x)))"
    if "db_tasks d' ref' = Some x" for ref' x
    using that assms by (auto simp: leases_inv_def unleased_def split: if_splits)
  ultimately show ?thesis using assms(1,4) unfolding leases_inv_def by (simp only:) blast
qed

lemma leases_inv_grant:
  assumes inv: "leases_inv d" and tasks: "db_tasks d ref = Some r" "db_tasks d' = (db_tasks d)(ref \<mapsto> r')"
    and fence: "ls_Fence (str_Lease r) < MaxInt64" "ls_Fence (str_Lease r') = ls_Fence (str_Lease r) + 1"
    and grants: "db_leaseGrants d' = (db_leaseGrants d)((ref, ls_Fence (str_Lease r) + 1) \<mapsto> g)"
    and g: "lg_Task (slg_Grant g) = ref" "lg_Fence (slg_Grant g) = ls_Fence (str_Lease r) + 1"
      "ok (validateLeaseGrant (slg_Grant g))" "validLeaseTimestamp (slg_GrantedAt g)"
      "lg_Worker (slg_Grant g) = ls_Owner (str_Lease r')"
      "task_CreatedAt (str_Task r') \<le> slg_GrantedAt g" "latest_granted_at d r \<le> slg_GrantedAt g"
    and same: "task_CreatedAt (str_Task r') = task_CreatedAt (str_Task r)" "task_Ref (str_Task r) = ref"
  shows "leases_inv d'"
proof -
  let ?f = "ls_Fence (str_Lease r)"
  have n: "\<And>m. m \<le> ?f + 1 \<longleftrightarrow> m \<le> ?f \<or> m = ?f + 1" "1 \<le> ?f + 1" "\<not> ?f + 1 \<le> ?f"
    using succ_le_iff_MaxInt64 [OF fence(1)] less_succ_MaxInt64 [OF fence(1)]
    by (auto simp: uint64_le_nat unat_succ_MaxInt64 [OF fence(1)])
  have dom: "(ref', f) \<in> dom (db_leaseGrants d) \<longleftrightarrow>
      (\<exists>r. db_tasks d ref' = Some r \<and> 1 \<le> f \<and> f \<le> ls_Fence (str_Lease r))" for ref' f
    using inv by (simp add: leases_inv_def)
  have "(ref', f) \<in> dom (db_leaseGrants d') \<longleftrightarrow>
      (\<exists>r. db_tasks d' ref' = Some r \<and> 1 \<le> f \<and> f \<le> ls_Fence (str_Lease r))" for ref' f
    using dom [of ref' f] tasks n grants fence(2) by auto
  moreover have "lg_Task (slg_Grant h) = ref' \<and> lg_Fence (slg_Grant h) = f \<and> ok (validateLeaseGrant (slg_Grant h))
      \<and> validLeaseTimestamp (slg_GrantedAt h)
      \<and> (\<exists>r. db_tasks d' ref' = Some r \<and> task_CreatedAt (str_Task r) \<le> slg_GrantedAt h)"
    if "db_leaseGrants d' (ref', f) = Some h" for ref' f h
  proof (cases "(ref', f) = (ref, ?f + 1)")
    case False
    with that grants have "db_leaseGrants d (ref', f) = Some h" by (simp split: if_splits)
    with inv obtain x where "lg_Task (slg_Grant h) = ref'" "lg_Fence (slg_Grant h) = f" "ok (validateLeaseGrant (slg_Grant h))"
      "validLeaseTimestamp (slg_GrantedAt h)" "db_tasks d ref' = Some x" "task_CreatedAt (str_Task x) \<le> slg_GrantedAt h"
      unfolding leases_inv_def by blast
    with tasks same show ?thesis by auto
  qed (use that grants g tasks in auto)
  moreover have "slg_GrantedAt h \<le> slg_GrantedAt h'"
    if h: "db_leaseGrants d' (ref', f) = Some h" "db_leaseGrants d' (ref', f') = Some h'" and le: "f \<le> f'" for ref' f f' h h'
  proof (cases "(ref', f') = (ref, ?f + 1)")
    case True
    with h(2) grants have h': "h' = g" "ref' = ref" "f' = ?f + 1" by auto
    show ?thesis
    proof (cases "f = ?f + 1")
      case False
      with h(1) grants h' have old: "db_leaseGrants d (ref, f) = Some h" by simp
      then have "f \<le> ?f" "1 \<le> f" using dom [of ref f] tasks(1) by auto
      then obtain l where l: "db_leaseGrants d (ref, ?f) = Some l"
        using dom [of ref ?f] tasks(1) by auto
      then have "slg_GrantedAt h \<le> slg_GrantedAt l" using inv old \<open>f \<le> ?f\<close> unfolding leases_inv_def by blast
      also have "\<dots> \<le> slg_GrantedAt g" using g(7) l same(2) by (simp add: latest_granted_at_def)
      finally show ?thesis by (simp add: h')
    qed (use h grants h' in simp)
  next
    case False
    with h(2) grants have h': "db_leaseGrants d (ref', f') = Some h'" by (simp split: if_splits)
    have "f' \<le> ?f" if "ref' = ref" using dom [of ref f'] h' tasks(1) that by auto
    with le n(3) have "(ref', f) \<noteq> (ref, ?f + 1)" using order_trans [of "?f + 1" f' ?f] by auto
    with h(1) grants have "db_leaseGrants d (ref', f) = Some h" by (simp split: if_splits)
    with h' inv le show ?thesis unfolding leases_inv_def by blast
  qed
  moreover have "ls_Fence (str_Lease x) \<le> MaxInt64 \<and> (ls_Owner (str_Lease x) \<noteq> [] \<longrightarrow>
      (\<exists>h. db_leaseGrants d' (ref', ls_Fence (str_Lease x)) = Some h \<and> lg_Worker (slg_Grant h) = ls_Owner (str_Lease x)))"
    if x: "db_tasks d' ref' = Some x" for ref' x
  proof (cases "ref' = ref")
    case True
    then show ?thesis using x tasks g grants fence succ_le_MaxInt64 [OF fence(1)] by auto
  next
    case False
    then show ?thesis using x tasks grants inv by (auto simp: leases_inv_def)
  qed
  ultimately show ?thesis unfolding leases_inv_def by blast
qed

text \<open>Artifacts, submissions, receipts and heads.\<close>

lemma artifact_ok_upd:
  assumes "artifact_ok d s" "db_tasks d' = (db_tasks d)(ref \<mapsto> r')"
    "\<And>r. db_tasks d ref = Some r \<Longrightarrow> art_Task (sar_Artifact s) = ref \<Longrightarrow>
       task_Artifact (str_Task r') = task_Artifact (str_Task r)
       \<and> str_ArtifactState r' = str_ArtifactState r \<and> task_UpdatedAt (str_Task r) \<le> task_UpdatedAt (str_Task r')"
  shows "artifact_ok d' s"
  using assms by (force simp: artifact_ok_def)

lemma artifacts_inv_touch:
  assumes "artifacts_inv d" "db_tasks d' = (db_tasks d)(ref \<mapsto> r')" "db_artifacts d' = db_artifacts d"
    "\<And>r. db_tasks d ref = Some r \<Longrightarrow> task_Artifact (str_Task r') = task_Artifact (str_Task r)
       \<and> str_ArtifactState r' = str_ArtifactState r \<and> task_UpdatedAt (str_Task r) \<le> task_UpdatedAt (str_Task r')"
    "db_tasks d ref = None \<Longrightarrow> task_Artifact (str_Task r') = None"
  shows "artifacts_inv d'"
proof -
  have "artifact_ok d' s" if "artifact_ok d s" for s using that assms(2,4) by (rule artifact_ok_upd)
  moreover have "\<exists>s. db_artifacts d' a = Some s \<and> art_Task (sar_Artifact s) = ref'"
    if "db_tasks d' ref' = Some x" "task_Artifact (str_Task x) = Some a" for ref' x a
    using that assms by (cases "ref' = ref"; cases "db_tasks d ref") (auto simp: artifacts_inv_def)
  ultimately show ?thesis using assms(1,3) by (simp add: artifacts_inv_def)
qed

lemma artifacts_inv_task:
  "artifacts_inv d \<Longrightarrow> db_tasks d ref = Some r \<Longrightarrow> task_Artifact (str_Task r) = Some a \<Longrightarrow>
     \<exists>s. db_artifacts d a = Some s \<and> art_Task (sar_Artifact s) = ref"
  unfolding artifacts_inv_def by blast

lemma artifacts_inv_freeze:
  assumes inv: "artifacts_inv d" and tasks: "db_tasks d ref = Some r" "db_tasks d' = (db_tasks d)(ref \<mapsto> r')"
    and arts: "db_artifacts d' = (db_artifacts d)(art_Ref (sar_Artifact s) \<mapsto> s)"
      "art_Ref (sar_Artifact s) \<notin> dom (db_artifacts d)" "art_Task (sar_Artifact s) = ref"
      "\<forall>a \<in> ran (db_artifacts d). art_Task (sar_Artifact a) \<noteq> ref"
    and r': "task_Artifact (str_Task r') = Some (art_Ref (sar_Artifact s))" "artifact_ok d' s"
  shows "artifacts_inv d'"
proof -
  have "artifact_ok d' x" if "db_artifacts d a = Some x" for a x
    using that inv tasks(2) arts(4)
    by (intro artifact_ok_upd [of d x d' ref r']) (auto simp: artifacts_inv_def ran_def)
  then have "art_Ref (sar_Artifact x) = a \<and> artifact_ok d' x" if "db_artifacts d' a = Some x" for a x
    using that inv r'(2) unfolding arts(1) by (auto simp: artifacts_inv_def split: if_splits)
  moreover have "\<exists>x. db_artifacts d' a = Some x \<and> art_Task (sar_Artifact x) = ref'"
    if "db_tasks d' ref' = Some x" "task_Artifact (str_Task x) = Some a" for ref' x a
  proof (cases "ref' = ref")
    case True
    with that tasks r'(1) arts(1,3) show ?thesis by auto
  next
    case False
    with that tasks have "db_tasks d ref' = Some x" by simp
    from artifacts_inv_task [OF inv this that(2)]
    obtain y where "db_artifacts d a = Some y" "art_Task (sar_Artifact y) = ref'" by blast
    with arts(1,2) show ?thesis by (auto simp: domIff)
  qed
  ultimately show ?thesis unfolding artifacts_inv_def by blast
qed

text \<open>The Artifact of a Task leaves the frozen state together with the Task's record of it.\<close>

lemma artifacts_inv_settle:
  assumes inv: "artifacts_inv d" and tasks: "db_tasks d ref = Some r" "db_tasks d' = (db_tasks d)(ref \<mapsto> r')"
    and art: "task_Artifact (str_Task r) = Some a" "task_Artifact (str_Task r') = Some a"
    and s: "db_artifacts d a = Some s"
    and arts: "db_artifacts d' = (db_artifacts d)(a \<mapsto> s\<lparr>sar_Artifact := (sar_Artifact s)
        \<lparr>art_State := st, art_PublishedAt := p, art_DiscardedAt := x\<rparr>\<rparr>)"
    and ok: "str_ArtifactState r' = Some st" "task_UpdatedAt (str_Task r) \<le> task_UpdatedAt (str_Task r')"
      "artifact_times_ok ((sar_Artifact s)\<lparr>art_State := st, art_PublishedAt := p, art_DiscardedAt := x\<rparr>)"
  shows "artifacts_inv d'"
proof -
  from inv s artifacts_inv_task [OF inv tasks(1) art(1)]
  have st: "art_Task (sar_Artifact s) = ref" "art_Ref (sar_Artifact s) = a" "artifact_ok d s"
    by (auto simp: artifacts_inv_def)
  have "art_Ref (sar_Artifact y) = b \<and> artifact_ok d' y" if "db_artifacts d' b = Some y" for b y
  proof (cases "b = a")
    case True
    with that arts have "y = s\<lparr>sar_Artifact := (sar_Artifact s)\<lparr>art_State := st, art_PublishedAt := p, art_DiscardedAt := x\<rparr>\<rparr>" by simp
    then show ?thesis using st ok tasks art True by (auto simp: artifact_ok_def)
  next
    case False
    with that arts inv have y: "art_Ref (sar_Artifact y) = b" "artifact_ok d y" by (auto simp: artifacts_inv_def)
    have "art_Task (sar_Artifact y) \<noteq> ref" using y False tasks(1) art(1) by (auto simp: artifact_ok_def)
    with y tasks(2) show ?thesis using artifact_ok_upd [of d y d' ref r'] by blast
  qed
  moreover have "\<exists>y. db_artifacts d' b = Some y \<and> art_Task (sar_Artifact y) = ref'"
    if "db_tasks d' ref' = Some z" "task_Artifact (str_Task z) = Some b" for ref' z b
  proof (cases "ref' = ref")
    case True
    with that tasks art arts st show ?thesis by auto
  next
    case False
    with that tasks have "db_tasks d ref' = Some z" by simp
    from artifacts_inv_task [OF inv this that(2)]
    obtain y where y: "db_artifacts d b = Some y" "art_Task (sar_Artifact y) = ref'" by blast
    with False st s have "b \<noteq> a" by auto
    with y arts show ?thesis by simp
  qed
  ultimately show ?thesis unfolding artifacts_inv_def by blast
qed


section \<open>Every step preserves the invariant\<close>

lemma domain_inv_task:
  assumes "domain_inv d" "db_tasks d ref = Some r"
  shows "task_Ref (str_Task r) = ref" "ok (validateStoreTaskRecord r)" "ok (validateStoredTask (str_Task r))"
    "message_parity (str_Task r)" "validLeaseTimestamp (task_CreatedAt (str_Task r))"
    "validLeaseTimestamp (task_UpdatedAt (str_Task r))"
  using assms by (auto simp: domain_inv_def tasks_inv_def ok_validateStoreTaskRecord)

lemma create_inv:
  assumes inv: "domain_inv d" and ok: "create_allowed E d c p now"
  shows "domain_inv (create_effect c p now d)"
proof -
  let ?d = "create_effect c p now d" and ?ref = "ctc_Task c"
  let ?r = "\<lparr>str_Task = created_task c now, str_Lease = unleased, str_ArtifactState = None\<rparr>"
  let ?m = "message_record (created_message c now) p"
  note f = create_effect_fields [of c p now d]
  from ok have c: "ok (validateCreateCommand E c)" and now: "validLeaseTimestamp now"
    and new: "db_tasks d ?ref = None" "fresh_public_id d ?ref" "fresh_message d ?m" and p: "content_ok p"
    by (auto simp: create_allowed_def)
  note v = c [unfolded ok_validateCreateCommand]
  have max: "(1::uint64) \<le> MaxInt64" by (simp add: MaxInt64_def)
  have r: "ok (validateStoreTaskRecord ?r)" "message_parity (created_task c now)"
    using v now valid_not_zero [OF now] max
    by (auto simp: ok_validateStoreTaskRecord ok_validateStoredTask created_task_def validTaskState_def
        unleased_def message_parity_def)
  have e: "ok (validateStoredEvent (created_event c now))"
    using v valid_not_zero [OF now] max
    by (auto simp: validateStoredEvent_def created_event_def dest: ok_validateMessageInputD)
  have one: "\<And>n::uint64. n \<le> 1 \<Longrightarrow> 1 \<le> n \<Longrightarrow> n = 1" by auto
  have m: "message_record_ok ?d ?m"
    using f(1) v p now
    by (auto simp: message_record_ok_def message_record_def created_message_def created_task_def content_ok_def
        dest: ok_validateMessageInputD)
  have "tasks_inv ?d"
    using inv f(1) r now by (intro tasks_inv_upd [of d ?d ?ref ?r]) (auto simp: domain_inv_def created_task_def)
  moreover have "ids_inv ?d" using inv new(2) by (intro ids_inv_upd [OF _ f(1)]) (simp_all add: domain_inv_def)
  moreover have "events_inv ?d"
    using inv f(1,3) new(1) e by (intro events_inv_create [of d ?ref ?d ?r]) (auto simp: domain_inv_def created_task_def created_event_def)
  moreover have "messages_inv ?d"
    using inv f(1,4) new m one
    by (intro messages_inv_add [of d ?d ?ref ?r ?m])
      (auto simp: domain_inv_def created_task_def message_record_def created_message_def)
  moreover have "leases_inv ?d"
    using inv f(1,5) new(1) by (intro leases_inv_create [of d ?ref ?d ?r]) (auto simp: domain_inv_def)
  moreover have "artifacts_inv ?d"
    using inv f(1,6) new(1) by (intro artifacts_inv_touch [of d ?d ?ref ?r]) (auto simp: domain_inv_def created_task_def)
  moreover have "submissions_inv ?d"
    using inv f(1,7) new(1) by (auto simp: domain_inv_def submissions_inv_def created_task_def)
  moreover have "receipts_inv ?d" using inv f(6,9) by (simp add: domain_inv_def receipts_inv_def)
  moreover have "heads_inv ?d" using inv f(6,8,9) by (auto simp: domain_inv_def intro: heads_inv_same)
  ultimately show ?thesis by (simp add: domain_inv_def)
qed

text \<open>A lease moved: only the lease of one Task record and the grant history change.\<close>

lemma lease_update_ok:
  assumes "ok (validateStoreTaskRecord r)" "l = \<lparr>ls_Owner = w, ls_Fence = f\<rparr>" "w \<noteq> [] \<longrightarrow> f \<noteq> 0 \<and> \<not> Terminal (task_State (str_Task r))"
  shows "ok (validateStoreTaskRecord (r\<lparr>str_Lease := l\<rparr>))"
  using assms by (simp add: ok_validateStoreTaskRecord)

lemma lease_change_inv:
  assumes inv: "domain_inv d" and r: "db_tasks d ref = Some r" and d': "db_tasks d' = (db_tasks d)(ref \<mapsto> r\<lparr>str_Lease := l\<rparr>)"
    and v: "ok (validateStoreTaskRecord (r\<lparr>str_Lease := l\<rparr>))" and leases: "leases_inv d'"
    and same: "db_events d' = db_events d" "db_messages d' = db_messages d" "db_artifacts d' = db_artifacts d"
      "db_submissions d' = db_submissions d" "db_workspaceHeads d' = db_workspaceHeads d"
      "db_applyReceipts d' = db_applyReceipts d"
  shows "domain_inv d'"
proof -
  note t = domain_inv_task [OF inv r]
  have "tasks_inv d'" using inv v t by (intro tasks_inv_upd [OF _ d']) (auto simp: domain_inv_def)
  moreover have "ids_inv d'" using inv r by (intro ids_inv_upd [OF _ d']) (auto simp: domain_inv_def)
  moreover have "events_inv d'" using inv by (intro events_inv_touch [OF _ r d' same(1)]) (simp_all add: domain_inv_def)
  moreover have "messages_inv d'" using inv by (intro messages_inv_touch [OF _ r d' same(2)]) (simp_all add: domain_inv_def)
  moreover have "artifacts_inv d'" using inv r by (intro artifacts_inv_touch [OF _ d' same(3)]) (simp_all add: domain_inv_def)
  moreover have "submissions_inv d'" using inv d' r same by (auto simp: domain_inv_def submissions_inv_def)
  moreover have "receipts_inv d'" using inv same by (simp add: domain_inv_def receipts_inv_def)
  moreover have "heads_inv d'" using inv same by (auto simp: domain_inv_def intro: heads_inv_same)
  ultimately show ?thesis using leases by (simp add: domain_inv_def)
qed

lemma latest_granted_valid:
  assumes "leases_inv d" shows "validLeaseTimestamp (latest_granted_at d r) \<or> latest_granted_at d r = zero_time"
proof (cases "db_leaseGrants d (task_Ref (str_Task r), ls_Fence (str_Lease r))")
  case (Some h)
  with assms have "validLeaseTimestamp (slg_GrantedAt h)" unfolding leases_inv_def by blast
  with Some show ?thesis by (simp add: latest_granted_at_def)
qed (simp add: latest_granted_at_def)

lemma grant_inv:
  assumes inv: "domain_inv d" and ok: "grant_allowed d r w now"
  shows "domain_inv (grant_effect r w now d)"
proof -
  let ?d = "grant_effect r w now d" and ?ref = "task_Ref (str_Task r)"
  let ?l = "\<lparr>ls_Owner = w, ls_Fence = ls_Fence (str_Lease r) + 1\<rparr>"
  note f = grant_effect_fields [of r w now d]
  from ok have r: "db_tasks d ?ref = Some r" "ok (validateStoreTaskRecord r)" "\<not> Terminal (task_State (str_Task r))"
    and fence: "ls_Fence (str_Lease r) < MaxInt64" and w: "match_stable w"
    and now: "stamped now [task_UpdatedAt (str_Task r), latest_granted_at d r]"
    by (auto simp: grant_allowed_def)
  note t = domain_inv_task [OF inv r(1)]
  have valid: "validLeaseTimestamp now"
    using now t(6) latest_granted_valid [of d r] inv by (intro stamped_valid [OF now]) (auto simp: domain_inv_def)
  have le: "task_UpdatedAt (str_Task r) \<le> now" "latest_granted_at d r \<le> now"
    using stamped_floor [OF now] by auto
  have "leases_inv ?d"
    using inv f(1,5) r(1) fence le valid w t(1,3) succ_neq_0_MaxInt64 [OF fence] succ_le_MaxInt64 [OF fence]
    by (intro leases_inv_grant [of d ?ref r ?d "r\<lparr>str_Lease := ?l\<rparr>"
        "\<lparr>slg_Grant = la_Grant (lease_assignment r w now), slg_GrantedAt = now\<rparr>"])
      (auto simp: domain_inv_def lease_assignment_def ok_validateStoredTask intro: order_trans)
  moreover have "ok (validateStoreTaskRecord (r\<lparr>str_Lease := ?l\<rparr>))"
    using r(2,3) succ_neq_0_MaxInt64 [OF fence] by (intro lease_update_ok) auto
  ultimately show ?thesis using f r(1) by (intro lease_change_inv [OF inv r(1)]) auto
qed

lemma fence_inv:
  assumes inv: "domain_inv d" and r: "db_tasks d (lg_Task g) = Some r" "ok (validateStoreTaskRecord r)" "holds_lease d r g"
  shows "domain_inv (put_task (r\<lparr>str_Lease := \<lparr>ls_Owner = [], ls_Fence = lg_Fence g\<rparr>\<rparr>) d)"
proof -
  let ?l = "\<lparr>ls_Owner = [], ls_Fence = lg_Fence g\<rparr>"
  let ?d = "put_task (r\<lparr>str_Lease := ?l\<rparr>) d"
  note t = domain_inv_task [OF inv r(1)]
  have d': "db_tasks ?d = (db_tasks d)(lg_Task g \<mapsto> r\<lparr>str_Lease := ?l\<rparr>)" using t(1) by (simp add: put_task_def)
  have "str_Lease r = \<lparr>ls_Owner = lg_Worker g, ls_Fence = lg_Fence g\<rparr>" using r(3) by (simp add: holds_lease_def)
  then have "leases_inv ?d"
    using inv by (intro leases_inv_touch [OF _ r(1) d']) (simp_all add: domain_inv_def)
  moreover have "ok (validateStoreTaskRecord (r\<lparr>str_Lease := ?l\<rparr>))" using r(2) by (intro lease_update_ok) auto
  ultimately show ?thesis using d' by (intro lease_change_inv [OF inv r(1) d']) auto
qed

text \<open>The state machine.\<close>

lemma transition_event_fields:
  "ev_Task (transition_event change ref now t) = ref" "ev_Sequence (transition_event change ref now t) = task_EventCount t"
  "ev_State (transition_event change ref now t) = task_State t"
  by (simp_all add: transition_event_def)

lemma change_event_ok:
  assumes change: "task_change E ref kind who change" and ref: "ok (validateTaskRef ref)"
    and rev: "task_Revision t < MaxInt64" "task_EventCount t = task_Revision t" and now: "validLeaseTimestamp now"
  shows "ok (validateStoredEvent (transition_event change ref now (transition_next change ref now t)))"
  using change ref succ_neq_0_MaxInt64 [OF rev(1)] succ_le_MaxInt64 [OF rev(1)] rev(2) valid_not_zero [OF now]
  by (elim task_changeE)
    (auto simp: validateStoredEvent_def transition_event_def change_defs transition_message_id_def Let_def
      dest: ok_validateMessageInputD split: option.splits)

lemma change_message_ok:
  assumes change: "task_change E ref kind who change" and m: "trn_message change = Some x"
    and parity: "message_parity t" and state: "task_State t \<in> set (trn_allowed change)" and count: "task_MessageCount t < MaxInt64"
  shows "trn_author change = (if odd (unat (task_MessageCount t + 1)) then AuthorCaller else AuthorAgent)"
    "match_stable (mi_ID x)"
  using assms odd_succ_MaxInt64 [OF count]
  by (elim task_changeE; auto simp: change_defs message_parity_def dest: ok_validateMessageInputD)+

lemma transition_artifacts_inv:
  assumes inv: "domain_inv d" and ok: "transition_allowed E d ref kind who meta change r p now"
    and valid: "validLeaseTimestamp now" "task_UpdatedAt (str_Task r) \<le> now"
  shows "artifacts_inv (transition_effect change ref now p r d)"
proof -
  let ?d = "transition_effect change ref now p r d" and ?t = "str_Task r"
  from ok have change: "task_change E ref kind who change" and r: "db_tasks d ref = Some r" "task_Ref ?t = ref"
    and art: "trn_submission change \<noteq> [] \<longrightarrow> task_Artifact ?t = trn_artifact change"
    and frozen: "\<And>a. trn_artifact change = Some a \<or> trn_discardArtifact change \<and> task_Artifact ?t = Some a \<Longrightarrow> frozen_artifact d a ref"
    by (auto simp: transition_allowed_def)
  note f = transition_effect_fields [OF r(2), of change now p d]
  note ai = inv [unfolded domain_inv_def]
  have pub: "trn_artifact change = Some a \<Longrightarrow> task_Artifact ?t = Some a" for a
    using change art by (elim task_changeE) (auto simp: change_defs)
  show ?thesis
  proof (cases "\<exists>a. trn_artifact change = Some a \<or> trn_discardArtifact change \<and> task_Artifact ?t = Some a")
    case False
    then have "db_artifacts (artifact_effect change now ?t d) = db_artifacts d"
      by (auto simp: artifact_effect_def split: option.splits)
    with ai r False valid f(1,6) show ?thesis
      by (intro artifacts_inv_touch [OF _ f(1)]) auto
  next
    case True
    then obtain a where a: "trn_artifact change = Some a \<or> trn_discardArtifact change \<and> task_Artifact ?t = Some a" by blast
    then have ta: "task_Artifact ?t = Some a" using pub by blast
    from frozen [OF a] obtain s where s: "db_artifacts d a = Some s" "art_Task (sar_Artifact s) = ref"
        "art_State (sar_Artifact s) = ArtifactFrozen" by (auto simp: frozen_artifact_def)
    have "artifact_ok d s" using ai s(1) by (simp add: artifacts_inv_def)
    then have "art_FrozenAt (sar_Artifact s) \<le> task_UpdatedAt ?t" using r(1) s(2) by (simp add: artifact_ok_def)
    then have "art_FrozenAt (sar_Artifact s) \<le> now" using valid(2) by (rule order_trans)
    moreover from a obtain st q x where "db_artifacts (artifact_effect change now ?t d) = (db_artifacts d)(a \<mapsto>
        s\<lparr>sar_Artifact := (sar_Artifact s)\<lparr>art_State := st, art_PublishedAt := q, art_DiscardedAt := x\<rparr>\<rparr>)"
      "str_ArtifactState (transition_record change ref now r) = Some st"
      "(st = ArtifactPublished \<and> q = Some now \<and> x = None) \<or> (st = ArtifactDiscarded \<and> q = None \<and> x = Some now)"
      using ta s task_change_artifact [OF change]
      by (cases "trn_artifact change") (auto simp: artifact_effect_def set_artifact_state_def)
    ultimately show ?thesis
      using ai r ta s f(1,6) valid(2)
      by (intro artifacts_inv_settle [OF _ r(1) f(1) ta _ s(1), where st = st and p = q and x = x]) (auto simp: artifact_times_ok_def)
  qed
qed

lemma artifact_effect_dom: "dom (db_artifacts (artifact_effect change now t d)) = dom (db_artifacts d)"
  by (auto simp: artifact_effect_def set_artifact_state_def split: option.splits if_splits)

text \<open>Only a frozen Artifact changes, so an Artifact with a receipt stays as it is.\<close>

lemma artifact_effect_other_state:
  assumes "\<And>a. trn_artifact change = Some a \<or> trn_discardArtifact change \<and> task_Artifact t = Some a \<Longrightarrow> frozen_artifact d a ref"
    and "db_artifacts d a = Some s" "art_State (sar_Artifact s) \<noteq> ArtifactFrozen"
  shows "db_artifacts (artifact_effect change now t d) a = Some s"
  using assms(1) [of a] assms(2,3)
  by (auto simp: artifact_effect_def set_artifact_state_def frozen_artifact_def split: option.splits if_splits)

lemma transition_receipts_inv:
  assumes inv: "domain_inv d" and ok: "transition_allowed E d ref kind who meta change r p now"
  shows "receipts_inv (transition_effect change ref now p r d)"
proof -
  from ok have "task_Ref (str_Task r) = ref"
    and frozen: "\<And>a. trn_artifact change = Some a \<or> trn_discardArtifact change \<and> task_Artifact (str_Task r) = Some a
      \<Longrightarrow> frozen_artifact d a ref"
    by (auto simp: transition_allowed_def)
  note f = transition_effect_fields [OF this(1), of change now p d]
  have same: "\<exists>s. db_artifacts (artifact_effect change now (str_Task r) d) a = Some s \<and> receipt_matches_artifact x (sar_Artifact s)"
    if "\<exists>s. db_artifacts d a = Some s \<and> receipt_matches_artifact x (sar_Artifact s)" for a x
    using that artifact_effect_other_state [OF frozen] by (auto simp: receipt_matches_artifact_def)
  show ?thesis
    using inv same unfolding domain_inv_def receipts_inv_def f(6,9) by blast
qed

lemma transition_messages_inv:
  assumes inv: "domain_inv d" and ok: "transition_allowed E d ref kind who meta change r p now"
    and valid: "validLeaseTimestamp now"
  shows "messages_inv (transition_effect change ref now p r d)"
proof -
  let ?d = "transition_effect change ref now p r d" and ?t = "str_Task r"
  let ?next = "transition_next change ref now ?t"
  from ok have change: "task_change E ref kind who change" and r: "db_tasks d ref = Some r" "task_Ref ?t = ref"
    and g: "transition_guard kind meta change ?t = Inr ()"
    and content: "trn_message change \<noteq> None \<longrightarrow> content_ok p"
    and fresh: "\<forall>m. transition_message_record change ref now p ?next = Some m \<longrightarrow> fresh_message d m"
    by (auto simp: transition_allowed_def)
  note f = transition_effect_fields [OF r(2), of change now p d] and g' = g [unfolded transition_guard_Inr]
  note t = domain_inv_task [OF inv r(1)]
  show ?thesis
  proof (cases "trn_message change")
    case None
    with inv f(1,4) show ?thesis
      by (intro messages_inv_touch [OF _ r(1) f(1)]) (auto simp: domain_inv_def transition_message_record_def)
  next
    case (Some x)
    let ?m = "message_record (transition_message change ref now ?next x) p"
    have count: "task_MessageCount ?t < MaxInt64" using g' Some by simp
    have msgs: "db_messages ?d = (db_messages d)(message_key ?m \<mapsto> ?m)" "fresh_message d ?m"
      using f(4) fresh Some by (auto simp: transition_message_record_def)
    have m: "smr_Task ?m = ref" "smr_Sequence ?m = task_MessageCount ?t + 1"
      using Some by (simp_all add: message_record_def transition_message_def)
    have bounds: "1 \<le> task_MessageCount ?t + 1" "task_MessageCount ?t \<le> task_MessageCount ?t + 1"
      "\<And>n. n \<le> task_MessageCount ?t + 1 \<longleftrightarrow> n \<le> task_MessageCount ?t \<or> n = task_MessageCount ?t + 1"
      using less_succ_MaxInt64 [OF count] succ_le_iff_MaxInt64 [OF count]
      by (auto simp: uint64_le_nat unat_succ_MaxInt64 [OF count])
    have "message_record_ok ?d ?m"
      using change_message_ok [OF change Some t(4) _ count] g' content Some valid f(1) bounds(1)
      by (auto simp: message_record_ok_def message_record_def transition_message_def content_ok_def)
    with inv r(1) bounds Some m show ?thesis
      by (intro messages_inv_add [OF _ f(1) msgs]) (auto simp: domain_inv_def)
  qed
qed

lemma transition_inv:
  assumes inv: "domain_inv d" and ok: "transition_allowed E d ref kind who meta change r p now"
  shows "domain_inv (transition_effect change ref now p r d)"
proof -
  let ?d = "transition_effect change ref now p r d" and ?t = "str_Task r"
  from ok have change: "task_change E ref kind who change" and ref: "ok (validateTaskRef ref)"
    and r: "db_tasks d ref = Some r" "task_Ref ?t = ref"
    and g: "transition_guard kind meta change ?t = Inr ()" and now: "stamped now [task_UpdatedAt ?t]"
    and art: "trn_submission change \<noteq> [] \<longrightarrow> task_Artifact ?t = trn_artifact change"
    by (auto simp: transition_allowed_def)
  note f = transition_effect_fields [OF r(2), of change now p d] and g' = g [unfolded transition_guard_Inr]
  note t = domain_inv_task [OF inv r(1)]
  have valid: "validLeaseTimestamp now" "task_UpdatedAt ?t \<le> now"
    using stamped_valid [OF now] stamped_floor [OF now] t(6) by auto
  note rec = transition_record_ok [OF change g t(2) r(2) t(4) valid art]
  have count: "task_EventCount ?t = task_Revision ?t" "task_Revision ?t < MaxInt64"
    using t(3) g' by (simp_all add: ok_validateStoredTask)
  note ev = change_event_ok [OF change ref count(2,1) valid(1)] transition_event_fields
  have "tasks_inv ?d" using inv rec t(1,5) valid by (intro tasks_inv_upd [OF _ f(1)]) (simp_all add: domain_inv_def)
  moreover have "ids_inv ?d" using inv r(1) by (intro ids_inv_upd [OF _ f(1)]) (auto simp: domain_inv_def)
  moreover have "events_inv ?d"
    using inv g' ev by (intro events_inv_append [OF _ r(1) f(1) _ _ f(3)]) (simp_all add: domain_inv_def)
  moreover have "messages_inv ?d" using transition_messages_inv [OF inv ok valid(1)] .
  moreover have "leases_inv ?d" using inv by (intro leases_inv_touch [OF _ r(1) f(1) f(5)]) (simp_all add: domain_inv_def)
  moreover have "artifacts_inv ?d" using transition_artifacts_inv [OF inv ok valid] .
  moreover have "submissions_inv ?d" using inv f(1,7) r(1) by (auto simp: domain_inv_def submissions_inv_def)
  moreover have "receipts_inv ?d" using transition_receipts_inv [OF inv ok] .
  moreover have "heads_inv ?d"
    using inv artifact_effect_dom unfolding domain_inv_def by (intro heads_inv_same [OF _ _ f(8,9)]) (simp_all only: f(6))
  ultimately show ?thesis by (simp add: domain_inv_def)
qed

lemma receipt_workspace:
  assumes "receipts_inv d" "heads_inv d" "x \<in> ran (db_applyReceipts d)"
  shows "ar_Workspace (rcp_Artifact x) \<in> dom (db_workspaceHeads d)"
proof -
  from assms(3) obtain a where "db_applyReceipts d a = Some x" by (auto simp: ran_def)
  with assms(1) have "rcp_Artifact x = a" "a \<in> dom (db_artifacts d)" unfolding receipts_inv_def by blast+
  with assms(2) show ?thesis unfolding heads_inv_def by blast
qed

text \<open>Freezing an Artifact.\<close>

lemma freeze_next_fields [simp]:
  "task_Ref (freeze_next c now t) = task_Ref t" "task_Context (freeze_next c now t) = task_Context t"
  "task_State (freeze_next c now t) = task_State t" "task_Revision (freeze_next c now t) = task_Revision t + 1"
  "task_EventCount (freeze_next c now t) = task_EventCount t + 1"
  "task_MessageCount (freeze_next c now t) = task_MessageCount t"
  "task_Artifact (freeze_next c now t) = Some (freeze_ref c)"
  "task_Submission (freeze_next c now t) = task_Submission t"
  "task_CreatedAt (freeze_next c now t) = task_CreatedAt t" "task_UpdatedAt (freeze_next c now t) = now"
  by (simp_all add: freeze_next_def)

lemma freeze_record_fields [simp]:
  "str_Task (freeze_record c now r) = freeze_next c now (str_Task r)"
  "str_Lease (freeze_record c now r) = str_Lease r" "str_ArtifactState (freeze_record c now r) = Some ArtifactFrozen"
  by (simp_all add: freeze_record_def)

lemma freeze_record_ok:
  assumes guard: "freeze_guard c (str_Task r) = Inr ()" and r: "ok (validateStoreTaskRecord r)"
    and c: "task_Ref (str_Task r) = fac_Task c" "match_stable (fac_Artifact c)"
    and now: "validLeaseTimestamp now" "task_UpdatedAt (str_Task r) \<le> now"
  shows "ok (validateStoreTaskRecord (freeze_record c now r))"
proof -
  let ?t = "str_Task r"
  note g = guard [unfolded freeze_guard_Inr]
  from r have t: "ok (validateStoredTask ?t)" by (simp add: ok_validateStoreTaskRecord)
  note ts = t [unfolded ok_validateStoredTask]
  have "task_Revision ?t + 1 \<noteq> 0" "task_Revision ?t + 1 \<le> MaxInt64" "task_MessageCount ?t \<le> task_Revision ?t + 1"
    using next_counters [of "task_Revision ?t" "task_MessageCount ?t" "task_MessageCount ?t"] ts g by auto
  then have "ok (validateStoredTask (freeze_next c now ?t))"
    unfolding ok_validateStoredTask using ts g c now valid_not_zero [OF now(1)]
    by (auto simp: freeze_ref_def)
  with g r show ?thesis by (auto simp: ok_validateStoreTaskRecord artifact_state_matches_def)
qed

lemma freeze_inv:
  assumes inv: "domain_inv d" and ok: "freeze_allowed E d c r payload now"
  shows "domain_inv (freeze_effect E c payload now r d)"
proof -
  let ?d = "freeze_effect E c payload now r d" and ?t = "str_Task r" and ?ref = "fac_Task c"
  let ?a = "freeze_artifact_record E c payload now"
  from ok have c: "ok (validateTaskRef ?ref)" "match_stable (fac_Artifact c)" "ok (validateRevision (fac_ExpectedBaseRevision c))"
    and r: "db_tasks d ?ref = Some r" "task_Ref ?t = ?ref" and g: "freeze_guard c ?t = Inr ()"
    and now: "stamped now [task_UpdatedAt ?t]"
    and new: "freeze_ref c \<notin> dom (db_artifacts d)" "\<forall>a \<in> ran (db_artifacts d). art_Task (sar_Artifact a) \<noteq> ?ref"
    by (auto simp: freeze_allowed_def)
  note f = freeze_effect_fields [OF r(2), of E payload now d] and g' = g [unfolded freeze_guard_Inr]
  note t = domain_inv_task [OF inv r(1)]
  have valid: "validLeaseTimestamp now" "task_UpdatedAt ?t \<le> now"
    using stamped_valid [OF now] stamped_floor [OF now] t(6) by auto
  have a: "art_Ref (sar_Artifact ?a) = freeze_ref c" "art_Task (sar_Artifact ?a) = ?ref"
      "art_State (sar_Artifact ?a) = ArtifactFrozen" "art_FrozenAt (sar_Artifact ?a) = now" "artifact_times_ok (sar_Artifact ?a)"
    by (simp_all add: freeze_artifact_record_def artifactIdentity_def artifact_times_ok_def Let_def)
  have ev: "ok (validateStoredEvent (freeze_event c now (freeze_next c now ?t)))"
    using c g' t(3) succ_neq_0_MaxInt64 [of "task_Revision ?t"] succ_le_MaxInt64 [of "task_Revision ?t"] valid_not_zero [OF valid(1)]
    by (auto simp: validateStoredEvent_def freeze_event_def freeze_ref_def ok_validateStoredTask)
  have "tasks_inv ?d"
    using inv freeze_record_ok [OF g t(2) r(2) c(2) valid] t(4,5) valid g' r(2)
    by (intro tasks_inv_upd [OF _ f(1)]) (simp_all add: domain_inv_def message_parity_def)
  moreover have "ids_inv ?d" using inv r(1) by (intro ids_inv_upd [OF _ f(1)]) (auto simp: domain_inv_def)
  moreover have "events_inv ?d"
    using inv g' ev by (intro events_inv_append [OF _ r(1) f(1) _ _ f(3)]) (simp_all add: domain_inv_def freeze_event_def)
  moreover have "messages_inv ?d" using inv by (intro messages_inv_touch [OF _ r(1) f(1) f(4)]) (simp_all add: domain_inv_def)
  moreover have "leases_inv ?d" using inv by (intro leases_inv_touch [OF _ r(1) f(1) f(5)]) (simp_all add: domain_inv_def)
  moreover have "artifacts_inv ?d"
    using inv new a f(1,6) by (intro artifacts_inv_freeze [OF _ r(1) f(1), of ?a]) (simp_all add: domain_inv_def artifact_ok_def)
  moreover have "submissions_inv ?d" using inv f(1,7) r(1) by (auto simp: domain_inv_def submissions_inv_def)
  moreover have "receipts_inv ?d"
    using inv new(1) f(6,9) unfolding domain_inv_def receipts_inv_def by (metis domI fun_upd_other)
  moreover have "heads_inv ?d"
  proof (cases "tr_Workspace ?ref \<in> dom (db_workspaceHeads d)")
    case True
    with inv f(6,8,9) show ?thesis
      by (auto simp: domain_inv_def heads_inv_def head_origin_cong [OF f(9)] initial_head_def freeze_ref_def)
  next
    case False
    then have "ar_Workspace (rcp_Artifact x) \<noteq> tr_Workspace ?ref" if "x \<in> ran (db_applyReceipts d)" for x
      using inv receipt_workspace [of d x] that by (auto simp: domain_inv_def)
    then have "head_origin d \<lparr>wh_Workspace = tr_Workspace ?ref, wh_ConfirmedRevision = fac_ExpectedBaseRevision c, wh_UpdatedAt = now\<rparr>"
      by (auto simp: head_origin_def)
    with False inv f(6,8) c(3) valid_not_zero [OF valid(1)] show ?thesis
      by (auto simp: domain_inv_def heads_inv_def head_origin_cong [OF f(9)] initial_head_def put_head_def freeze_ref_def split: if_splits)
  qed
  ultimately show ?thesis by (simp add: domain_inv_def)
qed

text \<open>Recording a receipt.\<close>

lemma stamped_not_zero: "stamped now floors \<Longrightarrow> now \<noteq> zero_time"
proof -
  assume "stamped now floors"
  then obtain clock where "validLeaseTimestamp clock" "clock \<le> now"
    using timestampAtLeast_candidate by (auto simp: stamped_def)
  then show ?thesis by (auto simp: validLeaseTimestamp_iff zero_time_def)
qed

lemma new_receipt_ok:
  assumes "ok (validateReceiptCommand c)" "now \<noteq> zero_time"
  shows "ok (validateStoredReceipt (new_receipt c now))" "ok (validateRevision (rrc_ResultRevision c))"
proof -
  have "match_stable ''stored-receipt''" by code_simp
  then show "ok (validateStoredReceipt (new_receipt c now))"
    using assms by (auto simp: validateStoredReceipt_def new_receipt_def validateReceiptCommand_def validateStable_def)
  show "ok (validateRevision (rrc_ResultRevision c))" using assms(1) by (auto simp: validateReceiptCommand_def)
qed

lemma receipt_effect_parts:
  "tasks_inv (receipt_effect c a now d) = tasks_inv d" "ids_inv (receipt_effect c a now d) = ids_inv d"
  "events_inv (receipt_effect c a now d) = events_inv d" "messages_inv (receipt_effect c a now d) = messages_inv d"
  "leases_inv (receipt_effect c a now d) = leases_inv d" "artifacts_inv (receipt_effect c a now d) = artifacts_inv d"
  "submissions_inv (receipt_effect c a now d) = submissions_inv d"
  by (simp_all add: receipt_effect_fields tasks_inv_def ids_inv_def events_inv_def messages_inv_def message_record_ok_def
      leases_inv_def artifacts_inv_def artifact_ok_def submissions_inv_def)

lemma receipt_inv:
  assumes inv: "domain_inv d" and ok: "receipt_allowed d c a now" and new: "rrc_Artifact c \<notin> dom (db_applyReceipts d)"
  shows "domain_inv (receipt_effect c a now d)"
proof -
  let ?d = "receipt_effect c a now d"
  note f = receipt_effect_fields [of c a now d]
  from ok obtain s where c: "ok (validateReceiptCommand c)" and a: "db_artifacts d (rrc_Artifact c) = Some s" "sar_Artifact s = a"
      "art_State a = ArtifactPublished" "rrc_ArtifactDigest c = art_Digest a" "rrc_BaseRevision c = art_BaseRevision a"
      "rrc_ResultRevision c = art_ResultRevision a"
    and now: "stamped now (receipt_floors a)"
    by (auto simp: receipt_allowed_def)
  have times: "artifact_times_ok a" using inv a(1,2) by (auto simp: domain_inv_def artifacts_inv_def artifact_ok_def)
  then obtain p where p: "art_PublishedAt a = Some p" using a(3) by (auto simp: artifact_times_ok_def split: option.splits)
  have "p \<le> now" using stamped_floor [OF now] p by (simp add: receipt_floors_def)
  then have match: "receipt_matches_artifact (new_receipt c now) a"
    using a p by (simp add: receipt_matches_artifact_def new_receipt_def)
  note v = new_receipt_ok [OF c stamped_not_zero [OF now]]
  have "receipts_inv ?d" using inv f(6,9) match v(1) a(1,2) by (auto simp: domain_inv_def receipts_inv_def new_receipt_def)
  moreover have "heads_inv ?d"
  proof -
    have ran: "ran (db_applyReceipts ?d) = insert (new_receipt c now) (ran (db_applyReceipts d))"
      using new unfolding f(9) by (subst ran_map_upd) (auto simp: domIff)
    have "head_origin ?d h" if "head_origin d h" "rrc_Decision c = ApplySuccess \<Longrightarrow> wh_Workspace h \<noteq> ar_Workspace (rrc_Artifact c)" for h
      using that unfolding head_origin_def ran by (auto simp: new_receipt_def)
    moreover have "head_origin ?d \<lparr>wh_Workspace = ar_Workspace (rrc_Artifact c), wh_ConfirmedRevision = art_ResultRevision a, wh_UpdatedAt = now\<rparr>"
      if "rrc_Decision c = ApplySuccess"
      using that a(6) unfolding head_origin_def ran by (simp add: new_receipt_def)
    ultimately show ?thesis
      using inv v(2) a(6) stamped_not_zero [OF now] unfolding domain_inv_def heads_inv_def f(6,8) by (auto split: if_splits)
  qed
  moreover have "tasks_inv ?d" "ids_inv ?d" "events_inv ?d" "messages_inv ?d" "leases_inv ?d" "artifacts_inv ?d" "submissions_inv ?d"
    using inv by (simp_all add: domain_inv_def receipt_effect_parts)
  ultimately show ?thesis by (simp add: domain_inv_def)
qed

lemma effect_inv: "effect_allowed E d eff now \<Longrightarrow> domain_inv d \<Longrightarrow> domain_inv (effect_db E eff now d)"
  by (cases eff) (auto intro: create_inv transition_inv grant_inv fence_inv freeze_inv receipt_inv)

lemma effect_now: 
  assumes "effect_allowed E d eff now" shows "now \<noteq> zero_time"
  using assms by (cases eff) (auto simp: create_allowed_def transition_allowed_def grant_allowed_def freeze_allowed_def
     receipt_allowed_def dest: stamped_not_zero valid_not_zero)

lemma effect_commands: "db_commands (effect_db E eff now d) = db_commands d"
  by (cases eff) (simp_all add: create_effect_fields grant_effect_fields receipt_effect_fields transition_effect_def
      freeze_effect_def initial_head_def artifact_effect_def set_artifact_state_def put_defs Let_def split: option.splits)

theorem agent_step_inv:
  assumes "agent_step E eff cid digest now d d'" "db_inv E d"
  shows "db_inv E d'"
  using assms(1)
proof (cases rule: agent_step.cases)
  case (commit encoded)
  have "commands_inv E d'"
    using assms(2) effect_now [OF commit(2)] unfolding commit(1)
    by (auto simp: db_inv_def commands_inv_def effect_commands effect_record_def command_record_def split: prod.splits)
  moreover have "domain_inv d'"
    using effect_inv [OF commit(2)] assms(2) unfolding commit(1) by (simp add: db_inv_def domain_inv_def)
  ultimately show ?thesis by (simp add: db_inv_def)
qed

end
