(* ===== verification/Agent_History.thy ===== *)
theory Agent_History
  imports Agent_Invariant
begin

text \<open>
  What time does to the database: commands, messages, events, lease grants, submissions and
  receipts are only added, a Task only moves forward along the edges of its state machine, an
  Artifact keeps its identity. The relation \<open>db_grows\<close> is a preorder that every step of the
  domain respects.
\<close>

section \<open>The relation\<close>

text \<open>The edges of the Task state machine.\<close>

inductive task_edge :: "TaskState \<Rightarrow> TaskState \<Rightarrow> bool" where
  "task_edge TaskSubmitted TaskWorking"
| "task_edge TaskSubmitted TaskRejected"
| "task_edge TaskWorking TaskInputRequired"
| "task_edge TaskInputRequired TaskWorking"
| "task_edge TaskWorking TaskCompleted"
| "s \<in> {TaskWorking, TaskInputRequired} \<Longrightarrow> task_edge s TaskFailed"
| "s \<in> {TaskSubmitted, TaskWorking, TaskInputRequired} \<Longrightarrow> task_edge s TaskCanceled"

definition task_grows :: "StoreTaskRecord \<Rightarrow> StoreTaskRecord \<Rightarrow> bool" where
  "task_grows r r' \<longleftrightarrow>
     task_Ref (str_Task r') = task_Ref (str_Task r) \<and> task_Context (str_Task r') = task_Context (str_Task r)
     \<and> task_CreatedAt (str_Task r') = task_CreatedAt (str_Task r)
     \<and> task_edge\<^sup>*\<^sup>* (task_State (str_Task r)) (task_State (str_Task r'))
     \<and> task_Revision (str_Task r) \<le> task_Revision (str_Task r')
     \<and> task_EventCount (str_Task r) \<le> task_EventCount (str_Task r')
     \<and> task_MessageCount (str_Task r) \<le> task_MessageCount (str_Task r')
     \<and> task_UpdatedAt (str_Task r) \<le> task_UpdatedAt (str_Task r')
     \<and> ls_Fence (str_Lease r) \<le> ls_Fence (str_Lease r')
     \<and> (task_Revision (str_Task r') = task_Revision (str_Task r) \<longrightarrow> str_Task r' = str_Task r)
     \<and> (ls_Fence (str_Lease r') = ls_Fence (str_Lease r) \<longrightarrow>
          ls_Owner (str_Lease r') \<in> {[], ls_Owner (str_Lease r)})
     \<and> (Terminal (task_State (str_Task r)) \<longrightarrow> r' = r)
     \<and> (task_Artifact (str_Task r) \<noteq> None \<longrightarrow> task_Artifact (str_Task r') = task_Artifact (str_Task r))
     \<and> (task_Submission (str_Task r) \<noteq> None \<longrightarrow> task_Submission (str_Task r') = task_Submission (str_Task r))"

definition tasks_grow :: "agent_db \<Rightarrow> agent_db \<Rightarrow> bool" where
  "tasks_grow d d' \<longleftrightarrow>
     (\<forall>ref r. db_tasks d ref = Some r \<longrightarrow> (\<exists>r'. db_tasks d' ref = Some r' \<and> task_grows r r'))"

definition artifact_grows :: "StoreArtifactRecord \<Rightarrow> StoreArtifactRecord \<Rightarrow> bool" where
  "artifact_grows s s' \<longleftrightarrow>
     sameArtifactIdentity (sar_Artifact s) (sar_Artifact s') \<and> sar_EncodedPayload s' = sar_EncodedPayload s
     \<and> (art_State (sar_Artifact s) \<noteq> ArtifactFrozen \<longrightarrow> s' = s)"

definition artifacts_grow :: "agent_db \<Rightarrow> agent_db \<Rightarrow> bool" where
  "artifacts_grow d d' \<longleftrightarrow>
     (\<forall>a s. db_artifacts d a = Some s \<longrightarrow> (\<exists>s'. db_artifacts d' a = Some s' \<and> artifact_grows s s'))"

definition logs_grow :: "agent_db \<Rightarrow> agent_db \<Rightarrow> bool" where
  "logs_grow d d' \<longleftrightarrow>
     db_messages d \<subseteq>\<^sub>m db_messages d' \<and> db_events d \<subseteq>\<^sub>m db_events d'
     \<and> db_leaseGrants d \<subseteq>\<^sub>m db_leaseGrants d' \<and> db_submissions d \<subseteq>\<^sub>m db_submissions d'
     \<and> db_applyReceipts d \<subseteq>\<^sub>m db_applyReceipts d' \<and> dom (db_workspaceHeads d) \<subseteq> dom (db_workspaceHeads d')"

definition db_grows :: "agent_db \<Rightarrow> agent_db \<Rightarrow> bool" where
  "db_grows d d' \<longleftrightarrow> db_commands d \<subseteq>\<^sub>m db_commands d' \<and> logs_grow d d' \<and> tasks_grow d d' \<and> artifacts_grow d d'"

text \<open>It is a preorder.\<close>

lemma task_grows_refl: "task_grows r r"
  by (simp add: task_grows_def)

lemma task_grows_trans:
  assumes rs: "task_grows r s" and st: "task_grows s t" shows "task_grows r t"
proof -
  note a = rs [unfolded task_grows_def] and b = st [unfolded task_grows_def]
  have "task_edge\<^sup>*\<^sup>* (task_State (str_Task r)) (task_State (str_Task t))" using a b by (meson rtranclp_trans)
  moreover have "str_Task t = str_Task r" if "task_Revision (str_Task t) = task_Revision (str_Task r)"
  proof -
    have "task_Revision (str_Task s) = task_Revision (str_Task r)"
      using a b that order_antisym [of "task_Revision (str_Task s)" "task_Revision (str_Task r)"] by metis
    then show ?thesis using a b that by metis
  qed
  moreover have "ls_Owner (str_Lease t) \<in> {[], ls_Owner (str_Lease r)}" if "ls_Fence (str_Lease t) = ls_Fence (str_Lease r)"
  proof -
    have "ls_Fence (str_Lease s) = ls_Fence (str_Lease r)"
      using a b that order_antisym [of "ls_Fence (str_Lease s)" "ls_Fence (str_Lease r)"] by metis
    then show ?thesis using a b that by (metis insert_iff singletonD)
  qed
  moreover have "t = r" if "Terminal (task_State (str_Task r))" using a b that by metis
  moreover have "task_Revision (str_Task r) \<le> task_Revision (str_Task t)" "task_EventCount (str_Task r) \<le> task_EventCount (str_Task t)"
    "task_MessageCount (str_Task r) \<le> task_MessageCount (str_Task t)" "task_UpdatedAt (str_Task r) \<le> task_UpdatedAt (str_Task t)"
    "ls_Fence (str_Lease r) \<le> ls_Fence (str_Lease t)"
    using a b by (blast intro: order_trans)+
  ultimately show ?thesis using a b unfolding task_grows_def by auto
qed

lemma artifact_grows_refl: "artifact_grows s s"
  by (simp add: artifact_grows_def sameArtifactIdentity_def)

lemma artifact_grows_trans: "artifact_grows r s \<Longrightarrow> artifact_grows s t \<Longrightarrow> artifact_grows r t"
  by (auto simp: artifact_grows_def sameArtifactIdentity_def)

lemma db_grows_refl: "db_grows d d"
  by (auto simp: db_grows_def logs_grow_def tasks_grow_def artifacts_grow_def intro: task_grows_refl artifact_grows_refl)

lemma tasks_grow_trans: "tasks_grow c d \<Longrightarrow> tasks_grow d e \<Longrightarrow> tasks_grow c e"
  unfolding tasks_grow_def using task_grows_trans by blast

lemma artifacts_grow_trans: "artifacts_grow c d \<Longrightarrow> artifacts_grow d e \<Longrightarrow> artifacts_grow c e"
  unfolding artifacts_grow_def using artifact_grows_trans by blast

lemma db_grows_trans: "db_grows c d \<Longrightarrow> db_grows d e \<Longrightarrow> db_grows c e"
  unfolding db_grows_def logs_grow_def
  using tasks_grow_trans artifacts_grow_trans by (blast intro: map_le_trans)


section \<open>Every step respects it\<close>

lemma tasks_grow_upd:
  assumes "db_tasks d' = (db_tasks d)(ref \<mapsto> r')" "\<And>r. db_tasks d ref = Some r \<Longrightarrow> task_grows r r'"
  shows "tasks_grow d d'"
  using assms by (auto simp: tasks_grow_def intro: task_grows_refl)

lemma artifacts_grow_same: "db_artifacts d' = db_artifacts d \<Longrightarrow> artifacts_grow d d'"
  by (auto simp: artifacts_grow_def intro: artifact_grows_refl)

lemma map_le_new: "k \<notin> dom m \<Longrightarrow> m \<subseteq>\<^sub>m m(k \<mapsto> v)"
  by (auto simp: map_le_def)

lemma succ_grows: "(n::uint64) < MaxInt64 \<Longrightarrow> n \<le> n + 1 \<and> n + 1 \<noteq> n"
  using less_succ_MaxInt64 by (auto simp: less_imp_le)

lemma change_edge:
  "task_change E ref kind who change \<Longrightarrow> s \<in> set (trn_allowed change) \<Longrightarrow> \<not> Terminal s \<Longrightarrow> task_edge s (trn_next change)"
  by (erule task_changeE) (auto simp: change_defs intro: task_edge.intros)

lemma create_grows:
  assumes "create_allowed E d c p now" shows "logs_grow d (create_effect c p now d)"
    "tasks_grow d (create_effect c p now d)" "artifacts_grow d (create_effect c p now d)"
  using assms
  by (auto simp: logs_grow_def create_effect_fields create_allowed_def fresh_message_def map_le_new domIff
      intro!: tasks_grow_upd [OF create_effect_fields(1)] artifacts_grow_same)

lemma grant_grows:
  assumes "grant_allowed d r w now"
  shows "logs_grow d (grant_effect r w now d)" "tasks_grow d (grant_effect r w now d)" "artifacts_grow d (grant_effect r w now d)"
  using assms succ_grows [of "ls_Fence (str_Lease r)"]
  by (auto simp: logs_grow_def grant_effect_fields grant_allowed_def map_le_new domIff task_grows_def
      intro!: tasks_grow_upd [OF grant_effect_fields(1)] artifacts_grow_same)

lemma fence_grows:
  assumes inv: "domain_inv d" and "db_tasks d (lg_Task g) = Some r" "holds_lease d r g"
    and d': "d' = put_task (r\<lparr>str_Lease := \<lparr>ls_Owner = [], ls_Fence = lg_Fence g\<rparr>\<rparr>) d"
  shows "logs_grow d d'" "tasks_grow d d'" "artifacts_grow d d'"
proof -
  have l: "str_Lease r = \<lparr>ls_Owner = lg_Worker g, ls_Fence = lg_Fence g\<rparr>" "lg_Task g = task_Ref (str_Task r)"
    using assms(3) by (auto simp: holds_lease_def)
  have live: "\<not> Terminal (task_State (str_Task r))"
  proof -
    obtain h where "db_leaseGrants d (lg_Task g, lg_Fence g) = Some h" "slg_Grant h = g"
      using assms(3) by (auto simp: holds_lease_def)
    then have "ok (validateLeaseGrant g)" using inv unfolding domain_inv_def leases_inv_def by blast
    then have "match_stable (lg_Worker g)" by simp
    then show ?thesis using domain_inv_task(2) [OF inv assms(2)] l(1) match_stable_nonempty
      by (auto simp: ok_validateStoreTaskRecord)
  qed
  have t: "db_tasks d' = (db_tasks d)(lg_Task g \<mapsto> r\<lparr>str_Lease := \<lparr>ls_Owner = [], ls_Fence = lg_Fence g\<rparr>\<rparr>)"
    using l(2) by (simp add: d' put_task_def)
  show "tasks_grow d d'" using l(1) live assms(2) by (intro tasks_grow_upd [OF t]) (auto simp: task_grows_def)
  show "logs_grow d d'" "artifacts_grow d d'" by (auto simp: logs_grow_def d' intro: artifacts_grow_same)
qed

lemma artifact_effect_grows:
  assumes frozen: "\<And>a. trn_artifact change = Some a \<or> trn_discardArtifact change \<and> task_Artifact t = Some a \<Longrightarrow> frozen_artifact d a ref"
    and s: "db_artifacts d a = Some s"
  shows "\<exists>s'. db_artifacts (artifact_effect change now t d) a = Some s' \<and> artifact_grows s s'"
proof (cases "art_State (sar_Artifact s) = ArtifactFrozen")
  case True
  with s show ?thesis
    by (auto simp: artifact_effect_def set_artifact_state_def artifact_grows_def sameArtifactIdentity_def split: option.splits)
next
  case False
  with artifact_effect_other_state [OF frozen s] show ?thesis using artifact_grows_refl by blast
qed

lemma transition_grows:
  assumes inv: "domain_inv d" and ok: "transition_allowed E d ref kind who meta change r p now"
  shows "logs_grow d (transition_effect change ref now p r d)" "tasks_grow d (transition_effect change ref now p r d)"
    "artifacts_grow d (transition_effect change ref now p r d)"
proof -
  let ?d = "transition_effect change ref now p r d" and ?t = "str_Task r"
  from ok have change: "task_change E ref kind who change" and r: "db_tasks d ref = Some r" "task_Ref ?t = ref"
    and g: "transition_guard kind meta change ?t = Inr ()" and now: "stamped now [task_UpdatedAt ?t]"
    and fresh: "\<forall>m. transition_message_record change ref now p (transition_next change ref now ?t) = Some m \<longrightarrow> fresh_message d m"
      "trn_submission change \<noteq> [] \<longrightarrow> ref \<notin> dom (db_submissions d)" "(ref, task_EventCount ?t + 1) \<notin> dom (db_events d)"
    and frozen: "\<And>a. trn_artifact change = Some a \<or> trn_discardArtifact change \<and> task_Artifact ?t = Some a \<Longrightarrow> frozen_artifact d a ref"
    by (auto simp: transition_allowed_def)
  note f = transition_effect_fields [OF r(2), of change now p d] and g' = g [unfolded transition_guard_Inr]
  note t = domain_inv_task [OF inv r(1)]
  have le: "task_UpdatedAt ?t \<le> now" using stamped_floor [OF now] by simp
  have sub: "task_Submission ?t = None" using t(3) g' by (cases "task_Submission ?t") (auto simp: ok_validateStoredTask)
  have "task_edge (task_State ?t) (trn_next change)" using change_edge [OF change] g' by blast
  then show "tasks_grow d ?d"
    using r g' le sub succ_grows [of "task_Revision ?t"] succ_grows [of "task_EventCount ?t"] succ_grows [of "task_MessageCount ?t"]
    by (intro tasks_grow_upd [OF f(1)]) (auto simp: task_grows_def)
  show "logs_grow d ?d"
    unfolding logs_grow_def f using fresh
    by (auto simp: fresh_message_def map_le_new split: option.splits)
  show "artifacts_grow d ?d"
    unfolding artifacts_grow_def f(6) using artifact_effect_grows [OF frozen] by blast
qed

lemma freeze_grows:
  assumes inv: "domain_inv d" and ok: "freeze_allowed E d c r payload now"
  shows "logs_grow d (freeze_effect E c payload now r d)" "tasks_grow d (freeze_effect E c payload now r d)"
    "artifacts_grow d (freeze_effect E c payload now r d)"
proof -
  let ?d = "freeze_effect E c payload now r d" and ?t = "str_Task r"
  from ok have r: "db_tasks d (fac_Task c) = Some r" "task_Ref ?t = fac_Task c" and g: "freeze_guard c ?t = Inr ()"
    and now: "stamped now [task_UpdatedAt ?t]" and new: "freeze_ref c \<notin> dom (db_artifacts d)"
      "(fac_Task c, task_EventCount ?t + 1) \<notin> dom (db_events d)"
    by (auto simp: freeze_allowed_def)
  note f = freeze_effect_fields [OF r(2), of E payload now d] and g' = g [unfolded freeze_guard_Inr]
  have le: "task_UpdatedAt ?t \<le> now" using stamped_floor [OF now] by simp
  show "tasks_grow d ?d"
    using r g' le succ_grows [of "task_Revision ?t"] succ_grows [of "task_EventCount ?t"]
    by (intro tasks_grow_upd [OF f(1)]) (auto simp: task_grows_def)
  show "logs_grow d ?d" unfolding logs_grow_def f using new by (auto simp: map_le_new initial_head_def put_head_def)
  show "artifacts_grow d ?d"
    unfolding artifacts_grow_def f(6) using new by (auto simp: domIff intro: artifact_grows_refl)
qed

lemma receipt_grows:
  assumes "rrc_Artifact c \<notin> dom (db_applyReceipts d)"
  shows "logs_grow d (receipt_effect c a now d)" "tasks_grow d (receipt_effect c a now d)"
    "artifacts_grow d (receipt_effect c a now d)"
  using assms by (auto simp: logs_grow_def receipt_effect_fields map_le_new tasks_grow_def
      intro: artifacts_grow_same task_grows_refl)

lemma effect_grows:
  assumes "effect_allowed E d eff now" "domain_inv d"
  shows "logs_grow d (effect_db E eff now d) \<and> tasks_grow d (effect_db E eff now d) \<and> artifacts_grow d (effect_db E eff now d)"
proof (cases eff)
  case (Fenced g r)
  with assms show ?thesis using fence_grows [OF assms(2), of g r] by simp
qed (use assms db_grows_refl in \<open>auto simp: db_grows_def intro: create_grows grant_grows transition_grows freeze_grows receipt_grows\<close>)

lemma agent_step_grows:
  assumes "agent_step E eff cid digest now d d'" "db_inv E d"
  shows "db_grows d d'"
  using assms(1)
proof (cases rule: agent_step.cases)
  case (commit encoded)
  have "db_commands d \<subseteq>\<^sub>m db_commands d'"
    using commit(3) unfolding commit(1)
    by (auto simp: effect_commands effect_record_def command_record_def command_key_def fresh_command_def map_le_new split: prod.splits)
  with effect_grows [OF commit(2)] assms(2) show ?thesis
    unfolding commit(1) by (simp add: db_inv_def db_grows_def logs_grow_def tasks_grow_def artifacts_grow_def)
qed

text \<open>The domain as a system of its own: every database that steps of the Agent reach.\<close>

definition some_agent_step :: "env \<Rightarrow> agent_db \<Rightarrow> agent_db \<Rightarrow> bool" where
  "some_agent_step E d d' \<longleftrightarrow> (\<exists>eff cid digest now. agent_step E eff cid digest now d d')"

interpretation domain: invariant_system "\<lambda>d. d = empty_db" "some_agent_step E" "db_inv E" db_grows
  by unfold_locales (auto simp: some_agent_step_def db_inv_empty db_grows_refl intro: agent_step_inv agent_step_grows db_grows_trans)

end
