(* ===== verification/Agent_Retry.thy ===== *)
theory Agent_Retry
  imports Agent_History
begin

text \<open>
  Exactly once: a command that committed, whatever its caller was told, answers every exact
  retry from its durable receipt and changes nothing again, in every later state of the store.
\<close>

fun doc_dest :: "json_doc \<Rightarrow> json_dest option" where
  "doc_dest (JTask _) = Some DTask"
| "doc_dest (JLeaseAssignment _) = Some DLeaseAssignment"
| "doc_dest (JLeaseGrant _) = Some DLeaseGrant"
| "doc_dest (JFreezeResult _) = Some DFreezeResult"
| "doc_dest (JApplyReceipt _) = Some DApplyReceipt"
| "doc_dest (JParts _) = Some DParts"
| "doc_dest _ = None"

text \<open>
  What a retry needs of \<open>encoding/json\<close>: the result that was encoded into the receipt decodes
  back to the same value, and its encoding fits the read budget of a receipt.
\<close>

definition receipt_faithful :: "env \<Rightarrow> agent_db \<Rightarrow> AuthorityID \<Rightarrow> CommandID \<Rightarrow> json_dest \<Rightarrow> bool" where
  "receipt_faithful E d authority cid D \<longleftrightarrow>
     (\<forall>r v. db_commands d \<lparr>sck_Authority = authority, sck_ID = cid\<rparr> = Some r \<longrightarrow> doc_dest v = Some D
        \<longrightarrow> json_Marshal E v = Some (scr_Result r) \<longrightarrow> json_faithful E D v)"

definition recorded :: "env \<Rightarrow> agent_db \<Rightarrow> agent_effect \<Rightarrow> CommandID \<Rightarrow> string \<Rightarrow> gotime \<Rightarrow> bool" where
  "recorded E d eff cid digest now \<longleftrightarrow>
     (\<exists>encoded. json_Marshal E (snd (snd (effect_result E eff now))) = Some encoded
        \<and> db_commands d \<lparr>sck_Authority = effect_authority eff, sck_ID = cid\<rparr>
            = Some (effect_record E eff cid digest encoded now))"

lemma step_recorded: "agent_step E eff cid digest now d d' \<Longrightarrow> recorded E d' eff cid digest now"
  by (auto elim!: agent_stepE simp: recorded_def effect_record_def command_record_def command_key_def split: prod.splits)

lemma recorded_later:
  assumes "recorded E d eff cid digest now" "db_grows d d'"
  shows "recorded E d' eff cid digest now"
    "receipt_faithful E d (effect_authority eff) cid D \<Longrightarrow> receipt_faithful E d' (effect_authority eff) cid D"
proof -
  let ?k = "\<lparr>sck_Authority = effect_authority eff, sck_ID = cid\<rparr>"
  have "db_commands d' ?k = db_commands d ?k"
    using assms by (auto simp: db_grows_def map_le_def recorded_def dom_def)
  with assms(1) show "recorded E d' eff cid digest now"
    "receipt_faithful E d (effect_authority eff) cid D \<Longrightarrow> receipt_faithful E d' (effect_authority eff) cid D"
    by (auto simp: recorded_def receipt_faithful_def)
qed

lemma kinds_stable:
  "match_stable ''create_task''" "match_stable ''task''" "match_stable ''acquire_lease''" "match_stable ''claim_lease''"
  "match_stable ''lease_assignment''" "match_stable ''fence_lease''" "match_stable ''lease_grant''"
  "match_stable ''record_apply_receipt''" "match_stable ''apply_receipt''"
  by code_simp+

lemma task_change_kind: "task_change E ref kind who change \<Longrightarrow> match_stable kind"
  by (erule task_changeE) (simp_all, code_simp+)

text \<open>The Task a step leaves behind is valid, and so is the grant it was made under.\<close>

lemma created_valid:
  assumes "agent_step E (Created c p) cid digest now d d'" "db_inv E d"
  shows "ok (validateStoredTask (created_task c now))"
proof -
  have inv: "domain_inv d'" using agent_step_inv [OF assms] by (simp add: db_inv_def)
  moreover from assms(1) have "db_tasks d' (ctc_Task c) = Some \<lparr>str_Task = created_task c now, str_Lease = unleased, str_ArtifactState = None\<rparr>"
    by (auto elim!: agent_stepE simp: create_effect_fields)
  ultimately show ?thesis using domain_inv_task(3) by fastforce
qed

lemma transitioned_valid:
  assumes "agent_step E (Transitioned kind who meta ref change p r) cid digest now d d'" "db_inv E d"
  shows "ok (validateStoredTask (transition_next change ref now (str_Task r)))" "task_Ref (str_Task r) = ref"
proof -
  have inv: "domain_inv d'" using agent_step_inv [OF assms] by (simp add: db_inv_def)
  from assms(1) show ref: "task_Ref (str_Task r) = ref" by (auto elim!: agent_stepE simp: transition_allowed_def)
  with assms(1) have "db_tasks d' ref = Some (transition_record change ref now r)"
    by (auto elim!: agent_stepE simp: transition_effect_fields(1))
  from domain_inv_task(3) [OF inv this] show "ok (validateStoredTask (transition_next change ref now (str_Task r)))" by simp
qed

lemma step_time: "agent_step E eff cid digest now d d' \<Longrightarrow> now \<noteq> zero_time"
  by (auto elim!: agent_stepE dest: effect_now)

context agent_store
begin

lemma replayJSON_recorded:
  assumes s: "inv s" and rec: "recorded E (db s) eff cid digest now" "receipt_faithful E (db s) (effect_authority eff) cid D"
    and doc: "effect_result E eff now = (kind, rk, doc)" "doc_dest doc = Some D" "as_t doc = Some v"
    and ok: "digest \<noteq> []" "now \<noteq> zero_time" "match_stable kind" "match_stable rk"
  shows "replayJSONCommandFromStore E ops s (effect_authority eff) cid kind digest rk D as_t = Inr (Some v)"
proof -
  from rec(1) doc(1) obtain encoded where e: "json_Marshal E doc = Some encoded"
    "db_commands (db s) \<lparr>sck_Authority = effect_authority eff, sck_ID = cid\<rparr> =
       Some (command_record E (effect_authority eff) cid kind digest rk encoded now)"
    by (auto simp: recorded_def effect_record_def)
  from rec(2) e doc(2) have "json_faithful E D doc" by (simp add: receipt_faithful_def command_record_def)
  with e(1) have j: "encoded \<noteq> []" "int (length encoded) \<le> maxPageBytes" "json_Unmarshal E D encoded = Some doc"
    by (auto simp: json_faithful_def)
  have "LookupCommand ops s \<lparr>sck_Authority = effect_authority eff, sck_ID = cid\<rparr> maxPageBytes =
      Inr (command_record E (effect_authority eff) cid kind digest rk encoded now)"
    using s e(2) j by (simp add: LookupCommand command_record_def maxPageBytes_def)
  moreover have "validateStoreCommandRecord E (command_record E (effect_authority eff) cid kind digest rk encoded now)
      (effect_authority eff) cid = Inr ()"
    unfolding ok_unit ok_validateStoreCommandRecord using j ok by (simp add: command_record_def)
  ultimately show ?thesis
    using j doc(3) by (simp add: replayJSONCommandFromStore_def command_record_def)
qed

lemma grant_history_later:
  assumes "inv s" "leases_inv d" "db_leaseGrants d \<subseteq>\<^sub>m db_leaseGrants (db s)"
    "db_leaseGrants d (lg_Task g, lg_Fence g) = Some h" "slg_Grant h = g"
  shows "verifyLeaseGrantHistoryFromStore ops s g = Inr (slg_GrantedAt h)"
proof -
  have "db_leaseGrants (db s) (lg_Task g, lg_Fence g) = Some h" using assms(3,4) by (auto simp: map_le_def dom_def)
  then have l: "LoadLeaseGrant ops s (lg_Task g) (lg_Fence g) = Inr h" using assms(1) by (simp add: LoadLeaseGrant)
  have "ok (validateLeaseGrant g) \<and> validLeaseTimestamp (slg_GrantedAt h)" using assms(2,4,5) unfolding leases_inv_def by blast
  then have "validateLeaseGrant g = Inr ()" "slg_GrantedAt h \<noteq> zero_time" using valid_not_zero by (auto simp: ok_unit)
  with l assms(5) show ?thesis by (simp add: verifyLeaseGrantHistoryFromStore_def)
qed

lemma CreateTask_retry:
  assumes s: "inv s" "db_inv E (db s)" and call: "CreateTask E ag ops ce c sv s = (res, s1)" "s1 \<noteq> s"
    and env: "sha256_nonempty E" "receipt_faithful E (db s1) (tr_Authority (ctc_Task c)) (cm_ID (ctc_Meta c)) DTask"
  shows "\<exists>t r. db_tasks (db s1) (ctc_Task c) = Some r \<and> str_Task r = t \<and> (\<forall>x. res = Inr x \<longrightarrow> x = t)
    \<and> (\<forall>ag' ce' sv' s'. inv sv' \<longrightarrow> db_grows (db s1) (db sv') \<longrightarrow> \<not> ag_closed ag' \<longrightarrow> call_ctx ce' = LiveContext
         \<longrightarrow> CreateTask E ag' ops ce' c sv' s' = (Inr t, s'))"
proof -
  from CreateTask_step [OF s(1) call] obtain p digest now where
    res: "res = Inr (created_task c now) \<or> res = Inl (StoreFailure ErrStoreCommitUnknown)"
    and d: "commandDigest E ''create_task'' (CmdCreateTask c) = Inr digest"
    and step: "agent_step E (Created c p) (cm_ID (ctc_Meta c)) digest now (db s) (db s1)" by metis
  from step have t: "db_tasks (db s1) (ctc_Task c) =
      Some \<lparr>str_Task = created_task c now, str_Lease = unleased, str_ArtifactState = None\<rparr>"
    and cmd: "ok (validateCreateCommand E c)"
    by (auto elim!: agent_stepE simp: create_effect_fields create_allowed_def)
  have "CreateTask E ag' ops ce' c sv' s' = (Inr (created_task c now), s')"
    if "inv sv'" "db_grows (db s1) (db sv')" "\<not> ag_closed ag'" "call_ctx ce' = LiveContext" for ag' ce' sv' s'
  proof -
    note rec = recorded_later [OF step_recorded [OF step] that(2)]
    have "replayJSONCommandFromStore E ops sv' (effect_authority (Created c p)) (cm_ID (ctc_Meta c)) ''create_task'' digest ''task'' DTask as_Task
        = Inr (Some (created_task c now))"
      using rec env commandDigest_nonempty [OF env(1) d] step_time [OF step] kinds_stable
      by (intro replayJSON_recorded [OF that(1), of _ "Created c p"]) auto
    then have "CreateTask_replay E ops c digest sv' = Inr (Some (created_task c now))"
      using created_valid [OF step s(2), folded ok_unit]
      by (simp add: CreateTask_replay_def replayTaskCommandFromStore_def created_task_def)
    with that(3,4) d cmd [folded ok_unit] show ?thesis
      by (simp add: CreateTask_def CreateTask_preflight_def validateCallContext_def acquireStore_def store_View_def)
  qed
  with res t show ?thesis by (intro exI [of _ "created_task c now"]) auto
qed

lemma run_transition_retry:
  assumes s: "inv s" "db_inv E (db s)"
    and call: "run_transition E ag ops ce kind meta (issuer_grant who) ref cmd change sv s = (res, s1)" "s1 \<noteq> s"
    and req: "task_change E ref kind who change" "\<And>g. who = Worker g \<Longrightarrow> lg_Task g = ref"
    and env: "sha256_nonempty E" "receipt_faithful E (db s1) (tr_Authority ref) (cm_ID meta) DTask"
  shows "\<exists>t r. db_tasks (db s1) ref = Some r \<and> str_Task r = t \<and> (\<forall>x. res = Inr x \<longrightarrow> x = t)
    \<and> (\<forall>ag' ce' sv' s'. inv sv' \<longrightarrow> db_grows (db s1) (db sv') \<longrightarrow> inv s' \<longrightarrow> db_grows (db s1) (db s')
         \<longrightarrow> \<not> ag_closed ag' \<longrightarrow> call_ctx ce' = LiveContext \<longrightarrow> call_commit ce' = Committed
         \<longrightarrow> run_transition E ag' ops ce' kind meta (issuer_grant who) ref cmd change sv' s' = (Inr t, s'))"
proof -
  from call obtain digest0 p0 where pre:
    "transition_preflight E ag ops ce kind meta (issuer_grant who) ref cmd change sv = Inr (Inr (digest0, p0))"
    by (auto simp: run_transition_def split: sum.splits)
  note pf = transition_preflight_cases [OF pre]
  from run_transition_step [OF s(1) call req] obtain p r digest now where
    res: "res = Inr (transition_next change ref now (str_Task r)) \<or> res = Inl (StoreFailure ErrStoreCommitUnknown)"
    and d: "commandDigest E kind cmd = Inr digest"
    and step: "agent_step E (Transitioned kind who meta ref change p r) (cm_ID meta) digest now (db s) (db s1)"
    by (metis (no_types, lifting))
  let ?t = "transition_next change ref now (str_Task r)"
  note valid = transitioned_valid [OF step s(2)]
  have grows: "db_grows (db s) (db s1)" using agent_step_grows [OF step s(2)] .
  from step have t: "db_tasks (db s1) ref = Some (transition_record change ref now r)"
    and lease: "\<And>g. who = Worker g \<Longrightarrow> holds_lease (db s) r g"
    using valid(2) by (auto elim!: agent_stepE simp: transition_effect_fields(1) transition_allowed_def)
  have replay: "transition_replay E ops kind meta (issuer_grant who) ref digest x = Inr (Some ?t)"
    if x: "inv x" "db_grows (db s1) (db x)" for x
  proof -
    note rec = recorded_later [OF step_recorded [OF step] x(2)]
    have "replayJSONCommandFromStore E ops x (effect_authority (Transitioned kind who meta ref change p r)) (cm_ID meta) kind digest ''task'' DTask as_Task
        = Inr (Some ?t)"
      using rec env commandDigest_nonempty [OF env(1) d] step_time [OF step] kinds_stable task_change_kind [OF req(1)]
      by (intro replayJSON_recorded [OF x(1)]) auto
    moreover have "\<exists>at. verifyLeaseGrantHistoryFromStore ops x g = Inr at" if "who = Worker g" for g
    proof -
      from lease [OF that] obtain h where "db_leaseGrants (db s) (lg_Task g, lg_Fence g) = Some h" "slg_Grant h = g"
        by (auto simp: holds_lease_def)
      then show ?thesis
        using grant_history_later [OF x(1), of "db s" g h] s(2) db_grows_trans [OF grows x(2)]
        by (auto simp: db_inv_def domain_inv_def db_grows_def logs_grow_def)
    qed
    ultimately show ?thesis
      using valid(1) [folded ok_unit] valid(2)
      by (cases who) (auto simp: transition_replay_def replayTaskCommandFromStore_def)
  qed
  have "run_transition E ag' ops ce' kind meta (issuer_grant who) ref cmd change sv' s' = (Inr ?t, s')"
    if "inv sv'" "db_grows (db s1) (db sv')" "inv s'" "db_grows (db s1) (db s')" "\<not> ag_closed ag'"
      "call_ctx ce' = LiveContext" "call_commit ce' = Committed" for ag' ce' sv' s'
    using pf(1,2) [folded ok_unit] d that replay [OF that(1,2)] replay [OF that(3,4)]
    by (cases "trn_message change")
      (simp_all add: run_transition_def transition_preflight_def validateCallContext_def acquireStore_def store_View_def
        store_Update_def transition_tx_def)
  with res t show ?thesis by (intro exI [of _ ?t]) auto
qed

text \<open>A grant stays in the history with its time.\<close>

lemma granted_later:
  assumes step: "agent_step E (Granted kind r w) cid digest now d d'" and inv: "db_inv E d"
    and x: "inv x" "db_grows d' (db x)"
  shows "ok (validateLeaseAssignment (lease_assignment r w now))"
    "verifyLeaseAssignmentFromStore ops x (lease_assignment r w now) = Inr ()"
proof -
  let ?g = "la_Grant (lease_assignment r w now)"
  from step have ok: "grant_allowed d r w now"
    and g: "db_leaseGrants d' (lg_Task ?g, lg_Fence ?g) = Some \<lparr>slg_Grant = ?g, slg_GrantedAt = now\<rparr>"
    by (auto elim!: agent_stepE simp: grant_effect_fields lease_assignment_def)
  have inv': "domain_inv d" "domain_inv d'" using inv agent_step_inv [OF step inv] by (simp_all add: db_inv_def)
  have h: "ok (validateLeaseGrant ?g) \<and> validLeaseTimestamp now"
    using inv'(2) g unfolding domain_inv_def leases_inv_def by fastforce
  have t: "ok (validateStoredTask (str_Task r))" using ok domain_inv_task(3) [OF inv'(1)] by (auto simp: grant_allowed_def)
  have "task_CreatedAt (str_Task r) \<le> now"
    using ok stamped_floor t by (force simp: grant_allowed_def ok_validateStoredTask)
  with h t ok show "ok (validateLeaseAssignment (lease_assignment r w now))"
    unfolding ok_validateLeaseAssignment by (auto simp: lease_assignment_def grant_allowed_def)
  have "verifyLeaseGrantHistoryFromStore ops x ?g = Inr now"
    using grant_history_later [OF x(1), of d' ?g] g inv'(2) x(2)
    by (auto simp: domain_inv_def db_grows_def logs_grow_def)
  then show "verifyLeaseAssignmentFromStore ops x (lease_assignment r w now) = Inr ()"
    by (simp add: verifyLeaseAssignmentFromStore_def) (simp add: lease_assignment_def)
qed

lemma AcquireLease_retry:
  assumes s: "inv s" "db_inv E (db s)" and call: "AcquireLease E ag ops ce c s = (res, s1)" "s1 \<noteq> s"
    and env: "sha256_nonempty E" "receipt_faithful E (db s1) (tr_Authority (alc_Task c)) (alc_ID c) DLeaseAssignment"
  shows "\<exists>a. (\<forall>x. res = Inr x \<longrightarrow> x = a) \<and> lg_Task (la_Grant a) = alc_Task c \<and> lg_Worker (la_Grant a) = alc_Worker c
    \<and> (\<forall>ag' ce' s'. inv s' \<longrightarrow> db_grows (db s1) (db s') \<longrightarrow> \<not> ag_closed ag' \<longrightarrow> call_ctx ce' = LiveContext
         \<longrightarrow> call_commit ce' = Committed \<longrightarrow> AcquireLease E ag' ops ce' c s' = (Inr a, s'))"
proof -
  from call have pre: "ok (AcquireLease_preflight E ag ce c)" by (auto simp: AcquireLease_def split: sum.splits)
  from AcquireLease_step [OF s(1) call] obtain r digest now where ref: "task_Ref (str_Task r) = alc_Task c"
    and res: "res = Inr (lease_assignment r (alc_Worker c) now) \<or> res = Inl (StoreFailure ErrStoreCommitUnknown)"
    and d: "commandDigest E ''acquire_lease'' (CmdAcquireLease c) = Inr digest"
    and step: "agent_step E (Granted ''acquire_lease'' r (alc_Worker c)) (alc_ID c) digest now (db s) (db s1)" by metis
  let ?a = "lease_assignment r (alc_Worker c) now"
  have "AcquireLease E ag' ops ce' c s' = (Inr ?a, s')"
    if x: "inv s'" "db_grows (db s1) (db s')" and live: "\<not> ag_closed ag'" "call_ctx ce' = LiveContext" "call_commit ce' = Committed" for ag' ce' s'
  proof -
    note rec = recorded_later [OF step_recorded [OF step] x(2)]
    have "replayJSONCommandFromStore E ops s' (effect_authority (Granted ''acquire_lease'' r (alc_Worker c))) (alc_ID c) ''acquire_lease'' digest
        ''lease_assignment'' DLeaseAssignment as_LeaseAssignment = Inr (Some ?a)"
      using rec env ref commandDigest_nonempty [OF env(1) d] step_time [OF step] kinds_stable
      by (intro replayJSON_recorded [OF x(1)]) auto
    then have "AcquireLease_replay E ops c digest s' = Inr (Some ?a)"
      using granted_later [OF step s(2) x] ref by (simp add: AcquireLease_replay_def lease_assignment_def)
    with pre d live show ?thesis
      by (auto simp: AcquireLease_def AcquireLease_preflight_def AcquireLease_tx_def store_Update_def validateCallContext_def
          acquireStore_def)
  qed
  with res ref show ?thesis by (intro exI [of _ ?a]) (auto simp: lease_assignment_def)
qed

lemma ClaimLease_retry:
  assumes s: "inv s" "db_inv E (db s)" and call: "ClaimLease E ag ops ce c s = (res, s1)" "s1 \<noteq> s"
    and env: "sha256_nonempty E" "receipt_faithful E (db s1) (clc_Authority c) (clc_ID c) DLeaseAssignment"
  shows "\<exists>a. (\<forall>x. res = Inr x \<longrightarrow> x = a) \<and> tr_Authority (lg_Task (la_Grant a)) = clc_Authority c \<and> lg_Worker (la_Grant a) = clc_Worker c
    \<and> (\<forall>ag' ce' s'. inv s' \<longrightarrow> db_grows (db s1) (db s') \<longrightarrow> \<not> ag_closed ag' \<longrightarrow> call_ctx ce' = LiveContext
         \<longrightarrow> call_commit ce' = Committed \<longrightarrow> ClaimLease E ag' ops ce' c s' = (Inr a, s'))"
proof -
  from call have pre: "ok (ClaimLease_preflight E ag ce c)" by (auto simp: ClaimLease_def split: sum.splits)
  from ClaimLease_step [OF s(1) call] obtain r digest now where ref: "claimable (clc_Authority c) r"
    and res: "res = Inr (lease_assignment r (clc_Worker c) now) \<or> res = Inl (StoreFailure ErrStoreCommitUnknown)"
    and d: "commandDigest E ''claim_lease'' (CmdClaimLease c) = Inr digest"
    and step: "agent_step E (Granted ''claim_lease'' r (clc_Worker c)) (clc_ID c) digest now (db s) (db s1)" by metis
  let ?a = "lease_assignment r (clc_Worker c) now"
  have ref: "tr_Authority (task_Ref (str_Task r)) = clc_Authority c" using ref by (simp add: claimable_def)
  have "ClaimLease E ag' ops ce' c s' = (Inr ?a, s')"
    if x: "inv s'" "db_grows (db s1) (db s')" and live: "\<not> ag_closed ag'" "call_ctx ce' = LiveContext" "call_commit ce' = Committed" for ag' ce' s'
  proof -
    note rec = recorded_later [OF step_recorded [OF step] x(2)]
    have "replayJSONCommandFromStore E ops s' (effect_authority (Granted ''claim_lease'' r (clc_Worker c))) (clc_ID c) ''claim_lease'' digest
        ''lease_assignment'' DLeaseAssignment as_LeaseAssignment = Inr (Some ?a)"
      using rec env ref commandDigest_nonempty [OF env(1) d] step_time [OF step] kinds_stable
      by (intro replayJSON_recorded [OF x(1)]) auto
    then have "ClaimLease_replay E ops c digest s' = Inr (Some ?a)"
      using granted_later [OF step s(2) x] ref by (simp add: ClaimLease_replay_def lease_assignment_def)
    with pre d live show ?thesis
      by (auto simp: ClaimLease_def ClaimLease_preflight_def ClaimLease_tx_def store_Update_def validateCallContext_def
          acquireStore_def)
  qed
  with res ref show ?thesis by (intro exI [of _ ?a]) (auto simp: lease_assignment_def)
qed

lemma FenceLease_retry:
  assumes s: "inv s" "db_inv E (db s)" and call: "FenceLease E ag ops ce c s = (res, s1)" "s1 \<noteq> s"
    and env: "sha256_nonempty E" "receipt_faithful E (db s1) (tr_Authority (lg_Task (flc_Grant c))) (flc_ID c) DLeaseGrant"
    and x: "inv s'" "db_grows (db s1) (db s')"
    and live: "\<not> ag_closed ag'" "call_ctx ce' = LiveContext" "call_commit ce' = Committed"
  shows "FenceLease E ag' ops ce' c s' = (Inr (), s')"
proof -
  from call have pre: "ok (FenceLease_preflight E ag ce c)" by (auto simp: FenceLease_def split: sum.splits)
  from FenceLease_step [OF s(1) call] obtain r digest now where
    d: "commandDigest E ''fence_lease'' (CmdFenceLease c) = Inr digest"
    and step: "agent_step E (Fenced (flc_Grant c) r) (flc_ID c) digest now (db s) (db s1)" by metis
  let ?g = "flc_Grant c"
  note rec = recorded_later [OF step_recorded [OF step] x(2)]
  from step have ok: "ok (validateLeaseGrant ?g)" "holds_lease (db s) r ?g" by (auto elim!: agent_stepE)
  from ok(2) obtain h where "db_leaseGrants (db s) (lg_Task ?g, lg_Fence ?g) = Some h" "slg_Grant h = ?g"
    by (auto simp: holds_lease_def)
  then have "\<exists>at. verifyLeaseGrantHistoryFromStore ops s' ?g = Inr at"
    using grant_history_later [OF x(1), of "db s" ?g h] s(2) db_grows_trans [OF agent_step_grows [OF step s(2)] x(2)]
    by (auto simp: db_inv_def domain_inv_def db_grows_def logs_grow_def)
  moreover have "replayJSONCommandFromStore E ops s' (effect_authority (Fenced ?g r)) (flc_ID c) ''fence_lease'' digest
      ''lease_grant'' DLeaseGrant as_LeaseGrant = Inr (Some ?g)"
    using rec env commandDigest_nonempty [OF env(1) d] step_time [OF step] kinds_stable
    by (intro replayJSON_recorded [OF x(1)]) auto
  ultimately have "FenceLease_replay E ops c digest s' = Inr (Some ?g)"
    using ok(1) by (auto simp: FenceLease_replay_def)
  with pre d live show ?thesis
    by (auto simp: FenceLease_def FenceLease_preflight_def FenceLease_tx_def store_Update_def validateCallContext_def acquireStore_def)
qed

text \<open>A Published Artifact that was loaded once is loaded in every later state.\<close>

lemma loadArtifactRecord_later:
  assumes s: "inv s" and l: "loadArtifactRecord E ops s a = Inr stored" "art_State (sar_Artifact stored) = ArtifactPublished"
    and x: "inv x" "db_grows (db s) (db x)"
  shows "loadArtifactRecord E ops x a = Inr stored"
proof -
  note old = loadArtifactRecord_Inr [OF s l(1)]
  from l(1) have size: "sar_EncodedPayload stored \<noteq> []" "int (length (sar_EncodedPayload stored)) \<le> MaxStoredValueBytes"
    by (auto simp: loadArtifactRecord_def res_simps split: if_splits)
  have "db_artifacts (db x) a = Some stored"
    using x(2) old(1) l(2) by (fastforce simp: db_grows_def artifacts_grow_def artifact_grows_def)
  with x(1) old(2,3) size show ?thesis
    by (simp add: loadArtifactRecord_def LoadArtifact lookup_limited_def MaxStoredValueBytes_def MaxStoredEnvelopeBytes_def)
qed

lemma RecordApplyReceipt_loads:
  assumes "RecordApplyReceipt E ag ops ce c s = (res, s1)" "s1 \<noteq> s"
  shows "\<exists>stored. loadArtifactRecord E ops s (rrc_Artifact c) = Inr stored \<and> art_State (sar_Artifact stored) = ArtifactPublished"
    "ok (RecordApplyReceipt_preflight E ag ce c)"
proof -
  from assms obtain digest where pre: "RecordApplyReceipt_preflight E ag ce c = Inr digest"
    and upd: "store_Update (call_ctx ce) (call_commit ce) (RecordApplyReceipt_tx E ops ce c digest) s = (res, s1)"
    by (auto simp: RecordApplyReceipt_def split: sum.splits)
  show "ok (RecordApplyReceipt_preflight E ag ce c)" using pre by (rule ok_of_Inr)
  from store_Update_changed [OF upd assms(2)] obtain r where tx: "RecordApplyReceipt_tx E ops ce c digest s = Inr (r, s1)" by blast
  have "RecordApplyReceipt_replay E ops c digest s = Inr None"
    using tx assms(2) by (cases "RecordApplyReceipt_replay E ops c digest s") (auto simp: RecordApplyReceipt_tx_def split: option.splits)
  from RecordApplyReceipt_tx_chain [OF tx this]
  show "\<exists>stored. loadArtifactRecord E ops s (rrc_Artifact c) = Inr stored \<and> art_State (sar_Artifact stored) = ArtifactPublished"
    by blast
qed

lemma receipt_replayed:
  assumes x: "inv x" "db_grows d (db x)" and inv: "db_inv E d" and rcp: "db_applyReceipts d (rrc_Artifact c) = Some rcp" "rcp_ID rcp = rrc_Receipt c"
    and l: "loadArtifactRecord E ops x (rrc_Artifact c) = Inr stored" "db_artifacts d (rrc_Artifact c) = Some stored"
    and rep: "replayJSONCommandFromStore E ops x (ar_Authority (rrc_Artifact c)) (rrc_CommandID c)
        ''record_apply_receipt'' digest ''apply_receipt'' DApplyReceipt as_ApplyReceipt = Inr (Some rcp)"
  shows "RecordApplyReceipt_replay E ops c digest x = Inr (Some rcp)"
proof -
  have r: "rcp_Artifact rcp = rrc_Artifact c" "ok (validateStoredReceipt rcp)" "receipt_matches_artifact rcp (sar_Artifact stored)"
    using inv rcp(1) l(2) unfolding db_inv_def domain_inv_def receipts_inv_def by (metis option.inject)+
  have "db_applyReceipts (db x) (rrc_Artifact c) = Some rcp"
    using x(2) rcp(1) by (auto simp: db_grows_def logs_grow_def map_le_def dom_def)
  with x(1) r l(1) have "loadVerifiedApplyReceipt E ops x (rrc_Artifact c) = Inr (Some rcp)"
    by (simp add: loadVerifiedApplyReceipt_def loadApplyReceipt_def LoadApplyReceipt lookup_db_def r(2) [folded ok_unit])
  with rep r rcp(2) show ?thesis
    by (simp add: RecordApplyReceipt_replay_def r(2) [folded ok_unit] sameReceipt_def sameReceiptDecision_def)
qed

lemma RecordApplyReceipt_retry:
  assumes s: "inv s" "db_inv E (db s)" and call: "RecordApplyReceipt E ag ops ce c s = (res, s1)" "s1 \<noteq> s"
    and env: "sha256_nonempty E" "receipt_faithful E (db s1) (ar_Authority (rrc_Artifact c)) (rrc_CommandID c) DApplyReceipt"
  shows "\<exists>rcp. db_applyReceipts (db s1) (rrc_Artifact c) = Some rcp \<and> (\<forall>x. res = Inr x \<longrightarrow> x = rcp)
    \<and> (\<forall>ag' ce' s'. inv s' \<longrightarrow> db_grows (db s1) (db s') \<longrightarrow> \<not> ag_closed ag' \<longrightarrow> call_ctx ce' = LiveContext
         \<longrightarrow> call_commit ce' = Committed \<longrightarrow> RecordApplyReceipt E ag' ops ce' c s' = (Inr rcp, s'))"
proof -
  from RecordApplyReceipt_loads [OF call] obtain stored where pre: "ok (RecordApplyReceipt_preflight E ag ce c)"
    and l: "loadArtifactRecord E ops s (rrc_Artifact c) = Inr stored" "art_State (sar_Artifact stored) = ArtifactPublished" by blast
  obtain rcp eff digest now where eff: "effect_authority eff = ar_Authority (rrc_Artifact c)"
      "effect_result E eff now = (''record_apply_receipt'', ''apply_receipt'', JApplyReceipt rcp)"
    and d: "commandDigest E ''record_apply_receipt'' (CmdRecordApplyReceipt c) = Inr digest"
    and step: "agent_step E eff (rrc_CommandID c) digest now (db s) (db s1)"
    and rcp: "db_applyReceipts (db s1) (rrc_Artifact c) = Some rcp" "rcp_ID rcp = rrc_Receipt c" "\<forall>x. res = Inr x \<longrightarrow> x = rcp"
    using RecordApplyReceipt_step [OF s(1) call]
  proof cases
    case (1 a digest now)
    from 1(4) have "db_applyReceipts (db s1) (rrc_Artifact c) = Some (new_receipt c now)"
      by (auto elim!: agent_stepE simp: receipt_effect_fields)
    with 1 show thesis by (intro that [of "Receipted c a" now "new_receipt c now" digest]) (auto simp: new_receipt_def)
  next
    case (2 a rcp digest now)
    from 2(4) have "db_applyReceipts (db s1) (rrc_Artifact c) = Some rcp" "rcp_ID rcp = rrc_Receipt c"
      by (auto elim!: agent_stepE simp: sameReceiptDecision_def new_receipt_def)
    with 2 show thesis by (intro that [of "Rereceipted c a rcp" now rcp digest]) auto
  qed
  have grows: "db_grows (db s) (db s1)" and inv1: "db_inv E (db s1)"
    using agent_step_grows [OF step s(2)] agent_step_inv [OF step s(2)] by auto
  have "db_artifacts (db s1) (rrc_Artifact c) = Some stored"
    using grows loadArtifactRecord_Inr(1) [OF s(1) l(1)] l(2)
    by (fastforce simp: db_grows_def artifacts_grow_def artifact_grows_def)
  moreover have "RecordApplyReceipt E ag' ops ce' c s' = (Inr rcp, s')"
    if x: "inv s'" "db_grows (db s1) (db s')" and live: "\<not> ag_closed ag'" "call_ctx ce' = LiveContext" "call_commit ce' = Committed"
      and st: "db_artifacts (db s1) (rrc_Artifact c) = Some stored" for ag' ce' s'
  proof -
    note rec = recorded_later [OF step_recorded [OF step] x(2)]
    have "replayJSONCommandFromStore E ops s' (effect_authority eff) (rrc_CommandID c)
        ''record_apply_receipt'' digest ''apply_receipt'' DApplyReceipt as_ApplyReceipt = Inr (Some rcp)"
      using rec env eff commandDigest_nonempty [OF env(1) d] step_time [OF step] kinds_stable
      by (intro replayJSON_recorded [OF x(1)]) auto
    then have "RecordApplyReceipt_replay E ops c digest s' = Inr (Some rcp)"
      using loadArtifactRecord_later [OF s(1) l x(1) db_grows_trans [OF grows x(2)]] st
      by (intro receipt_replayed [OF x inv1 rcp(1,2)]) (simp_all add: eff)
    moreover have "validateReceiptCommand c = Inr ()"
      using pre by (auto simp: RecordApplyReceipt_preflight_def)
    ultimately show ?thesis
      using d live by (simp add: RecordApplyReceipt_def RecordApplyReceipt_preflight_def RecordApplyReceipt_tx_def
          store_Update_def validateCallContext_def acquireStore_def)
  qed
  ultimately show ?thesis using rcp by blast
qed

end

text \<open>A command identity that is used again with another intent.\<close>

definition intent_differs :: "env \<Rightarrow> StoreCommandRecord \<Rightarrow> string \<Rightarrow> agent_command \<Rightarrow> string \<Rightarrow> bool" where
  "intent_differs E r kind cmd rk \<longleftrightarrow>
     (\<exists>digest. commandDigest E kind cmd = Inr digest
        \<and> (scr_Kind r \<noteq> kind \<or> scr_IntentDigest r \<noteq> digest \<or> scr_ResultKind r \<noteq> rk))"

context agent_store
begin

lemma replayJSON_conflict:
  assumes "inv s" "db_commands (db s) \<lparr>sck_Authority = authority, sck_ID = cid\<rparr> = Some r"
    "ok (validateStoreCommandRecord E r authority cid)" "int (length (scr_Result r)) \<le> maxPageBytes"
    "scr_Kind r \<noteq> kind \<or> scr_IntentDigest r \<noteq> digest \<or> scr_ResultKind r \<noteq> rk"
  shows "replayJSONCommandFromStore E ops s authority cid kind digest rk D as_t = Inl ErrIdempotencyConflict"
  using assms(1,2,4,5)
  by (auto simp: replayJSONCommandFromStore_def LookupCommand lookup_limited_def maxPageBytes_def assms(3) [folded ok_unit])

lemma CreateTask_conflict:
  assumes r: "db_commands (db sv) \<lparr>sck_Authority = tr_Authority (ctc_Task c), sck_ID = cm_ID (ctc_Meta c)\<rparr> = Some r"
      "ok (validateStoreCommandRecord E r (tr_Authority (ctc_Task c)) (cm_ID (ctc_Meta c)))" "int (length (scr_Result r)) \<le> maxPageBytes"
    and diff: "intent_differs E r ''create_task'' (CmdCreateTask c) ''task''"
    and call: "inv sv" "\<not> ag_closed ag" "call_ctx ce = LiveContext" "ok (validateCreateCommand E c)"
  shows "CreateTask E ag ops ce c sv s = (Inl ErrIdempotencyConflict, s)"
proof -
  from diff obtain digest where d: "commandDigest E ''create_task'' (CmdCreateTask c) = Inr digest"
    "scr_Kind r \<noteq> ''create_task'' \<or> scr_IntentDigest r \<noteq> digest \<or> scr_ResultKind r \<noteq> ''task''"
    by (auto simp: intent_differs_def)
  from replayJSON_conflict [OF call(1) r d(2), where D = DTask and as_t = as_Task]
  have "CreateTask_replay E ops c digest sv = Inl ErrIdempotencyConflict"
    by (simp add: CreateTask_replay_def replayTaskCommandFromStore_def)
  with d(1) call(2-) show ?thesis
    by (simp add: CreateTask_def CreateTask_preflight_def validateCallContext_def acquireStore_def store_View_def call(4) [folded ok_unit])
qed

end

end
