(* ===== verification/Agent_Requests.thy ===== *)
theory Agent_Requests
  imports Agent_Retry
begin

text \<open>
  The requests of the Agent as values, so that a theorem can quantify over them: the seven commands
  of the Task state machine, and all the mutating calls with their answers reduced to success or
  the error.
\<close>

datatype task_request =
  Accept WorkerTaskCommand
| Reject WorkerTaskCommand
| Request_Input WorkerMessageCommand
| Reply MessageCommand
| Cancel TaskCommand
| Fail WorkerTaskCommand
| Complete CompleteTaskCommand

fun run_request ::
    "env \<Rightarrow> agent \<Rightarrow> 's store_ops \<Rightarrow> call \<Rightarrow> task_request \<Rightarrow> 's \<Rightarrow> 's \<Rightarrow> Task agent_result \<times> 's" where
  "run_request E ag ops ce (Accept c) sv s = AcceptTask E ag ops ce c sv s"
| "run_request E ag ops ce (Reject c) sv s = RejectTask E ag ops ce c sv s"
| "run_request E ag ops ce (Request_Input c) sv s = RequestInput E ag ops ce c sv s"
| "run_request E ag ops ce (Reply c) sv s = ReplyTask E ag ops ce c sv s"
| "run_request E ag ops ce (Cancel c) sv s = CancelTask E ag ops ce c sv s"
| "run_request E ag ops ce (Fail c) sv s = FailTask E ag ops ce c sv s"
| "run_request E ag ops ce (Complete c) sv s = CompleteTask E ag ops ce c sv s"

fun request_task :: "task_request \<Rightarrow> TaskRef" where
  "request_task (Accept c) = wtc_Task c" | "request_task (Reject c) = wtc_Task c"
| "request_task (Request_Input c) = wmc_Task c" | "request_task (Reply c) = mc_Task c"
| "request_task (Cancel c) = tc_Task c" | "request_task (Fail c) = wtc_Task c"
| "request_task (Complete c) = cmp_Task c"

fun request_meta :: "task_request \<Rightarrow> CommandMeta" where
  "request_meta (Accept c) = commandMeta (wtc_Meta c)" | "request_meta (Reject c) = commandMeta (wtc_Meta c)"
| "request_meta (Request_Input c) = commandMeta (wmc_Meta c)" | "request_meta (Reply c) = mc_Meta c"
| "request_meta (Cancel c) = tc_Meta c" | "request_meta (Fail c) = commandMeta (wtc_Meta c)"
| "request_meta (Complete c) = commandMeta (cmp_Meta c)"

fun request_issuer :: "task_request \<Rightarrow> issuer" where
  "request_issuer (Accept c) = Worker (wcm_Grant (wtc_Meta c))"
| "request_issuer (Reject c) = Worker (wcm_Grant (wtc_Meta c))"
| "request_issuer (Request_Input c) = Worker (wcm_Grant (wmc_Meta c))"
| "request_issuer (Reply c) = Caller" | "request_issuer (Cancel c) = Caller"
| "request_issuer (Fail c) = Worker (wcm_Grant (wtc_Meta c))"
| "request_issuer (Complete c) = Worker (wcm_Grant (cmp_Meta c))"

fun request_change :: "task_request \<Rightarrow> transition" where
  "request_change (Accept c) = accept_change" | "request_change (Reject c) = reject_change"
| "request_change (Request_Input c) = request_input_change (wmc_Message c)"
| "request_change (Reply c) = reply_change (mc_Message c)" | "request_change (Cancel c) = cancel_change"
| "request_change (Fail c) = fail_change"
| "request_change (Complete c) = complete_change (cmp_Message c) (cmp_Submission c) (cmp_Artifact c)"

fun request_kind :: "task_request \<Rightarrow> string \<times> agent_command" where
  "request_kind (Accept c) = (''accept_task'', CmdWorkerTask c)"
| "request_kind (Reject c) = (''reject_task'', CmdWorkerTask c)"
| "request_kind (Request_Input c) = (''request_input'', CmdWorkerMessage c)"
| "request_kind (Reply c) = (''reply_task'', CmdMessage c)"
| "request_kind (Cancel c) = (''cancel_task'', CmdTask c)"
| "request_kind (Fail c) = (''fail_task'', CmdWorkerTask c)"
| "request_kind (Complete c) = (''complete_task'', CmdCompleteTask c)"

definition request_admitted :: "env \<Rightarrow> task_request \<Rightarrow> bool" where
  "request_admitted E req \<longleftrightarrow>
     task_change E (request_task req) (fst (request_kind req)) (request_issuer req) (request_change req)
     \<and> (\<forall>g. request_issuer req = Worker g \<longrightarrow> lg_Task g = request_task req)"

abbreviation request_transition ::
    "env \<Rightarrow> agent \<Rightarrow> 's store_ops \<Rightarrow> call \<Rightarrow> task_request \<Rightarrow> 's \<Rightarrow> 's \<Rightarrow> Task agent_result \<times> 's" where
  "request_transition E ag ops ce req sv s \<equiv>
     run_transition E ag ops ce (fst (request_kind req)) (request_meta req) (issuer_grant (request_issuer req))
       (request_task req) (snd (request_kind req)) (request_change req) sv s"

text \<open>A request that changed the store passed its validation and ran the state machine step.\<close>

lemma run_request_changed:
  assumes "run_request E ag ops ce req sv s = (res, s')" "s' \<noteq> s"
  shows "request_admitted E req" "request_transition E ag ops ce req sv s = (res, s')"
proof -
  have "request_admitted E req \<and> request_transition E ag ops ce req sv s = (res, s')"
  proof (cases req)
    case (Accept c)
    then show ?thesis using AcceptTask_run assms by (fastforce simp: request_admitted_def intro: task_change.intros)
  next
    case (Reject c)
    then show ?thesis using RejectTask_run assms by (fastforce simp: request_admitted_def intro: task_change.intros)
  next
    case (Request_Input c)
    then show ?thesis using RequestInput_run assms by (fastforce simp: request_admitted_def intro: task_change.intros)
  next
    case (Reply c)
    then show ?thesis using ReplyTask_run assms by (fastforce simp: request_admitted_def intro: task_change.intros)
  next
    case (Cancel c)
    then show ?thesis using assms by (auto simp: CancelTask_def request_admitted_def intro: task_change.intros)
  next
    case (Fail c)
    then show ?thesis using FailTask_run assms by (fastforce simp: request_admitted_def intro: task_change.intros)
  next
    case (Complete c)
    then show ?thesis using CompleteTask_run assms by (fastforce simp: request_admitted_def)
  qed
  then show "request_admitted E req" "request_transition E ag ops ce req sv s = (res, s')" by blast+
qed

text \<open>That validation does not depend on the store, so the same request runs the step again.\<close>

lemma run_request_again:
  assumes "run_request E ag ops ce req sv s = (res, s')" "s' \<noteq> s" "call_ctx ce' = LiveContext"
  shows "run_request E ag' ops ce' req sv' t = request_transition E ag' ops ce' req sv' t"
  using assms
  by (cases req)
    (auto simp: AcceptTask_def RejectTask_def RequestInput_def ReplyTask_def CancelTask_def FailTask_def CompleteTask_def
      bind_res_Inr validateCallContext_def split: sum.splits)

context agent_store
begin

lemma run_request_retry:
  assumes s: "inv s" "db_inv E (db s)" and call: "run_request E ag ops ce req sv s = (res, s1)" "s1 \<noteq> s"
    and env: "sha256_nonempty E" "receipt_faithful E (db s1) (tr_Authority (request_task req)) (cm_ID (request_meta req)) DTask"
  shows "\<exists>t r. db_tasks (db s1) (request_task req) = Some r \<and> str_Task r = t \<and> (\<forall>x. res = Inr x \<longrightarrow> x = t)
    \<and> (\<forall>ag' ce' sv' s'. inv sv' \<longrightarrow> db_grows (db s1) (db sv') \<longrightarrow> inv s' \<longrightarrow> db_grows (db s1) (db s')
         \<longrightarrow> \<not> ag_closed ag' \<longrightarrow> call_ctx ce' = LiveContext \<longrightarrow> call_commit ce' = Committed
         \<longrightarrow> run_request E ag' ops ce' req sv' s' = (Inr t, s'))"
proof -
  note run = run_request_changed [OF call]
  from run_transition_retry [OF s run(2) call(2) _ _ env] run(1)
  obtain t r where "db_tasks (db s1) (request_task req) = Some r" "str_Task r = t" "\<forall>x. res = Inr x \<longrightarrow> x = t"
    "\<forall>ag' ce' sv' s'. inv sv' \<longrightarrow> db_grows (db s1) (db sv') \<longrightarrow> inv s' \<longrightarrow> db_grows (db s1) (db s')
         \<longrightarrow> \<not> ag_closed ag' \<longrightarrow> call_ctx ce' = LiveContext \<longrightarrow> call_commit ce' = Committed
         \<longrightarrow> request_transition E ag' ops ce' req sv' s' = (Inr t, s')"
    unfolding request_admitted_def by blast
  then show ?thesis by (metis run_request_again [OF call])
qed

lemma run_request_step:
  assumes s: "inv s" and call: "run_request E ag ops ce req sv s = (res, s')" "s' \<noteq> s"
  obtains p r digest now where "inv s'"
    "res = Inr (transition_next (request_change req) (request_task req) now (str_Task r))
       \<or> res = Inl (StoreFailure ErrStoreCommitUnknown)"
    "agent_step E (Transitioned (fst (request_kind req)) (request_issuer req) (request_meta req) (request_task req)
       (request_change req) p r) (cm_ID (request_meta req)) digest now (db s) (db s')"
proof -
  note run = run_request_changed [OF call]
  from run(1) have a: "task_change E (request_task req) (fst (request_kind req)) (request_issuer req) (request_change req)"
    "\<And>g. request_issuer req = Worker g \<Longrightarrow> lg_Task g = request_task req" by (auto simp: request_admitted_def)
  show thesis by (rule run_transition_step [OF s run(2) call(2) a]) (auto intro: that)
qed

end


section \<open>All mutating calls\<close>

datatype agent_request =
  Create CreateTaskCommand
| Change task_request
| Acquire AcquireLeaseCommand
| Claim ClaimLeaseCommand
| Fence FenceLeaseCommand
| Freeze FreezeArtifactCommand
| Receipt RecordApplyReceiptCommand

definition answer :: "'a agent_result \<times> 's \<Rightarrow> agent_error option \<times> 's" where
  "answer r = ((case fst r of Inl e \<Rightarrow> Some e | Inr _ \<Rightarrow> None), snd r)"

fun perform ::
    "env \<Rightarrow> agent \<Rightarrow> 's store_ops \<Rightarrow> call \<Rightarrow> agent_request \<Rightarrow> 's \<Rightarrow> 's \<Rightarrow> agent_error option \<times> 's" where
  "perform E ag ops ce (Create c) sv s = answer (CreateTask E ag ops ce c sv s)"
| "perform E ag ops ce (Change req) sv s = answer (run_request E ag ops ce req sv s)"
| "perform E ag ops ce (Acquire c) sv s = answer (AcquireLease E ag ops ce c s)"
| "perform E ag ops ce (Claim c) sv s = answer (ClaimLease E ag ops ce c s)"
| "perform E ag ops ce (Fence c) sv s = answer (FenceLease E ag ops ce c s)"
| "perform E ag ops ce (Freeze c) sv s = answer (FreezeArtifact E ag ops ce c sv s)"
| "perform E ag ops ce (Receipt c) sv s = answer (RecordApplyReceipt E ag ops ce c s)"

text \<open>The lease generation a request acts under.\<close>

fun acting_grant :: "agent_request \<Rightarrow> LeaseGrant option" where
  "acting_grant (Change req) = issuer_grant (request_issuer req)"
| "acting_grant (Fence c) = Some (flc_Grant c)"
| "acting_grant (Freeze c) = Some (wcm_Grant (fac_Meta c))"
| "acting_grant _ = None"

lemma answer_iff: "answer r = (e, s) \<longleftrightarrow> (\<exists>res. r = (res, s) \<and> e = (case res of Inl e \<Rightarrow> Some e | Inr _ \<Rightarrow> None))"
  by (cases r) (auto simp: answer_def)

lemma answer_Some [simp]: "answer r = (Some e, s) \<longleftrightarrow> r = (Inl e, s)"
  by (cases r) (auto simp: answer_def split: sum.splits)

lemma perform_agent_call:
  assumes "perform E ag ops ce req sv s = (e, s')"
  shows "agent_call E ops s s'"
proof (cases req)
  case (Change r)
  then show ?thesis using assms by (cases r) (auto simp: answer_iff intro: agent_call.intros)
qed (use assms in \<open>auto simp: answer_iff intro: agent_call.intros\<close>)

context agent_store
begin

text \<open>A call that answers an error other than an unknown commit left the store alone.\<close>

lemma perform_failed:
  assumes "inv s" "perform E ag ops ce req sv s = (Some e, s')" "e \<noteq> StoreFailure ErrStoreCommitUnknown"
  shows "s' = s"
proof (rule ccontr)
  assume ne: "s' \<noteq> s"
  note s = assms(1) and e = assms(2,3)
  show False
  proof (cases req)
    case (Create c)
    with e have "CreateTask E ag ops ce c sv s = (Inl e, s')" by simp
    then show ?thesis by (rule CreateTask_step [OF s _ ne]) (use e in auto)
  next
    case (Change q)
    with e have "run_request E ag ops ce q sv s = (Inl e, s')" by simp
    then show ?thesis by (rule run_request_step [OF s _ ne]) (use e in auto)
  next
    case (Acquire c)
    with e have "AcquireLease E ag ops ce c s = (Inl e, s')" by simp
    then show ?thesis by (rule AcquireLease_step [OF s _ ne]) (use e in auto)
  next
    case (Claim c)
    with e have "ClaimLease E ag ops ce c s = (Inl e, s')" by simp
    then show ?thesis by (rule ClaimLease_step [OF s _ ne]) (use e in auto)
  next
    case (Fence c)
    with e ne show ?thesis by (auto simp: FenceLease_def split: sum.splits dest!: store_Update_changed)
  next
    case (Freeze c)
    with e have "FreezeArtifact E ag ops ce c sv s = (Inl e, s')" by simp
    then show ?thesis by (rule FreezeArtifact_step [OF s _ ne]) (use e in auto)
  next
    case (Receipt c)
    with e have "RecordApplyReceipt E ag ops ce c s = (Inl e, s')" by simp
    then show ?thesis by (rule RecordApplyReceipt_step [OF s _ ne]) (use e in auto)
  qed
qed

text \<open>A request under a lease generation changes the store only while that generation is current.\<close>

lemma perform_current_lease:
  assumes "inv s" "perform E ag ops ce req sv s = (e, s')" "s' \<noteq> s" "acting_grant req = Some g"
  shows "\<exists>r. db_tasks (db s) (lg_Task g) = Some r \<and> holds_lease (db s) r g"
proof (cases req)
  case (Change q)
  with assms obtain res where q: "run_request E ag ops ce q sv s = (res, s')" and w: "request_issuer q = Worker g"
    by (cases "request_issuer q") (auto simp: answer_iff)
  have t: "lg_Task g = request_task q" using run_request_changed(1) [OF q assms(3)] w by (auto simp: request_admitted_def)
  show ?thesis
    by (rule run_request_step [OF assms(1) q assms(3)])
      (use w t in \<open>auto elim!: agent_stepE simp: transition_allowed_def\<close>)
next
  case (Fence c)
  with assms have q: "\<exists>res. FenceLease E ag ops ce c s = (res, s')" and g: "g = flc_Grant c" by (auto simp: answer_iff)
  from q obtain res where "FenceLease E ag ops ce c s = (res, s')" ..
  from FenceLease_step [OF assms(1) this assms(3)] show ?thesis by (metis agent_stepE effect_allowed.simps(4) g)
next
  case (Freeze c)
  with assms obtain res where q: "FreezeArtifact E ag ops ce c sv s = (res, s')" and g: "g = wcm_Grant (fac_Meta c)"
    by (auto simp: answer_iff)
  show ?thesis
    by (rule FreezeArtifact_step [OF assms(1) q assms(3)])
      (use g in \<open>auto elim!: agent_stepE simp: freeze_allowed_def holds_lease_def\<close>)
qed (use assms in auto)

end

end
