(* ===== verification/Agent_Query.thy ===== *)
theory Agent_Query
  imports Agent_Core
begin

text \<open>
  The reads of \<^verbatim>\<open>agent/agent.go\<close> and \<^verbatim>\<open>agent/query.go\<close>: one Task, the pages over Tasks, messages
  and events, the public identifier, the snapshot with its event cursor, and the authority-wide
  query. Every page is checked row by row against the request before it is returned.
\<close>


section \<open>Tasks of a context\<close>

definition GetTask :: "agent \<Rightarrow> 's store_ops \<Rightarrow> call \<Rightarrow> TaskRef \<Rightarrow> 's \<Rightarrow> Task agent_result" where
  "GetTask ag ops ce ref s =
     bind_res (validateCallContext (call_ctx ce)) (\<lambda>_.
     bind_res (validateTaskRef ref) (\<lambda>_.
     bind_res (acquireStore ag) (\<lambda>_.
       store_View (call_ctx ce) (\<lambda>v. loadTaskFromStore ops v ref) s)))"

fun check_context_tasks :: "ContextRef \<Rightarrow> StoreTaskRecord list \<Rightarrow> Task list agent_result" where
  "check_context_tasks contextRef [] = Inr []"
| "check_context_tasks contextRef (r # rest) =
     (if \<not> ok (validateStoreTaskRecord r) \<or> task_Context (str_Task r) \<noteq> contextRef
      then Inl ErrCorruptStore
      else bind_res (check_context_tasks contextRef rest) (\<lambda>items. Inr (str_Task r # items)))"

definition ListTasks ::
    "agent \<Rightarrow> 's store_ops \<Rightarrow> call \<Rightarrow> ContextRef \<Rightarrow> TaskPageRequest \<Rightarrow> 's \<Rightarrow> TaskPage agent_result" where
  "ListTasks ag ops ce contextRef request s =
     bind_res (validateCallContext (call_ctx ce)) (\<lambda>_.
     bind_res (validateContextRef contextRef) (\<lambda>_.
     bind_res (normalizePageLimit (tpr_Limit request)) (\<lambda>limit.
     bind_res (case tpr_After request of None \<Rightarrow> Inr () | Some c \<Rightarrow> validateTaskCursor c) (\<lambda>_.
     bind_res (acquireStore ag) (\<lambda>_.
       store_View (call_ctx ce) (\<lambda>v.
         bind_res (map_err StoreFailure (ScanContextTasks ops v
             \<lparr>tcs_Context = contextRef, tcs_After = tpr_After request, tcs_Limit = limit + 1\<rparr>)) (\<lambda>records.
         let hasMore = (int (length records) > limit);
             kept = (if hasMore then take (nat limit) records else records)
         in bind_res (check_context_tasks contextRef kept) (\<lambda>items.
              Inr \<lparr>tp_Items = items,
                   tp_Next = (if hasMore \<and> items \<noteq> []
                              then Some (task_created_cursor (last items)) else None),
                   tp_HasMore = hasMore\<rparr>))) s)))))"


section \<open>Messages and events\<close>

text \<open>
  The loop over the scanned rows: it stops at \<open>limit\<close> rows and checks that the sequence numbers
  continue without a gap. It returns the selected rows and whether it stopped early.
\<close>

fun select_messages ::
    "TaskRef \<Rightarrow> nat \<Rightarrow> uint64 \<Rightarrow> StoreMessageRecord list \<Rightarrow> (StoreMessageRecord list \<times> bool) agent_result"
where
  "select_messages ref limit expected [] = Inr ([], False)"
| "select_messages ref limit expected (r # rest) =
     (case limit of
        0 \<Rightarrow> Inr ([], True)
      | Suc limit' \<Rightarrow>
          if smr_Task r \<noteq> ref \<or> smr_Sequence r \<noteq> expected then Inl ErrCorruptStore
          else bind_res (select_messages ref limit' (expected + 1) rest)
            (\<lambda>(selected, more). Inr (r # selected, more)))"

fun open_messages :: "env \<Rightarrow> agent \<Rightarrow> StoreMessageRecord list \<Rightarrow> Message list agent_result" where
  "open_messages E ag [] = Inr []"
| "open_messages E ag (r # rest) =
     bind_res (messageFromStoreRecord E ag r) (\<lambda>m.
     bind_res (open_messages E ag rest) (\<lambda>ms. Inr (m # ms)))"

text \<open>What the view callback leaves: the selected rows, \<open>Next\<close> and \<open>HasMore\<close>.\<close>

definition message_scan_error :: "store_error \<Rightarrow> agent_error" where
  "message_scan_error e = (if e = ErrStoreRecordTooLarge then ErrCorruptStore else StoreFailure e)"

definition ListMessages_view ::
    "'s store_ops \<Rightarrow> TaskRef \<Rightarrow> uint64 \<Rightarrow> int \<Rightarrow> 's
     \<Rightarrow> (StoreMessageRecord list \<times> uint64 \<times> bool) agent_result" where
  "ListMessages_view ops ref after limit v =
     bind_res (loadTaskFromStore ops v ref) (\<lambda>task.
       if after > task_MessageCount task then Inl ErrInvalidArgument
       else bind_res (map_err message_scan_error (ScanMessages ops v
           \<lparr>sms_Task = ref, sms_After = after, sms_Limit = limit + 1, sms_ReadLimit = maxPageBytes\<rparr>))
         (\<lambda>records.
         bind_res (select_messages ref (nat limit) (after + 1) records) (\<lambda>(selected, more).
           let next = (if selected = [] then after else smr_Sequence (last selected)) in
           if next > task_MessageCount task then Inl ErrCorruptStore
           else if next < task_MessageCount task then
             (if selected = [] then Inl ErrCorruptStore else Inr (selected, next, True))
           else Inr (selected, next, more))))"

definition ListMessages ::
    "env \<Rightarrow> agent \<Rightarrow> 's store_ops \<Rightarrow> call \<Rightarrow> TaskRef \<Rightarrow> PageRequest \<Rightarrow> 's \<Rightarrow> MessagePage agent_result" where
  "ListMessages E ag ops ce ref request s =
     bind_res (validateCallContext (call_ctx ce)) (\<lambda>_.
     bind_res (validateTaskRef ref) (\<lambda>_.
     bind_res (normalizePageRequest request) (\<lambda>limit.
     bind_res (acquireStore ag) (\<lambda>_.
     bind_res (store_View (call_ctx ce) (ListMessages_view ops ref (pr_After request) limit) s)
       (\<lambda>(selected, next, more).
       bind_res (open_messages E ag selected) (\<lambda>items.
         Inr \<lparr>mp_Items = items, mp_Next = next, mp_HasMore = more\<rparr>))))))"

fun select_events ::
    "TaskRef \<Rightarrow> nat \<Rightarrow> uint64 \<Rightarrow> Event list \<Rightarrow> (Event list \<times> bool) agent_result" where
  "select_events ref limit expected [] = Inr ([], False)"
| "select_events ref limit expected (e # rest) =
     (case limit of
        0 \<Rightarrow> Inr ([], True)
      | Suc limit' \<Rightarrow>
          if ev_Task e \<noteq> ref \<or> ev_Sequence e \<noteq> expected then Inl ErrCorruptStore
          else bind_res (validateStoredEvent e) (\<lambda>_.
            bind_res (select_events ref limit' (expected + 1) rest)
              (\<lambda>(selected, more). Inr (e # selected, more))))"

definition ReadEvents_view ::
    "'s store_ops \<Rightarrow> TaskRef \<Rightarrow> uint64 \<Rightarrow> int \<Rightarrow> 's \<Rightarrow> EventPage agent_result" where
  "ReadEvents_view ops ref after limit v =
     bind_res (loadTaskFromStore ops v ref) (\<lambda>task.
       if after > task_EventCount task then Inl ErrInvalidArgument
       else bind_res (map_err StoreFailure (ScanEvents ops v
           \<lparr>ses_Task = ref, ses_After = after, ses_Limit = limit + 1\<rparr>)) (\<lambda>records.
         bind_res (select_events ref (nat limit) (after + 1) records) (\<lambda>(items, more).
           let next = (if items = [] then after else ev_Sequence (last items)) in
           if \<not> more \<and> next \<noteq> task_EventCount task then Inl ErrCorruptStore
           else Inr \<lparr>ep_Items = items, ep_Next = next, ep_HasMore = more\<rparr>)))"

definition ReadEvents ::
    "agent \<Rightarrow> 's store_ops \<Rightarrow> call \<Rightarrow> TaskRef \<Rightarrow> PageRequest \<Rightarrow> 's \<Rightarrow> EventPage agent_result" where
  "ReadEvents ag ops ce ref request s =
     bind_res (validateCallContext (call_ctx ce)) (\<lambda>_.
     bind_res (validateTaskRef ref) (\<lambda>_.
     bind_res (normalizePageRequest request) (\<lambda>limit.
     bind_res (acquireStore ag) (\<lambda>_.
       store_View (call_ctx ce) (ReadEvents_view ops ref (pr_After request) limit) s))))"


section \<open>Messages and Tasks of an authority\<close>

definition GetMessage ::
    "env \<Rightarrow> agent \<Rightarrow> 's store_ops \<Rightarrow> call \<Rightarrow> AuthorityID \<Rightarrow> MessageID \<Rightarrow> 's \<Rightarrow> Message agent_result" where
  "GetMessage E ag ops ce authority mid s =
     bind_res (validateCallContext (call_ctx ce)) (\<lambda>_.
     bind_res (validateStable authority) (\<lambda>_.
     bind_res (validateStable mid) (\<lambda>_.
     bind_res (acquireStore ag) (\<lambda>_.
     bind_res (store_View (call_ctx ce) (\<lambda>v.
         bind_res (map_err (\<lambda>e. if e = ErrStoreRecordNotFound then ErrNotFound
                                else if e = ErrStoreRecordTooLarge then ErrCorruptStore
                                else StoreFailure e)
             (LoadMessage ops v \<lparr>smk_Authority = authority, smk_ID = mid\<rparr> maxPageBytes)) (\<lambda>r.
           if smr_ID r \<noteq> mid \<or> tr_Authority (smr_Task r) \<noteq> authority then Inl ErrCorruptStore
           else if smr_EncodedParts r = [] \<or> int (length (smr_EncodedParts r)) > maxPageBytes
           then Inl ErrCorruptStore
           else Inr r)) s) (\<lambda>r.
       messageFromStoreRecord E ag r)))))"

definition Agent_ResolveTask ::
    "agent \<Rightarrow> 's store_ops \<Rightarrow> call \<Rightarrow> AuthorityID \<Rightarrow> TaskID \<Rightarrow> 's \<Rightarrow> TaskRef agent_result" where
  "Agent_ResolveTask ag ops ce authority tid s =
     bind_res (validateCallContext (call_ctx ce)) (\<lambda>_.
     bind_res (validateStable authority) (\<lambda>_.
     bind_res (validateStable tid) (\<lambda>_.
     bind_res (acquireStore ag) (\<lambda>_.
       store_View (call_ctx ce) (\<lambda>v.
         bind_res (map_err (not_found_as ErrNotFound) (ResolveTask ops v authority tid)) (\<lambda>ref.
           if tr_Authority ref \<noteq> authority \<or> tr_ID ref \<noteq> tid then Inl ErrCorruptStore
           else if \<not> ok (validateTaskRef ref) then Inl ErrCorruptStore
           else Inr ref)) s))))"

definition SnapshotTask ::
    "agent \<Rightarrow> 's store_ops \<Rightarrow> call \<Rightarrow> TaskRef \<Rightarrow> 's \<Rightarrow> TaskSnapshot agent_result" where
  "SnapshotTask ag ops ce ref s =
     bind_res (validateCallContext (call_ctx ce)) (\<lambda>_.
     bind_res (validateTaskRef ref) (\<lambda>_.
     bind_res (acquireStore ag) (\<lambda>_.
       store_View (call_ctx ce) (\<lambda>v.
         bind_res (loadTaskFromStore ops v ref) (\<lambda>task.
           Inr \<lparr>ts_Task = task, ts_EventCursor = task_EventCount task\<rparr>)) s)))"

definition taskFollowsAuthorityCursor :: "Task \<Rightarrow> TaskQueryCursor \<Rightarrow> bool" where
  "taskFollowsAuthorityCursor task cursor =
     (if task_UpdatedAt task < tqc_UpdatedAt cursor then True
      else if task_UpdatedAt task \<noteq> tqc_UpdatedAt cursor then False
      else if wr_ID (tr_Workspace (task_Ref task)) \<noteq> tqc_Workspace cursor
      then wr_ID (tr_Workspace (task_Ref task)) > tqc_Workspace cursor
      else tr_ID (task_Ref task) > tqc_Task cursor)"

definition authorityTaskPrecedes :: "Task \<Rightarrow> Task \<Rightarrow> bool" where
  "authorityTaskPrecedes first second =
     (if task_UpdatedAt first \<noteq> task_UpdatedAt second then task_UpdatedAt first > task_UpdatedAt second
      else if wr_ID (tr_Workspace (task_Ref first)) \<noteq> wr_ID (tr_Workspace (task_Ref second))
      then wr_ID (tr_Workspace (task_Ref first)) < wr_ID (tr_Workspace (task_Ref second))
      else tr_ID (task_Ref first) < tr_ID (task_Ref second))"

text \<open>The empty string stands for \<open>any state\<close> and \<open>any context\<close>.\<close>

definition no_state :: TaskState where
  "no_state = TaskStateOther []"

definition validateAuthorityTaskQueryRecord ::
    "Task \<Rightarrow> AuthorityID \<Rightarrow> TaskQuery \<Rightarrow> Task option \<Rightarrow> unit agent_result" where
  "validateAuthorityTaskQueryRecord task authority request previous =
     (if tr_Authority (task_Ref task) \<noteq> authority
         \<or> (tq_Context request \<noteq> [] \<and> cr_ID (task_Context task) \<noteq> tq_Context request)
         \<or> (tq_State request \<noteq> no_state \<and> task_State task \<noteq> tq_State request)
         \<or> (case tq_UpdatedAtOrAfter request of None \<Rightarrow> False | Some t \<Rightarrow> task_UpdatedAt task < t)
         \<or> (case tq_After request of None \<Rightarrow> False | Some c \<Rightarrow> \<not> taskFollowsAuthorityCursor task c)
      then Inl ErrCorruptStore
      else if (case previous of None \<Rightarrow> False | Some p \<Rightarrow> \<not> authorityTaskPrecedes p task)
      then Inl ErrCorruptStore
      else Inr ())"

fun select_authority_tasks ::
    "AuthorityID \<Rightarrow> TaskQuery \<Rightarrow> nat \<Rightarrow> Task option \<Rightarrow> StoreTaskRecord list
     \<Rightarrow> (Task list \<times> bool) agent_result" where
  "select_authority_tasks authority request limit previous [] = Inr ([], False)"
| "select_authority_tasks authority request limit previous (r # rest) =
     bind_res (validateStoreTaskRecord r) (\<lambda>_.
     bind_res (validateAuthorityTaskQueryRecord (str_Task r) authority request previous) (\<lambda>_.
       case limit of
         0 \<Rightarrow> Inr ([], True)
       | Suc limit' \<Rightarrow>
           bind_res (select_authority_tasks authority request limit' (Some (str_Task r)) rest)
             (\<lambda>(items, more). Inr (str_Task r # items, more))))"

definition ListAuthorityTasks ::
    "agent \<Rightarrow> 's store_ops \<Rightarrow> call \<Rightarrow> AuthorityID \<Rightarrow> TaskQuery \<Rightarrow> 's \<Rightarrow> TaskQueryPage agent_result" where
  "ListAuthorityTasks ag ops ce authority request s =
     bind_res (validateCallContext (call_ctx ce)) (\<lambda>_.
     bind_res (validateStable authority) (\<lambda>_.
     bind_res (normalizePageLimit (tq_Limit request)) (\<lambda>limit.
     bind_res (if tq_Context request \<noteq> [] then validateStable (tq_Context request) else Inr ()) (\<lambda>_.
     if tq_State request \<noteq> no_state \<and> \<not> validTaskState (tq_State request) then Inl ErrInvalidArgument
     else
     bind_res (case tq_UpdatedAtOrAfter request of None \<Rightarrow> Inr () | Some t \<Rightarrow> validateQueryTime t) (\<lambda>_.
     bind_res (case tq_After request of None \<Rightarrow> Inr () | Some c \<Rightarrow> validateTaskQueryCursor c) (\<lambda>_.
     bind_res (acquireStore ag) (\<lambda>_.
       store_View (call_ctx ce) (\<lambda>v.
         bind_res (map_err StoreFailure (ScanAuthorityTasks ops v
             \<lparr>tas_Authority = authority, tas_Context = tq_Context request, tas_State = tq_State request,
              tas_UpdatedAtOrAfter = tq_UpdatedAtOrAfter request, tas_After = tq_After request,
              tas_Limit = limit + 1\<rparr>)) (\<lambda>result.
           if int (length (tar_Records result)) > limit + 1
              \<or> tar_TotalSize result < of_nat (length (tar_Records result))
           then Inl ErrCorruptStore
           else bind_res (select_authority_tasks authority request (nat limit) None (tar_Records result))
             (\<lambda>(items, more).
               Inr \<lparr>tqp_Items = items,
                    tqp_Next = (if more \<and> items \<noteq> [] then Some (task_updated_cursor (last items)) else None),
                    tqp_HasMore = more, tqp_TotalSize = tar_TotalSize result\<rparr>))) s)))))))"

end
