(* ===== verification/Agent_Pages.thy ===== *)
theory Agent_Pages
  imports Agent_Query Agent_Invariant
begin

text \<open>
  What the pages show: over a store whose scans keep their contract and whose database satisfies
  the invariant, a page is exactly the next slice of the history after its cursor, and the
  checks of the rows never fail.
\<close>

section \<open>Consecutive rows\<close>

lemma of_nat_unat_self: "word_of_nat (unat w) = (w :: uint64)"
  by simp

lemma unat_inject: "unat (v :: uint64) = unat w \<longleftrightarrow> v = w"
  by (metis of_nat_unat_self)

lemma last_take:
  assumes "take n xs \<noteq> []"
  shows "last (take n xs) = xs ! (length (take n xs) - 1)" "length (take n xs) - 1 < length xs"
proof -
  have pos: "0 < length (take n xs)" using assms by blast
  then show "length (take n xs) - 1 < length xs" by (simp add: min_def split: if_splits)
  show "last (take n xs) = xs ! (length (take n xs) - 1)" using assms pos by (subst last_conv_nth) (simp_all add: min_def)
qed

lemma consecutive_rows:
  fixes key :: "'a \<Rightarrow> uint64"
  assumes rows: "ordered_rows key S xs" and inj: "inj_on key S"
    and keys: "key ` S = {n. after < n \<and> n \<le> (count::uint64)}"
  shows "map (unat \<circ> key) xs = [Suc (unat after) ..< Suc (unat count)]"
proof -
  have xs: "distinct xs" "set xs = S" "sorted (map key xs)" using rows by (auto simp: ordered_rows_def)
  have "sorted (map (unat \<circ> key) xs)"
    using xs(3) by (simp add: sorted_map word_le_nat_alt)
  moreover have "distinct (map (unat \<circ> key) xs)"
    using xs(1,2) inj by (auto simp: distinct_map inj_on_def unat_inject)
  moreover have "set (map (unat \<circ> key) xs) = set [Suc (unat after) ..< Suc (unat count)]"
  proof -
    have "set (map (unat \<circ> key) xs) = unat ` {n. after < n \<and> n \<le> count}"
      using xs(2) keys by (simp add: image_image [symmetric] image_comp [symmetric])
    also have "\<dots> = {Suc (unat after) ..< Suc (unat count)}"
    proof (intro equalityI subsetI)
      fix m assume "m \<in> {Suc (unat after) ..< Suc (unat count)}"
      moreover have "unat count < 2 ^ LENGTH(64)" by (rule unsigned_less)
      ultimately have "m = unat (word_of_nat m :: uint64)" by (simp add: unat_of_nat)
      with \<open>m \<in> _\<close> show "m \<in> unat ` {n. after < n \<and> n \<le> count}"
        by (intro image_eqI [of _ _ "word_of_nat m"]) (auto simp: word_less_nat_alt word_le_nat_alt)
    qed (auto simp: word_less_nat_alt word_le_nat_alt)
    finally show ?thesis by (simp only: set_upt)
  qed
  ultimately show ?thesis by (intro sorted_distinct_set_unique) (simp_all del: upt_Suc)
qed

lemma consecutive_nth:
  fixes key :: "'a \<Rightarrow> uint64"
  assumes "map (unat \<circ> key) xs = [Suc (unat after) ..< Suc (unat (count::uint64))]" "i < length xs"
  shows "key (xs ! i) = after + 1 + of_nat i"
proof -
  have "unat (key (xs ! i)) = Suc (unat after) + i"
    using arg_cong [OF assms(1), of "\<lambda>l. l ! i"] assms(2) arg_cong [OF assms(1), of length]
    by (simp add: nth_upt del: upt_Suc)
  then have "word_of_nat (unat (key (xs ! i))) = (word_of_nat (unat after) + 1 + word_of_nat i :: uint64)"
    by (simp add: add.commute)
  then show ?thesis by (simp only: of_nat_unat_self)
qed

lemma consecutive_length:
  "map (unat \<circ> key) xs = [Suc (unat after) ..< Suc (unat (count::uint64))] \<Longrightarrow> length xs = unat count - unat after"
  by (drule arg_cong [of _ _ length]) (simp del: upt_Suc)

lemma consecutive_next:
  fixes key :: "'a \<Rightarrow> uint64"
  assumes "map (unat \<circ> key) xs = [Suc (unat after) ..< Suc (unat (count::uint64))]"
  shows "(if take n xs = [] then after else key (last (take n xs))) = of_nat (unat after + length (take n xs))"
proof (cases "take n xs = []")
  case False
  then obtain m where m: "length (take n xs) = Suc m" by (metis length_0_conv not0_implies_Suc)
  with last_take [OF False] have "last (take n xs) = xs ! m" "m < length xs" by auto
  with consecutive_nth [OF assms, of m] False m show ?thesis by (simp add: add.commute add.left_commute)
qed (simp only: list.size simp_thms if_True add_0_right of_nat_unat_self)

text \<open>The loops accept consecutive rows.\<close>

lemma select_events_ok:
  "(\<And>i. i < length xs \<Longrightarrow> ev_Task (xs ! i) = ref \<and> ev_Sequence (xs ! i) = expected + of_nat i
      \<and> ok (validateStoredEvent (xs ! i))) \<Longrightarrow>
   select_events ref limit expected xs = Inr (take limit xs, limit < length xs)"
proof (induction ref limit expected xs rule: select_events.induct)
  case (2 ref limit expected e rest)
  from 2(2) [of 0] have e: "ev_Task e = ref" "ev_Sequence e = expected" "validateStoredEvent e = Inr ()"
    by (auto simp: ok_unit)
  have "ev_Task (rest ! i) = ref \<and> ev_Sequence (rest ! i) = expected + 1 + of_nat i \<and> ok (validateStoredEvent (rest ! i))"
    if "i < length rest" for i
    using 2(2) [of "Suc i"] that by (simp add: add.assoc)
  with 2(1) e show ?case by (cases limit) auto
qed simp

lemma select_messages_ok:
  "(\<And>i. i < length xs \<Longrightarrow> smr_Task (xs ! i) = ref \<and> smr_Sequence (xs ! i) = expected + of_nat i) \<Longrightarrow>
   select_messages ref limit expected xs = Inr (take limit xs, limit < length xs)"
proof (induction ref limit expected xs rule: select_messages.induct)
  case (2 ref limit expected e rest)
  from 2(2) [of 0] have e: "smr_Task e = ref" "smr_Sequence e = expected" by auto
  have "smr_Task (rest ! i) = ref \<and> smr_Sequence (rest ! i) = expected + 1 + of_nat i"
    if "i < length rest" for i
    using 2(2) [of "Suc i"] that by (simp add: add.assoc)
  with 2(1) e show ?case by (cases limit) auto
qed simp

lemma check_context_tasks_ok:
  "(\<And>r. r \<in> set rs \<Longrightarrow> ok (validateStoreTaskRecord r) \<and> task_Context (str_Task r) = ctx) \<Longrightarrow>
   check_context_tasks ctx rs = Inr (map str_Task rs)"
  by (induction ctx rs rule: check_context_tasks.induct) auto

text \<open>The order the rows of an authority are checked against is the order of the cursors.\<close>

lemma taskFollows_cursor: "taskFollowsAuthorityCursor t c \<longleftrightarrow> c < task_updated_cursor t"
  by (cases c) (auto simp: taskFollowsAuthorityCursor_def less_TaskQueryCursor_def task_updated_cursor_def)

lemma authorityTaskPrecedes_cursor: "authorityTaskPrecedes a b \<longleftrightarrow> task_updated_cursor a < task_updated_cursor b"
  by (auto simp: authorityTaskPrecedes_def less_TaskQueryCursor_def task_updated_cursor_def)

lemma select_authority_tasks_ok:
  assumes "\<And>r. r \<in> set rs \<Longrightarrow> ok (validateStoreTaskRecord r) \<and> ok (validateAuthorityTaskQueryRecord (str_Task r) authority q None)"
    "sorted_wrt (\<lambda>a b. task_updated_cursor (str_Task a) < task_updated_cursor (str_Task b)) rs"
    "\<And>p r. previous = Some p \<Longrightarrow> r \<in> set rs \<Longrightarrow> task_updated_cursor p < task_updated_cursor (str_Task r)"
  shows "select_authority_tasks authority q limit previous rs = Inr (map str_Task (take limit rs), limit < length rs)"
  using assms
proof (induction authority q limit previous rs rule: select_authority_tasks.induct)
  case (2 authority q limit previous r rest)
  from 2(2) [of r] 2(4) [of _ r] have r: "validateStoreTaskRecord r = Inr ()"
      "validateAuthorityTaskQueryRecord (str_Task r) authority q previous = Inr ()"
    by (auto simp: ok_unit validateAuthorityTaskQueryRecord_def authorityTaskPrecedes_cursor split: option.splits if_splits)
  show ?case
  proof (cases limit)
    case (Suc n)
    have "select_authority_tasks authority q n (Some (str_Task r)) rest = Inr (map str_Task (take n rest), n < length rest)"
      using 2(1) [OF r Suc] 2(2,3) by auto
    with r Suc show ?thesis by simp
  qed (use r in simp)
qed simp

text \<open>The rows of a Task are numbered without gaps.\<close>

lemma event_rows_keys:
  assumes "events_inv d" "db_tasks d ref = Some r"
  shows "inj_on ev_Sequence (event_rows d ref after)"
    "ev_Sequence ` event_rows d ref after = {n. after < n \<and> n \<le> task_EventCount (str_Task r)}"
proof -
  have key: "db_events d (ref, ev_Sequence e) = Some e" if "e \<in> event_rows d ref after" for e
    using that assms(1) unfolding event_rows_def events_inv_def ran_def by fastforce
  show "inj_on ev_Sequence (event_rows d ref after)"
    by (rule inj_onI) (metis key option.inject)
  have dom: "(ref, n) \<in> dom (db_events d) \<longleftrightarrow> 1 \<le> n \<and> n \<le> task_EventCount (str_Task r)" for n
    using assms unfolding events_inv_def by simp
  show "ev_Sequence ` event_rows d ref after = {n. after < n \<and> n \<le> task_EventCount (str_Task r)}"
  proof (intro equalityI subsetI)
    fix n assume n: "n \<in> {n. after < n \<and> n \<le> task_EventCount (str_Task r)}"
    then have "1 \<le> n" by (auto simp: uint64_le_nat uint64_less_nat)
    with n dom obtain e where e: "db_events d (ref, n) = Some e" by blast
    with assms(1) have "ev_Task e = ref" "ev_Sequence e = n" unfolding events_inv_def by blast+
    with e n show "n \<in> ev_Sequence ` event_rows d ref after"
      by (intro image_eqI [of _ _ e]) (auto simp: event_rows_def ran_def)
  next
    fix n assume "n \<in> ev_Sequence ` event_rows d ref after"
    then obtain e where e: "e \<in> event_rows d ref after" "n = ev_Sequence e" by blast
    with key [OF e(1)] dom [of n] show "n \<in> {n. after < n \<and> n \<le> task_EventCount (str_Task r)}"
      by (auto simp: event_rows_def)
  qed
qed

lemma message_rows_keys:
  assumes "messages_inv d" "db_tasks d ref = Some t"
  shows "inj_on smr_Sequence (message_rows d ref after)"
    "smr_Sequence ` message_rows d ref after = {n. after < n \<and> n \<le> task_MessageCount (str_Task t)}"
proof -
  show "inj_on smr_Sequence (message_rows d ref after)"
    using assms(1) by (auto simp: inj_on_def message_rows_def messages_inv_def)
  show "smr_Sequence ` message_rows d ref after = {n. after < n \<and> n \<le> task_MessageCount (str_Task t)}"
  proof (intro equalityI subsetI)
    fix n assume n: "n \<in> {n. after < n \<and> n \<le> task_MessageCount (str_Task t)}"
    then have "1 \<le> n" by (auto simp: uint64_le_nat uint64_less_nat)
    with n assms obtain m where "m \<in> ran (db_messages d)" "smr_Task m = ref" "smr_Sequence m = n"
      unfolding messages_inv_def by blast
    with n show "n \<in> smr_Sequence ` message_rows d ref after"
      by (intro image_eqI [of _ _ m]) (auto simp: message_rows_def)
  next
    fix n assume "n \<in> smr_Sequence ` message_rows d ref after"
    then obtain m k where "db_messages d k = Some m" "smr_Task m = ref" "after < smr_Sequence m" "n = smr_Sequence m"
      by (auto simp: message_rows_def ran_def)
    moreover from this have "message_record_ok d m" using assms(1) unfolding messages_inv_def by blast
    ultimately show "n \<in> {n. after < n \<and> n \<le> task_MessageCount (str_Task t)}"
      using assms(2) by (auto simp: message_record_ok_def)
  qed
qed

lemma normalizePageRequest_Inr:
  assumes "normalizePageRequest request = Inr limit"
  shows "1 \<le> limit" "limit \<le> MaxPageSize" "scan_limit_ok (limit + 1)" "pr_After request \<le> MaxInt64"
  using assms normalizePageLimit_Inr [of "pr_Limit request" limit]
  by (auto simp: normalizePageRequest_def scan_limit_ok_def split: if_splits)

section \<open>The pages\<close>

text \<open>The events with sequence numbers \<open>i\<close> to \<open>j - 1\<close>.\<close>

definition events_between :: "agent_db \<Rightarrow> TaskRef \<Rightarrow> nat \<Rightarrow> nat \<Rightarrow> Event list" where
  "events_between d ref i j = map (\<lambda>n. the (db_events d (ref, of_nat n))) [i ..< j]"

text \<open>The scan behind an authority query.\<close>

definition query_scan :: "AuthorityID \<Rightarrow> TaskQuery \<Rightarrow> int \<Rightarrow> StoreTaskAuthorityScan" where
  "query_scan authority q limit =
     \<lparr>tas_Authority = authority, tas_Context = tq_Context q, tas_State = tq_State q,
      tas_UpdatedAtOrAfter = tq_UpdatedAtOrAfter q, tas_After = tq_After q, tas_Limit = limit\<rparr>"

context agent_store_scans
begin

lemma ReadEvents_page:
  assumes s: "inv s" "domain_inv (db s)" and t: "db_tasks (db s) ref = Some r"
    and call: "\<not> ag_closed ag" "call_ctx ce = LiveContext" "normalizePageRequest request = Inr limit"
      "pr_After request \<le> task_EventCount (str_Task r)"
  shows "ReadEvents ag ops ce ref request s =
    (let from = unat (pr_After request); count = unat (task_EventCount (str_Task r)); to = min (from + nat limit) count in
     Inr \<lparr>ep_Items = events_between (db s) ref (Suc from) (Suc to), ep_Next = of_nat to, ep_HasMore = to < count\<rparr>)"
proof -
  let ?a = "pr_After request" and ?n = "task_EventCount (str_Task r)" and ?l = "nat limit"
  note task = domain_inv_task [OF s(2) t] and page = normalizePageRequest_Inr [OF call(3)]
  have ev: "events_inv (db s)" using s(2) by (simp add: domain_inv_def)
  from ScanEvents [OF s(1), of "\<lparr>ses_Task = ref, ses_After = ?a, ses_Limit = limit + 1\<rparr>"] page(3)
  obtain xs where rows: "ordered_rows ev_Sequence (event_rows (db s) ref ?a) xs"
    and scan: "ScanEvents ops s \<lparr>ses_Task = ref, ses_After = ?a, ses_Limit = limit + 1\<rparr> = Inr (take (nat (limit + 1)) xs)"
    by auto
  have seq: "map (unat \<circ> ev_Sequence) xs = [Suc (unat ?a) ..< Suc (unat ?n)]"
    using consecutive_rows [OF rows event_rows_keys [OF ev t]] .
  note nth = consecutive_nth [OF seq] and len = consecutive_length [OF seq]
  have le: "unat ?a \<le> unat ?n" using call(4) by (simp add: word_le_nat_alt)
  have row: "db_events (db s) (ref, ev_Sequence (xs ! i)) = Some (xs ! i)" "ev_Task (xs ! i) = ref" "ok (validateStoredEvent (xs ! i))"
    if "i < length xs" for i
  proof -
    have "xs ! i \<in> event_rows (db s) ref ?a" using nth_mem [OF that] rows by (simp add: ordered_rows_def)
    then obtain k n where k: "db_events (db s) (k, n) = Some (xs ! i)" "ev_Task (xs ! i) = ref" by (auto simp: event_rows_def ran_def)
    then have "ev_Task (xs ! i) = k \<and> ev_Sequence (xs ! i) = n \<and> ok (validateStoredEvent (xs ! i))"
      using ev unfolding events_inv_def by blast
    with k show "db_events (db s) (ref, ev_Sequence (xs ! i)) = Some (xs ! i)" "ev_Task (xs ! i) = ref" "ok (validateStoredEvent (xs ! i))"
      by auto
  qed
  let ?ys = "take (nat (limit + 1)) xs"
  have sel: "select_events ref ?l (?a + 1) ?ys = Inr (take ?l xs, ?l < length xs)"
  proof (subst select_events_ok)
    show "Inr (take ?l ?ys, ?l < length ?ys) = Inr (take ?l xs, ?l < length xs)" using page(1) by (auto simp: min_def)
  qed (use row nth in auto)
  have to: "min (unat ?a + ?l) (unat ?n) = unat ?a + length (take ?l xs)" using le len by auto
  have next_eq: "(if take ?l xs = [] then ?a else ev_Sequence (last (take ?l xs))) = of_nat (unat ?a + length (take ?l xs))"
    using consecutive_next [OF seq] .
  have items: "take ?l xs = events_between (db s) ref (Suc (unat ?a)) (Suc (min (unat ?a + ?l) (unat ?n)))"
    unfolding to events_between_def
  proof (rule nth_equalityI)
    fix i assume "i < length (take ?l xs)"
    then show "take ?l xs ! i = map (\<lambda>n. the (db_events (db s) (ref, of_nat n))) [Suc (unat ?a) ..< Suc (unat ?a + length (take ?l xs))] ! i"
      using row(1) [of i] nth [of i] by (simp add: add.commute add.left_commute of_nat_unat_self del: upt_Suc)
  qed (simp del: upt_Suc)
  have more: "?l < length xs \<longleftrightarrow> min (unat ?a + ?l) (unat ?n) < unat ?n" using le len page(1) by auto
  have load: "loadTaskFromStore ops s ref = Inr (str_Task r)"
    using loadTaskRecordFromStore_Inr [OF s(1), of ref r] t task by (simp add: loadTaskFromStore_def)
  define items' to' where d: "items' = take ?l xs" "to' = unat ?a + length (take ?l xs)"
  have full: "of_nat to' = ?n" if "\<not> ?l < length xs"
    using that len le by (simp add: d(2) of_nat_unat_self)
  have "ReadEvents_view ops ref ?a limit s = Inr \<lparr>ep_Items = items', ep_Next = of_nat to', ep_HasMore = ?l < length xs\<rparr>"
    using call(4) load scan sel [folded d] next_eq [folded d] full by (auto simp: ReadEvents_view_def Let_def)
  moreover have "validateTaskRef ref = Inr ()" using task(1,3) by (simp add: ok_unit ok_validateStoredTask)
  ultimately show ?thesis
    using call(1-3) items [unfolded to, folded d] more [unfolded to, folded d] unfolding Let_def to [folded d]
    by (simp add: ReadEvents_def validateCallContext_def acquireStore_def store_View_def)
qed

text \<open>
  A page of messages is a run of consecutive messages after the cursor; its length is at most the
  limit, and it is empty only at the end. Whether more follow is told truly.
\<close>

lemma ListMessages_page:
  assumes s: "inv s" "domain_inv (db s)" and t: "db_tasks (db s) ref = Some r"
    and call: "\<not> ag_closed ag" "call_ctx ce = LiveContext" "normalizePageRequest request = Inr limit"
      "pr_After request \<le> task_MessageCount (str_Task r)"
  shows "\<exists>selected to. ListMessages E ag ops ce ref request s =
      bind_res (open_messages E ag selected) (\<lambda>items.
        Inr \<lparr>mp_Items = items, mp_Next = of_nat to, mp_HasMore = to < unat (task_MessageCount (str_Task r))\<rparr>)
    \<and> unat (pr_After request) \<le> to \<and> to \<le> unat (pr_After request) + nat limit \<and> to \<le> unat (task_MessageCount (str_Task r))
    \<and> (to = unat (pr_After request) \<longrightarrow> to = unat (task_MessageCount (str_Task r)))
    \<and> set selected \<subseteq> ran (db_messages (db s)) \<and> (\<forall>m \<in> set selected. smr_Task m = ref)
    \<and> map (unat \<circ> smr_Sequence) selected = [Suc (unat (pr_After request)) ..< Suc to]"
proof -
  let ?a = "pr_After request" and ?n = "task_MessageCount (str_Task r)" and ?l = "nat limit"
  let ?scan = "\<lparr>sms_Task = ref, sms_After = ?a, sms_Limit = limit + 1, sms_ReadLimit = maxPageBytes\<rparr>"
  note task = domain_inv_task [OF s(2) t] and page = normalizePageRequest_Inr [OF call(3)]
  have ms: "messages_inv (db s)" using s(2) by (simp add: domain_inv_def)
  have "1 \<le> maxPageBytes" by (simp add: maxPageBytes_def)
  with ScanMessages [OF s(1), of ?scan] page(3)
  obtain xs where rows: "ordered_rows smr_Sequence (message_rows (db s) ref ?a) xs"
    and scan: "case ScanMessages ops s ?scan of
                Inr ys \<Rightarrow> (\<exists>n \<le> nat (sms_Limit ?scan). ys = take n xs) \<and> message_bytes ys \<le> sms_ReadLimit ?scan \<and> (ys = [] \<longrightarrow> xs = [])
              | Inl e \<Rightarrow> e = ErrStoreRecordTooLarge \<and> xs \<noteq> [] \<and> sms_ReadLimit ?scan < int (length (smr_EncodedParts (hd xs)))"
    by auto
  have row: "xs ! i \<in> ran (db_messages (db s))" "smr_Task (xs ! i) = ref" "int (length (smr_EncodedParts (xs ! i))) \<le> maxPageBytes"
    if "i < length xs" for i
  proof -
    have "xs ! i \<in> message_rows (db s) ref ?a" using nth_mem [OF that] rows by (simp add: ordered_rows_def)
    then show m: "xs ! i \<in> ran (db_messages (db s))" "smr_Task (xs ! i) = ref" by (auto simp: message_rows_def)
    then obtain k where "db_messages (db s) k = Some (xs ! i)" by (auto simp: ran_def)
    then have "message_record_ok (db s) (xs ! i)" using ms unfolding messages_inv_def by blast
    then show "int (length (smr_EncodedParts (xs ! i))) \<le> maxPageBytes" by (simp add: message_record_ok_def)
  qed
  obtain k where k: "k \<le> nat (limit + 1)" "ScanMessages ops s ?scan = Inr (take k xs)" "take k xs = [] \<longrightarrow> xs = []"
    using scan row(3) [of 0] by (cases "ScanMessages ops s ?scan") (auto simp: hd_conv_nth)
  have seq: "map (unat \<circ> smr_Sequence) xs = [Suc (unat ?a) ..< Suc (unat ?n)]"
    using consecutive_rows [OF rows message_rows_keys [OF ms t]] .
  note nth = consecutive_nth [OF seq] and len = consecutive_length [OF seq]
  have le: "unat ?a \<le> unat ?n" using call(4) by (simp add: word_le_nat_alt)
  let ?sel = "take ?l (take k xs)" and ?to = "unat ?a + length (take ?l (take k xs))"
  have sel: "select_messages ref ?l (?a + 1) (take k xs) = Inr (?sel, ?l < length (take k xs))"
    by (rule select_messages_ok) (use row nth in auto)
  have to: "?to \<le> unat ?n" "?to \<le> unat ?a + ?l" "?to = unat ?a \<longrightarrow> ?to = unat ?n"
    using len le k(3) page(1) by (auto simp: min_def split: if_splits)
  have toN: "unat (of_nat ?to :: uint64) = ?to"
  proof -
    have "unat ?n < 2 ^ LENGTH(64)" by (rule unsigned_less)
    then have "m \<le> unat ?n \<Longrightarrow> unat (word_of_nat m :: uint64) = m" for m by (simp add: unat_of_nat)
    then show ?thesis using to(1) by blast
  qed
  have next_eq: "(if ?sel = [] then ?a else smr_Sequence (last ?sel)) = of_nat ?to"
    using consecutive_next [OF seq, of "min ?l k"] unfolding take_take .
  have seqs: "map (unat \<circ> smr_Sequence) ?sel = [Suc (unat ?a) ..< Suc ?to]"
  proof -
    have "map (unat \<circ> smr_Sequence) ?sel = take (length ?sel) (map (unat \<circ> smr_Sequence) xs)"
      by (simp add: take_map min_def)
    then show ?thesis using to(1) unfolding seq by (simp add: take_upt del: upt_Suc)
  qed
  have full: "\<not> ?l < length (take k xs)" if "?to = unat ?n" using that len le by auto
  have empty: "?sel = [] \<Longrightarrow> ?to = unat ?n" using to(3) by (metis add_0_right list.size(3))
  have load: "loadTaskFromStore ops s ref = Inr (str_Task r)"
    using loadTaskRecordFromStore_Inr [OF s(1), of ref r] t task by (simp add: loadTaskFromStore_def)
  have "\<not> (of_nat ?to :: uint64) > ?n" "(of_nat ?to :: uint64) < ?n \<longleftrightarrow> ?to < unat ?n"
    using to(1) toN by (auto simp: word_less_nat_alt)
  note cmp = this
  define sel' to' where d: "sel' = ?sel" "to' = ?to"
  have "ListMessages_view ops ref ?a limit s = Inr (sel', of_nat to', to' < unat ?n)"
    using load call(4) k(2) sel [folded d(1)] next_eq [folded d(2), folded d(1)] cmp [folded d(2)] to(1) [folded d(2)]
      full [folded d(2)] empty [folded d(2), folded d(1)]
    by (auto simp: ListMessages_view_def Let_def)
  then have "ListMessages_view ops ref ?a limit s = Inr (?sel, of_nat ?to, ?to < unat ?n)" unfolding d .
  moreover have "validateTaskRef ref = Inr ()" using task(1,3) by (simp add: ok_unit ok_validateStoredTask)
  ultimately have "ListMessages E ag ops ce ref request s =
      bind_res (open_messages E ag ?sel) (\<lambda>items. Inr \<lparr>mp_Items = items, mp_Next = of_nat ?to, mp_HasMore = ?to < unat ?n\<rparr>)"
    using call by (simp add: ListMessages_def validateCallContext_def acquireStore_def store_View_def)
  moreover have "set ?sel \<subseteq> ran (db_messages (db s))" "\<forall>m \<in> set ?sel. smr_Task m = ref"
    using row(1,2) by (auto simp: in_set_conv_nth)
  ultimately show ?thesis using to seqs by (intro exI [of _ ?sel] exI [of _ ?to]) auto
qed

text \<open>A page of the Tasks of a context, oldest first.\<close>

lemma ListTasks_page:
  assumes s: "inv s" "domain_inv (db s)"
    and call: "\<not> ag_closed ag" "call_ctx ce = LiveContext" "normalizePageLimit (tpr_Limit request) = Inr limit"
      "ok (validateContextRef ctx)" "\<And>c. tpr_After request = Some c \<Longrightarrow> ok (validateTaskCursor c)"
  shows "\<exists>xs. ordered_rows (\<lambda>r. task_created_cursor (str_Task r))
        {r \<in> ran (db_tasks (db s)). task_Context (str_Task r) = ctx
           \<and> (\<forall>x. tpr_After request = Some x \<longrightarrow> x < task_created_cursor (str_Task r))} xs
    \<and> ListTasks ag ops ce ctx request s =
        Inr \<lparr>tp_Items = map str_Task (take (nat limit) xs),
             tp_Next = (if nat limit < length xs then Some (task_created_cursor (str_Task (xs ! (nat limit - 1)))) else None),
             tp_HasMore = nat limit < length xs\<rparr>"
proof -
  let ?scan = "\<lparr>tcs_Context = ctx, tcs_After = tpr_After request, tcs_Limit = limit + 1\<rparr>"
  let ?S = "{r \<in> ran (db_tasks (db s)). task_Context (str_Task r) = ctx
           \<and> (\<forall>x. tpr_After request = Some x \<longrightarrow> x < task_created_cursor (str_Task r))}"
  have l: "1 \<le> limit" "scan_limit_ok (limit + 1)"
    using normalizePageLimit_Inr [OF call(3)] by (auto simp: scan_limit_ok_def)
  from ScanContextTasks [OF s(1), of ?scan] l(2) obtain xs where
    rows: "ordered_rows (\<lambda>r. task_created_cursor (str_Task r)) ?S xs"
    and scan: "ScanContextTasks ops s ?scan = Inr (take (nat (limit + 1)) xs)" by auto
  have ok: "ok (validateStoreTaskRecord r) \<and> task_Context (str_Task r) = ctx" if "r \<in> set xs" for r
    using that rows domain_inv_task(2) [OF s(2)] by (auto simp: ordered_rows_def ran_def)
  let ?ys = "take (nat (limit + 1)) xs"
  let ?kept = "if int (length ?ys) > limit then take (nat limit) ?ys else ?ys"
  have more: "int (length ?ys) > limit \<longleftrightarrow> nat limit < length xs" using l(1) by (auto simp: min_def)
  have kept: "?kept = take (nat limit) xs" using l(1) by (auto simp: min_def)
  have "check_context_tasks ctx ?kept = Inr (map str_Task (take (nat limit) xs))"
    unfolding kept by (rule check_context_tasks_ok) (use ok in \<open>auto dest: in_set_takeD\<close>)
  moreover have "last (map str_Task (take (nat limit) xs)) = str_Task (xs ! (nat limit - 1))" "take (nat limit) xs \<noteq> []"
    if "nat limit < length xs" 
  proof -
    show ne: "take (nat limit) xs \<noteq> []" using that l(1) by auto
    with last_take(1) [OF this] that show "last (map str_Task (take (nat limit) xs)) = str_Task (xs ! (nat limit - 1))"
      by (subst last_map [OF ne]) (simp add: min_def)
  qed
  moreover have "validateContextRef ctx = Inr ()" using call(4) by (simp add: ok_unit)
  moreover have "(case tpr_After request of None \<Rightarrow> Inr () | Some c \<Rightarrow> validateTaskCursor c) = Inr ()"
    using call(5) by (auto simp: ok_unit split: option.splits)
  ultimately have "ListTasks ag ops ce ctx request s =
        Inr \<lparr>tp_Items = map str_Task (take (nat limit) xs),
             tp_Next = (if nat limit < length xs then Some (task_created_cursor (str_Task (xs ! (nat limit - 1)))) else None),
             tp_HasMore = nat limit < length xs\<rparr>"
    using call scan more unfolding ListTasks_def
    by (simp add: validateCallContext_def acquireStore_def store_View_def Let_def)
  with rows show ?thesis by blast
qed

text \<open>A page of the Tasks of an authority, most recently updated first, with the size of the whole result.\<close>

lemma authority_cursor_inj:
  assumes "domain_inv d"
  shows "inj_on (\<lambda>r. task_updated_cursor (str_Task r)) (authority_rows d scan)"
proof (rule inj_onI)
  fix a b assume ab: "a \<in> authority_rows d scan" "b \<in> authority_rows d scan"
    "task_updated_cursor (str_Task a) = task_updated_cursor (str_Task b)"
  then have "task_Ref (str_Task a) = task_Ref (str_Task b)"
    by (auto simp: authority_rows_def task_updated_cursor_def intro: TaskRef.equality WorkspaceRef.equality)
  moreover have "db_tasks d (task_Ref (str_Task r)) = Some r" if "r \<in> authority_rows d scan" for r
    using that domain_inv_task(1) [OF assms] by (auto simp: authority_rows_def ran_def)
  ultimately show "a = b" using ab(1,2) by (metis option.inject)
qed

lemma ListAuthorityTasks_page:
  assumes s: "inv s" "domain_inv (db s)"
    and call: "\<not> ag_closed ag" "call_ctx ce = LiveContext" "normalizePageLimit (tq_Limit q) = Inr limit"
      "match_stable authority" "tq_Context q \<noteq> [] \<Longrightarrow> match_stable (tq_Context q)" "tq_State q = no_state \<or> validTaskState (tq_State q)"
      "\<And>t. tq_UpdatedAtOrAfter q = Some t \<Longrightarrow> ok (validateQueryTime t)"
      "\<And>c. tq_After q = Some c \<Longrightarrow> ok (validateTaskQueryCursor c)"
    and size: "card (authority_rows (db s) (query_scan authority q (limit + 1))) < 2 ^ 64"
  shows "\<exists>xs. ordered_rows (\<lambda>r. task_updated_cursor (str_Task r))
        {r \<in> authority_rows (db s) (query_scan authority q (limit + 1)).
           \<forall>x. tq_After q = Some x \<longrightarrow> x < task_updated_cursor (str_Task r)} xs
    \<and> ListAuthorityTasks ag ops ce authority q s =
        Inr \<lparr>tqp_Items = map str_Task (take (nat limit) xs),
             tqp_Next = (if nat limit < length xs then Some (task_updated_cursor (str_Task (xs ! (nat limit - 1)))) else None),
             tqp_HasMore = nat limit < length xs,
             tqp_TotalSize = of_nat (card (authority_rows (db s) (query_scan authority q (limit + 1))))\<rparr>"
proof -
  let ?scan = "query_scan authority q (limit + 1)"
  let ?R = "authority_rows (db s) ?scan"
  let ?S = "{r \<in> ?R. \<forall>x. tq_After q = Some x \<longrightarrow> x < task_updated_cursor (str_Task r)}"
  have l: "1 \<le> limit" "scan_limit_ok (limit + 1)"
    using normalizePageLimit_Inr [OF call(3)] by (auto simp: scan_limit_ok_def)
  from ScanAuthorityTasks [OF s(1), of ?scan] l(2) obtain xs where
    rows: "ordered_rows (\<lambda>r. task_updated_cursor (str_Task r)) ?S xs"
    and scan: "ScanAuthorityTasks ops s ?scan = Inr \<lparr>tar_Records = take (nat (limit + 1)) xs, tar_TotalSize = of_nat (card ?R)\<rparr>"
    by (auto simp: query_scan_def)
  let ?ys = "take (nat (limit + 1)) xs"
  have xs: "distinct xs" "set xs = ?S" "sorted (map (\<lambda>r. task_updated_cursor (str_Task r)) xs)"
    using rows by (auto simp: ordered_rows_def)
  have "distinct (map (\<lambda>r. task_updated_cursor (str_Task r)) xs)"
    using xs(1,2) authority_cursor_inj [OF s(2)] by (auto simp: distinct_map intro: inj_on_subset)
  with xs(3) have "sorted_wrt (<) (map (\<lambda>r. task_updated_cursor (str_Task r)) xs)" by (simp add: strict_sorted_iff)
  then have sorted: "sorted_wrt (\<lambda>a b. task_updated_cursor (str_Task a) < task_updated_cursor (str_Task b)) ?ys"
    by (simp add: sorted_wrt_map sorted_wrt_take)
  have ok: "ok (validateStoreTaskRecord r) \<and> ok (validateAuthorityTaskQueryRecord (str_Task r) authority q None)" if "r \<in> set ?ys" for r
  proof -
    from that have "r \<in> ?S" using xs(2) by (auto dest: in_set_takeD)
    then show ?thesis using domain_inv_task(2) [OF s(2)]
      by (auto simp: authority_rows_def query_scan_def validateAuthorityTaskQueryRecord_def taskFollows_cursor no_state_def ran_def
          split: option.splits)
  qed
  have sel: "select_authority_tasks authority q (nat limit) None ?ys = Inr (map str_Task (take (nat limit) xs), nat limit < length xs)"
  proof (subst select_authority_tasks_ok)
    show "Inr (map str_Task (take (nat limit) ?ys), nat limit < length ?ys) = Inr (map str_Task (take (nat limit) xs), nat limit < length xs)"
      using l(1) by (auto simp: min_def)
  qed (use ok sorted in auto)
  have last: "last (map str_Task (take (nat limit) xs)) = str_Task (xs ! (nat limit - 1))" "take (nat limit) xs \<noteq> []"
    if "nat limit < length xs"
  proof -
    show ne: "take (nat limit) xs \<noteq> []" using that l(1) by auto
    with last_take(1) [OF this] that show "last (map str_Task (take (nat limit) xs)) = str_Task (xs ! (nat limit - 1))"
      by (subst last_map [OF ne]) (simp add: min_def)
  qed
  have total: "\<not> (of_nat (card ?R) :: uint64) < of_nat (length ?ys)" "\<not> int (length ?ys) > limit + 1"
  proof -
    have "length xs = card ?S" using xs(1,2) distinct_card by metis
    moreover have "finite ?R"
    proof -
      from ScanAuthorityTasks [OF s(1), of "?scan\<lparr>tas_After := None\<rparr>"] l(2) obtain zs where
        "set zs = {r \<in> authority_rows (db s) (?scan\<lparr>tas_After := None\<rparr>). True}"
        by (auto simp: query_scan_def ordered_rows_def)
      then have "?R = set zs" by (simp add: authority_rows_def)
      then show ?thesis by simp
    qed
    ultimately have "length ?ys \<le> card ?R" using card_mono [of ?R ?S] by auto
    with size show "\<not> (of_nat (card ?R) :: uint64) < of_nat (length ?ys)"
      by (auto simp: word_less_nat_alt unat_of_nat)
    show "\<not> int (length ?ys) > limit + 1" using l(1) by auto
  qed
  have v: "validateStable authority = Inr ()" "(if tq_Context q \<noteq> [] then validateStable (tq_Context q) else Inr ()) = Inr ()"
    "(case tq_UpdatedAtOrAfter q of None \<Rightarrow> Inr () | Some t \<Rightarrow> validateQueryTime t) = Inr ()"
    "(case tq_After q of None \<Rightarrow> Inr () | Some c \<Rightarrow> validateTaskQueryCursor c) = Inr ()"
    using call by (auto simp: ok_unit split: option.splits)
  have "ListAuthorityTasks ag ops ce authority q s =
        Inr \<lparr>tqp_Items = map str_Task (take (nat limit) xs),
             tqp_Next = (if nat limit < length xs then Some (task_updated_cursor (str_Task (xs ! (nat limit - 1)))) else None),
             tqp_HasMore = nat limit < length xs, tqp_TotalSize = of_nat (card ?R)\<rparr>"
    using call(1-3,6) scan [unfolded query_scan_def] sel total v last unfolding ListAuthorityTasks_def query_scan_def
    by (auto simp: validateCallContext_def acquireStore_def store_View_def)
  with rows show ?thesis by blast
qed

end

end
