(* ===== verification/Memory_Image.thy ===== *)
theory Memory_Image
  imports Memory_Store
begin

text \<open>
  The media and handles of \<^verbatim>\<open>humantest/agent_store_memory.go\<close>: an image holds the committed state
  and admits one live Store handle; \<open>Open\<close> makes a handle, \<open>close\<close> and \<open>Abandon\<close> end it, and
  \<open>View\<close> and \<open>Update\<close> run a callback through a handle. A handle is a number, its position in the
  list of the handles ever made.
\<close>

record memoryImage =
  img_state :: "memoryAgentState option"
  img_owner :: "nat option"
  img_closed :: "bool list"

datatype image_error = ErrMemoryAgentStoreImageInUse | ErrImageStoreClosed

definition NewMemoryAgentStoreImage :: memoryImage where
  "NewMemoryAgentStoreImage = \<lparr>img_state = Some newMemoryAgentState, img_owner = None, img_closed = []\<rparr>"

text \<open>The state of an image; the nil maps of a zero image read as empty.\<close>

definition image_state :: "memoryImage \<Rightarrow> memoryAgentState" where
  "image_state i = (case img_state i of None \<Rightarrow> newMemoryAgentState | Some st \<Rightarrow> st)"

definition handle_closed :: "memoryImage \<Rightarrow> nat \<Rightarrow> bool" where
  "handle_closed i h = (h < length (img_closed i) \<longrightarrow> img_closed i ! h)"

definition Image_Open :: "memoryImage \<Rightarrow> (image_error + nat) \<times> memoryImage" where
  "Image_Open i =
     (if img_owner i \<noteq> None then (Inl ErrMemoryAgentStoreImageInUse, i)
      else let h = length (img_closed i) in
        (Inr h, \<lparr>img_state = Some (image_state i), img_owner = Some h, img_closed = img_closed i @ [False]\<rparr>))"

definition Image_Abandon :: "memoryImage \<Rightarrow> nat \<Rightarrow> (image_error + unit) \<times> memoryImage" where
  "Image_Abandon i h =
     (if handle_closed i h \<or> img_owner i \<noteq> Some h then (Inl ErrImageStoreClosed, i)
      else (Inr (), i\<lparr>img_closed := (img_closed i)[h := True], img_owner := None\<rparr>))"

definition Handle_close :: "memoryImage \<Rightarrow> nat \<Rightarrow> memoryImage" where
  "Handle_close i h =
     i\<lparr>img_closed := (img_closed i)[h := True],
       img_owner := (if img_owner i = Some h then None else img_owner i)\<rparr>"

definition live_unit :: "memoryAgentState \<Rightarrow> memoryAgentUnit" where
  "live_unit st = \<lparr>unit_state = st, unit_active = True\<rparr>"

definition Handle_View ::
    "memoryImage \<Rightarrow> nat \<Rightarrow> go_context \<Rightarrow> (memoryAgentUnit \<Rightarrow> 'a agent_result) \<Rightarrow> 'a agent_result" where
  "Handle_View i h ctx callback =
     (case ctx of
        NilContext \<Rightarrow> Inl ErrInvalidArgument
      | DoneContext \<Rightarrow> Inl ErrContextDone
      | LiveContext \<Rightarrow>
          if handle_closed i h \<or> img_owner i \<noteq> Some h then Inl (StoreFailure ErrStoreClosed)
          else callback (live_unit (image_state i)))"

definition Handle_Update ::
    "memoryImage \<Rightarrow> nat \<Rightarrow> go_context \<Rightarrow> (memoryAgentUnit \<Rightarrow> ('a \<times> memoryAgentUnit) agent_result)
     \<Rightarrow> 'a agent_result \<times> memoryImage" where
  "Handle_Update i h ctx callback =
     (case ctx of
        NilContext \<Rightarrow> (Inl ErrInvalidArgument, i)
      | DoneContext \<Rightarrow> (Inl ErrContextDone, i)
      | LiveContext \<Rightarrow>
          if handle_closed i h \<or> img_owner i \<noteq> Some h then (Inl (StoreFailure ErrStoreClosed), i)
          else case callback (live_unit (image_state i)) of
            Inl e \<Rightarrow> (Inl e, i)
          | Inr (a, u) \<Rightarrow> (Inr a, i\<lparr>img_state := Some (unit_state u)\<rparr>))"

text \<open>Everything that can happen to an image, with callbacks of any result type observed by their effect.\<close>

inductive image_step :: "memoryImage \<Rightarrow> memoryImage \<Rightarrow> bool" where
  Open: "image_step i (snd (Image_Open i))"
| Abandon: "image_step i (snd (Image_Abandon i h))"
| Close: "image_step i (Handle_close i h)"
| Update: "image_step i (snd (Handle_Update i h ctx (callback :: memoryAgentUnit \<Rightarrow> (unit \<times> memoryAgentUnit) agent_result)))"

text \<open>The owner, if there is one, is the only open handle.\<close>

definition image_inv :: "memoryImage \<Rightarrow> bool" where
  "image_inv i \<longleftrightarrow>
     (case img_owner i of
        None \<Rightarrow> \<forall>h < length (img_closed i). img_closed i ! h
      | Some owner \<Rightarrow> owner < length (img_closed i)
          \<and> (\<forall>h < length (img_closed i). img_closed i ! h \<longleftrightarrow> h \<noteq> owner))"

text \<open>A handle that is closed stays closed, and handles are never forgotten.\<close>

definition handles_grow :: "memoryImage \<Rightarrow> memoryImage \<Rightarrow> bool" where
  "handles_grow i j \<longleftrightarrow>
     length (img_closed i) \<le> length (img_closed j)
     \<and> (\<forall>h < length (img_closed i). img_closed i ! h \<longrightarrow> img_closed j ! h)"

lemma mark_closed: "h' < length c \<Longrightarrow> c[h := True] ! h' \<longleftrightarrow> h' = h \<or> c ! h'"
  by (cases "h' = h") auto

lemma Handle_Update_handles [simp]:
  "img_owner (snd (Handle_Update i h ctx f)) = img_owner i"
  "img_closed (snd (Handle_Update i h ctx f)) = img_closed i"
  by (auto simp: Handle_Update_def split: go_context.splits sum.splits)

lemma image_step_inv: "image_step i j \<Longrightarrow> image_inv i \<Longrightarrow> image_inv j"
proof (induction rule: image_step.induct)
  case (Open i)
  then show ?case
    by (cases "img_owner i") (auto simp: Image_Open_def image_inv_def Let_def nth_append)
next
  case (Abandon i h)
  then show ?case by (cases "img_owner i") (auto simp: Image_Abandon_def image_inv_def mark_closed)
next
  case (Close i h)
  then show ?case by (cases "img_owner i") (auto simp: Handle_close_def image_inv_def mark_closed)
qed (simp add: image_inv_def split: option.splits)

lemma image_step_grow: "image_step i j \<Longrightarrow> handles_grow i j"
proof (induction rule: image_step.induct)
  case (Open i)
  then show ?case by (auto simp: Image_Open_def handles_grow_def Let_def nth_append)
next
  case (Abandon i h)
  then show ?case by (auto simp: Image_Abandon_def handles_grow_def mark_closed)
next
  case (Close i h)
  then show ?case by (auto simp: Handle_close_def handles_grow_def mark_closed)
qed (simp add: handles_grow_def)

interpretation image: invariant_system "\<lambda>i. i = NewMemoryAgentStoreImage" image_step image_inv handles_grow
proof unfold_locales
  show "i = NewMemoryAgentStoreImage \<Longrightarrow> image_inv i" for i
    by (simp add: NewMemoryAgentStoreImage_def image_inv_def)
  show "handles_grow i j \<Longrightarrow> handles_grow j k \<Longrightarrow> handles_grow i k" for i j k
    by (auto simp: handles_grow_def)
  show "handles_grow i i" for i by (simp add: handles_grow_def)
qed (auto intro: image_step_inv image_step_grow)

lemma stale_handle:
  "handle_closed i h \<or> img_owner i \<noteq> Some h \<Longrightarrow>
     Handle_View i h LiveContext f = Inl (StoreFailure ErrStoreClosed)
     \<and> Handle_Update i h LiveContext g = (Inl (StoreFailure ErrStoreClosed), i)"
  by (auto simp: Handle_View_def Handle_Update_def)

text \<open>Through a live handle the image behaves as the port's \<open>View\<close> and \<open>Update\<close>.\<close>

lemma live_handle_View:
  assumes "img_owner i = Some h" "\<not> handle_closed i h"
  shows "Handle_View i h ctx f = store_View ctx f (live_unit (image_state i))"
  using assms by (auto simp: Handle_View_def store_View_def split: go_context.splits)

lemma live_handle_Update:
  assumes "img_owner i = Some h" "\<not> handle_closed i h"
    and "store_Update ctx Committed f (live_unit (image_state i)) = (r, u)"
  shows "fst (Handle_Update i h ctx f) = r"
    and "image_state (snd (Handle_Update i h ctx f)) = unit_state u"
  using assms
  by (auto simp: Handle_Update_def store_Update_def image_state_def live_unit_def
      split: go_context.splits sum.splits option.splits)


section \<open>Properties\<close>

text \<open>
  A handle that was released or abandoned never touches the image again: whatever
  happens to the image afterwards, reopening it included, \<open>View\<close> and \<open>Update\<close> through the old
  handle fail with \<open>ErrStoreClosed\<close> and change nothing.
\<close>

theorem stale_handle_is_inert:
  assumes "reachable_from (\<lambda>i. i = NewMemoryAgentStoreImage) image_step i" "image_step\<^sup>*\<^sup>* i j"
    "h < length (img_closed i)" "handle_closed i h"
  shows "Handle_View j h LiveContext f = Inl (StoreFailure ErrStoreClosed)
    \<and> Handle_Update j h LiveContext g = (Inl (StoreFailure ErrStoreClosed), j)"
proof -
  have "handles_grow i j" using image.steps_R [OF assms(2) image.reachable_inv [OF assms(1)]] .
  then have "handle_closed j h" using assms(3,4) by (auto simp: handles_grow_def handle_closed_def)
  then show ?thesis by (intro stale_handle disjI1)
qed

definition I_opened :: memoryImage where "I_opened = snd (Image_Open NewMemoryAgentStoreImage)"
definition I_closed :: memoryImage where "I_closed = Handle_close I_opened 0"
definition I_reopened :: memoryImage where "I_reopened = snd (Image_Open I_closed)"

lemma I_reach: "reachable_from (\<lambda>i. i = NewMemoryAgentStoreImage) image_step I_opened"
  "reachable_from (\<lambda>i. i = NewMemoryAgentStoreImage) image_step I_closed" "image_step I_closed I_reopened"
proof -
  show o: "reachable_from (\<lambda>i. i = NewMemoryAgentStoreImage) image_step I_opened"
    unfolding I_opened_def by (rule reachable_from.step, rule reachable_from.start, rule refl, rule image_step.Open)
  show "reachable_from (\<lambda>i. i = NewMemoryAgentStoreImage) image_step I_closed"
    unfolding I_closed_def by (rule reachable_from.step [OF o image_step.Close])
  show "image_step I_closed I_reopened" unfolding I_reopened_def by (rule image_step.Open)
qed

lemma I_handles: "0 < length (img_closed I_closed)" "handle_closed I_closed 0" "img_owner I_opened = Some 0"
  by code_simp+

theorem stale_handle_is_inert_witness:
  "Handle_View I_reopened 0 LiveContext (\<lambda>_. Inr ()) = Inl (StoreFailure ErrStoreClosed)
    \<and> Handle_Update I_reopened 0 LiveContext (\<lambda>u. Inr ((), u)) = (Inl (StoreFailure ErrStoreClosed), I_reopened)"
  by (rule stale_handle_is_inert [OF I_reach(2) r_into_rtranclp [of image_step, OF I_reach(3)] I_handles(1,2)])

text \<open>
  An image has at most one open handle, its owner, and through it \<open>View\<close> and
  \<open>Update\<close> are those of the Store port on the image's state: a callback's error leaves the state,
  its success commits exactly the state the callback built.
\<close>

theorem live_handle_is_the_port:
  assumes "reachable_from (\<lambda>i. i = NewMemoryAgentStoreImage) image_step i" "img_owner i = Some h"
    "store_Update ctx Committed g (live_unit (image_state i)) = (r, u)"
  shows "(\<forall>h'. \<not> handle_closed i h' \<longleftrightarrow> h' = h)
    \<and> Handle_View i h ctx f = store_View ctx f (live_unit (image_state i))
    \<and> fst (Handle_Update i h ctx g) = r \<and> image_state (snd (Handle_Update i h ctx g)) = unit_state u"
proof -
  have o: "\<not> handle_closed i h' \<longleftrightarrow> h' = h" for h'
    using image.reachable_inv [OF assms(1)] assms(2) by (auto simp: image_inv_def handle_closed_def)
  then have "\<not> handle_closed i h" by simp
  then show ?thesis
    using o live_handle_View [OF assms(2)] live_handle_Update [OF assms(2) _ assms(3)] by blast
qed

theorem live_handle_is_the_port_witness:
  "(\<forall>h'. \<not> handle_closed I_opened h' \<longleftrightarrow> h' = 0)
    \<and> Handle_View I_opened 0 LiveContext (\<lambda>_. Inr ()) = store_View LiveContext (\<lambda>_. Inr ()) (live_unit (image_state I_opened))
    \<and> fst (Handle_Update I_opened 0 LiveContext (\<lambda>u. Inr ((), u))) = Inr ()
    \<and> image_state (snd (Handle_Update I_opened 0 LiveContext (\<lambda>u. Inr ((), u)))) = unit_state (live_unit (image_state I_opened))"
  by (rule live_handle_is_the_port [OF I_reach(1) I_handles(3)]) (simp add: store_Update_def)

end
