(* ===== verification/Memory_Agent.thy ===== *)
theory Memory_Agent
  imports Agent_Requests Agent_Pages Memory_Image
begin

text \<open>
  The Agent over the memory store: the states that sequences of mutating calls reach from a new
  store, with any configuration, caller, clock and commit outcome in each call. The invariant and
  the history relation of the domain carry over through the refinement.
\<close>

definition agent_reaches :: "env \<Rightarrow> memoryAgentUnit \<Rightarrow> bool" where
  "agent_reaches E = reachable_from (\<lambda>s. s = live_unit newMemoryAgentState) (agent_call E memory_ops)"

definition agent_later :: "env \<Rightarrow> memoryAgentUnit \<Rightarrow> memoryAgentUnit \<Rightarrow> bool" where
  "agent_later E = (agent_call E memory_ops)\<^sup>*\<^sup>*"

lemma mem_call_inv:
  assumes "agent_call E memory_ops s s'" "mem_inv s" "db_inv E (mem_db s)"
  shows "mem_inv s'" "db_inv E (mem_db s')" "db_grows (mem_db s) (mem_db s')"
proof -
  have "mem_inv s' \<and> db_inv E (mem_db s') \<and> db_grows (mem_db s) (mem_db s')"
  proof (cases "s' = s")
    case True
    with assms show ?thesis by (simp add: db_grows_refl)
  next
    case False
    from mem.agent_call_refines [OF assms(1,2) False] obtain eff cid digest now
      where "mem_inv s'" "agent_step E eff cid digest now (mem_db s) (mem_db s')" by blast
    then show ?thesis using agent_step_inv agent_step_grows assms(3) by blast
  qed
  then show "mem_inv s'" "db_inv E (mem_db s')" "db_grows (mem_db s) (mem_db s')" by blast+
qed

lemma new_store_empty: "mem_inv (live_unit newMemoryAgentState)" "mem_db (live_unit newMemoryAgentState) = empty_db"
proof -
  show e: "mem_db (live_unit newMemoryAgentState) = empty_db"
    by (auto simp: mem_db_def live_unit_def newMemoryAgentState_def empty_db_def event_map_def fun_eq_iff)
  show "mem_inv (live_unit newMemoryAgentState)"
    unfolding mem_inv_def e by (simp add: live_unit_def newMemoryAgentState_def maps_ok_def event_map_def db_keyed_def empty_db_def)
qed

interpretation agent_mem: invariant_system "\<lambda>s. s = live_unit newMemoryAgentState" "agent_call E memory_ops"
    "\<lambda>s. mem_inv s \<and> db_inv E (mem_db s)" "\<lambda>s s'. db_grows (mem_db s) (mem_db s')"
  by unfold_locales (auto simp: new_store_empty db_inv_empty db_grows_refl intro: mem_call_inv db_grows_trans)

lemma reaches_inv:
  assumes "agent_reaches E s" shows "mem_inv s" "db_inv E (mem_db s)" "domain_inv (mem_db s)"
  using agent_mem.reachable_inv assms by (auto simp: agent_reaches_def db_inv_def)

lemma later_grows:
  assumes "agent_reaches E s" "agent_later E s s'" shows "agent_reaches E s'" "db_grows (mem_db s) (mem_db s')" "mem_inv s'"
proof -
  show "agent_reaches E s'"
    using assms(2,1) unfolding agent_later_def agent_reaches_def
    by (induction rule: rtranclp_induct) (auto intro: reachable_from.intros)
  then show "mem_inv s'" by (rule reaches_inv)
  show "db_grows (mem_db s) (mem_db s')"
    using agent_mem.steps_R assms reaches_inv [OF assms(1)] by (simp add: agent_later_def)
qed

lemma reaches_call: "agent_reaches E s \<Longrightarrow> agent_call E memory_ops s s' \<Longrightarrow> agent_reaches E s'"
  unfolding agent_reaches_def by (rule reachable_from.intros)

lemma call_later: "agent_call E memory_ops s s' \<Longrightarrow> agent_later E s s'"
  by (simp add: agent_later_def)

lemma later_refl: "agent_later E s s"
  by (simp add: agent_later_def)

lemma later_trans: "agent_later E s t \<Longrightarrow> agent_later E t u \<Longrightarrow> agent_later E s u"
  unfolding agent_later_def by (rule rtranclp_trans)

end
