(* ===== verification/Agent_Scenario.thy ===== *)
theory Agent_Scenario
  imports Memory_Agent
begin

text \<open>
  One complete run of a Task on the memory store: created, leased, accepted, an Artifact frozen,
  completed, applied. The environment encodes the results of the run injectively. The theorems
  of the development are applied to the states of this run.
\<close>

definition W_ref :: TaskRef where
  "W_ref = \<lparr>tr_Workspace = \<lparr>wr_Authority = ''a'', wr_ID = ''w''\<rparr>, tr_ID = ''t''\<rparr>"

definition W_part :: Part where
  "W_part = \<lparr>part_MediaType = ''text/plain'', part_Data = [104]\<rparr>"

definition W_create :: CreateTaskCommand where
  "W_create = \<lparr>ctc_Meta = \<lparr>cm_ID = ''k1'', cm_ExpectedRevision = 0\<rparr>, ctc_Task = W_ref,
     ctc_Context = \<lparr>cr_Authority = ''a'', cr_ID = ''c''\<rparr>, ctc_Message = \<lparr>mi_ID = ''m1'', mi_Parts = [W_part]\<rparr>\<rparr>"

definition W_acquire :: AcquireLeaseCommand where
  "W_acquire = \<lparr>alc_ID = ''k2'', alc_Task = W_ref, alc_Worker = ''w1''\<rparr>"

definition W_grant :: LeaseGrant where
  "W_grant = \<lparr>lg_Task = W_ref, lg_Worker = ''w1'', lg_Fence = 1\<rparr>"

definition W_accept :: WorkerTaskCommand where
  "W_accept = \<lparr>wtc_Meta = \<lparr>wcm_ID = ''k3'', wcm_ExpectedRevision = 1, wcm_Grant = W_grant\<rparr>, wtc_Task = W_ref\<rparr>"

definition W_freeze :: FreezeArtifactCommand where
  "W_freeze = \<lparr>fac_Meta = \<lparr>wcm_ID = ''k4'', wcm_ExpectedRevision = 2, wcm_Grant = W_grant\<rparr>, fac_Task = W_ref,
     fac_Artifact = ''ar'', fac_ExpectedBaseRevision = ''r0'',
     fac_Payload = \<lparr>pl_MediaType = ''text/plain'', pl_Data = [1]\<rparr>\<rparr>"

definition W_complete :: CompleteTaskCommand where
  "W_complete = \<lparr>cmp_Meta = \<lparr>wcm_ID = ''k5'', wcm_ExpectedRevision = 3, wcm_Grant = W_grant\<rparr>, cmp_Task = W_ref,
     cmp_Submission = ''s'', cmp_Message = \<lparr>mi_ID = ''m2'', mi_Parts = [W_part]\<rparr>, cmp_Artifact = Some (freeze_ref W_freeze)\<rparr>"

definition W_claim :: ClaimLeaseCommand where
  "W_claim = \<lparr>clc_ID = ''k2'', clc_Authority = ''a'', clc_Worker = ''w1''\<rparr>"

definition W_fence :: FenceLeaseCommand where
  "W_fence = \<lparr>flc_ID = ''k7'', flc_Grant = W_grant\<rparr>"

definition W_claim2 :: ClaimLeaseCommand where
  "W_claim2 = \<lparr>clc_ID = ''k9'', clc_Authority = ''a'', clc_Worker = ''w2''\<rparr>"

definition W_cancel :: TaskCommand where
  "W_cancel = \<lparr>tc_Meta = \<lparr>cm_ID = ''k8'', cm_ExpectedRevision = 3\<rparr>, tc_Task = W_ref\<rparr>"

text \<open>The environment without the results, and the Artifact it derives.\<close>

definition W_bytes :: "string \<Rightarrow> bytes" where
  "W_bytes s = map (\<lambda>c. of_nat (byte c)) s"

fun W_marshal0 :: "json_doc \<Rightarrow> bytes option" where
  "W_marshal0 (JCommand kind (CmdCreateTask c)) = Some (1 # W_bytes (mi_ID (ctc_Message c)))"
| "W_marshal0 (JCommand kind _) = Some (2 # W_bytes kind)"
| "W_marshal0 (JParts _) = Some [3]"
| "W_marshal0 (JPayload _) = Some [4]"
| "W_marshal0 (JNextRevision _ _ _ _) = Some [5]"
| "W_marshal0 (JArtifactIdentity _ _ _ _ _ _) = Some [6]"
| "W_marshal0 _ = None"

definition W_wire :: wire_json where
  "W_wire = \<lparr>wj_marshal_envelope = (\<lambda>_. None), wj_marshal_value = (\<lambda>_. Some [118]), wj_fields = (\<lambda>_. None),
     wj_uint16 = (\<lambda>_. None), wj_string = (\<lambda>_. None), wj_bool = (\<lambda>_. None)\<rparr>"

definition W0 :: env where
  "W0 = \<lparr>sha256_Sum256 = (\<lambda>bs. replicate 31 0 @ [sum_list bs]), json_Marshal = W_marshal0,
     json_Unmarshal = (\<lambda>_ _. None), mime_ParseMediaType = (\<lambda>_. True), env_wire = W_wire\<rparr>"

definition W_artifact :: Artifact where
  "W_artifact = (artifactIdentity W0 W_freeze)\<lparr>art_FrozenAt := 100\<rparr>"

definition W_receipt :: RecordApplyReceiptCommand where
  "W_receipt = \<lparr>rrc_CommandID = ''k6'', rrc_Receipt = ''rc'', rrc_Artifact = art_Ref W_artifact,
     rrc_ArtifactDigest = art_Digest W_artifact, rrc_BaseRevision = art_BaseRevision W_artifact,
     rrc_ResultRevision = art_ResultRevision W_artifact, rrc_Decision = ApplySuccess,
     rrc_ObservedRevision = art_ResultRevision W_artifact, rrc_Code = [], rrc_Message = []\<rparr>"

definition W_task1 :: Task where "W_task1 = created_task W_create 100"
definition W_task2 :: Task where "W_task2 = transition_next accept_change W_ref 100 W_task1"
definition W_task3 :: Task where "W_task3 = freeze_next W_freeze 100 W_task2"
definition W_task4 :: Task where
  "W_task4 = transition_next (complete_change (cmp_Message W_complete) ''s'' (cmp_Artifact W_complete)) W_ref 100 W_task3"

definition W_task5 :: Task where "W_task5 = transition_next cancel_change W_ref 100 W_task3"

definition W_assignment :: LeaseAssignment where
  "W_assignment = \<lparr>la_Grant = W_grant, la_Task = W_task1, la_GrantedAt = 100\<rparr>"

definition W_assignment2 :: LeaseAssignment where
  "W_assignment2 = \<lparr>la_Grant = \<lparr>lg_Task = W_ref, lg_Worker = ''w2'', lg_Fence = 2\<rparr>, la_Task = W_task1, la_GrantedAt = 100\<rparr>"

definition W_results :: "(json_doc \<times> bytes) list" where
  "W_results = [(JTask W_task1, [11]), (JLeaseAssignment W_assignment, [12]), (JTask W_task2, [13]),
     (JFreezeResult \<lparr>far_Task = W_task3, far_Artifact = W_artifact\<rparr>, [14]), (JTask W_task4, [15]),
     (JApplyReceipt (new_receipt W_receipt 100), [16]), (JLeaseGrant W_grant, [17]), (JTask W_task5, [18]),
     (JLeaseAssignment W_assignment2, [19])]"

definition W_marshal :: "json_doc \<Rightarrow> bytes option" where
  "W_marshal v = (case map_of W_results v of Some bs \<Rightarrow> Some bs | None \<Rightarrow> W_marshal0 v)"

definition W_unmarshal :: "json_dest \<Rightarrow> bytes \<Rightarrow> json_doc option" where
  "W_unmarshal D bs = (if D = DParts then Some (JParts [W_part]) else map_of (map (\<lambda>(v, b). (b, v)) W_results) bs)"

definition W :: env where
  "W = W0\<lparr>json_Marshal := W_marshal, json_Unmarshal := W_unmarshal\<rparr>"

definition W_agent :: agent where
  "W_agent = \<lparr>ag_closed = False, ag_protector = None, ag_allowPlaintext = False, ag_maxArtifactBytes = 1000\<rparr>"

definition W_call :: call where
  "W_call = \<lparr>call_ctx = LiveContext, call_clock = Some 100, call_commit = Committed\<rparr>"

section \<open>The states of the run\<close>

definition W_cmd :: "string \<Rightarrow> string \<Rightarrow> string \<Rightarrow> string \<Rightarrow> 8 word \<Rightarrow> string \<Rightarrow> StoreCommandKey \<times> StoreCommandRecord" where
  "W_cmd cid kind digest rk n rd =
     (\<lparr>sck_Authority = ''a'', sck_ID = cid\<rparr>,
      \<lparr>scr_Authority = ''a'', scr_ID = cid, scr_Kind = kind, scr_IntentDigest = replicate 62 (CHR ''0'') @ digest,
       scr_ResultKind = rk, scr_Result = [n], scr_ResultDigest = replicate 62 (CHR ''0'') @ rd, scr_CreatedAt = 100\<rparr>)"

definition W_msg :: "string \<Rightarrow> uint64 \<Rightarrow> Author \<Rightarrow> StoreMessageKey \<times> StoreMessageRecord" where
  "W_msg mid n author =
     (\<lparr>smk_Authority = ''a'', smk_ID = mid\<rparr>,
      \<lparr>smr_ID = mid, smr_Task = W_ref, smr_Sequence = n, smr_Author = author, smr_EncodedParts = [118],
       smr_PartsDigest = replicate 63 (CHR ''0'') @ ''3'', smr_CreatedAt = 100\<rparr>)"

definition W_ev :: "uint64 \<Rightarrow> EventType \<Rightarrow> TaskState \<Rightarrow> string \<Rightarrow> string \<Rightarrow> string \<Rightarrow> uint64 \<times> Event" where
  "W_ev n ty st m sub a =
     (n, \<lparr>ev_Task = W_ref, ev_Sequence = n, ev_Type = ty, ev_State = st, ev_Revision = n, ev_Message = m,
          ev_Submission = sub, ev_Artifact = a, ev_OccurredAt = 100\<rparr>)"

definition W_rec :: "Task \<Rightarrow> string \<Rightarrow> uint64 \<Rightarrow> ArtifactState option \<Rightarrow> TaskRef \<times> StoreTaskRecord" where
  "W_rec t owner f a = (W_ref, \<lparr>str_Task = t, str_Lease = \<lparr>ls_Owner = owner, ls_Fence = f\<rparr>, str_ArtifactState = a\<rparr>)"

definition W_head :: "string \<Rightarrow> WorkspaceRef \<times> WorkspaceHead" where
  "W_head r = (tr_Workspace W_ref, \<lparr>wh_Workspace = tr_Workspace W_ref, wh_ConfirmedRevision = r, wh_UpdatedAt = 100\<rparr>)"

definition W_m1 :: memoryAgentState where
  "W_m1 = newMemoryAgentState\<lparr>
     ms_commands := [W_cmd ''k1'' ''create_task'' ''9f'' ''task'' 11 ''0b''],
     ms_tasks := [W_rec W_task1 [] 0 None], ms_messages := [W_msg ''m1'' 1 AuthorCaller],
     ms_events := [(W_ref, [W_ev 1 EventTaskSubmitted TaskSubmitted ''m1'' [] []])]\<rparr>"

definition W_m2 :: memoryAgentState where
  "W_m2 = W_m1\<lparr>
     ms_commands := ms_commands W_m1 @ [W_cmd ''k2'' ''acquire_lease'' ''55'' ''lease_assignment'' 12 ''0c''],
     ms_tasks := [W_rec W_task1 ''w1'' 1 None],
     ms_leaseGrants := [((W_ref, 1), \<lparr>slg_Grant = W_grant, slg_GrantedAt = 100\<rparr>)]\<rparr>"

definition W_m3 :: memoryAgentState where
  "W_m3 = W_m2\<lparr>
     ms_commands := ms_commands W_m2 @ [W_cmd ''k3'' ''accept_task'' ''84'' ''task'' 13 ''0d''],
     ms_tasks := [W_rec W_task2 ''w1'' 1 None],
     ms_events := [(W_ref, [W_ev 1 EventTaskSubmitted TaskSubmitted ''m1'' [] [], W_ev 2 EventTaskAccepted TaskWorking [] [] []])]\<rparr>"

definition W_m4 :: memoryAgentState where
  "W_m4 = W_m3\<lparr>
     ms_commands := ms_commands W_m3 @ [W_cmd ''k4'' ''freeze_artifact'' ''30'' ''freeze_artifact'' 14 ''0e''],
     ms_tasks := [W_rec W_task3 ''w1'' 1 (Some ArtifactFrozen)],
     ms_events := [(W_ref, [W_ev 1 EventTaskSubmitted TaskSubmitted ''m1'' [] [], W_ev 2 EventTaskAccepted TaskWorking [] [] [],
        W_ev 3 EventArtifactFrozen TaskWorking [] [] ''ar''])],
     ms_artifacts := [(art_Ref W_artifact, \<lparr>sar_Artifact = W_artifact, sar_EncodedPayload = [118]\<rparr>)],
     ms_workspaceHeads := [W_head ''r0'']\<rparr>"

definition W_m5 :: memoryAgentState where
  "W_m5 = W_m4\<lparr>
     ms_commands := ms_commands W_m4 @ [W_cmd ''k5'' ''complete_task'' ''6d'' ''task'' 15 ''0f''],
     ms_tasks := [W_rec W_task4 [] 1 (Some ArtifactPublished)],
     ms_messages := [W_msg ''m1'' 1 AuthorCaller, W_msg ''m2'' 2 AuthorAgent],
     ms_events := [(W_ref, [W_ev 1 EventTaskSubmitted TaskSubmitted ''m1'' [] [], W_ev 2 EventTaskAccepted TaskWorking [] [] [],
        W_ev 3 EventArtifactFrozen TaskWorking [] [] ''ar'', W_ev 4 EventTaskCompleted TaskCompleted ''m2'' ''s'' ''ar''])],
     ms_artifacts := [(art_Ref W_artifact,
        \<lparr>sar_Artifact = W_artifact\<lparr>art_State := ArtifactPublished, art_PublishedAt := Some 100\<rparr>, sar_EncodedPayload = [118]\<rparr>)],
     ms_submissions := [(W_ref, the (task_Submission W_task4))]\<rparr>"

definition W_m6 :: memoryAgentState where
  "W_m6 = W_m5\<lparr>
     ms_commands := ms_commands W_m5 @ [W_cmd ''k6'' ''record_apply_receipt'' ''51'' ''apply_receipt'' 16 ''10''],
     ms_workspaceHeads := [W_head (art_ResultRevision W_artifact)],
     ms_applyReceipts := [(art_Ref W_artifact, new_receipt W_receipt 100)]\<rparr>"

text \<open>Branches of the run: the lease claimed instead of acquired, fenced and claimed again, the Task canceled after the freeze.\<close>

definition W_c2m :: memoryAgentState where
  "W_c2m = W_m2\<lparr>ms_commands := ms_commands W_m1 @ [W_cmd ''k2'' ''claim_lease'' ''71'' ''lease_assignment'' 12 ''0c'']\<rparr>"

definition W_f3m :: memoryAgentState where
  "W_f3m = W_m2\<lparr>
     ms_commands := ms_commands W_m2 @ [W_cmd ''k7'' ''fence_lease'' ''6c'' ''lease_grant'' 17 ''11''],
     ms_tasks := [W_rec W_task1 [] 1 None]\<rparr>"

definition W_g4m :: memoryAgentState where
  "W_g4m = W_f3m\<lparr>
     ms_commands := ms_commands W_f3m @ [W_cmd ''k9'' ''claim_lease'' ''71'' ''lease_assignment'' 19 ''13''],
     ms_tasks := [W_rec W_task1 ''w2'' 2 None],
     ms_leaseGrants := [((W_ref, 1), \<lparr>slg_Grant = W_grant, slg_GrantedAt = 100\<rparr>),
        ((W_ref, 2), \<lparr>slg_Grant = la_Grant W_assignment2, slg_GrantedAt = 100\<rparr>)]\<rparr>"

definition W_x5m :: memoryAgentState where
  "W_x5m = W_m4\<lparr>
     ms_commands := ms_commands W_m4 @ [W_cmd ''k8'' ''cancel_task'' ''7a'' ''task'' 18 ''12''],
     ms_tasks := [W_rec W_task5 [] 1 (Some ArtifactDiscarded)],
     ms_events := [(W_ref, [W_ev 1 EventTaskSubmitted TaskSubmitted ''m1'' [] [], W_ev 2 EventTaskAccepted TaskWorking [] [] [],
        W_ev 3 EventArtifactFrozen TaskWorking [] [] ''ar'', W_ev 4 EventTaskCanceled TaskCanceled [] [] []])],
     ms_artifacts := [(art_Ref W_artifact,
        \<lparr>sar_Artifact = W_artifact\<lparr>art_State := ArtifactDiscarded, art_DiscardedAt := Some 100\<rparr>, sar_EncodedPayload = [118]\<rparr>)]\<rparr>"

section \<open>The calls of the run\<close>

definition W_s0 :: memoryAgentUnit where "W_s0 = live_unit newMemoryAgentState"
definition W_s1 :: memoryAgentUnit where "W_s1 = live_unit W_m1"
definition W_s2 :: memoryAgentUnit where "W_s2 = live_unit W_m2"
definition W_s3 :: memoryAgentUnit where "W_s3 = live_unit W_m3"
definition W_s4 :: memoryAgentUnit where "W_s4 = live_unit W_m4"
definition W_s5 :: memoryAgentUnit where "W_s5 = live_unit W_m5"
definition W_s6 :: memoryAgentUnit where "W_s6 = live_unit W_m6"
definition W_c2 :: memoryAgentUnit where "W_c2 = live_unit W_c2m"
definition W_f3 :: memoryAgentUnit where "W_f3 = live_unit W_f3m"
definition W_g4 :: memoryAgentUnit where "W_g4 = live_unit W_g4m"
definition W_x5 :: memoryAgentUnit where "W_x5 = live_unit W_x5m"

lemma W_run1: "CreateTask W W_agent memory_ops W_call W_create W_s0 W_s0 = (Inr W_task1, W_s1)"
  by code_simp

lemma W_run2: "AcquireLease W W_agent memory_ops W_call W_acquire W_s1 = (Inr W_assignment, W_s2)"
  by code_simp

lemma W_run3: "AcceptTask W W_agent memory_ops W_call W_accept W_s2 W_s2 = (Inr W_task2, W_s3)"
  by code_simp

lemma W_run4: "FreezeArtifact W W_agent memory_ops W_call W_freeze W_s3 W_s3 =
    (Inr \<lparr>far_Task = W_task3, far_Artifact = W_artifact\<rparr>, W_s4)"
  by code_simp

lemma W_run5: "CompleteTask W W_agent memory_ops W_call W_complete W_s4 W_s4 = (Inr W_task4, W_s5)"
  by code_simp

lemma W_run6: "RecordApplyReceipt W W_agent memory_ops W_call W_receipt W_s5 = (Inr (new_receipt W_receipt 100), W_s6)"
  by code_simp

lemma W_run_claim: "ClaimLease W W_agent memory_ops W_call W_claim W_s1 = (Inr W_assignment, W_c2)"
  by code_simp

lemma W_run_fence: "FenceLease W W_agent memory_ops W_call W_fence W_s2 = (Inr (), W_f3)"
  by code_simp

lemma W_run_claim2: "ClaimLease W W_agent memory_ops W_call W_claim2 W_f3 = (Inr W_assignment2, W_g4)"
  by code_simp

lemma W_run_cancel: "CancelTask W W_agent memory_ops W_call W_cancel W_s4 W_s4 = (Inr W_task5, W_x5)"
  by code_simp

lemma W_reach0: "agent_reaches W W_s0"
  by (simp add: agent_reaches_def W_s0_def reachable_from.start)

lemmas W_calls =
  W_run1 [THEN agent_call.CreateTask] W_run2 [THEN agent_call.AcquireLease] W_run3 [THEN agent_call.AcceptTask]
  W_run4 [THEN agent_call.FreezeArtifact] W_run5 [THEN agent_call.CompleteTask] W_run6 [THEN agent_call.RecordApplyReceipt]
  W_run_claim [THEN agent_call.ClaimLease] W_run_fence [THEN agent_call.FenceLease] W_run_cancel [THEN agent_call.CancelTask]
  W_run_claim2 [THEN agent_call.ClaimLease]

lemma W_reach:
  "agent_reaches W W_s1" "agent_reaches W W_s2" "agent_reaches W W_s3" "agent_reaches W W_s4"
  "agent_reaches W W_s5" "agent_reaches W W_s6" "agent_reaches W W_f3"
  using W_reach0 W_calls reaches_call by blast+

lemma W_sha256: "sha256_nonempty W"
  by (simp add: sha256_nonempty_def W_def W0_def)

text \<open>The results of the run are encoded injectively, so every receipt reads back.\<close>

lemma W_results_bytes:
  "map snd W_results = [[11], [12], [13], [14], [15], [16], [17], [18], [19]]"
  by (simp add: W_results_def)

lemma W_unmarshal_result:
  assumes "(v, bs) \<in> set W_results" "D \<noteq> DParts"
  shows "W_unmarshal D bs = Some v" "bs \<noteq> []" "length bs = 1"
proof -
  have "bs \<in> set (map snd W_results)" using assms(1) by force
  then show "bs \<noteq> []" "length bs = 1" unfolding W_results_bytes by auto
  have "map fst (map (\<lambda>(v, b). (b, v)) W_results) = map snd W_results" by (simp add: comp_def split_def)
  then have "distinct (map fst (map (\<lambda>(v, b). (b, v)) W_results))" unfolding W_results_bytes by simp
  then show "W_unmarshal D bs = Some v" using assms by (force simp: W_unmarshal_def intro: map_of_is_SomeI)
qed

lemma W_faithful:
  assumes "doc_dest v = Some D" "D \<noteq> DParts" "json_Marshal W v = Some bs"
  shows "json_faithful W D v"
proof -
  have "W_marshal0 v = None" using assms(1,2) by (cases v) auto
  with assms(3) have "map_of W_results v = Some bs" by (auto simp: W_def W_marshal_def split: option.splits)
  then have "(v, bs) \<in> set W_results" by (rule map_of_SomeD)
  from W_unmarshal_result [OF this assms(2)] show ?thesis
    using assms by (auto simp: json_faithful_def W_def maxPageBytes_def)
qed

lemma W_receipt_faithful: "D \<noteq> DParts \<Longrightarrow> receipt_faithful W d a cid D"
  by (auto simp: receipt_faithful_def intro: W_faithful)

text \<open>Each call added its command receipt.\<close>

lemma W_changed:
  "W_s1 \<noteq> W_s0" "W_s2 \<noteq> W_s1" "W_s3 \<noteq> W_s2" "W_s4 \<noteq> W_s3" "W_s5 \<noteq> W_s4" "W_s6 \<noteq> W_s5"
  "W_c2 \<noteq> W_s1" "W_f3 \<noteq> W_s2" "W_x5 \<noteq> W_s4"
proof -
  have "map (\<lambda>s. length (ms_commands (unit_state s))) [W_s0, W_s1, W_s2, W_s3, W_s4, W_s5, W_s6, W_c2, W_f3, W_x5]
    = [0, 1, 2, 3, 4, 5, 6, 2, 3, 5]"
    by (simp add: W_s0_def W_s1_def W_s2_def W_s3_def W_s4_def W_s5_def W_s6_def W_c2_def W_f3_def W_x5_def live_unit_def
        W_m1_def W_m2_def W_m3_def W_m4_def W_m5_def W_m6_def W_c2m_def W_f3m_def W_x5m_def newMemoryAgentState_def)
  then show "W_s1 \<noteq> W_s0" "W_s2 \<noteq> W_s1" "W_s3 \<noteq> W_s2" "W_s4 \<noteq> W_s3" "W_s5 \<noteq> W_s4" "W_s6 \<noteq> W_s5"
    "W_c2 \<noteq> W_s1" "W_f3 \<noteq> W_s2" "W_x5 \<noteq> W_s4" by auto
qed

end
