(* ===== verification/Agent_Guarantees.thy ===== *)
theory Agent_Guarantees
  imports Agent_Scenario
begin

text \<open>
  What the Agent guarantees over the memory store: the properties of the task-oriented core, each
  with its application to the run of \<open>Agent_Scenario\<close>.
\<close>

section \<open>Refinement, invariant and history\<close>

text \<open>
  C1 (refinement). Whatever sequence of calls led to the store state, the next mutating call of the
  Agent leaves the store as it was or performs exactly one step of the domain: it checks what the
  step requires, writes exactly what the step writes, and records the command's receipt.
\<close>

theorem agent_refines_domain:
  assumes "agent_reaches E s" "agent_call E memory_ops s s'"
  shows "s' = s \<or> (\<exists>eff cid digest now. agent_step E eff cid digest now (mem_db s) (mem_db s'))"
  using mem.agent_call_refines [OF assms(2) reaches_inv(1) [OF assms(1)]] by blast

theorem agent_refines_domain_witness:
  "W_s1 = W_s0 \<or> (\<exists>eff cid digest now. agent_step W eff cid digest now (mem_db W_s0) (mem_db W_s1))"
  using agent_refines_domain [OF W_reach0 W_calls(1)] .

text \<open>
  C2 (invariant). Every store state that calls of the Agent reach from an empty store satisfies the
  invariant of the domain: Tasks and Artifacts are valid and agree with each other, message and
  event histories have no gap, lease generations are complete and ordered, submissions mirror their
  Tasks, receipts match published Artifacts, and every command receipt carries its result's digest.
\<close>

theorem reachable_db_inv:
  assumes "agent_reaches E s"
  shows "db_inv E (mem_db s)"
  using reaches_inv(2) [OF assms] .

theorem reachable_db_inv_witness: "db_inv W (mem_db W_s6)"
  using reachable_db_inv [OF W_reach(6)] .

text \<open>
  C3 (invariant). Along every run nothing of the history is lost or rewritten: command receipts,
  messages, events, lease grants, submissions and apply receipts are only added, and a Task moves
  along the edges of its state machine with revision, counters and fence that never decrease.
\<close>

theorem history_only_grows:
  assumes "agent_reaches E s" "agent_later E s s'"
  shows "db_grows (mem_db s) (mem_db s')"
  using later_grows(2) [OF assms] .

theorem history_only_grows_witness: "db_grows (mem_db W_s0) (mem_db W_s2)"
  using history_only_grows [OF W_reach0 later_trans [OF call_later [OF W_calls(1)] call_later [OF W_calls(2)]]] .

text \<open>
  C4 (safety). A Task in a terminal state is immutable: the record that the store returns for it is
  the same after any further calls, its lease and Artifact state included.
\<close>

theorem terminal_task_immutable:
  assumes "agent_reaches E s" "agent_later E s s'"
    "LoadTask memory_ops s ref = Inr r" "Terminal (task_State (str_Task r))"
  shows "LoadTask memory_ops s' ref = Inr r"
proof -
  from assms(1,3) have r: "db_tasks (mem_db s) ref = Some r"
    using mem.LoadTask [OF reaches_inv(1)] by (auto simp: lookup_db_def split: option.splits)
  have "tasks_grow (mem_db s) (mem_db s')" using later_grows(2) [OF assms(1,2)] by (simp add: db_grows_def)
  with r assms(4) have "db_tasks (mem_db s') ref = Some r" by (fastforce simp: tasks_grow_def task_grows_def)
  then show ?thesis using mem.LoadTask [OF later_grows(3) [OF assms(1,2)]] by (simp add: lookup_db_def)
qed

lemma W_completed: "LoadTask memory_ops W_s5 W_ref = Inr (snd (W_rec W_task4 [] 1 (Some ArtifactPublished)))"
  by code_simp

lemma W_task4_terminal: "Terminal (task_State W_task4)"
  by code_simp

theorem terminal_task_immutable_witness:
  "LoadTask memory_ops W_s6 W_ref = Inr (snd (W_rec W_task4 [] 1 (Some ArtifactPublished)))"
  by (rule terminal_task_immutable [OF W_reach(5) call_later [OF W_calls(6)] W_completed])
    (simp add: W_rec_def W_task4_terminal)


section \<open>Exactly once\<close>

text \<open>
  C5 (functional). Creating a Task happens exactly once per command: when a call committed the
  Task, even if its caller was only told that the commit is unknown, every retry of the same
  command in any later state returns that Task and changes nothing.
\<close>

theorem create_task_exactly_once:
  assumes "agent_reaches E s" "CreateTask E ag memory_ops ce c sv s = (res, s1)" "s1 \<noteq> s"
    "sha256_nonempty E" "receipt_faithful E (mem_db s1) (tr_Authority (ctc_Task c)) (cm_ID (ctc_Meta c)) DTask"
  shows "\<exists>t. (\<forall>x. res = Inr x \<longrightarrow> x = t)
    \<and> (\<forall>s' ag' ce' sv'. agent_later E s1 s' \<longrightarrow> agent_later E s1 sv' \<longrightarrow> \<not> ag_closed ag' \<longrightarrow> call_ctx ce' = LiveContext
         \<longrightarrow> CreateTask E ag' memory_ops ce' c sv' s' = (Inr t, s'))"
proof -
  note r = reaches_inv [OF assms(1)] and r1 = reaches_call [OF assms(1) agent_call.CreateTask [OF assms(2)]]
  from mem.CreateTask_retry [OF r(1,2) assms(2-5)] show ?thesis using later_grows(2,3) [OF r1] by blast
qed

theorem create_task_exactly_once_witness:
  "\<exists>t. (\<forall>x. Inr W_task1 = (Inr x :: Task agent_result) \<longrightarrow> x = t)
    \<and> (\<forall>s' ag' ce' sv'. agent_later W W_s1 s' \<longrightarrow> agent_later W W_s1 sv' \<longrightarrow> \<not> ag_closed ag' \<longrightarrow> call_ctx ce' = LiveContext
         \<longrightarrow> CreateTask W ag' memory_ops ce' W_create sv' s' = (Inr t, s'))"
  by (rule create_task_exactly_once [OF W_reach0 W_run1 W_changed(1) W_sha256]) (simp add: W_receipt_faithful)

text \<open>
  C6 (functional). So do the seven commands of the Task state machine: accept, reject, request
  input, reply, cancel, fail and complete.
\<close>

theorem task_command_exactly_once:
  assumes "agent_reaches E s" "run_request E ag memory_ops ce req sv s = (res, s1)" "s1 \<noteq> s"
    "sha256_nonempty E" "receipt_faithful E (mem_db s1) (tr_Authority (request_task req)) (cm_ID (request_meta req)) DTask"
  shows "\<exists>t. (\<forall>x. res = Inr x \<longrightarrow> x = t)
    \<and> (\<forall>s' ag' ce' sv'. agent_later E s1 s' \<longrightarrow> agent_later E s1 sv' \<longrightarrow> \<not> ag_closed ag' \<longrightarrow> call_ctx ce' = LiveContext
         \<longrightarrow> call_commit ce' = Committed \<longrightarrow> run_request E ag' memory_ops ce' req sv' s' = (Inr t, s'))"
proof -
  have "perform E ag memory_ops ce (Change req) sv s = (case res of Inl e \<Rightarrow> Some e | Inr _ \<Rightarrow> None, s1)"
    using assms(2) by (simp add: answer_def)
  note r = reaches_inv [OF assms(1)] and r1 = reaches_call [OF assms(1) perform_agent_call [OF this]]
  from mem.run_request_retry [OF r(1,2) assms(2-5)] obtain t where t: "\<forall>x. res = Inr x \<longrightarrow> x = t"
    and again: "\<And>ag' ce' sv' s'. mem_inv sv' \<Longrightarrow> db_grows (mem_db s1) (mem_db sv') \<Longrightarrow> mem_inv s' \<Longrightarrow>
      db_grows (mem_db s1) (mem_db s') \<Longrightarrow> \<not> ag_closed ag' \<Longrightarrow> call_ctx ce' = LiveContext \<Longrightarrow>
      call_commit ce' = Committed \<Longrightarrow> run_request E ag' memory_ops ce' req sv' s' = (Inr t, s')"
    by blast
  show ?thesis by (intro exI [of _ t] conjI allI impI t again later_grows(2,3) [OF r1])
qed

theorem task_command_exactly_once_witness:
  "\<exists>t. (\<forall>x. Inr W_task4 = (Inr x :: Task agent_result) \<longrightarrow> x = t)
    \<and> (\<forall>s' ag' ce' sv'. agent_later W W_s5 s' \<longrightarrow> agent_later W W_s5 sv' \<longrightarrow> \<not> ag_closed ag' \<longrightarrow> call_ctx ce' = LiveContext
         \<longrightarrow> call_commit ce' = Committed \<longrightarrow> run_request W ag' memory_ops ce' (Complete W_complete) sv' s' = (Inr t, s'))"
  by (rule task_command_exactly_once [OF W_reach(4), of W_agent W_call "Complete W_complete" W_s4])
    (simp_all add: W_run5 W_changed W_sha256 W_receipt_faithful)

text \<open>
  A lease is acquired exactly once per command, and a retry returns the same
  assignment, for the Task and worker of the command, although the lease may have moved on since.
\<close>

theorem acquire_lease_exactly_once:
  assumes "agent_reaches E s" "AcquireLease E ag memory_ops ce c s = (res, s1)" "s1 \<noteq> s"
    "sha256_nonempty E" "receipt_faithful E (mem_db s1) (tr_Authority (alc_Task c)) (alc_ID c) DLeaseAssignment"
  shows "\<exists>a. (\<forall>x. res = Inr x \<longrightarrow> x = a) \<and> lg_Task (la_Grant a) = alc_Task c \<and> lg_Worker (la_Grant a) = alc_Worker c
    \<and> (\<forall>s' ag' ce'. agent_later E s1 s' \<longrightarrow> \<not> ag_closed ag' \<longrightarrow> call_ctx ce' = LiveContext \<longrightarrow> call_commit ce' = Committed
         \<longrightarrow> AcquireLease E ag' memory_ops ce' c s' = (Inr a, s'))"
proof -
  note r = reaches_inv [OF assms(1)] and r1 = reaches_call [OF assms(1) agent_call.AcquireLease [OF assms(2)]]
  from mem.AcquireLease_retry [OF r(1,2) assms(2-5)] show ?thesis using later_grows(2,3) [OF r1] by blast
qed

theorem acquire_lease_exactly_once_witness:
  "\<exists>a. (\<forall>x. Inr W_assignment = (Inr x :: LeaseAssignment agent_result) \<longrightarrow> x = a)
    \<and> lg_Task (la_Grant a) = alc_Task W_acquire \<and> lg_Worker (la_Grant a) = alc_Worker W_acquire
    \<and> (\<forall>s' ag' ce'. agent_later W W_s2 s' \<longrightarrow> \<not> ag_closed ag' \<longrightarrow> call_ctx ce' = LiveContext \<longrightarrow> call_commit ce' = Committed
         \<longrightarrow> AcquireLease W ag' memory_ops ce' W_acquire s' = (Inr a, s'))"
  by (rule acquire_lease_exactly_once [OF W_reach(1) W_run2 W_changed(2) W_sha256]) (simp add: W_receipt_faithful)

text \<open>
  A worker's claim of the next Task is decided exactly once: a retry returns the
  Task claimed first, never a second one.
\<close>

theorem claim_lease_exactly_once:
  assumes "agent_reaches E s" "ClaimLease E ag memory_ops ce c s = (res, s1)" "s1 \<noteq> s"
    "sha256_nonempty E" "receipt_faithful E (mem_db s1) (clc_Authority c) (clc_ID c) DLeaseAssignment"
  shows "\<exists>a. (\<forall>x. res = Inr x \<longrightarrow> x = a) \<and> tr_Authority (lg_Task (la_Grant a)) = clc_Authority c
    \<and> lg_Worker (la_Grant a) = clc_Worker c
    \<and> (\<forall>s' ag' ce'. agent_later E s1 s' \<longrightarrow> \<not> ag_closed ag' \<longrightarrow> call_ctx ce' = LiveContext \<longrightarrow> call_commit ce' = Committed
         \<longrightarrow> ClaimLease E ag' memory_ops ce' c s' = (Inr a, s'))"
proof -
  note r = reaches_inv [OF assms(1)] and r1 = reaches_call [OF assms(1) agent_call.ClaimLease [OF assms(2)]]
  from mem.ClaimLease_retry [OF r(1,2) assms(2-5)] show ?thesis using later_grows(2,3) [OF r1] by blast
qed

theorem claim_lease_exactly_once_witness:
  "\<exists>a. (\<forall>x. Inr W_assignment = (Inr x :: LeaseAssignment agent_result) \<longrightarrow> x = a)
    \<and> tr_Authority (lg_Task (la_Grant a)) = clc_Authority W_claim \<and> lg_Worker (la_Grant a) = clc_Worker W_claim
    \<and> (\<forall>s' ag' ce'. agent_later W W_c2 s' \<longrightarrow> \<not> ag_closed ag' \<longrightarrow> call_ctx ce' = LiveContext \<longrightarrow> call_commit ce' = Committed
         \<longrightarrow> ClaimLease W ag' memory_ops ce' W_claim s' = (Inr a, s'))"
  by (rule claim_lease_exactly_once [OF W_reach(1) W_run_claim W_changed(7) W_sha256]) (simp add: W_receipt_faithful)

text \<open>
  The caller's apply decision for an Artifact is recorded exactly once per command
  and every retry returns the recorded receipt.
\<close>

theorem apply_receipt_exactly_once:
  assumes "agent_reaches E s" "RecordApplyReceipt E ag memory_ops ce c s = (res, s1)" "s1 \<noteq> s"
    "sha256_nonempty E"
    "receipt_faithful E (mem_db s1) (ar_Authority (rrc_Artifact c)) (rrc_CommandID c) DApplyReceipt"
  shows "\<exists>rcp. LoadApplyReceipt memory_ops s1 (rrc_Artifact c) = Inr rcp \<and> (\<forall>x. res = Inr x \<longrightarrow> x = rcp)
    \<and> (\<forall>s' ag' ce'. agent_later E s1 s' \<longrightarrow> \<not> ag_closed ag' \<longrightarrow> call_ctx ce' = LiveContext \<longrightarrow> call_commit ce' = Committed
         \<longrightarrow> RecordApplyReceipt E ag' memory_ops ce' c s' = (Inr rcp, s'))"
proof -
  note r = reaches_inv [OF assms(1)] and r1 = reaches_call [OF assms(1) agent_call.RecordApplyReceipt [OF assms(2)]]
  have "db_applyReceipts (mem_db s1) a = Some rcp \<longleftrightarrow> LoadApplyReceipt memory_ops s1 a = Inr rcp" for a rcp
    using mem.LoadApplyReceipt [OF reaches_inv(1) [OF r1]] by (simp add: lookup_db_def split: option.splits)
  with mem.RecordApplyReceipt_retry [OF r(1,2) assms(2-5)] show ?thesis using later_grows(2,3) [OF r1] by metis
qed

theorem apply_receipt_exactly_once_witness:
  "\<exists>rcp. LoadApplyReceipt memory_ops W_s6 (rrc_Artifact W_receipt) = Inr rcp
    \<and> (\<forall>x. Inr (new_receipt W_receipt 100) = (Inr x :: ApplyReceipt agent_result) \<longrightarrow> x = rcp)
    \<and> (\<forall>s' ag' ce'. agent_later W W_s6 s' \<longrightarrow> \<not> ag_closed ag' \<longrightarrow> call_ctx ce' = LiveContext \<longrightarrow> call_commit ce' = Committed
         \<longrightarrow> RecordApplyReceipt W ag' memory_ops ce' W_receipt s' = (Inr rcp, s'))"
  by (rule apply_receipt_exactly_once [OF W_reach(5) W_run6 W_changed(6) W_sha256]) (simp add: W_receipt_faithful)

end
