(* ===== verification/Agent_Safety.thy ===== *)
theory Agent_Safety
  imports Agent_Guarantees
begin

text \<open>
  Safety of the Agent over the memory store: what a failed call leaves behind, who may act on a
  leased Task, how lease generations, Artifacts and Workspace heads move.
\<close>

section \<open>Helper lemmas\<close>

lemma mem_load_task: "mem_inv s \<Longrightarrow> LoadTask memory_ops s ref = Inr r \<longleftrightarrow> db_tasks (mem_db s) ref = Some r"
  using mem.LoadTask by (simp add: lookup_db_def split: option.splits)

lemma mem_load_grant:
  "mem_inv s \<Longrightarrow> LoadLeaseGrant memory_ops s ref f = Inr h \<longleftrightarrow> db_leaseGrants (mem_db s) (ref, f) = Some h"
  using mem.LoadLeaseGrant by (simp add: lookup_db_def split: option.splits)

lemma mem_load_receipt:
  "mem_inv s \<Longrightarrow> LoadApplyReceipt memory_ops s a = Inr rcp \<longleftrightarrow> db_applyReceipts (mem_db s) a = Some rcp"
  using mem.LoadApplyReceipt by (simp add: lookup_db_def split: option.splits)

lemma mem_load_head:
  "mem_inv s \<Longrightarrow> LoadWorkspaceHead memory_ops s w = Inr h \<longleftrightarrow> db_workspaceHeads (mem_db s) w = Some h"
  using mem.LoadWorkspaceHead by (simp add: lookup_db_def split: option.splits)

lemmas mem_loads = mem_load_task mem_load_grant mem_load_receipt mem_load_head

lemma reaches_perform:
  assumes "agent_reaches E s" "perform E ag memory_ops ce req sv s = (e, s')"
  shows "agent_reaches E s'" "mem_inv s'"
  using reaches_call [OF assms(1) perform_agent_call [OF assms(2)]] reaches_inv(1) by blast+

lemma fenced_task:
  assumes "agent_step E (Fenced g r) cid digest now d d'"
  shows "db_tasks d' (lg_Task g) = Some (r\<lparr>str_Lease := \<lparr>ls_Owner = [], ls_Fence = lg_Fence g\<rparr>\<rparr>)"
    "lg_Worker g \<noteq> []"
  using assms match_stable_nonempty
  by (auto elim!: agent_stepE simp: holds_lease_def put_command_def put_task_def)


section \<open>Errors and leases\<close>





text \<open>
  C11 (safety). A request under a lease generation (a worker's transition, a freeze, a fence)
  changes the store only while exactly that generation is the Task's current lease, and the
  generation is in the durable grant history.
\<close>

theorem worker_acts_under_current_lease:
  assumes "agent_reaches E s" "acting_grant req = Some g"
    "perform E ag memory_ops ce req sv s = (e, s')" "s' \<noteq> s"
  shows "\<exists>r h. LoadTask memory_ops s (lg_Task g) = Inr r
    \<and> str_Lease r = \<lparr>ls_Owner = lg_Worker g, ls_Fence = lg_Fence g\<rparr>
    \<and> LoadLeaseGrant memory_ops s (lg_Task g) (lg_Fence g) = Inr h \<and> slg_Grant h = g"
  using mem.perform_current_lease [OF reaches_inv(1) [OF assms(1)] assms(3,4,2)]
  by (auto simp: holds_lease_def mem_loads [OF reaches_inv(1) [OF assms(1)]])

theorem worker_acts_under_current_lease_witness:
  "\<exists>r h. LoadTask memory_ops W_s2 (lg_Task W_grant) = Inr r
    \<and> str_Lease r = \<lparr>ls_Owner = lg_Worker W_grant, ls_Fence = lg_Fence W_grant\<rparr>
    \<and> LoadLeaseGrant memory_ops W_s2 (lg_Task W_grant) (lg_Fence W_grant) = Inr h \<and> slg_Grant h = W_grant"
  by (rule worker_acts_under_current_lease [OF W_reach(2), of "Change (Accept W_accept)" W_grant W_agent W_call W_s2 None W_s3])
    (simp_all add: W_accept_def [THEN arg_cong, of wtc_Meta] W_run3 answer_def W_changed)


text \<open>
  C12 (safety). A fenced lease generation is dead for good: after the fence committed, no request
  under that grant changes the store in any later state, also when the same worker has leased the
  Task again.
\<close>

theorem fenced_grant_never_acts:
  assumes "agent_reaches E s" "FenceLease E ag memory_ops ce c s = (res, s1)" "s1 \<noteq> s"
    "agent_later E s1 s2" "acting_grant req = Some (flc_Grant c)"
    "perform E ag' memory_ops ce' req sv s2 = (e, s3)"
  shows "s3 = s2"
proof (rule ccontr)
  assume ne: "s3 \<noteq> s2"
  let ?g = "flc_Grant c"
  have r1: "agent_reaches E s1" using reaches_call [OF assms(1) agent_call.FenceLease [OF assms(2)]] .
  note l = later_grows [OF r1 assms(4)]
  obtain r digest now where "agent_step E (Fenced ?g r) (flc_ID c) digest now (mem_db s) (mem_db s1)"
    using mem.FenceLease_step [OF reaches_inv(1) [OF assms(1)] assms(2,3)] by metis
  note f = fenced_task [OF this]
  obtain r2 where r2: "db_tasks (mem_db s2) (lg_Task ?g) = Some r2" "holds_lease (mem_db s2) r2 ?g"
    using mem.perform_current_lease [OF l(3) assms(6) ne assms(5)] by blast
  have "task_grows (r\<lparr>str_Lease := \<lparr>ls_Owner = [], ls_Fence = lg_Fence ?g\<rparr>\<rparr>) r2"
    using l(2) f(1) r2(1) unfolding db_grows_def tasks_grow_def by fastforce
  then show False using r2(2) f(2) by (auto simp: task_grows_def holds_lease_def)
qed

theorem fenced_grant_never_acts_witness:
  "snd (perform W W_agent memory_ops W_call (Change (Accept W_accept)) W_g4 W_g4) = W_g4"
  by (rule fenced_grant_never_acts [OF W_reach(2) W_run_fence W_changed(8) call_later [OF W_calls(10)],
        of "Change (Accept W_accept)" W_agent W_call W_g4])
    (simp_all add: W_accept_def W_fence_def prod_eq_iff)


text \<open>
  C13 (safety). Lease generations of a Task never repeat: a generation granted later has a larger
  fence than every generation granted before, and is not dated before it.
\<close>

theorem lease_generations_increase:
  assumes "agent_reaches E s" "agent_later E s s'"
    "LoadLeaseGrant memory_ops s ref f = Inr h" "LoadLeaseGrant memory_ops s' ref f' = Inr h'"
    "LoadLeaseGrant memory_ops s ref f' \<noteq> Inr h'"
  shows "f < f' \<and> slg_GrantedAt h \<le> slg_GrantedAt h'"
proof -
  note r = reaches_inv [OF assms(1)] and l = later_grows [OF assms(1,2)]
  have inv: "leases_inv (mem_db s)" "leases_inv (mem_db s')"
    using r(3) reaches_inv(3) [OF l(1)] by (auto simp: domain_inv_def)
  have old: "db_leaseGrants (mem_db s) (ref, f) = Some h" and new: "db_leaseGrants (mem_db s') (ref, f') = Some h'"
    and fresh: "db_leaseGrants (mem_db s) (ref, f') \<noteq> Some h'"
    using assms(3-5) mem_load_grant r(1) l(3) by auto
  have le: "db_leaseGrants (mem_db s) \<subseteq>\<^sub>m db_leaseGrants (mem_db s')" using l(2) by (simp add: db_grows_def logs_grow_def)
  then have old': "db_leaseGrants (mem_db s') (ref, f) = Some h" using old by (force simp: map_le_def)
  have none: "(ref, f') \<notin> dom (db_leaseGrants (mem_db s))" using le new fresh by (force simp: map_le_def)
  from inv(1) old obtain t where t: "db_tasks (mem_db s) ref = Some t" "1 \<le> f" "f \<le> ls_Fence (str_Lease t)"
    unfolding leases_inv_def by (metis domI)
  have "1 \<le> f'" using inv(2) new unfolding leases_inv_def by (metis domI)
  then have "\<not> f' \<le> ls_Fence (str_Lease t)" using inv(1) none t(1) unfolding leases_inv_def by blast
  then have "f < f'" using t(3) by auto
  moreover from this have "slg_GrantedAt h \<le> slg_GrantedAt h'"
    using inv(2) old' new unfolding leases_inv_def by (meson less_imp_le)
  ultimately show ?thesis ..
qed

lemma W_generations:
  "LoadLeaseGrant memory_ops W_s2 W_ref 1 = Inr \<lparr>slg_Grant = W_grant, slg_GrantedAt = 100\<rparr>"
  "LoadLeaseGrant memory_ops W_g4 W_ref 2 = Inr \<lparr>slg_Grant = la_Grant W_assignment2, slg_GrantedAt = 100\<rparr>"
  "LoadLeaseGrant memory_ops W_s2 W_ref 2 = Inl ErrStoreRecordNotFound"
  by code_simp+

theorem lease_generations_increase_witness: "(1::uint64) < 2 \<and> (100::gotime) \<le> 100"
  using lease_generations_increase [OF W_reach(2) later_trans [OF call_later [OF W_calls(8)] call_later [OF W_calls(10)]]
      W_generations(1,2)] W_generations(3) by simp


text \<open>
  C14 (functional). A claim takes the oldest claimable Task of the authority: unleased, not
  terminal, and first in the order of creation time, Workspace and Task among all of them.
\<close>

theorem claim_takes_oldest:
  assumes "agent_reaches E s" "ClaimLease E ag memory_ops ce c s = (Inr a, s1)" "s1 \<noteq> s"
  shows "\<exists>r. LoadTask memory_ops s (lg_Task (la_Grant a)) = Inr r \<and> claimable (clc_Authority c) r
    \<and> la_Task a = str_Task r \<and> lg_Worker (la_Grant a) = clc_Worker c
    \<and> (\<forall>ref r'. LoadTask memory_ops s ref = Inr r' \<longrightarrow> claimable (clc_Authority c) r' \<longrightarrow>
         task_created_cursor (str_Task r) \<le> task_created_cursor (str_Task r'))"
proof -
  note inv = reaches_inv(1) [OF assms(1)]
  obtain r now digest where r: "claimable (clc_Authority c) r"
      "\<forall>r' \<in> ran (db_tasks (mem_db s)). claimable (clc_Authority c) r' \<longrightarrow>
         task_created_cursor (str_Task r) \<le> task_created_cursor (str_Task r')"
    and a: "a = lease_assignment r (clc_Worker c) now"
    and step: "agent_step E (Granted ''claim_lease'' r (clc_Worker c)) (clc_ID c) digest now (mem_db s) (mem_db s1)"
    by (rule mem.ClaimLease_step [OF inv assms(2,3)]) auto
  from step have "db_tasks (mem_db s) (task_Ref (str_Task r)) = Some r" by (auto elim!: agent_stepE simp: grant_allowed_def)
  with r a show ?thesis
    by (intro exI [of _ r]) (auto simp: mem_loads [OF inv] lease_assignment_def intro: ranI)
qed

theorem claim_takes_oldest_witness:
  "\<exists>r. LoadTask memory_ops W_s1 (lg_Task (la_Grant W_assignment)) = Inr r \<and> claimable (clc_Authority W_claim) r
    \<and> la_Task W_assignment = str_Task r \<and> lg_Worker (la_Grant W_assignment) = clc_Worker W_claim
    \<and> (\<forall>ref r'. LoadTask memory_ops W_s1 ref = Inr r' \<longrightarrow> claimable (clc_Authority W_claim) r' \<longrightarrow>
         task_created_cursor (str_Task r) \<le> task_created_cursor (str_Task r'))"
  by (rule claim_takes_oldest [OF W_reach(1) W_run_claim W_changed(7)])



section \<open>Artifacts and Workspace heads\<close>

lemma request_task_after:
  assumes "agent_step E (Transitioned kind who meta ref change p r) cid digest now d d'"
  shows "db_tasks d' ref = Some (transition_record change ref now r)" "db_tasks d ref = Some r"
    "db_artifacts d' = db_artifacts (artifact_effect change now (str_Task r) d)"
    "trn_artifact change = Some a \<or> trn_discardArtifact change \<and> task_Artifact (str_Task r) = Some a \<Longrightarrow> frozen_artifact d a ref"
    "trn_submission change \<noteq> [] \<Longrightarrow> task_Artifact (str_Task r) = trn_artifact change"
    "task_change E ref kind who change"
  using assms
  by (auto elim!: agent_stepE simp: transition_allowed_def transition_effect_fields put_command_def)

text \<open>
  C15 (functional). Completing a Task publishes it atomically: the Task is completed with exactly
  the submission of the command, its lease is released, and its frozen Artifact, if it has one, is
  the one named in the command and is published with the same time.
\<close>

theorem completion_publishes:
  assumes "agent_reaches E s" "CompleteTask E ag memory_ops ce c sv s = (Inr t, s1)" "s1 \<noteq> s"
  shows "task_State t = TaskCompleted \<and> task_Artifact t = cmp_Artifact c
    \<and> task_Submission t = Some \<lparr>sub_ID = cmp_Submission c, sub_Task = cmp_Task c, sub_FinalMessage = mi_ID (cmp_Message c),
        sub_Artifact = cmp_Artifact c, sub_PublishedAt = task_UpdatedAt t\<rparr>
    \<and> (\<exists>r. LoadTask memory_ops s1 (cmp_Task c) = Inr r \<and> str_Task r = t \<and> ls_Owner (str_Lease r) = [])
    \<and> (\<forall>a. cmp_Artifact c = Some a \<longrightarrow> (\<exists>x. db_artifacts (mem_db s1) a = Some x
         \<and> art_State (sar_Artifact x) = ArtifactPublished \<and> art_PublishedAt (sar_Artifact x) = Some (task_UpdatedAt t)))"
proof -
  have q: "run_request E ag memory_ops ce (Complete c) sv s = (Inr t, s1)" using assms(2) by simp
  obtain p r digest now where s1: "mem_inv s1" and t: "t = transition_next (complete_change (cmp_Message c) (cmp_Submission c) (cmp_Artifact c)) (cmp_Task c) now (str_Task r)"
    and step: "agent_step E (Transitioned ''complete_task'' (Worker (wcm_Grant (cmp_Meta c))) (commandMeta (cmp_Meta c)) (cmp_Task c)
       (complete_change (cmp_Message c) (cmp_Submission c) (cmp_Artifact c)) p r) (cm_ID (commandMeta (cmp_Meta c))) digest now (mem_db s) (mem_db s1)"
    by (rule mem.run_request_step [OF reaches_inv(1) [OF assms(1)] q assms(3)]) auto
  note a = request_task_after [OF step]
  have sub: "cmp_Submission c \<noteq> []" using a(6) match_stable_nonempty by (auto elim!: task_changeE simp: change_defs)
  from a sub s1 t show ?thesis
    by (auto simp: mem_loads complete_change_def transition_next_def transition_record_def transition_submission_def
        transition_message_id_def artifact_effect_def set_artifact_state_def frozen_artifact_def split: option.splits)
qed

theorem completion_publishes_witness:
  "task_State W_task4 = TaskCompleted \<and> task_Artifact W_task4 = cmp_Artifact W_complete
    \<and> task_Submission W_task4 = Some \<lparr>sub_ID = cmp_Submission W_complete, sub_Task = cmp_Task W_complete,
        sub_FinalMessage = mi_ID (cmp_Message W_complete), sub_Artifact = cmp_Artifact W_complete, sub_PublishedAt = task_UpdatedAt W_task4\<rparr>
    \<and> (\<exists>r. LoadTask memory_ops W_s5 (cmp_Task W_complete) = Inr r \<and> str_Task r = W_task4 \<and> ls_Owner (str_Lease r) = [])
    \<and> (\<exists>x. db_artifacts (mem_db W_s5) (freeze_ref W_freeze) = Some x
         \<and> art_State (sar_Artifact x) = ArtifactPublished \<and> art_PublishedAt (sar_Artifact x) = Some (task_UpdatedAt W_task4))"
  using completion_publishes [OF W_reach(4) W_run5 W_changed(5)] by (simp add: W_complete_def)


text \<open>
  C16 (safety). Canceling or failing a Task discards its frozen Artifact, and a discarded Artifact
  stays discarded in every later state: it is never published or applied.
\<close>

theorem abort_discards_artifact:
  assumes "agent_reaches E s" "(\<exists>c. req = Cancel c) \<or> (\<exists>c. req = Fail c)"
    "run_request E ag memory_ops ce req sv s = (Inr t, s1)" "s1 \<noteq> s" "task_Artifact t = Some a" "agent_later E s1 s2"
  shows "\<exists>x. db_artifacts (mem_db s2) a = Some x \<and> art_State (sar_Artifact x) = ArtifactDiscarded
    \<and> art_DiscardedAt (sar_Artifact x) = Some (task_UpdatedAt t)"
proof -
  have r1: "agent_reaches E s1" using reaches_perform(1) [OF assms(1), of ag ce "Change req" sv None s1] assms(3)
    by (simp add: answer_def)
  obtain p r digest now where t: "t = transition_next (request_change req) (request_task req) now (str_Task r)"
    and step: "agent_step E (Transitioned (fst (request_kind req)) (request_issuer req) (request_meta req) (request_task req)
       (request_change req) p r) (cm_ID (request_meta req)) digest now (mem_db s) (mem_db s1)"
    by (rule mem.run_request_step [OF reaches_inv(1) [OF assms(1)] assms(3,4)]) auto
  note f = request_task_after [OF step]
  have change: "trn_discardArtifact (request_change req)" "trn_artifact (request_change req) = None"
    "trn_submission (request_change req) = []" using assms(2) by (auto simp: change_defs)
  have art: "task_Artifact (str_Task r) = Some a" using t assms(5) change by (simp add: transition_next_def split: option.splits if_splits)
  obtain x where x: "db_artifacts (mem_db s1) a = Some x" "art_State (sar_Artifact x) = ArtifactDiscarded"
    "art_DiscardedAt (sar_Artifact x) = Some now"
    using f(3) f(4) [of a] art change by (auto simp: artifact_effect_def set_artifact_state_def frozen_artifact_def)
  have "task_UpdatedAt t = now" using t by (simp add: transition_next_def split: option.splits)
  moreover have "db_artifacts (mem_db s2) a = Some x"
    using later_grows(2) [OF r1 assms(6)] x(1,2) unfolding db_grows_def artifacts_grow_def artifact_grows_def by fastforce
  ultimately show ?thesis using x by auto
qed

lemma W_canceled_artifact: "task_Artifact W_task5 = Some (freeze_ref W_freeze)"
  by code_simp

theorem abort_discards_artifact_witness:
  "\<exists>x. db_artifacts (mem_db W_x5) (freeze_ref W_freeze) = Some x \<and> art_State (sar_Artifact x) = ArtifactDiscarded
    \<and> art_DiscardedAt (sar_Artifact x) = Some (task_UpdatedAt W_task5)"
  by (rule abort_discards_artifact [OF W_reach(4), of "Cancel W_cancel" W_agent W_call W_s4 W_task5 W_x5 "freeze_ref W_freeze"])
    (simp_all add: W_run_cancel W_changed W_canceled_artifact later_refl)


lemma step_heads:
  assumes "agent_step E eff cid digest now d d'" "db_workspaceHeads d w = Some h" "db_workspaceHeads d' w = Some h'" "h' \<noteq> h"
  shows "\<exists>c a. eff = Receipted c a \<and> rrc_Decision c = ApplySuccess \<and> ar_Workspace (rrc_Artifact c) = w"
  using assms
  by (cases eff)
    (auto elim!: agent_stepE simp: create_effect_fields grant_effect_fields freeze_effect_fields transition_effect_fields
      receipt_effect_fields put_command_def put_task_def transition_allowed_def freeze_allowed_def initial_head_def put_head_def
      split: if_splits)

text \<open>
  C17 (safety). A Workspace head that exists changes only by a success receipt whose base is the
  head's revision: between any two consecutive states, a new revision is the result of a published
  Artifact that was based on the old one, and the receipt that says so is new.
\<close>

theorem head_moves_by_receipt:
  assumes "agent_reaches E s" "agent_call E memory_ops s s1"
    "LoadWorkspaceHead memory_ops s w = Inr h" "LoadWorkspaceHead memory_ops s1 w = Inr h'" "h' \<noteq> h"
  shows "\<exists>a rcp. ar_Workspace a = w \<and> LoadApplyReceipt memory_ops s1 a = Inr rcp \<and> LoadApplyReceipt memory_ops s a \<noteq> Inr rcp
    \<and> rcp_Decision rcp = ApplySuccess \<and> rcp_BaseRevision rcp = wh_ConfirmedRevision h
    \<and> rcp_ResultRevision rcp = wh_ConfirmedRevision h'"
proof -
  note inv = reaches_inv(1) [OF assms(1)] and inv1 = reaches_inv(1) [OF reaches_call [OF assms(1,2)]]
  have h: "db_workspaceHeads (mem_db s) w = Some h" "db_workspaceHeads (mem_db s1) w = Some h'"
    using assms(3,4) inv inv1 by (auto simp: mem_loads)
  then have "s1 \<noteq> s" using assms(5) by auto
  then obtain eff cid digest now where step: "agent_step E eff cid digest now (mem_db s) (mem_db s1)"
    using mem.agent_call_refines [OF assms(2) inv] by blast
  obtain c a where eff: "eff = Receipted c a" "rrc_Decision c = ApplySuccess" "ar_Workspace (rrc_Artifact c) = w"
    using step_heads [OF step h assms(5)] by blast
  show ?thesis
    using step eff h by (intro exI [of _ "rrc_Artifact c"] exI [of _ "new_receipt c now"])
      (auto elim!: agent_stepE simp: receipt_effect_fields put_command_def receipt_allowed_def new_receipt_def
        mem_loads [OF inv] mem_loads [OF inv1] domIff)
qed

lemma W_heads:
  "LoadWorkspaceHead memory_ops W_s5 (tr_Workspace W_ref) = Inr (snd (W_head ''r0''))"
  "LoadWorkspaceHead memory_ops W_s6 (tr_Workspace W_ref) = Inr (snd (W_head (art_ResultRevision W_artifact)))"
  "art_ResultRevision W_artifact \<noteq> ''r0''"
  by code_simp+

theorem head_moves_by_receipt_witness:
  "\<exists>a rcp. ar_Workspace a = tr_Workspace W_ref \<and> LoadApplyReceipt memory_ops W_s6 a = Inr rcp
    \<and> LoadApplyReceipt memory_ops W_s5 a \<noteq> Inr rcp
    \<and> rcp_Decision rcp = ApplySuccess \<and> rcp_BaseRevision rcp = wh_ConfirmedRevision (snd (W_head ''r0''))
    \<and> rcp_ResultRevision rcp = wh_ConfirmedRevision (snd (W_head (art_ResultRevision W_artifact)))"
  by (rule head_moves_by_receipt [OF W_reach(5) W_calls(6) W_heads(1,2)]) (simp add: W_head_def W_heads(3))


end
