(* ===== verification/Agent_Reads.thy ===== *)
theory Agent_Reads
  imports Agent_Safety
begin

text \<open>
  Reading through the Agent over the memory store: every page is an exact window of the history or
  of the ordered listing, following the cursors ends and misses nothing.
\<close>

section \<open>Events and messages\<close>

text \<open>
  C18 (functional). A page of events is exactly the window of the Task's history after the cursor:
  the events numbered cursor plus one up to the page limit or the end of the history, in order,
  with the number of the last as the next cursor and the flag that more follow.
\<close>

theorem read_events_window:
  assumes "agent_reaches E s" "LoadTask memory_ops s ref = Inr r" "\<not> ag_closed ag" "call_ctx ce = LiveContext"
    "normalizePageRequest request = Inr limit" "pr_After request \<le> task_EventCount (str_Task r)"
  shows "ReadEvents ag memory_ops ce ref request s =
    (let from = unat (pr_After request); count = unat (task_EventCount (str_Task r)); to = min (from + nat limit) count in
     Inr \<lparr>ep_Items = events_between (mem_db s) ref (Suc from) (Suc to), ep_Next = of_nat to, ep_HasMore = to < count\<rparr>)"
  using mem.ReadEvents_page [OF reaches_inv(1,3) [OF assms(1)] _ assms(3-6)] assms(2)
  by (simp add: mem_loads [OF reaches_inv(1) [OF assms(1)]])

lemma W_live: "\<not> ag_closed W_agent" "call_ctx W_call = LiveContext" "call_commit W_call = Committed"
  by (simp_all add: W_agent_def W_call_def)

definition W_page :: PageRequest where
  "W_page = \<lparr>pr_After = 1, pr_Limit = 2\<rparr>"

lemma W_page_ok: "normalizePageRequest W_page = Inr 2"
  by code_simp

lemma W_loaded6: "LoadTask memory_ops W_s6 W_ref = Inr (snd (W_rec W_task4 [] 1 (Some ArtifactPublished)))"
  by code_simp

lemma W_events6: "task_EventCount W_task4 = 4" "task_MessageCount W_task4 = 2"
  by code_simp+

theorem read_events_window_witness:
  "ReadEvents W_agent memory_ops W_call W_ref W_page W_s6 =
     Inr \<lparr>ep_Items = events_between (mem_db W_s6) W_ref 2 4, ep_Next = 3, ep_HasMore = True\<rparr>"
  using read_events_window [OF W_reach(6) W_loaded6 W_live(1,2) W_page_ok]
  by (simp add: W_rec_def W_page_def W_events6 Let_def) (simp add: eval_nat_numeral)

text \<open>Following the cursor until no page says that more follow, at most \<open>fuel\<close> pages.\<close>

fun read_all_events :: "agent \<Rightarrow> call \<Rightarrow> TaskRef \<Rightarrow> int \<Rightarrow> memoryAgentUnit \<Rightarrow> nat \<Rightarrow> uint64 \<Rightarrow> Event list option" where
  "read_all_events ag ce ref limit s 0 after = None"
| "read_all_events ag ce ref limit s (Suc fuel) after =
     (case ReadEvents ag memory_ops ce ref \<lparr>pr_After = after, pr_Limit = limit\<rparr> s of
        Inl e \<Rightarrow> None
      | Inr page \<Rightarrow>
          if ep_HasMore page
          then map_option (\<lambda>rest. ep_Items page @ rest) (read_all_events ag ce ref limit s fuel (ep_Next page))
          else Some (ep_Items page))"

lemma events_between_append:
  "i \<le> j \<Longrightarrow> j \<le> k \<Longrightarrow> events_between d ref i j @ events_between d ref j k = events_between d ref i k"
  using upt_add_eq_append [of i j "k - j"] by (simp add: events_between_def)

lemma read_all_from:
  assumes r: "agent_reaches E s" "LoadTask memory_ops s ref = Inr r" and ag: "\<not> ag_closed ag" "call_ctx ce = LiveContext"
    and limit: "normalizePageLimit limit = Inr n"
    and "from \<le> unat (task_EventCount (str_Task r))" "unat (task_EventCount (str_Task r)) - from < fuel"
  shows "read_all_events ag ce ref limit s fuel (of_nat from) =
    Some (events_between (mem_db s) ref (Suc from) (Suc (unat (task_EventCount (str_Task r)))))"
  using assms(6,7)
proof (induction fuel arbitrary: "from")
  case (Suc fuel)
  let ?count = "unat (task_EventCount (str_Task r))" and ?to = "min (from + nat n) (unat (task_EventCount (str_Task r)))"
  have t: "ok (validateStoredTask (str_Task r))"
    using domain_inv_task(3) [OF reaches_inv(3) [OF r(1)]] r(2) by (simp add: mem_loads [OF reaches_inv(1) [OF r(1)]])
  have small: "from < 2 ^ LENGTH(64)" using Suc.prems(1) unsigned_less [of "task_EventCount (str_Task r)"] by (rule order.strict_trans1)
  then have u: "unat (of_nat from :: uint64) = from" by (simp add: unat_of_nat)
  have le: "(of_nat from :: uint64) \<le> task_EventCount (str_Task r)" using Suc.prems(1) u by (simp add: word_le_nat_alt)
  then have "(of_nat from :: uint64) \<le> MaxInt64" using t by (auto simp: ok_validateStoredTask)
  with limit have page: "normalizePageRequest \<lparr>pr_After = of_nat from, pr_Limit = limit\<rparr> = Inr n"
    by (simp add: normalizePageRequest_def)
  have pos: "1 \<le> n" using normalizePageRequest_Inr(1) [OF page] .
  have window: "ReadEvents ag memory_ops ce ref \<lparr>pr_After = of_nat from, pr_Limit = limit\<rparr> s =
      Inr \<lparr>ep_Items = events_between (mem_db s) ref (Suc from) (Suc ?to), ep_Next = of_nat ?to, ep_HasMore = ?to < ?count\<rparr>"
    using mem.ReadEvents_page [OF reaches_inv(1,3) [OF r(1)] _ ag page] r(2) le u
    by (simp add: mem_loads [OF reaches_inv(1) [OF r(1)]] Let_def)
  show ?case
  proof (cases "?to < ?count")
    case True
    then have to: "?to = from + nat n" by simp
    have "?count - ?to < fuel" using Suc.prems pos to True by linarith
    from Suc.IH [OF _ this] True have "read_all_events ag ce ref limit s fuel (of_nat ?to) =
        Some (events_between (mem_db s) ref (Suc ?to) (Suc ?count))" by simp
    with window True to show ?thesis using events_between_append [of "Suc from" "Suc ?to" "Suc ?count"] by simp
  next
    case False
    then have "?to = ?count" by simp
    with window show ?thesis by simp
  qed
qed simp

text \<open>
  C19 (termination). Reading a Task's events by following the cursors ends after at most one page
  per event and yields the whole history, every event once and in order, for every legal page size.
\<close>

theorem read_all_events_complete:
  assumes "agent_reaches E s" "LoadTask memory_ops s ref = Inr r" "\<not> ag_closed ag" "call_ctx ce = LiveContext"
    "normalizePageLimit limit = Inr n"
  shows "read_all_events ag ce ref limit s (Suc (unat (task_EventCount (str_Task r)))) 0 =
    Some (events_between (mem_db s) ref 1 (Suc (unat (task_EventCount (str_Task r)))))"
  using read_all_from [OF assms, of 0 "Suc (unat (task_EventCount (str_Task r)))"] by simp

theorem read_all_events_complete_witness:
  "read_all_events W_agent W_call W_ref 2 W_s6 5 0 = Some (events_between (mem_db W_s6) W_ref 1 5)"
proof -
  have "normalizePageLimit 2 = Inr 2" by (simp add: normalizePageLimit_def MaxPageSize_def)
  from read_all_events_complete [OF W_reach(6) W_loaded6 W_live(1,2) this]
  have "read_all_events W_agent W_call W_ref 2 W_s6 (Suc (unat (4::uint64))) 0 =
      Some (events_between (mem_db W_s6) W_ref 1 (Suc (unat (4::uint64))))"
    by (simp only: W_rec_def W_events6 snd_conv StoreTaskRecord.simps)
  moreover have "Suc (unat (4::uint64)) = 5" by simp
  ultimately show ?thesis by metis
qed

text \<open>
  C20 (safety). A consumer that takes a snapshot of a Task and later reads events from the
  snapshot's cursor misses nothing: whatever was committed in between, its page starts with the
  first event after the snapshot.
\<close>

theorem snapshot_then_events:
  assumes "agent_reaches E s" "SnapshotTask ag memory_ops ce ref s = Inr snap" "agent_later E s s'"
    "\<not> ag_closed ag'" "call_ctx ce' = LiveContext" "normalizePageLimit limit = Inr n"
  shows "\<exists>r. LoadTask memory_ops s' ref = Inr r \<and> ts_EventCursor snap \<le> task_EventCount (str_Task r)
    \<and> (let to = min (unat (ts_EventCursor snap) + nat n) (unat (task_EventCount (str_Task r))) in
       ReadEvents ag' memory_ops ce' ref \<lparr>pr_After = ts_EventCursor snap, pr_Limit = limit\<rparr> s' =
       Inr \<lparr>ep_Items = events_between (mem_db s') ref (Suc (unat (ts_EventCursor snap))) (Suc to), ep_Next = of_nat to,
            ep_HasMore = to < unat (task_EventCount (str_Task r))\<rparr>)"
proof -
  note inv = reaches_inv [OF assms(1)] and l = later_grows [OF assms(1,3)]
  from assms(2) obtain r where r: "db_tasks (mem_db s) ref = Some r" and cur: "ts_EventCursor snap = task_EventCount (str_Task r)"
    by (auto simp: SnapshotTask_def res_simps store_View_def loadTaskFromStore_def mem.loadTaskRecordFromStore_Inr [OF inv(1)]
        split: go_context.splits)
  have "ok (validateStoredTask (str_Task r))" using domain_inv_task(3) [OF inv(3) r] .
  then have "ts_EventCursor snap \<le> MaxInt64" by (auto simp: cur ok_validateStoredTask)
  then have page: "normalizePageRequest \<lparr>pr_After = ts_EventCursor snap, pr_Limit = limit\<rparr> = Inr n"
    using assms(6) by (simp add: normalizePageRequest_def)
  obtain r' where r': "db_tasks (mem_db s') ref = Some r'" "task_grows r r'"
    using l(2) r unfolding db_grows_def tasks_grow_def by blast
  then have le: "ts_EventCursor snap \<le> task_EventCount (str_Task r')" by (simp add: cur task_grows_def)
  from mem.ReadEvents_page [OF reaches_inv(1,3) [OF l(1)] r'(1) assms(4,5) page] le show ?thesis
    by (intro exI [of _ r']) (simp add: mem_loads [OF l(3)] r' Let_def)
qed

lemma W_snapshot: "SnapshotTask W_agent memory_ops W_call W_ref W_s5 = Inr \<lparr>ts_Task = W_task4, ts_EventCursor = 4\<rparr>"
  by code_simp

theorem snapshot_then_events_witness:
  "\<exists>r. LoadTask memory_ops W_s6 W_ref = Inr r \<and> (4::uint64) \<le> task_EventCount (str_Task r)
    \<and> (let to = min (4 + 100) (unat (task_EventCount (str_Task r))) in
       ReadEvents W_agent memory_ops W_call W_ref \<lparr>pr_After = 4, pr_Limit = 0\<rparr> W_s6 =
       Inr \<lparr>ep_Items = events_between (mem_db W_s6) W_ref 5 (Suc to), ep_Next = of_nat to,
            ep_HasMore = to < unat (task_EventCount (str_Task r))\<rparr>)"
  using snapshot_then_events [OF W_reach(5) W_snapshot call_later [OF W_calls(6)] W_live(1,2), of 0 100]
  by (simp add: normalizePageLimit_def MaxPageSize_def)

text \<open>
  A page of messages opens exactly the stored messages after the cursor, in the
  order of their sequence numbers and without a gap; the read budget may shorten the page but never
  to nothing while messages remain, and the flag that more follow is exact.
\<close>

theorem list_messages_window:
  assumes "agent_reaches E s" "LoadTask memory_ops s ref = Inr r" "\<not> ag_closed ag" "call_ctx ce = LiveContext"
    "normalizePageRequest request = Inr limit" "pr_After request \<le> task_MessageCount (str_Task r)"
  shows "\<exists>selected to. ListMessages E ag memory_ops ce ref request s =
      bind_res (open_messages E ag selected) (\<lambda>items.
        Inr \<lparr>mp_Items = items, mp_Next = of_nat to, mp_HasMore = to < unat (task_MessageCount (str_Task r))\<rparr>)
    \<and> unat (pr_After request) \<le> to \<and> to \<le> unat (pr_After request) + nat limit \<and> to \<le> unat (task_MessageCount (str_Task r))
    \<and> (to = unat (pr_After request) \<longrightarrow> to = unat (task_MessageCount (str_Task r)))
    \<and> set selected \<subseteq> ran (db_messages (mem_db s)) \<and> (\<forall>m \<in> set selected. smr_Task m = ref)
    \<and> map (unat \<circ> smr_Sequence) selected = [Suc (unat (pr_After request)) ..< Suc to]"
proof -
  have "db_tasks (mem_db s) ref = Some r" using assms(2) by (simp add: mem_loads [OF reaches_inv(1) [OF assms(1)]])
  then show ?thesis by (rule mem.ListMessages_page [OF reaches_inv(1,3) [OF assms(1)] _ assms(3-6)])
qed

theorem list_messages_window_witness:
  "\<exists>selected to. ListMessages W W_agent memory_ops W_call W_ref W_page W_s6 =
      bind_res (open_messages W W_agent selected) (\<lambda>items.
        Inr \<lparr>mp_Items = items, mp_Next = of_nat to, mp_HasMore = to < unat (task_MessageCount W_task4)\<rparr>)
    \<and> unat (pr_After W_page) \<le> to \<and> to \<le> unat (pr_After W_page) + nat 2 \<and> to \<le> unat (task_MessageCount W_task4)
    \<and> (to = unat (pr_After W_page) \<longrightarrow> to = unat (task_MessageCount W_task4))
    \<and> set selected \<subseteq> ran (db_messages (mem_db W_s6)) \<and> (\<forall>m \<in> set selected. smr_Task m = W_ref)
    \<and> map (unat \<circ> smr_Sequence) selected = [Suc (unat (pr_After W_page)) ..< Suc to]"
proof -
  have r: "str_Task (snd (W_rec W_task4 [] 1 (Some ArtifactPublished))) = W_task4" by (simp add: W_rec_def)
  have "pr_After W_page \<le> task_MessageCount W_task4" by (simp add: W_page_def W_events6)
  then show ?thesis using list_messages_window [OF W_reach(6) W_loaded6 W_live(1,2) W_page_ok] unfolding r by blast
qed


section \<open>Listings\<close>

text \<open>
  A page of a context's Tasks is the first part of the complete listing after the
  cursor, in the strict order of creation time, Workspace and Task; the next cursor, given exactly
  when more follow, is that of the last Task of the page.
\<close>

theorem list_tasks_window:
  assumes "agent_reaches E s" "\<not> ag_closed ag" "call_ctx ce = LiveContext" "normalizePageLimit (tpr_Limit request) = Inr limit"
    "ok (validateContextRef ctx)" "\<And>c. tpr_After request = Some c \<Longrightarrow> ok (validateTaskCursor c)"
  shows "\<exists>xs. ordered_rows (\<lambda>r. task_created_cursor (str_Task r))
        {r \<in> ran (db_tasks (mem_db s)). task_Context (str_Task r) = ctx
           \<and> (\<forall>x. tpr_After request = Some x \<longrightarrow> x < task_created_cursor (str_Task r))} xs
    \<and> ListTasks ag memory_ops ce ctx request s =
        Inr \<lparr>tp_Items = map str_Task (take (nat limit) xs),
             tp_Next = (if nat limit < length xs then Some (task_created_cursor (str_Task (xs ! (nat limit - 1)))) else None),
             tp_HasMore = nat limit < length xs\<rparr>"
  using assms by (intro mem.ListTasks_page [OF reaches_inv(1,3) [OF assms(1)]])

definition W_list :: TaskPageRequest where
  "W_list = \<lparr>tpr_After = None, tpr_Limit = 1\<rparr>"

theorem list_tasks_window_witness:
  "\<exists>xs. ordered_rows (\<lambda>r. task_created_cursor (str_Task r))
        {r \<in> ran (db_tasks (mem_db W_s6)). task_Context (str_Task r) = ctc_Context W_create
           \<and> (\<forall>x. tpr_After W_list = Some x \<longrightarrow> x < task_created_cursor (str_Task r))} xs
    \<and> ListTasks W_agent memory_ops W_call (ctc_Context W_create) W_list W_s6 =
        Inr \<lparr>tp_Items = map str_Task (take (nat 1) xs),
             tp_Next = (if nat 1 < length xs then Some (task_created_cursor (str_Task (xs ! (nat 1 - 1)))) else None),
             tp_HasMore = nat 1 < length xs\<rparr>"
proof (rule list_tasks_window [OF W_reach(6) W_live(1,2)])
  show "ok (validateContextRef (ctc_Context W_create))" by code_simp
qed (simp_all add: W_list_def normalizePageLimit_def MaxPageSize_def)

text \<open>
  A page of an authority's Tasks is the first part of the complete filtered
  listing after the cursor, newest update first, with the size of the whole filtered listing.
\<close>

theorem list_authority_tasks_window:
  assumes "agent_reaches E s" "\<not> ag_closed ag" "call_ctx ce = LiveContext" "normalizePageLimit (tq_Limit q) = Inr limit"
    "match_stable authority" "tq_Context q \<noteq> [] \<Longrightarrow> match_stable (tq_Context q)" "tq_State q = no_state \<or> validTaskState (tq_State q)"
    "\<And>t. tq_UpdatedAtOrAfter q = Some t \<Longrightarrow> ok (validateQueryTime t)"
    "\<And>c. tq_After q = Some c \<Longrightarrow> ok (validateTaskQueryCursor c)"
    "card (authority_rows (mem_db s) (query_scan authority q (limit + 1))) < 2 ^ 64"
  shows "\<exists>xs. ordered_rows (\<lambda>r. task_updated_cursor (str_Task r))
        {r \<in> authority_rows (mem_db s) (query_scan authority q (limit + 1)).
           \<forall>x. tq_After q = Some x \<longrightarrow> x < task_updated_cursor (str_Task r)} xs
    \<and> ListAuthorityTasks ag memory_ops ce authority q s =
        Inr \<lparr>tqp_Items = map str_Task (take (nat limit) xs),
             tqp_Next = (if nat limit < length xs then Some (task_updated_cursor (str_Task (xs ! (nat limit - 1)))) else None),
             tqp_HasMore = nat limit < length xs,
             tqp_TotalSize = of_nat (card (authority_rows (mem_db s) (query_scan authority q (limit + 1))))\<rparr>"
  using assms(2-) by (rule mem.ListAuthorityTasks_page [OF reaches_inv(1,3) [OF assms(1)]])

definition W_query :: TaskQuery where
  "W_query = \<lparr>tq_Context = [], tq_State = no_state, tq_UpdatedAtOrAfter = None, tq_After = None, tq_Limit = 1\<rparr>"

theorem list_authority_tasks_window_witness:
  "\<exists>xs. ordered_rows (\<lambda>r. task_updated_cursor (str_Task r))
        {r \<in> authority_rows (mem_db W_s0) (query_scan ''a'' W_query (1 + 1)).
           \<forall>x. tq_After W_query = Some x \<longrightarrow> x < task_updated_cursor (str_Task r)} xs
    \<and> ListAuthorityTasks W_agent memory_ops W_call ''a'' W_query W_s0 =
        Inr \<lparr>tqp_Items = map str_Task (take (nat 1) xs),
             tqp_Next = (if nat 1 < length xs then Some (task_updated_cursor (str_Task (xs ! (nat 1 - 1)))) else None),
             tqp_HasMore = nat 1 < length xs,
             tqp_TotalSize = of_nat (card (authority_rows (mem_db W_s0) (query_scan ''a'' W_query (1 + 1))))\<rparr>"
proof (rule list_authority_tasks_window [OF W_reach0 W_live(1,2)])
  show "match_stable ''a''" by code_simp
  have "authority_rows (mem_db W_s0) scan = {}" for scan
    by (simp add: W_s0_def new_store_empty authority_rows_def empty_db_def)
  then show "card (authority_rows (mem_db W_s0) (query_scan ''a'' W_query (1 + 1))) < 2 ^ 64" by simp
qed (simp_all add: W_query_def normalizePageLimit_def MaxPageSize_def)

end
