(* ===== verification/Protect_Codec.thy ===== *)
theory Protect_Codec
  imports Protect
begin

text \<open>
  The canonical encoding of protected values: the strict base64 spelling is a bijection with the
  byte slices, and a stored value reads back as it was written, over any JSON codec that reads its
  own output back.
\<close>

section \<open>Base64\<close>

lemma b64_alphabet_table:
  "list_all (\<lambda>n. b64_value (b64_char n) = Some n \<and> b64_char n \<noteq> CHR ''='' \<and> byte (b64_char n) \<noteq> 10
     \<and> byte (b64_char n) \<noteq> 13 \<and> byte (b64_char n) < 128) [0..<64]"
  by code_simp

lemma b64_char_ok:
  assumes "n < 64"
  shows "b64_value (b64_char n) = Some n" "b64_char n \<noteq> CHR ''=''" "byte (b64_char n) \<noteq> 10" "byte (b64_char n) \<noteq> 13"
    "byte (b64_char n) < 128"
  using b64_alphabet_table assms by (auto simp: list_all_iff)

text \<open>Regrouping three bytes into four sextets and back.\<close>

lemma b64_sextet:
  "x < 16 \<Longrightarrow> (y * 16 + x) div 16 = (y::nat)" "x < 16 \<Longrightarrow> (y * 16 + x) mod 16 = (x::nat)"
  "x < 4 \<Longrightarrow> (y * 4 + x) div 4 = (y::nat)" "x < 4 \<Longrightarrow> (y * 4 + x) mod 4 = (x::nat)"
  by simp_all

lemma b64_digit_bounds:
  fixes a b c :: nat
  assumes "a < 256" "b < 256" "c < 256"
  shows "a div 4 < 64" "a mod 4 * 16 < 64" "a mod 4 * 16 + b div 16 < 64" "b mod 16 * 4 < 64"
    "b mod 16 * 4 + c div 64 < 64" "c mod 64 < 64" "b div 16 < 16" "c div 64 < 4"
  using assms by auto

lemma b64_decode_encode: "list_all (\<lambda>b. b < 256) bs \<Longrightarrow> b64_decode_quanta (b64_encode bs) = Some bs"
proof (induction bs rule: b64_encode.induct)
  case (2 a)
  then show ?case using b64_digit_bounds [of a 0 0] by (simp add: b64_char_ok)
next
  case (3 a b)
  then show ?case using b64_digit_bounds [of a b 0] by (simp add: b64_char_ok b64_sextet)
next
  case (4 a b c r)
  then show ?case using b64_digit_bounds [of a b c] by (simp add: b64_char_ok b64_sextet)
qed simp

lemma b64_encode_chars:
  "list_all (\<lambda>b. b < 256) bs \<Longrightarrow> c \<in> set (b64_encode bs) \<Longrightarrow> byte c \<noteq> 10 \<and> byte c \<noteq> 13 \<and> byte c < 128"
proof (induction bs rule: b64_encode.induct)
  case (2 a)
  then have "a div 4 < 64" "a mod 4 * 16 < 64" by auto
  with 2 b64_char_ok(3-5) show ?case by (auto simp: byte_def)
next
  case (3 a b)
  then have "a div 4 < 64" "a mod 4 * 16 + b div 16 < 64" "b mod 16 * 4 < 64" by auto
  with 3 b64_char_ok(3-5) show ?case by (auto simp: byte_def)
next
  case (4 a b c r)
  then have "a div 4 < 64" "a mod 4 * 16 + b div 16 < 64" "b mod 16 * 4 + c div 64 < 64" "c mod 64 < 64" by auto
  with 4 b64_char_ok(3-5) show ?case by (auto simp: byte_def)
qed simp

lemma bytes_small: "list_all (\<lambda>b. b < 256) (map unat (bs :: bytes))"
  using unsigned_less [of "_ :: 8 word"] by (auto simp: list_all_iff)

lemma base64_roundtrip: "StdEncoding_Strict_Decode (StdEncoding_EncodeToString bs) = Some bs"
proof -
  let ?s = "b64_encode (map unat bs)"
  have "filter (\<lambda>c. byte c \<noteq> 10 \<and> byte c \<noteq> 13) ?s = ?s"
    using b64_encode_chars [OF bytes_small] by (simp add: filter_id_conv)
  then show ?thesis
    by (simp add: StdEncoding_Strict_Decode_def StdEncoding_EncodeToString_def b64_decode_encode [OF bytes_small] comp_def)
qed

text \<open>
  C24 (roundtrip). Decoding a stored byte field accepts exactly one spelling of every slice, nil
  included: the canonical base64 text with the matching nil marker. So equal bytes have equal
  encodings, and no second spelling of a value passes.
\<close>

theorem canonical_bytes_bijective:
  "decode_canonical err s isNil = Inr v \<longleftrightarrow> s = StdEncoding_EncodeToString (opt_bytes v) \<and> isNil = (v = None)"
proof (cases isNil)
  case True
  then show ?thesis by (cases v) (auto simp: decode_canonical_def opt_bytes_def StdEncoding_EncodeToString_def)
next
  case False
  then show ?thesis
    by (cases v) (auto simp: decode_canonical_def opt_bytes_def base64_roundtrip split: option.splits)
qed


section \<open>Stored values\<close>

text \<open>
  What the encoding relies on \<open>encoding/json\<close> for: a struct is written as one object in UTF-8 with
  its fields in declaration order, strings that are valid UTF-8, numbers and booleans read back,
  and a raw message that is itself such an object, or null, is kept byte for byte.
\<close>

definition reads_envelope :: "wire_json \<Rightarrow> storedEnvelopeV1 \<Rightarrow> bytes \<Rightarrow> bool" where
  "reads_envelope J w bs \<longleftrightarrow>
     (\<exists>v p f k kv nn n dn d. wj_fields J bs = Some (zip storedEnvelope_fields [v, p, f, k, kv, nn, n, dn, d])
        \<and> wj_uint16 J v = Some (se_Version w) \<and> wj_string J p = Some (se_Provider w)
        \<and> wj_string J f = Some (se_Format w) \<and> wj_string J k = Some (se_KeyID w)
        \<and> wj_string J kv = Some (se_KeyVersion w) \<and> wj_bool J nn = Some (se_NonceNil w)
        \<and> wj_string J n = Some (se_Nonce w) \<and> wj_bool J dn = Some (se_DataNil w)
        \<and> wj_string J d = Some (se_Data w))"

definition reads_value :: "wire_json \<Rightarrow> storedValueV1 \<Rightarrow> bytes \<Rightarrow> bool" where
  "reads_value J w bs \<longleftrightarrow>
     (\<exists>v m n p mode. wj_fields J bs = Some (zip storedValue_fields [v, m, n, p, sw_Envelope w])
        \<and> wj_uint16 J v = Some (sw_Version w) \<and> wj_string J m = Some mode \<and> mode_string mode = sw_Mode w
        \<and> wj_bool J n = Some (sw_Nil w) \<and> wj_string J p = Some (sw_Plain w))"

definition envelope_text_ok :: "storedEnvelopeV1 \<Rightarrow> bool" where
  "envelope_text_ok w = list_all utf8_valid [se_Provider w, se_Format w, se_KeyID w, se_KeyVersion w, se_Nonce w, se_Data w]"

definition wire_faithful :: "wire_json \<Rightarrow> bool" where
  "wire_faithful J \<longleftrightarrow>
     (\<forall>w bs. wj_marshal_envelope J w = Some bs \<longrightarrow> envelope_text_ok w \<longrightarrow>
        bs \<noteq> [] \<and> utf8_valid_bytes (map unat bs) \<and> \<not> is_json_null bs \<and> reads_envelope J w bs)
     \<and> (\<forall>w bs. wj_marshal_value J w = Some bs \<longrightarrow> sw_Mode w \<in> {StoredValuePlain, StoredValueSealed} \<longrightarrow> utf8_valid (sw_Plain w)
        \<longrightarrow> sw_Envelope w = json_null \<or> (\<exists>e. wj_marshal_envelope J e = Some (sw_Envelope w))
        \<longrightarrow> bs \<noteq> [] \<and> utf8_valid_bytes (map unat bs) \<and> reads_value J w bs)"

lemma ascii_utf8: "list_all (\<lambda>b. b < 128) bs \<Longrightarrow> utf8_valid_bytes bs"
  by (induction bs) auto

lemma token_utf8: "match_token s \<Longrightarrow> utf8_valid s"
proof -
  assume "match_token s"
  then have "list_all (\<lambda>c. byte c < 128) s"
    by (cases s) (auto simp: is_lower_def list_all_iff byte_def Let_def)
  then show ?thesis by (simp add: utf8_valid_def ascii_utf8 list_all_iff)
qed

lemma base64_utf8: "utf8_valid (StdEncoding_EncodeToString bs)"
  using b64_encode_chars [OF bytes_small, of _ bs]
  by (auto simp: utf8_valid_def StdEncoding_EncodeToString_def list_all_iff intro!: ascii_utf8)

lemma is_null_null: "is_json_null json_null"
  by code_simp

lemma decoded_envelope: "reads_envelope J w bs \<Longrightarrow> decodeStoredEnvelopeV1 J bs = Inr w"
  by (auto simp: reads_envelope_def decodeStoredEnvelopeV1_def storedEnvelope_fields_def set_envelope_field_def)

lemma decoded_value: "reads_value J w bs \<Longrightarrow> decodeStoredValueV1 J bs = Inr w"
  by (auto simp: reads_value_def decodeStoredValueV1_def storedValue_fields_def set_value_field_def)

lemma canonical_again:
  "decodeStoredBytes (StdEncoding_EncodeToString (opt_bytes v)) (v = None) = Inr v"
  "decodeCanonicalValueBytes (StdEncoding_EncodeToString (opt_bytes v)) (v = None) = Inr v"
  by (cases v; simp add: decodeStoredBytes_def decodeCanonicalValueBytes_def decode_canonical_def opt_bytes_def
      base64_roundtrip; simp add: StdEncoding_EncodeToString_def)+

lemma envelope_roundtrip:
  assumes J: "wire_faithful J" and bs: "MarshalEnvelope J e = Inr bs"
  shows "UnmarshalEnvelopeLimited J bs (min (int (length bs)) MaxStoredEnvelopeBytes) = Inr e"
    "\<not> is_json_null bs" "\<exists>w. wj_marshal_envelope J w = Some bs"
proof -
  let ?w = "\<lparr>se_Version = 1, se_Provider = en_Provider e, se_Format = en_Format e, se_KeyID = en_KeyID e,
     se_KeyVersion = en_KeyVersion e, se_NonceNil = (en_Nonce e = None),
     se_Nonce = StdEncoding_EncodeToString (opt_bytes (en_Nonce e)), se_DataNil = (en_Data e = None),
     se_Data = StdEncoding_EncodeToString (opt_bytes (en_Data e))\<rparr>"
  from bs have v: "ok (ValidateEnvelope e)" and m: "wj_marshal_envelope J ?w = Some bs"
    and size: "int (length bs) \<le> MaxStoredEnvelopeBytes"
    by (auto simp: MarshalEnvelope_def split: if_splits option.splits)
  from v have "envelope_text_ok ?w"
    by (auto simp: envelope_text_ok_def ValidateEnvelope_def envelope_key_ok_def token_utf8 base64_utf8 split: if_splits)
  with J m have r: "bs \<noteq> []" "utf8_valid_bytes (map unat bs)" "\<not> is_json_null bs" "reads_envelope J ?w bs"
    by (auto simp: wire_faithful_def)
  then have pos: "1 \<le> int (length bs)" by (cases bs) auto
  have rec: "\<lparr>en_Provider = en_Provider e, en_Format = en_Format e, en_KeyID = en_KeyID e, en_KeyVersion = en_KeyVersion e,
      en_Nonce = en_Nonce e, en_Data = en_Data e\<rparr> = e" by (cases e) simp
  show "UnmarshalEnvelopeLimited J bs (min (int (length bs)) MaxStoredEnvelopeBytes) = Inr e"
    using pos r size v by (simp add: rec UnmarshalEnvelopeLimited_def decoded_envelope canonical_again Let_def)
  show "\<not> is_json_null bs" "\<exists>w. wj_marshal_envelope J w = Some bs" using r m by auto
qed

lemma stored_value_roundtrip_aux:
  assumes J: "wire_faithful J" and bs: "MarshalStoredValue J v = Inr bs"
    and budget: "int (length bs) \<le> maxBytes" "maxBytes \<le> MaxStoredValueBytes"
  shows "UnmarshalStoredValueLimited J bs maxBytes = Inr v"
proof -
  from bs have valid: "ValidateStoredValue v = Inr ()" by (auto simp: MarshalStoredValue_def bind_res_Inr)
  then consider (plain) "sv_Mode v = StoredValuePlain" "sv_Envelope v = None" "sv_Nil v = (sv_Plain v = None)"
    | (sealed) e where "sv_Mode v = StoredValueSealed" "sv_Envelope v = Some e" "sv_Plain v = None"
    by (cases "sv_Mode v") (auto simp: ValidateStoredValue_def split: option.splits if_splits)
  then show ?thesis
  proof cases
    case plain
    let ?w = "\<lparr>sw_Version = 1, sw_Mode = sv_Mode v, sw_Nil = sv_Nil v,
      sw_Plain = StdEncoding_EncodeToString (opt_bytes (sv_Plain v)), sw_Envelope = json_null\<rparr>"
    from bs plain have m: "wj_marshal_value J ?w = Some bs"
      by (auto simp: MarshalStoredValue_def bind_res_Inr split: option.splits if_splits)
    with J plain have d: "bs \<noteq> []" "utf8_valid_bytes (map unat bs)" "decodeStoredValueV1 J bs = Inr ?w"
      by (auto simp: wire_faithful_def base64_utf8 decoded_value)
    then have pos: "1 \<le> maxBytes" using budget(1) by (cases bs) auto
    have rec: "\<lparr>sv_Mode = StoredValuePlain, sv_Nil = (sv_Plain v = None), sv_Plain = sv_Plain v, sv_Envelope = None\<rparr> = v"
      using plain by (cases v) simp
    show ?thesis using d pos budget plain valid canonical_again(2) [of "sv_Plain v"]
      by (simp add: rec UnmarshalStoredValueLimited_def is_null_null)
  next
    case (sealed e)
    from bs sealed obtain raw where raw: "MarshalEnvelope J e = Inr raw"
      and m: "wj_marshal_value J \<lparr>sw_Version = 1, sw_Mode = sv_Mode v, sw_Nil = sv_Nil v, sw_Plain = [], sw_Envelope = raw\<rparr> = Some bs"
      by (auto simp: MarshalStoredValue_def bind_res_Inr opt_bytes_def StdEncoding_EncodeToString_def split: option.splits if_splits)
    note r = envelope_roundtrip [OF J raw]
    from J m r(3) sealed have d: "bs \<noteq> []" "utf8_valid_bytes (map unat bs)"
      "decodeStoredValueV1 J bs = Inr \<lparr>sw_Version = 1, sw_Mode = sv_Mode v, sw_Nil = sv_Nil v, sw_Plain = [], sw_Envelope = raw\<rparr>"
      by (auto simp: wire_faithful_def utf8_valid_def decoded_value)
    then have pos: "1 \<le> maxBytes" using budget(1) by (cases bs) auto
    have rec: "\<lparr>sv_Mode = StoredValueSealed, sv_Nil = sv_Nil v, sv_Plain = None, sv_Envelope = Some e\<rparr> = v"
      using sealed by (cases v) simp
    show ?thesis using d pos budget sealed valid r
      by (simp add: rec UnmarshalStoredValueLimited_def)
  qed
qed

text \<open>What the domains rely on a Protector for: it opens what it sealed under the same binding.\<close>

definition protector_faithful :: "Protector \<Rightarrow> bool" where
  "protector_faithful p \<longleftrightarrow> (\<forall>b plaintext e. pt_Seal p b plaintext = Inr e \<longrightarrow> pt_Open p b (CloneEnvelope e) = Inr plaintext)"

lemma append_nil_simps [simp]: "append_nil (append_nil v) = append_nil v" "slice_len (append_nil v) = slice_len v"
  by (cases v; simp add: append_nil_def slice_len_def)+

lemma clone_envelope_simps [simp]:
  "CloneEnvelope (CloneEnvelope e) = CloneEnvelope e" "ValidateEnvelope (CloneEnvelope e) = ValidateEnvelope e"
  "en_Provider (CloneEnvelope e) = en_Provider e" "en_Format (CloneEnvelope e) = en_Format e"
  "slice_len (en_Data (CloneEnvelope e)) = slice_len (en_Data e)" "slice_len (en_Nonce (CloneEnvelope e)) = slice_len (en_Nonce e)"
  by (simp_all add: CloneEnvelope_def ValidateEnvelope_def)

text \<open>
  C25 (roundtrip). A stored value, plain or sealed, reads back exactly as it was written, within any
  read budget that its encoding fits.
\<close>

theorem stored_value_roundtrip:
  assumes "wire_faithful J" "MarshalStoredValue J v = Inr bs" "int (length bs) \<le> maxBytes" "maxBytes \<le> MaxStoredValueBytes"
  shows "UnmarshalStoredValueLimited J bs maxBytes = Inr v"
  using stored_value_roundtrip_aux [OF assms] .

text \<open>A sealed value and a codec that writes it.\<close>

definition P_envelope :: Envelope where
  "P_envelope = \<lparr>en_Provider = ''p'', en_Format = ''f'', en_KeyID = ''k'', en_KeyVersion = ''v'', en_Nonce = None, en_Data = Some [7]\<rparr>"

definition P_value :: StoredValue where
  "P_value = \<lparr>sv_Mode = StoredValueSealed, sv_Nil = False, sv_Plain = None, sv_Envelope = Some P_envelope\<rparr>"

definition P_wire_envelope :: storedEnvelopeV1 where
  "P_wire_envelope = \<lparr>se_Version = 1, se_Provider = ''p'', se_Format = ''f'', se_KeyID = ''k'', se_KeyVersion = ''v'',
     se_NonceNil = True, se_Nonce = [], se_DataNil = False, se_Data = ''Bw==''\<rparr>"

definition P_wire_value :: storedValueV1 where
  "P_wire_value = \<lparr>sw_Version = 1, sw_Mode = StoredValueSealed, sw_Nil = False, sw_Plain = [], sw_Envelope = [123, 125]\<rparr>"

definition P_texts :: "(bytes \<times> string) list" where
  "P_texts = [([2], ''p''), ([3], ''f''), ([4], ''k''), ([5], ''v''), ([7], []), ([9], ''Bw==''), ([10], ''sealed''), ([12], [])]"

definition P_json :: wire_json where
  "P_json = \<lparr>wj_marshal_envelope = (\<lambda>w. if w = P_wire_envelope then Some [123, 125] else None),
     wj_marshal_value = (\<lambda>w. if w = P_wire_value then Some [123] else None),
     wj_fields = (\<lambda>bs. if bs = [123] then Some (zip storedValue_fields [[1], [10], [11], [12], [123, 125]])
        else Some (zip storedEnvelope_fields [[1], [2], [3], [4], [5], [6], [7], [8], [9]])),
     wj_uint16 = (\<lambda>_. Some 1), wj_string = map_of P_texts, wj_bool = (\<lambda>bs. Some (bs = [6]))\<rparr>"

lemma P_reads: "reads_envelope P_json P_wire_envelope [123, 125]" "reads_value P_json P_wire_value [123]"
proof -
  show "reads_envelope P_json P_wire_envelope [123, 125]"
    unfolding reads_envelope_def
    by (rule exI [of _ "[1]"], rule exI [of _ "[2]"], rule exI [of _ "[3]"], rule exI [of _ "[4]"], rule exI [of _ "[5]"],
        rule exI [of _ "[6]"], rule exI [of _ "[7]"], rule exI [of _ "[8]"], rule exI [of _ "[9]"])
      (simp add: P_json_def P_wire_envelope_def P_texts_def)
  show "reads_value P_json P_wire_value [123]"
    unfolding reads_value_def
    by (rule exI [of _ "[1]"], rule exI [of _ "[10]"], rule exI [of _ "[11]"], rule exI [of _ "[12]"], rule exI [of _ "''sealed''"])
      (simp add: P_json_def P_wire_value_def P_texts_def mode_string_def)
qed

lemma P_json_faithful: "wire_faithful P_json"
proof -
  have "\<not> is_json_null [123, 125]" by code_simp
  with P_reads show ?thesis by (auto simp: wire_faithful_def P_json_def)
qed

lemma P_marshalled: "MarshalStoredValue P_json P_value = Inr [123]"
  by code_simp

theorem stored_value_roundtrip_witness: "UnmarshalStoredValueLimited P_json [123] 10 = Inr P_value"
  by (rule stored_value_roundtrip [OF P_json_faithful P_marshalled]) (simp_all add: MaxStoredValueBytes_def MaxStoredEnvelopeBytes_def)

end
