(* ===== verification/Agent_Content.thy ===== *)
theory Agent_Content
  imports Agent_Protection Protect_Codec
begin

text \<open>
  Content at rest: what the Agent seals for a message or an Artifact it opens again, under a binding
  that belongs to that record alone, and never from plaintext once a Protector is configured.
\<close>

section \<open>Bindings\<close>




definition C_ref :: TaskRef where
  "C_ref = \<lparr>tr_Workspace = \<lparr>wr_Authority = ''a'', wr_ID = ''w''\<rparr>, tr_ID = ''t''\<rparr>"




section \<open>Sealing and opening\<close>

lemma validateProtectorEnvelope_clone [simp]: "validateProtectorEnvelope p (CloneEnvelope e) = validateProtectorEnvelope p e"
  by (simp add: validateProtectorEnvelope_def)

lemma sealed_opens:
  assumes J: "wire_faithful (env_wire E)" and p: "\<And>p. ag_protector ag = Some p \<Longrightarrow> protector_faithful p"
    and enc: "sealStoredValue E ag b v = Inr enc" and n: "int (length enc) \<le> n" "n \<le> MaxStoredValueBytes"
  shows "openStoredValue E ag b enc n = Inr v"
proof (cases "ag_protector ag")
  case None
  with enc have "MarshalStoredValue (env_wire E) (NewPlainStoredValue v) = Inr enc" by (simp add: sealStoredValue_def)
  from stored_value_roundtrip_aux [OF J this n] None show ?thesis
    by (simp add: openStoredValue_def validateStoredValueShape_def NewPlainStoredValue_def)
next
  case (Some q)
  with enc obtain e sv where e: "pt_Seal q b v = Inr e" "validateProtectorEnvelope q e = Inr ()"
    "NewSealedStoredValue (v = None) e = Inr sv" "MarshalStoredValue (env_wire E) sv = Inr enc"
    and size: "slice_len v \<le> ds_MaxPlaintextBytes (pt_Description q)"
    by (auto simp: sealStoredValue_def res_simps split: if_splits)
  from e(3) have v: "sv = \<lparr>sv_Mode = StoredValueSealed, sv_Nil = (v = None), sv_Plain = None, sv_Envelope = Some (CloneEnvelope e)\<rparr>"
    by (auto simp: NewSealedStoredValue_def split: if_splits)
  have "pt_Open q b (CloneEnvelope e) = Inr v" using p [OF Some] e(1) by (simp add: protector_faithful_def)
  with stored_value_roundtrip_aux [OF J e(4) n] Some e(2) v size show ?thesis
    by (simp add: openStoredValue_def validateStoredValueShape_def)
qed

text \<open>
  C27 (roundtrip). The content of a message reads back: the parts that a call prepared, sealed or
  plain, are the parts that a later read of the stored record returns, with the digest verified.
\<close>

theorem message_content_roundtrip:
  assumes "wire_faithful (env_wire E)" "\<And>q. ag_protector ag = Some q \<Longrightarrow> protector_faithful q"
    "json_faithful E DParts (JParts (mi_Parts m))" "prepareMessageContent E ag t m = Inr p"
    "ok (validateStoredMessage E \<lparr>msg_ID = mi_ID m, msg_Task = t, msg_Sequence = n, msg_Author = who,
       msg_Parts = mi_Parts m, msg_CreatedAt = now\<rparr>)"
  shows "messageFromStoreRecord E ag \<lparr>smr_ID = mi_ID m, smr_Task = t, smr_Sequence = n, smr_Author = who,
      smr_EncodedParts = pmc_encoded p, smr_PartsDigest = pmc_digest p, smr_CreatedAt = now\<rparr> =
    Inr \<lparr>msg_ID = mi_ID m, msg_Task = t, msg_Sequence = n, msg_Author = who, msg_Parts = mi_Parts m, msg_CreatedAt = now\<rparr>"
proof -
  from assms(3) obtain pt where pt: "json_Marshal E (JParts (mi_Parts m)) = Some pt" "json_Unmarshal E DParts pt = Some (JParts (mi_Parts m))"
    by (auto simp: json_faithful_def split: option.splits)
  from assms(4) pt have enc: "sealStoredValue E ag (messageProtectionBinding t (mi_ID m)) (Some pt) = Inr (pmc_encoded p)"
    and p: "contentDigest E (mi_Parts m) = Inr (pmc_digest p)" "pmc_encoded p \<noteq> []" "int (length (pmc_encoded p)) \<le> maxPageBytes"
    by (auto simp: prepareMessageContent_def res_simps split: if_splits)
  have "maxPageBytes \<le> MaxStoredValueBytes" by (simp add: maxPageBytes_def MaxStoredValueBytes_def MaxStoredEnvelopeBytes_def)
  with sealed_opens [OF assms(1,2) enc p(3)]
  have "openStoredValue E ag (messageProtectionBinding t (mi_ID m)) (pmc_encoded p) maxPageBytes = Inr (Some pt)" by blast
  with p pt assms(5) show ?thesis by (auto simp: messageFromStoreRecord_def Let_def ok_iff)
qed

definition C_part :: Part where
  "C_part = \<lparr>part_MediaType = ''text/plain'', part_Data = [104]\<rparr>"

definition C_input :: MessageInput where
  "C_input = \<lparr>mi_ID = ''m'', mi_Parts = [C_part]\<rparr>"

definition C_env :: env where
  "C_env = \<lparr>sha256_Sum256 = (\<lambda>_. [1]), json_Marshal = (\<lambda>v. case v of JParts _ \<Rightarrow> Some [3] | _ \<Rightarrow> None),
     json_Unmarshal = (\<lambda>_ _. Some (JParts [C_part])), mime_ParseMediaType = (\<lambda>_. True), env_wire = P_json\<rparr>"

definition C_protector :: Protector where
  "C_protector = \<lparr>pt_Description = \<lparr>ds_Contract = \<lparr>ct_ID = ''human.protector'', ct_Major = 1, ct_Minor = 0, ct_Features = []\<rparr>,
       ds_Provider = ''p'', ds_Format = ''f'', ds_MaxPlaintextBytes = 100, ds_MaxEnvelopeBytes = 100\<rparr>,
     pt_Seal = (\<lambda>_ v. if v = Some [3] then Inr P_envelope else Inl ErrInvalidEnvelope),
     pt_Open = (\<lambda>_ e. if e = P_envelope then Inr (Some [3]) else Inl ErrAuthentication)\<rparr>"

definition C_agent :: agent where
  "C_agent = \<lparr>ag_closed = False, ag_protector = Some C_protector, ag_allowPlaintext = False, ag_maxArtifactBytes = 1000\<rparr>"

definition C_prepared :: preparedMessageContent where
  "C_prepared = \<lparr>pmc_encoded = [123], pmc_digest = ''01''\<rparr>"

lemma C_facts:
  "json_faithful C_env DParts (JParts (mi_Parts C_input))" "prepareMessageContent C_env C_agent C_ref C_input = Inr C_prepared"
  "ok (validateStoredMessage C_env \<lparr>msg_ID = mi_ID C_input, msg_Task = C_ref, msg_Sequence = 1, msg_Author = AuthorCaller,
     msg_Parts = mi_Parts C_input, msg_CreatedAt = 5\<rparr>)"
  "CloneEnvelope P_envelope = P_envelope"
  by code_simp+

theorem message_content_roundtrip_witness:
  "messageFromStoreRecord C_env C_agent \<lparr>smr_ID = mi_ID C_input, smr_Task = C_ref, smr_Sequence = 1, smr_Author = AuthorCaller,
      smr_EncodedParts = pmc_encoded C_prepared, smr_PartsDigest = pmc_digest C_prepared, smr_CreatedAt = 5\<rparr> =
    Inr \<lparr>msg_ID = mi_ID C_input, msg_Task = C_ref, msg_Sequence = 1, msg_Author = AuthorCaller, msg_Parts = mi_Parts C_input, msg_CreatedAt = 5\<rparr>"
proof (rule message_content_roundtrip [OF _ _ C_facts(1-3)])
  show "wire_faithful (env_wire C_env)" by (simp add: C_env_def P_json_faithful)
  show "ag_protector C_agent = Some q \<Longrightarrow> protector_faithful q" for q
    by (auto simp: C_agent_def C_protector_def protector_faithful_def C_facts(4) split: if_splits)
qed

text \<open>
  C28 (safety). With a Protector configured and no migration policy, nothing that the Agent opens
  ever came from plaintext: whatever bytes the store holds, a read either fails or returns what the
  Protector opened from a sealed envelope under exactly this record's binding.
\<close>

theorem no_plaintext_downgrade:
  assumes "openStoredValue E ag b enc n = Inr v" "ag_protector ag = Some p" "\<not> ag_allowPlaintext ag"
  shows "\<exists>stored e. UnmarshalStoredValueLimited (env_wire E) enc n = Inr stored
    \<and> sv_Mode stored = StoredValueSealed \<and> sv_Envelope stored = Some e \<and> pt_Open p b (CloneEnvelope e) = Inr v"
  using openStoredValue_no_downgrade [OF assms] .

lemma C_opened: "openStoredValue C_env C_agent (messageProtectionBinding C_ref ''m'') [123] 10 = Inr (Some [3])"
  by code_simp

theorem no_plaintext_downgrade_witness:
  "\<exists>stored e. UnmarshalStoredValueLimited (env_wire C_env) [123] 10 = Inr stored
    \<and> sv_Mode stored = StoredValueSealed \<and> sv_Envelope stored = Some e
    \<and> pt_Open C_protector (messageProtectionBinding C_ref ''m'') (CloneEnvelope e) = Inr (Some [3])"
  by (rule no_plaintext_downgrade [OF C_opened]) (simp_all add: C_agent_def)

end
