(* ===== verification/Agent_Lifecycle.thy ===== *)
theory Agent_Lifecycle
  imports Agent_Protection
begin

text \<open>
  Construction and life cycle of an Agent, \<^verbatim>\<open>agent/agent.go\<close>: the checks of \<open>Open\<close> and \<open>newAgent\<close>
  (every failure releases both resources), admission by \<open>acquireStore\<close>, and \<open>Shutdown\<close>, which
  closes admission, waits until every admitted call returned its store and only then releases
  the Protector and the Store, in this order.
\<close>

section \<open>Construction\<close>




















section \<open>Admission and shutdown\<close>

text \<open>
  Where the goroutine \<open>finishShutdown\<close> is: not started, waiting for the drain, between the two
  releases (with the result of the first), finished.
\<close>

datatype finisher = NotStarted | AwaitDrain | ProtectorReleased "string option" | Finished

text \<open>
  The life cycle fields of \<open>Agent\<close>. \<open>al_tokens\<close> lists the release functions given out so far, true
  while one has not run; \<open>al_closeErr\<close> is the joined error of the releases.
\<close>

record agent_life =
  al_closed :: bool
  al_active :: uint64
  al_drained :: bool
  al_done :: bool
  al_shutdown :: bool
  al_closeErr :: "string option \<times> string option"
  al_tokens :: "bool list"
  al_finisher :: finisher

definition new_life :: agent_life where
  "new_life = \<lparr>al_closed = False, al_active = 0, al_drained = False, al_done = False, al_shutdown = False,
     al_closeErr = (None, None), al_tokens = [], al_finisher = NotStarted\<rparr>"

definition life_acquire :: "agent_life \<Rightarrow> (agent_error + nat) \<times> agent_life" where
  "life_acquire al =
     (if al_closed al then (Inl ErrClosed, al)
      else (Inr (length (al_tokens al)), al\<lparr>al_active := al_active al + 1, al_tokens := al_tokens al @ [True]\<rparr>))"

definition signal_drained :: "agent_life \<Rightarrow> agent_life" where
  "signal_drained al = (if al_closed al \<and> al_active al = 0 then al\<lparr>al_drained := True\<rparr> else al)"

text \<open>The release function of token \<open>i\<close>; its \<open>sync.Once\<close> makes a second call a no-op.\<close>

definition life_release :: "nat \<Rightarrow> agent_life \<Rightarrow> agent_life" where
  "life_release i al =
     (if \<not> (i < length (al_tokens al) \<and> al_tokens al ! i) then al
      else signal_drained (al\<lparr>al_tokens := (al_tokens al)[i := False],
             al_active := (if al_active al > 0 then al_active al - 1 else al_active al)\<rparr>))"

definition Shutdown_begin :: "agent_life \<Rightarrow> agent_life" where
  "Shutdown_begin al =
     (if al_shutdown al then al
      else (signal_drained (al\<lparr>al_shutdown := True, al_closed := True\<rparr>))\<lparr>al_finisher := AwaitDrain\<rparr>)"

definition finish_protector :: "string option \<Rightarrow> agent_life \<Rightarrow> agent_life" where
  "finish_protector e al = al\<lparr>al_finisher := ProtectorReleased e\<rparr>"

definition finish_store :: "string option \<Rightarrow> string option \<Rightarrow> agent_life \<Rightarrow> agent_life" where
  "finish_store e e' al = al\<lparr>al_closeErr := (e, e'), al_done := True, al_finisher := Finished\<rparr>"

definition Err :: "agent_life \<Rightarrow> string option \<times> string option" where
  "Err al = (if al_done al then al_closeErr al else (None, None))"

definition held :: "agent_life \<Rightarrow> nat" where
  "held al = length (filter id (al_tokens al))"

text \<open>The number of calls in flight is bounded by memory, far below the range of the counter.\<close>

inductive life_step :: "agent_life \<Rightarrow> agent_life \<Rightarrow> bool" where
  Acquire: "held al < 2 ^ 63 \<Longrightarrow> life_step al (snd (life_acquire al))"
| Release: "life_step al (life_release i al)"
| Shutdown: "life_step al (Shutdown_begin al)"
| Protector: "al_finisher al = AwaitDrain \<Longrightarrow> al_drained al \<Longrightarrow> life_step al (finish_protector e al)"
| Store: "al_finisher al = ProtectorReleased e \<Longrightarrow> life_step al (finish_store e e' al)"

definition life_inv :: "agent_life \<Rightarrow> bool" where
  "life_inv al \<longleftrightarrow>
     unat (al_active al) = held al \<and> held al \<le> 2 ^ 63
     \<and> al_closed al = al_shutdown al \<and> (al_drained al \<longleftrightarrow> al_closed al \<and> held al = 0)
     \<and> (al_finisher al = NotStarted \<longleftrightarrow> \<not> al_closed al)
     \<and> (al_finisher al \<notin> {NotStarted, AwaitDrain} \<longrightarrow> al_drained al)
     \<and> (al_done al \<longleftrightarrow> al_finisher al = Finished)"

definition life_grows :: "agent_life \<Rightarrow> agent_life \<Rightarrow> bool" where
  "life_grows al al' \<longleftrightarrow>
     (al_closed al \<longrightarrow> al_closed al' \<and> length (al_tokens al') = length (al_tokens al) \<and> held al' \<le> held al)
     \<and> (al_drained al \<longrightarrow> al_drained al')
     \<and> (al_done al \<longrightarrow> al_done al' \<and> Err al' = Err al)"

lemma held_release:
  "i < length ts \<Longrightarrow> ts ! i \<Longrightarrow> Suc (length (filter id (ts[i := False]))) = length (filter id ts)"
  by (induction ts arbitrary: i) (auto simp: nth_Cons split: nat.splits)

lemma life_step_inv: "life_step al al' \<Longrightarrow> life_inv al \<Longrightarrow> life_inv al'"
proof (induction rule: life_step.induct)
  case (Acquire al)
  have "unat (al_active al + 1) = unat (al_active al) + 1" if "unat (al_active al) < 2 ^ 63"
    using that by (simp add: unat_word_ariths)
  with Acquire show ?case by (auto simp: life_acquire_def life_inv_def held_def)
next
  case (Release al i)
  show ?case
  proof (cases "i < length (al_tokens al) \<and> al_tokens al ! i")
    case True
    from held_release [of i "al_tokens al"] True
    have s: "Suc (length (filter id ((al_tokens al)[i := False]))) = held al" by (simp add: held_def)
    with Release have pos: "unat (al_active al) > 0" by (simp add: life_inv_def)
    then have nz: "al_active al \<noteq> 0" by auto
    then have "unat (al_active al - 1) = unat (al_active al) - 1" "0 < al_active al"
      by (rule unat_minus_one, simp add: word_greater_zero_iff)
    moreover from this have "al_active al - 1 = 0 \<longleftrightarrow> unat (al_active al) = 1" using pos unat_eq_0 [of "al_active al - 1"] by auto
    ultimately show ?thesis
      using True Release s by (auto simp: life_release_def signal_drained_def life_inv_def held_def)
  qed (use Release in \<open>simp add: life_release_def\<close>)
next
  case (Shutdown al)
  then have "al_active al = 0 \<longleftrightarrow> held al = 0" using unat_eq_0 [of "al_active al"] by (auto simp: life_inv_def)
  with Shutdown show ?case by (auto simp: Shutdown_begin_def signal_drained_def life_inv_def held_def)
qed (auto simp: life_inv_def finish_protector_def finish_store_def held_def)

lemma life_step_grows: "life_step al al' \<Longrightarrow> life_inv al \<Longrightarrow> life_grows al al'"
proof (induction rule: life_step.induct)
  case (Release al i)
  then show ?case
    using held_release [of i "al_tokens al"]
    by (auto simp: life_release_def signal_drained_def life_grows_def Err_def held_def)
qed (auto simp: life_grows_def life_acquire_def Shutdown_begin_def signal_drained_def finish_protector_def
      finish_store_def Err_def held_def life_inv_def)

interpretation life: invariant_system "\<lambda>al. al = new_life" life_step life_inv life_grows
proof unfold_locales
  show "al = new_life \<Longrightarrow> life_inv al" for al by (simp add: new_life_def life_inv_def held_def)
  show "life_grows a b \<Longrightarrow> life_grows b c \<Longrightarrow> life_grows a c" for a b c
    by (auto simp: life_grows_def)
  show "life_grows a a" for a by (simp add: life_grows_def)
qed (auto intro: life_step_inv life_step_grows)

text \<open>Whatever is still held when the Agent is shut down, returning it leads to \<open>Done\<close>.\<close>

lemma release_all:
  assumes "life_inv al" "al_closed al"
  shows "\<exists>al'. life_step\<^sup>*\<^sup>* al al' \<and> held al' = 0"
  using assms
proof (induction "held al" arbitrary: al)
  case (Suc n)
  then obtain i where i: "i < length (al_tokens al)" "al_tokens al ! i"
    by (metis filter_False held_def id_apply in_set_conv_nth list.size(3) nat.distinct(1))
  let ?al = "life_release i al"
  have step: "life_step al ?al" by (rule life_step.Release)
  have "held ?al = n"
    using held_release [OF i] Suc.hyps(2) i by (simp add: life_release_def signal_drained_def held_def)
  moreover have "life_inv ?al" "al_closed ?al"
    using life_step_inv [OF step] life_step_grows [OF step] Suc.prems by (auto simp: life_grows_def)
  ultimately obtain al' where "life_step\<^sup>*\<^sup>* ?al al'" "held al' = 0" using Suc.hyps(1) by blast
  with step show ?case by (meson converse_rtranclp_into_rtranclp)
qed auto

lemma life_finishes:
  assumes inv: "life_inv al" and closed: "al_closed al" and drained: "held al = 0"
  shows "\<exists>al'. life_step\<^sup>*\<^sup>* al al' \<and> al_done al'"
proof (cases "al_finisher al")
  case AwaitDrain
  let ?a = "finish_protector None al" and ?b = "finish_store None None (finish_protector None al)"
  have "life_step al ?a" using AwaitDrain assms by (auto simp: life_inv_def intro: life_step.Protector)
  moreover have "life_step ?a ?b" by (rule life_step.Store) (simp add: finish_protector_def)
  ultimately have "life_step\<^sup>*\<^sup>* al ?b" by simp
  then show ?thesis by (auto simp: finish_store_def)
next
  case (ProtectorReleased e)
  have "life_step al (finish_store e None al)" using ProtectorReleased by (rule life_step.Store)
  then show ?thesis by (auto simp: finish_store_def)
qed (use assms in \<open>auto simp: life_inv_def\<close>)


section \<open>Properties\<close>

text \<open>
  C32 (safety). Shutdown is orderly: the Agent's resources are released only after admission ended
  and every admitted call returned, the Protector before the Store; and once closed, the Agent
  admits no further call, now or in any later state.
\<close>

theorem release_after_drain:
  assumes "reachable_from (\<lambda>al. al = new_life) life_step al" "life_step\<^sup>*\<^sup>* al al'"
  shows "(al_finisher al \<notin> {NotStarted, AwaitDrain} \<longrightarrow> al_closed al \<and> held al = 0)
    \<and> (al_closed al \<longrightarrow> life_acquire al' = (Inl ErrClosed, al') \<and> held al' \<le> held al)"
proof -
  note inv = life.reachable_inv [OF assms(1)] and grows = life.steps_R [OF assms(2) life.reachable_inv [OF assms(1)]]
  then show ?thesis by (auto simp: life_inv_def life_grows_def life_acquire_def)
qed

definition L_closed :: agent_life where
  "L_closed = Shutdown_begin (snd (life_acquire new_life))"

lemma L_reach: "reachable_from (\<lambda>al. al = new_life) life_step L_closed"
proof -
  have "life_step new_life (snd (life_acquire new_life))" by (rule life_step.Acquire) (simp add: held_def new_life_def)
  then show ?thesis unfolding L_closed_def
    by (rule reachable_from.step [OF reachable_from.step, rotated]) (auto intro: reachable_from.start life_step.Shutdown)
qed

definition L_drained :: agent_life where
  "L_drained = finish_protector None (life_release 0 L_closed)"

lemma L_drained_reach: "reachable_from (\<lambda>al. al = new_life) life_step L_drained"
  unfolding L_drained_def
  by (rule reachable_from.step, rule reachable_from.step, rule L_reach, rule life_step.Release, rule life_step.Protector)
     code_simp+

lemma L_drained_facts: "al_finisher L_drained \<notin> {NotStarted, AwaitDrain}" "al_closed L_drained"
  by (simp add: L_drained_def finish_protector_def) code_simp

theorem release_after_drain_witness:
  "held L_drained = 0 \<and> life_acquire (finish_store None None L_drained) = (Inl ErrClosed, finish_store None None L_drained)"
  using release_after_drain [OF L_drained_reach r_into_rtranclp [of life_step, OF life_step.Store [of _ None None]]]
    L_drained_facts by (simp add: L_drained_def finish_protector_def)

text \<open>
  C33 (liveness). Shutdown can always finish: from every state in which it was requested, the
  return of the admitted calls and the two releases lead to \<open>Done\<close>.
\<close>

theorem shutdown_can_finish:
  assumes "reachable_from (\<lambda>al. al = new_life) life_step al"
  shows "\<exists>al'. life_step\<^sup>*\<^sup>* (Shutdown_begin al) al' \<and> al_done al'"
proof -
  have inv: "life_inv (Shutdown_begin al)"
    using life.reachable_inv [OF reachable_from.step [OF assms life_step.Shutdown]] .
  have closed: "al_closed (Shutdown_begin al)"
    using life.reachable_inv [OF assms] by (auto simp: Shutdown_begin_def signal_drained_def life_inv_def)
  obtain al1 where al1: "life_step\<^sup>*\<^sup>* (Shutdown_begin al) al1" "held al1 = 0"
    using release_all [OF inv closed] by blast
  have "life_inv al1" "al_closed al1"
    using life.steps_inv [OF al1(1) inv] life.steps_R [OF al1(1) inv] closed by (auto simp: life_grows_def)
  from life_finishes [OF this al1(2)] al1(1) show ?thesis by (meson rtranclp_trans)
qed

theorem shutdown_can_finish_witness: "\<exists>al'. life_step\<^sup>*\<^sup>* (Shutdown_begin L_closed) al' \<and> al_done al'"
  by (rule shutdown_can_finish [OF L_reach])





end
