(* ===== verification/Workspace_Apply.thy ===== *)
theory Workspace_Apply
  imports Agent_Validate
begin

text \<open>
  The caller side of an Artifact, \<^verbatim>\<open>workspace/apply.go\<close>: the intent of one external compare-and-swap,
  its outcome, their validation, and the bounded outcome that stands for an unknown effect. The JSON
  encodings of intents and outcomes are the parameter \<open>apply_codec\<close>.
\<close>


section \<open>Data\<close>

record ApplyIdentity =
  ai_Authority :: string
  ai_Workspace :: string
  ai_Artifact :: string

record ApplyIntent =
  in_Identity :: ApplyIdentity
  in_ArtifactDigest :: Digest
  in_PayloadDigest :: Digest
  in_BaseRevision :: Revision
  in_ResultRevision :: Revision
  in_Payload :: Payload

record CASOutcome =
  co_Decision :: ApplyDecision
  co_ObservedRevision :: Revision
  co_Code :: string
  co_Message :: string

datatype ApplyState =
  ApplyStatePending | ApplyStateSuccess | ApplyStateConflict | ApplyStateRejected | ApplyStateIndeterminate
| ApplyStateOther string

fun ApplyState_Terminal :: "ApplyState \<Rightarrow> bool" where
  "ApplyState_Terminal ApplyStatePending = False"
| "ApplyState_Terminal (ApplyStateOther _) = False"
| "ApplyState_Terminal _ = True"

text \<open>\<open>stateForDecision\<close> keeps the string; the five state strings are the constructors.\<close>

fun stateForDecision :: "ApplyDecision \<Rightarrow> ApplyState" where
  "stateForDecision ApplySuccess = ApplyStateSuccess"
| "stateForDecision ApplyConflict = ApplyStateConflict"
| "stateForDecision ApplyRejected = ApplyStateRejected"
| "stateForDecision ApplyIndeterminate = ApplyStateIndeterminate"
| "stateForDecision (ApplyDecisionOther d) =
     (if d = ''pending'' then ApplyStatePending else ApplyStateOther d)"

record ApplyRecord =
  rec_Intent :: ApplyIntent
  rec_IntentDigest :: Digest
  rec_State :: ApplyState
  rec_Outcome :: "CASOutcome option"
  rec_CreatedAt :: gotime
  rec_CompletedAt :: "gotime option"

record ApplyResult =
  res_Record :: ApplyRecord
  res_Replay :: bool

text \<open>The errors of the workspace Store; those of the database and of a done context are opaque.\<close>

datatype apply_error =
  ErrApplyClosed | ErrApplyNotFound | ErrApplyIntentConflict | ErrInvalidApply | ErrApplyCorruptStore
| ErrApplyDatabase | ErrApplyContext

record apply_codec =
  intent_Marshal :: "ApplyIntent \<Rightarrow> bytes option"
  intent_Unmarshal :: "bytes \<Rightarrow> ApplyIntent option"
  outcome_Marshal :: "CASOutcome \<Rightarrow> bytes option"
  outcome_Unmarshal :: "bytes \<Rightarrow> CASOutcome option"


section \<open>Validation\<close>

definition absoluteApplyPayloadMax :: int where
  "absoluteApplyPayloadMax = 64 * 2 ^ 20"

definition DigestPayload :: "env \<Rightarrow> Payload \<Rightarrow> Digest" where
  "DigestPayload E payload = sha256Identity E (marshal_or_nil E (JPayload payload))"

definition ValidateApplyIdentity :: "ApplyIdentity \<Rightarrow> apply_error + unit" where
  "ValidateApplyIdentity i =
     (if \<not> match_stable (ai_Authority i) \<or> \<not> match_stable (ai_Workspace i) \<or> \<not> match_stable (ai_Artifact i)
      then Inl ErrInvalidApply else Inr ())"

text \<open>
  Decoding and encoding again gives the input back exactly when no digit is a capital letter.
\<close>

definition is_lower_hex :: "char \<Rightarrow> bool" where
  "is_lower_hex c = (let b = byte c in 48 \<le> b \<and> b \<le> 57 \<or> 97 \<le> b \<and> b \<le> 102)"

definition validateApplyDigest :: "Digest \<Rightarrow> apply_error + unit" where
  "validateApplyDigest v =
     (if length v \<noteq> 7 + 64 \<or> take 7 v \<noteq> ''sha256:'' then Inl ErrInvalidApply
      else if \<not> hex_decodable (drop 7 v) \<or> \<not> list_all is_lower_hex (drop 7 v) then Inl ErrInvalidApply
      else Inr ())"

definition validateApplyRevision :: "Revision \<Rightarrow> apply_error + unit" where
  "validateApplyRevision v =
     (if v = [] \<or> 256 < length v \<or> \<not> utf8_valid v \<or> contains_any v [0, 13, 10]
      then Inl ErrInvalidApply else Inr ())"

definition ValidateApplyIntent :: "env \<Rightarrow> ApplyIntent \<Rightarrow> apply_error + unit" where
  "ValidateApplyIntent E i =
     bind_res (ValidateApplyIdentity (in_Identity i)) (\<lambda>_.
     bind_res (validateApplyDigest (in_ArtifactDigest i)) (\<lambda>_.
     bind_res (validateApplyDigest (in_PayloadDigest i)) (\<lambda>_.
     if in_PayloadDigest i \<noteq> DigestPayload E (in_Payload i) then Inl ErrInvalidApply
     else bind_res (validateApplyRevision (in_BaseRevision i)) (\<lambda>_.
     bind_res (validateApplyRevision (in_ResultRevision i)) (\<lambda>_.
     if in_BaseRevision i = in_ResultRevision i then Inl ErrInvalidApply
     else let mediaType = pl_MediaType (in_Payload i) in
     if mediaType = [] \<or> mediaType \<noteq> TrimSpace mediaType \<or> 128 < length mediaType
        \<or> \<not> utf8_valid mediaType \<or> contains_any mediaType [13, 10, 0] then Inl ErrInvalidApply
     else if \<not> mime_ParseMediaType E mediaType then Inl ErrInvalidApply
     else if pl_Data (in_Payload i) = [] \<or> int (length (pl_Data (in_Payload i))) > absoluteApplyPayloadMax
     then Inl ErrInvalidApply
     else Inr ())))))"

definition sha256Digest :: "env \<Rightarrow> bytes \<Rightarrow> Digest" where
  "sha256Digest E v = ''sha256:'' @ hex_EncodeToString (sha256_Sum256 E v)"

definition CanonicalApplyIntent ::
    "env \<Rightarrow> apply_codec \<Rightarrow> ApplyIntent \<Rightarrow> apply_error + bytes \<times> Digest" where
  "CanonicalApplyIntent E K i =
     bind_res (ValidateApplyIntent E i) (\<lambda>_.
       case intent_Marshal K i of
         None \<Rightarrow> Inl ErrInvalidApply
       | Some encoded \<Rightarrow> Inr (encoded, sha256Digest E encoded))"

definition ValidateCASOutcome :: "CASOutcome \<Rightarrow> ApplyIntent \<Rightarrow> apply_error + unit" where
  "ValidateCASOutcome o' i =
     (if \<not> Valid (co_Decision o') then Inl ErrInvalidApply
      else bind_res (if co_ObservedRevision o' \<noteq> [] then validateApplyRevision (co_ObservedRevision o') else Inr ())
       (\<lambda>_.
        if co_Decision o' = ApplySuccess \<and> co_ObservedRevision o' \<noteq> in_ResultRevision i then Inl ErrInvalidApply
        else if co_Decision o' = ApplyConflict \<and> co_ObservedRevision o' = [] then Inl ErrInvalidApply
        else if 128 < length (co_Code o') \<or> \<not> utf8_valid (co_Code o') \<or> contains_any (co_Code o') [0, 13, 10]
        then Inl ErrInvalidApply
        else if 4096 < length (co_Message o') \<or> \<not> utf8_valid (co_Message o') \<or> contains_any (co_Message o') [0]
        then Inl ErrInvalidApply
        else Inr ()))"


section \<open>The outcome of an unknown effect\<close>

text \<open>The encodings of one character, and the width of the one at the front of a text.\<close>

fun rune :: "nat list \<Rightarrow> bool" where
  "rune [a] = (a < 128)"
| "rune [a, b] = (194 \<le> a \<and> a \<le> 223 \<and> utf8_cont b)"
| "rune [a, b, c] =
     (224 \<le> a \<and> a \<le> 239
      \<and> (if a = 224 then 160 \<le> b \<and> b \<le> 191 else if a = 237 then 128 \<le> b \<and> b \<le> 159 else utf8_cont b)
      \<and> utf8_cont c)"
| "rune [a, b, c, d] =
     (240 \<le> a \<and> a \<le> 244
      \<and> (if a = 240 then 144 \<le> b \<and> b \<le> 191 else if a = 244 then 128 \<le> b \<and> b \<le> 143 else utf8_cont b)
      \<and> utf8_cont c \<and> utf8_cont d)"
| "rune _ = False"

definition rune_len :: "nat list \<Rightarrow> nat option" where
  "rune_len s = find (\<lambda>n. n \<le> length s \<and> rune (take n s)) [1, 2, 3, 4]"

lemma rune_len_SomeD: "rune_len s = Some n \<Longrightarrow> 1 \<le> n \<and> n \<le> length s \<and> rune (take n s)"
  unfolding rune_len_def by (drule find_SomeD) auto

text \<open>\<open>strings.ToValidUTF8\<close>: a run of bytes outside of characters becomes one replacement.\<close>

function to_valid_bytes :: "nat list \<Rightarrow> bool \<Rightarrow> nat list \<Rightarrow> nat list" where
  "to_valid_bytes repl invalid s =
     (if s = [] then []
      else case rune_len s of
        Some n \<Rightarrow> take n s @ to_valid_bytes repl False (drop n s)
      | None \<Rightarrow> (if invalid then [] else repl) @ to_valid_bytes repl True (drop 1 s))"
  by pat_completeness auto

termination
  by (relation "measure (\<lambda>(repl, invalid, s). length s)") (auto dest: rune_len_SomeD)

declare to_valid_bytes.simps [simp del]

text \<open>The bytes of U+FFFD.\<close>

definition replacement :: "nat list" where "replacement = [239, 191, 189]"

definition ToValidUTF8 :: "string \<Rightarrow> string" where
  "ToValidUTF8 s = map char_of (to_valid_bytes replacement False (map byte s))"

text \<open>\<open>strings.NewReplacer\<close> and \<open>strings.ReplaceAll\<close> on single bytes.\<close>

definition replace_bytes :: "(nat \<Rightarrow> nat list option) \<Rightarrow> string \<Rightarrow> string" where
  "replace_bytes f s =
     map char_of (concat (map (\<lambda>b. case f b of None \<Rightarrow> [b] | Some r \<Rightarrow> r) (map byte s)))"

function cut_invalid :: "string \<Rightarrow> string" where
  "cut_invalid v = (if utf8_valid v then v else cut_invalid (butlast v))"
  by pat_completeness auto
termination
proof (relation "measure length", goal_cases)
  case (2 v)
  then have "v \<noteq> []" by (auto simp: utf8_valid_def)
  then show ?case by simp
qed simp

declare cut_invalid.simps [simp del]

definition truncateUTF8 :: "string \<Rightarrow> nat \<Rightarrow> string" where
  "truncateUTF8 v maximum = (if length v \<le> maximum then v else cut_invalid (take maximum v))"

text \<open>The replacements in a code and in a message.\<close>

definition code_replacer :: "nat \<Rightarrow> nat list option" where
  "code_replacer = [0 \<mapsto> replacement, 13 \<mapsto> [32], 10 \<mapsto> [32]]"

definition message_replacer :: "nat \<Rightarrow> nat list option" where
  "message_replacer = [0 \<mapsto> replacement]"

definition IndeterminateOutcome :: "string \<Rightarrow> string \<Rightarrow> CASOutcome" where
  "IndeterminateOutcome code message =
     (let code1 = replace_bytes code_replacer (ToValidUTF8 code);
          code2 = (if 128 < length code1 then truncateUTF8 code1 128 else code1);
          message1 = replace_bytes message_replacer (ToValidUTF8 message);
          message2 = (if 4096 < length message1 then truncateUTF8 message1 4096 else message1) in
      \<lparr>co_Decision = ApplyIndeterminate, co_ObservedRevision = [], co_Code = code2, co_Message = message2\<rparr>)"


section \<open>UTF-8\<close>

lemma rune_length: "rune r \<Longrightarrow> 1 \<le> length r \<and> length r \<le> 4"
  by (cases r rule: rune.cases) simp_all

lemma utf8_valid_rune: "rune r \<Longrightarrow> utf8_valid_bytes (r @ t) \<longleftrightarrow> utf8_valid_bytes t"
proof (cases r rule: rune.cases)
  case (1 a)
  assume "rune r"
  with 1 show ?thesis by simp
next
  case (2 a b)
  assume "rune r"
  with 2 have "194 \<le> a" "a \<le> 223" "utf8_cont b" by simp_all
  then show ?thesis unfolding 2 append.simps by (subst utf8_valid_bytes.simps) simp
next
  case (3 a b c)
  assume "rune r"
  with 3 show ?thesis unfolding 3 append.simps by (subst utf8_valid_bytes.simps) simp
next
  case (4 a b c d)
  assume "rune r"
  with 4 show ?thesis unfolding 4 append.simps by (subst utf8_valid_bytes.simps) simp
qed simp_all

lemma utf8_valid_front:
  assumes "utf8_valid_bytes s" "s \<noteq> []"
  shows "\<exists>r t. s = r @ t \<and> rune r \<and> utf8_valid_bytes t"
proof -
  obtain a r0 where s: "s = a # r0" using assms(2) by (cases s) auto
  note v = assms(1) [unfolded s utf8_valid_bytes.simps(2)]
  consider "a < 128" | "\<not> a < 128" "194 \<le> a \<and> a \<le> 223" | "\<not> a < 128" "\<not> (194 \<le> a \<and> a \<le> 223)" "224 \<le> a \<and> a \<le> 239"
    | "\<not> a < 128" "\<not> (194 \<le> a \<and> a \<le> 223)" "\<not> (224 \<le> a \<and> a \<le> 239)" by blast
  then show ?thesis
  proof cases
    case 1
    then show ?thesis using v s by (intro exI [of _ "[a]"] exI [of _ r0]) simp
  next
    case 2
    from v [unfolded if_not_P [OF 2(1)]] 2(2) obtain b r1 where "r0 = b # r1" "utf8_cont b" "utf8_valid_bytes r1"
      by (cases r0) simp_all
    then show ?thesis using 2 s by (intro exI [of _ "[a, b]"] exI [of _ r1]) simp
  next
    case 3
    from v [unfolded if_not_P [OF 3(1)] if_not_P [OF 3(2)] if_P [OF 3(3)]]
    obtain b c r2 where "r0 = b # c # r2" "utf8_cont c" "utf8_valid_bytes r2"
        "if a = 224 then 160 \<le> b \<and> b \<le> 191 else if a = 237 then 128 \<le> b \<and> b \<le> 159 else utf8_cont b"
      by (auto split: list.splits)
    then show ?thesis using 3 s by (intro exI [of _ "[a, b, c]"] exI [of _ r2]) simp
  next
    case 4
    from v [unfolded if_not_P [OF 4(1)] if_not_P [OF 4(2)] if_not_P [OF 4(3)]]
    obtain b c d r3 where "r0 = b # c # d # r3" "240 \<le> a" "a \<le> 244" "utf8_cont c" "utf8_cont d" "utf8_valid_bytes r3"
        "if a = 240 then 144 \<le> b \<and> b \<le> 191 else if a = 244 then 128 \<le> b \<and> b \<le> 143 else utf8_cont b"
      by (auto split: list.splits)
    then show ?thesis using s by (intro exI [of _ "[a, b, c, d]"] exI [of _ r3]) simp
  qed
qed

text \<open>A text is valid exactly if it is a sequence of characters.\<close>

lemma utf8_valid_runes: "utf8_valid_bytes s \<longleftrightarrow> (\<exists>rs. list_all rune rs \<and> s = concat rs)"
proof
  show "utf8_valid_bytes s \<Longrightarrow> \<exists>rs. list_all rune rs \<and> s = concat rs"
  proof (induction s rule: length_induct)
    case (1 s)
    show ?case
    proof (cases "s = []")
      case True
      then show ?thesis by (intro exI [of _ "[]"]) simp
    next
      case False
      then obtain r t where rt: "s = r @ t" "rune r" "utf8_valid_bytes t" using utf8_valid_front 1(2) by blast
      then have "length t < length s" using rune_length [of r] by auto
      then obtain rs where "list_all rune rs" "t = concat rs" using 1(1) rt(3) by blast
      then show ?thesis using rt by (intro exI [of _ "r # rs"]) simp
    qed
  qed
next
  assume "\<exists>rs. list_all rune rs \<and> s = concat rs"
  then obtain rs where rs: "list_all rune rs" "s = concat rs" by blast
  have "list_all rune rs \<Longrightarrow> utf8_valid_bytes (concat rs)"
    by (induction rs) (simp_all add: utf8_valid_rune)
  then show "utf8_valid_bytes s" using rs by simp
qed

lemma utf8_valid_append: "utf8_valid_bytes xs \<Longrightarrow> utf8_valid_bytes (xs @ ys) \<longleftrightarrow> utf8_valid_bytes ys"
proof -
  have "list_all rune rs \<Longrightarrow> utf8_valid_bytes (concat rs @ ys) \<longleftrightarrow> utf8_valid_bytes ys" for rs
    by (induction rs) (simp_all add: utf8_valid_rune)
  then show "utf8_valid_bytes xs \<Longrightarrow> ?thesis" by (auto simp: utf8_valid_runes [of xs])
qed

lemma map_byte_char_of: "(\<And>b. b \<in> set bs \<Longrightarrow> b < 256) \<Longrightarrow> map byte (map char_of bs) = bs"
  by (induction bs) (simp_all add: byte_def)

lemma byte_less: "byte c < 256"
  by (simp add: byte_def)

lemma char_of_byte [simp]: "char_of (byte c) = c"
  by (simp add: byte_def)

lemma replacement_rune: "rune replacement" "b \<in> set replacement \<Longrightarrow> 128 \<le> b \<and> b < 256"
  by (auto simp: replacement_def utf8_cont_def)

lemma to_valid_bytes_valid: "utf8_valid_bytes (to_valid_bytes replacement invalid s)"
proof (induction replacement invalid s rule: to_valid_bytes.induct)
  case (1 invalid s)
  have r: "utf8_valid_bytes (replacement @ t) \<longleftrightarrow> utf8_valid_bytes t" for t
    by (rule utf8_valid_rune [OF replacement_rune(1)])
  have front: "utf8_valid_bytes (take n s @ t) \<longleftrightarrow> utf8_valid_bytes t" if "rune_len s = Some n" for n t
    using rune_len_SomeD [OF that] by (simp add: utf8_valid_rune)
  show ?case
    using 1 by (subst to_valid_bytes.simps) (auto simp: front r split: option.splits)
qed

lemma to_valid_bytes_bytes:
  "(\<And>b. b \<in> set s \<Longrightarrow> b < 256) \<Longrightarrow> b \<in> set (to_valid_bytes replacement invalid s) \<Longrightarrow> b < 256"
proof (induction replacement invalid s rule: to_valid_bytes.induct)
  case (1 invalid s)
  from 1(4) show ?case
    using 1(1,2,3) replacement_rune(2)
    by (subst (asm) to_valid_bytes.simps)
       (auto split: option.splits if_splits dest: in_set_takeD in_set_dropD)
qed

lemma bytes_ToValidUTF8: "map byte (ToValidUTF8 s) = to_valid_bytes replacement False (map byte s)"
  unfolding ToValidUTF8_def
  by (rule map_byte_char_of, erule to_valid_bytes_bytes [rotated]) (auto simp: byte_less)

lemma ToValidUTF8_valid: "utf8_valid (ToValidUTF8 s)"
  by (simp add: utf8_valid_def bytes_ToValidUTF8 to_valid_bytes_valid)

text \<open>Replacing single-byte characters by valid texts keeps a text valid.\<close>

lemma rune_high: "rune r \<Longrightarrow> length r \<noteq> 1 \<Longrightarrow> b \<in> set r \<Longrightarrow> 128 \<le> b"
  by (cases r rule: rune.cases) (auto simp: utf8_cont_def split: if_splits)

lemma replace_valid:
  assumes f: "\<And>b r. f b = Some r \<Longrightarrow> b < 128 \<and> utf8_valid_bytes r"
    and s: "utf8_valid_bytes s"
  shows "utf8_valid_bytes (concat (map (\<lambda>b. case f b of None \<Rightarrow> [b] | Some r \<Rightarrow> r) s))" (is "_ (concat (map ?g s))")
proof -
  have one: "utf8_valid_bytes (concat (map ?g r))" if "rune r" for r
  proof (cases "length r = 1")
    case True
    then obtain a where "r = [a]" by (cases r) auto
    then show ?thesis using f \<open>rune r\<close> by (auto split: option.splits)
  next
    case False
    have "f b = None" if "b \<in> set r" for b
      using rune_high [OF \<open>rune r\<close> False that] f [of b] by (cases "f b") auto
    then have "concat (map ?g r) = r" by (induction r) simp_all
    then show ?thesis using \<open>rune r\<close> utf8_valid_rune [of r "[]"] by simp
  qed
  have "list_all rune rs \<Longrightarrow> utf8_valid_bytes (concat (map ?g (concat rs)))" for rs
    by (induction rs) (simp_all add: one utf8_valid_append)
  then show ?thesis using s by (auto simp: utf8_valid_runes [of s])
qed

lemma bytes_replace:
  assumes "\<And>b r x. f b = Some r \<Longrightarrow> x \<in> set r \<Longrightarrow> x < 256"
  shows "map byte (replace_bytes f s) = concat (map (\<lambda>b. case f b of None \<Rightarrow> [b] | Some r \<Rightarrow> r) (map byte s))"
  unfolding replace_bytes_def
  by (rule map_byte_char_of) (use assms in \<open>auto split: option.splits simp: byte_less\<close>)

lemma replace_bytes_valid:
  assumes "\<And>b r. f b = Some r \<Longrightarrow> b < 128 \<and> utf8_valid_bytes r \<and> (\<forall>x \<in> set r. x < 256)" "utf8_valid s"
  shows "utf8_valid (replace_bytes f s)"
  using bytes_replace [of f s] replace_valid [of f "map byte s"] assms by (simp add: utf8_valid_def)

lemma replace_bytes_removes:
  assumes "\<And>b r. f b = Some r \<Longrightarrow> \<forall>x \<in> set r. x < 256 \<and> x \<notin> set cs" "\<And>c. c \<in> set cs \<Longrightarrow> f c \<noteq> None"
  shows "\<not> contains_any (replace_bytes f s) cs"
proof -
  have "set (map byte (replace_bytes f s)) \<inter> set cs = {}"
    using bytes_replace [of f s] assms by (force split: option.splits)
  then show ?thesis by (auto simp: contains_any_def list_ex_iff)
qed

text \<open>
  Truncation ends, at a valid prefix, and drops at most three bytes of a character that would be cut.
\<close>

lemma cut_invalid_prefix: "utf8_valid (cut_invalid v) \<and> (\<exists>t. v = cut_invalid v @ t)"
proof (induction v rule: cut_invalid.induct)
  case (1 v)
  show ?case
  proof (cases "utf8_valid v")
    case True
    then show ?thesis by (simp add: cut_invalid.simps [of v])
  next
    case False
    then have "v \<noteq> []" by (auto simp: utf8_valid_def)
    moreover obtain t where "butlast v = cut_invalid (butlast v) @ t" using 1 False by blast
    ultimately have "v = cut_invalid (butlast v) @ t @ [last v]" by (metis append_assoc append_butlast_last_id)
    then show ?thesis using 1 False by (auto simp: cut_invalid.simps [of v])
  qed
qed

lemma cut_invalid_longest: "utf8_valid p \<Longrightarrow> v = p @ t \<Longrightarrow> length p \<le> length (cut_invalid v)"
proof (induction v arbitrary: t rule: cut_invalid.induct)
  case (1 v)
  show ?case
  proof (cases "utf8_valid v")
    case True
    then have "cut_invalid v = v" by (simp add: cut_invalid.simps)
    then show ?thesis using 1(3) by simp
  next
    case False
    then have "t \<noteq> []" using 1(2,3) by auto
    then have "butlast v = p @ butlast t" using 1(3) by (simp add: butlast_append)
    then show ?thesis using 1(1) [OF False 1(2)] False by (simp add: cut_invalid.simps [of v])
  qed
qed

lemma runes_before:
  "list_all rune rs \<Longrightarrow> n \<le> length (concat rs) \<Longrightarrow>
   \<exists>ps qs. rs = ps @ qs \<and> length (concat ps) \<le> n \<and> n \<le> length (concat ps) + 3"
proof (induction rs arbitrary: n)
  case (Cons r rs)
  show ?case
  proof (cases "length r \<le> n")
    case True
    then obtain ps qs where "rs = ps @ qs" "length (concat ps) \<le> n - length r" "n - length r \<le> length (concat ps) + 3"
      using Cons.IH [of "n - length r"] Cons.prems by (auto simp: le_diff_conv add.commute)
    then show ?thesis using True by (intro exI [of _ "r # ps"] exI [of _ qs]) auto
  next
    case False
    then show ?thesis using Cons.prems rune_length [of r] by (intro exI [of _ "[]"] exI [of _ "r # rs"]) auto
  qed
qed simp

lemma truncateUTF8_valid: "utf8_valid v \<Longrightarrow> utf8_valid (truncateUTF8 v n)"
  by (simp add: truncateUTF8_def cut_invalid_prefix)

lemma truncateUTF8_prefix: "\<exists>t. v = truncateUTF8 v n @ t"
proof (cases "length v \<le> n")
  case False
  obtain t where "take n v = cut_invalid (take n v) @ t" using cut_invalid_prefix by blast
  then have "v = cut_invalid (take n v) @ t @ drop n v" by (metis append_assoc append_take_drop_id)
  then show ?thesis using False by (auto simp: truncateUTF8_def)
qed (simp add: truncateUTF8_def)

lemma truncateUTF8_length:
  assumes "utf8_valid v" "n < length v"
  shows "length (truncateUTF8 v n) \<le> n" "n \<le> length (truncateUTF8 v n) + 3"
proof -
  obtain t where "take n v = cut_invalid (take n v) @ t" using cut_invalid_prefix by blast
  then have "length (cut_invalid (take n v)) \<le> length (take n v)" by (metis le_add1 length_append)
  then show "length (truncateUTF8 v n) \<le> n" using assms(2) by (simp add: truncateUTF8_def)
  obtain rs where rs: "list_all rune rs" "map byte v = concat rs"
    using assms(1) by (auto simp: utf8_valid_def utf8_valid_runes)
  obtain ps qs where pq: "rs = ps @ qs" "length (concat ps) \<le> n" "n \<le> length (concat ps) + 3"
    using runes_before [OF rs(1)] rs(2) assms(2) by (metis length_map less_imp_le)
  define k where "k = length (concat ps)"
  have take_k: "map byte (take k v) = concat ps"
    using rs(2) pq(1) by (simp add: k_def take_map [symmetric])
  then have "utf8_valid (take k v)"
    using rs(1) pq(1) by (auto simp: utf8_valid_def utf8_valid_runes)
  moreover have "take n v = take k v @ drop k (take n v)"
    using pq(2) by (metis append_take_drop_id k_def min.absorb1 take_take)
  ultimately have "length (take k v) \<le> length (cut_invalid (take n v))" by (rule cut_invalid_longest)
  moreover have "length (take k v) = k" using take_k by (metis k_def length_map)
  ultimately show "n \<le> length (truncateUTF8 v n) + 3"
    using pq(3) assms(2) by (simp add: truncateUTF8_def k_def)
qed


section \<open>Properties\<close>

lemma control_bytes:
  "code_replacer b = Some r \<Longrightarrow>
     b < 128 \<and> utf8_valid_bytes r \<and> (\<forall>x \<in> set r. x < 256 \<and> x \<notin> set [0, 13, 10])"
  "message_replacer b = Some r \<Longrightarrow> b < 128 \<and> utf8_valid_bytes r \<and> (\<forall>x \<in> set r. x < 256 \<and> x \<notin> set [0])"
  "c \<in> set [0, 13, 10] \<Longrightarrow> code_replacer c \<noteq> None" "c \<in> set [0] \<Longrightarrow> message_replacer c \<noteq> None"
  by (auto simp: code_replacer_def message_replacer_def replacement_def utf8_cont_def split: if_splits)

lemma contains_any_prefix: "\<not> contains_any (p @ t) cs \<Longrightarrow> \<not> contains_any p cs"
  by (simp add: contains_any_def)

lemma bounded_text:
  fixes n :: nat
  assumes "utf8_valid v" "\<not> contains_any v cs"
  defines "w \<equiv> (if n < length v then truncateUTF8 v n else v)"
  shows "length w \<le> n" "utf8_valid w" "\<not> contains_any w cs" "\<exists>t. v = w @ t" "min (length v) n \<le> length w + 3"
proof -
  obtain t where t: "v = truncateUTF8 v n @ t" using truncateUTF8_prefix by blast
  then show "\<not> contains_any w cs" using assms(2) contains_any_prefix [of "truncateUTF8 v n" t cs]
    unfolding w_def by (auto simp del: append_assoc)
  show "length w \<le> n" "utf8_valid w" "\<exists>t. v = w @ t" "min (length v) n \<le> length w + 3"
    using truncateUTF8_length [OF assms(1), of n] truncateUTF8_valid [OF assms(1)] t assms(1)
    unfolding w_def by auto
qed

text \<open>The Agent accepts longer revisions than the workspace Store does.\<close>

lemma revision_bounds_differ:
  "ok (validateRevision (replicate 300 (CHR ''r''))) \<and> \<not> ok (validateApplyRevision (replicate 300 (CHR ''r'')))"
  by code_simp

lemma IndeterminateOutcome_bounds:
  "ok (ValidateCASOutcome (IndeterminateOutcome code message) intent)
    \<and> (let code' = replace_bytes code_replacer (ToValidUTF8 code);
           message' = replace_bytes message_replacer (ToValidUTF8 message);
           outcome = IndeterminateOutcome code message in
       (\<exists>t. code' = co_Code outcome @ t) \<and> min (length code') 128 \<le> length (co_Code outcome) + 3
     \<and> (\<exists>t. message' = co_Message outcome @ t) \<and> min (length message') 4096 \<le> length (co_Message outcome) + 3)"
proof -
  let ?c = "replace_bytes code_replacer (ToValidUTF8 code)" and ?m = "replace_bytes message_replacer (ToValidUTF8 message)"
  have valid: "utf8_valid ?c" "utf8_valid ?m"
    using control_bytes(1,2) by (blast intro: replace_bytes_valid ToValidUTF8_valid)+
  have clean: "\<not> contains_any ?c [0, 13, 10]" "\<not> contains_any ?m [0]"
    by (rule replace_bytes_removes, use control_bytes(1,2) in blast, erule control_bytes(3,4))+
  note c = bounded_text [OF valid(1) clean(1), of 128] and m = bounded_text [OF valid(2) clean(2), of 4096]
  show ?thesis
    using c m by (simp add: ValidateCASOutcome_def IndeterminateOutcome_def Let_def)
qed

lemma IndeterminateOutcome_ok: "ok (ValidateCASOutcome (IndeterminateOutcome code message) intent)"
  using IndeterminateOutcome_bounds by blast

text \<open>
  C39 (bounds). Whatever text describes an unknown external effect, raw bytes of a foreign error
  included, the outcome built from it passes the validation of every intent: its code and message are
  valid UTF-8 without forbidden control characters, within 128 and 4096 bytes, and no more than the
  three bytes of a character that does not fit are given up for that.
\<close>

theorem indeterminate_outcome_valid:
  "ok (ValidateCASOutcome (IndeterminateOutcome code message) intent)
    \<and> (let code' = replace_bytes code_replacer (ToValidUTF8 code);
           message' = replace_bytes message_replacer (ToValidUTF8 message);
           outcome = IndeterminateOutcome code message in
       (\<exists>t. code' = co_Code outcome @ t) \<and> min (length code') 128 \<le> length (co_Code outcome) + 3
     \<and> (\<exists>t. message' = co_Message outcome @ t) \<and> min (length message') 4096 \<le> length (co_Message outcome) + 3)"
  by (rule IndeterminateOutcome_bounds)

end
