(* ===== verification/Transactions.thy ===== *)
theory Transactions
  imports Human_Prelude
begin

text \<open>
  Database transactions as the SQLite components use them through \<open>database/sql\<close>. The pool has a
  single connection, which serialises transactions, so that a transaction is one step on the table.
\<close>

text \<open>
  How a transaction ends: it commits, fails before its commit with nothing written, or its
  commit reports an error although the writes may be durable.
\<close>

datatype tx_outcome = TxCommitted | TxFailed | TxCommitError bool

text \<open>The callback \<open>f\<close> in a transaction: an error of the callback rolls back, \<open>err\<close> is the driver's error.\<close>

definition db_tx :: "'e \<Rightarrow> tx_outcome \<Rightarrow> ('t \<Rightarrow> 'e + 'a \<times> 't) \<Rightarrow> 't \<Rightarrow> ('e + 'a) \<times> 't" where
  "db_tx err tx f table =
     (if tx = TxFailed then (Inl err, table)
      else case f table of
        Inl e \<Rightarrow> (Inl e, table)
      | Inr (a, table') \<Rightarrow>
          (case tx of
             TxCommitError durable \<Rightarrow> (Inl err, if durable then table' else table)
           | _ \<Rightarrow> (Inr a, table')))"

lemma db_tx_cases:
  assumes "db_tx err tx f t = (r, t')"
  shows "t' = t \<or> (\<exists>a. f t = Inr (a, t'))" "r = Inr a \<Longrightarrow> f t = Inr (a, t')"
  using assms unfolding db_tx_def by (auto split: if_splits sum.splits tx_outcome.splits prod.splits)

lemma db_tx_committed [simp]:
  "f t = Inr (a, t') \<Longrightarrow> db_tx err TxCommitted f t = (Inr a, t')"
  "f t = Inl e \<Longrightarrow> db_tx err TxCommitted f t = (Inl e, t)"
  by (simp_all add: db_tx_def)

lemma db_tx_failed [simp]: "db_tx err TxFailed f t = (Inl err, t)"
  by (simp add: db_tx_def)

end
