(* ===== verification/Workspace_Journal.thy ===== *)
theory Workspace_Journal
  imports Workspace_Apply Transactions
begin

text \<open>
  The durable apply journal, \<^verbatim>\<open>workspace/sqlite/journal.go\<close>: a table of apply rows, the transactions of
  \<open>begin\<close> and \<open>complete\<close>, recovery at \<open>Open\<close>, and \<open>Apply\<close> as the sequence of its atomic sections, so that
  concurrent callers, failed commits, crashes and restarts interleave. The external compare-and-swap
  is part of the environment; the state remembers which intents were handed to it.
\<close>


section \<open>The table\<close>

text \<open>
  The columns of \<open>workspace_artifact_applies\<close>; the table maps the primary key to its row.
\<close>

record apply_row =
  row_intent :: bytes
  row_intent_digest :: string
  row_state :: ApplyState
  row_outcome :: "bytes option"
  row_outcome_digest :: "string option"
  row_created_at :: int
  row_completed_at :: "int option"

type_synonym apply_table = "ApplyIdentity \<Rightarrow> apply_row option"

text \<open>The CHECK constraints of the schema; a statement that violates them fails.\<close>

definition row_check :: "apply_row \<Rightarrow> bool" where
  "row_check row =
     ((row_state row = ApplyStatePending \<and> row_outcome row = None \<and> row_outcome_digest row = None
         \<and> row_completed_at row = None)
      \<or> (ApplyState_Terminal (row_state row) \<and> row_outcome row \<noteq> None \<and> row_outcome_digest row \<noteq> None
         \<and> row_completed_at row \<noteq> None))"

definition digestBytes :: "env \<Rightarrow> bytes \<Rightarrow> Digest" where
  "digestBytes E v = ''sha256:'' @ hex_EncodeToString (sha256_Sum256 E v)"

definition row_record :: "apply_row \<Rightarrow> ApplyIntent \<Rightarrow> ApplyRecord" where
  "row_record row intent =
     \<lparr>rec_Intent = intent, rec_IntentDigest = row_intent_digest row, rec_State = row_state row,
      rec_Outcome = None, rec_CreatedAt = fromUnixNano (row_created_at row), rec_CompletedAt = None\<rparr>"

definition load_terminal :: "env \<Rightarrow> apply_codec \<Rightarrow> apply_row \<Rightarrow> ApplyIntent \<Rightarrow> apply_error + ApplyRecord" where
  "load_terminal E K row intent =
     (case (row_outcome row, row_outcome_digest row, row_completed_at row) of
        (Some encoded, Some digest, Some completed) \<Rightarrow>
          if \<not> ApplyState_Terminal (row_state row) \<or> encoded = [] \<or> digestBytes E encoded \<noteq> digest
          then Inl ErrApplyCorruptStore
          else (case outcome_Unmarshal K encoded of
             None \<Rightarrow> Inl ErrApplyCorruptStore
           | Some outcome \<Rightarrow>
               if \<not> ok (ValidateCASOutcome outcome intent) \<or> stateForDecision (co_Decision outcome) \<noteq> row_state row
               then Inl ErrApplyCorruptStore
               else if fromUnixNano completed < fromUnixNano (row_created_at row) then Inl ErrApplyCorruptStore
               else Inr ((row_record row intent)\<lparr>rec_Outcome := Some outcome, rec_CompletedAt := Some (fromUnixNano completed)\<rparr>))
      | _ \<Rightarrow> Inl ErrApplyCorruptStore)"

definition loadApplyRecord ::
    "env \<Rightarrow> apply_codec \<Rightarrow> apply_table \<Rightarrow> ApplyIdentity \<Rightarrow> apply_error + ApplyRecord \<times> bytes" where
  "loadApplyRecord E K table identity =
     (case table identity of
        None \<Rightarrow> Inl ErrApplyNotFound
      | Some row \<Rightarrow>
          (case intent_Unmarshal K (row_intent row) of
             None \<Rightarrow> Inl ErrApplyCorruptStore
           | Some intent \<Rightarrow>
               if CanonicalApplyIntent E K intent \<noteq> Inr (row_intent row, row_intent_digest row)
                  \<or> in_Identity intent \<noteq> identity
               then Inl ErrApplyCorruptStore
               else if fromUnixNano (row_created_at row) = zero_time then Inl ErrApplyCorruptStore
               else if row_state row = ApplyStatePending then
                 (if (row_outcome row \<noteq> None \<and> row_outcome row \<noteq> Some []) \<or> row_outcome_digest row \<noteq> None
                     \<or> row_completed_at row \<noteq> None
                  then Inl ErrApplyCorruptStore else Inr (row_record row intent, row_intent row))
               else bind_res (load_terminal E K row intent) (\<lambda>record. Inr (record, row_intent row))))"


section \<open>Transactions\<close>

definition journal_tx ::
    "tx_outcome \<Rightarrow> (apply_table \<Rightarrow> apply_error + 'a \<times> apply_table) \<Rightarrow> apply_table \<Rightarrow> (apply_error + 'a) \<times> apply_table" where
  "journal_tx = db_tx ErrApplyDatabase"

definition terminal_row :: "env \<Rightarrow> ApplyState \<Rightarrow> bytes \<Rightarrow> gotime \<Rightarrow> apply_row \<Rightarrow> apply_row" where
  "terminal_row E state encoded now row =
     row\<lparr>row_state := state, row_outcome := Some encoded, row_outcome_digest := Some (digestBytes E encoded),
         row_completed_at := Some (unixNano now)\<rparr>"

definition terminalizeApply ::
    "env \<Rightarrow> apply_codec \<Rightarrow> ApplyRecord \<Rightarrow> CASOutcome \<Rightarrow> gotime \<Rightarrow> apply_table \<Rightarrow> apply_error + ApplyRecord \<times> apply_table" where
  "terminalizeApply E K record outcome clock table =
     bind_res (ValidateCASOutcome outcome (rec_Intent record)) (\<lambda>_.
       let now = (if clock < rec_CreatedAt record then rec_CreatedAt record else clock);
           identity = in_Identity (rec_Intent record); state = stateForDecision (co_Decision outcome) in
       case outcome_Marshal K outcome of
         None \<Rightarrow> Inl ErrApplyDatabase
       | Some encoded \<Rightarrow>
           (case table identity of
              None \<Rightarrow> Inl ErrApplyIntentConflict
            | Some row \<Rightarrow>
                if row_state row \<noteq> ApplyStatePending then Inl ErrApplyIntentConflict
                else if \<not> row_check (terminal_row E state encoded now row) then Inl ErrApplyDatabase
                else Inr (record\<lparr>rec_State := state, rec_Outcome := Some outcome, rec_CompletedAt := Some now\<rparr>,
                          table(identity \<mapsto> terminal_row E state encoded now row))))"

definition unresolved_pending :: CASOutcome where
  "unresolved_pending = IndeterminateOutcome ''unresolved_pending''
     ''a prior apply attempt has no durable terminal outcome; automatic replay is unsafe''"

definition pending_row :: "bytes \<Rightarrow> Digest \<Rightarrow> gotime \<Rightarrow> apply_row" where
  "pending_row encoded digest now =
     \<lparr>row_intent = encoded, row_intent_digest = digest, row_state = ApplyStatePending, row_outcome = None,
      row_outcome_digest = None, row_created_at = unixNano now, row_completed_at = None\<rparr>"

text \<open>The callback of \<open>begin\<close>: a replayed record, or the new pending one.\<close>

definition journal_begin ::
    "env \<Rightarrow> apply_codec \<Rightarrow> ApplyIntent \<Rightarrow> bytes \<Rightarrow> Digest \<Rightarrow> gotime \<Rightarrow> apply_table
     \<Rightarrow> apply_error + (ApplyRecord \<times> bool) \<times> apply_table" where
  "journal_begin E K intent encoded digest now table =
     (case loadApplyRecord E K table (in_Identity intent) of
        Inr (existing, storedIntent) \<Rightarrow>
          if rec_IntentDigest existing \<noteq> digest \<or> storedIntent \<noteq> encoded then Inl ErrApplyIntentConflict
          else if rec_State existing = ApplyStatePending
          then bind_res (terminalizeApply E K existing unresolved_pending now table) (\<lambda>(r, table'). Inr ((r, True), table'))
          else Inr ((existing, True), table)
      | Inl e \<Rightarrow>
          if e \<noteq> ErrApplyNotFound then Inl e
          else if table (in_Identity intent) \<noteq> None then Inl ErrApplyIntentConflict
          else Inr ((\<lparr>rec_Intent = intent, rec_IntentDigest = digest, rec_State = ApplyStatePending,
                     rec_Outcome = None, rec_CreatedAt = now, rec_CompletedAt = None\<rparr>, False),
                    table(in_Identity intent \<mapsto> pending_row encoded digest now)))"

definition journal_complete ::
    "env \<Rightarrow> apply_codec \<Rightarrow> ApplyIdentity \<Rightarrow> bytes \<Rightarrow> CASOutcome \<Rightarrow> gotime \<Rightarrow> apply_table
     \<Rightarrow> apply_error + ApplyRecord \<times> apply_table" where
  "journal_complete E K identity encodedIntent outcome now table =
     bind_res (loadApplyRecord E K table identity) (\<lambda>(record, storedIntent).
       if storedIntent \<noteq> encodedIntent then Inl ErrApplyIntentConflict
       else if rec_State record \<noteq> ApplyStatePending
       then (if rec_Outcome record = Some outcome then Inr (record, table) else Inl ErrApplyIntentConflict)
       else terminalizeApply E K record outcome now table)"

definition recovered_pending :: CASOutcome where
  "recovered_pending = IndeterminateOutcome ''recovered_pending''
     ''the previous journal owner stopped before recording a terminal apply outcome''"

definition recover_row :: "env \<Rightarrow> bytes \<Rightarrow> int \<Rightarrow> apply_row \<Rightarrow> apply_row" where
  "recover_row E encoded now row =
     (if row_state row = ApplyStatePending
      then row\<lparr>row_state := ApplyStateIndeterminate, row_outcome := Some encoded,
               row_outcome_digest := Some (digestBytes E encoded),
               row_completed_at := Some (if row_created_at row > now then row_created_at row else now)\<rparr>
      else row)"

definition recoverPending :: "env \<Rightarrow> apply_codec \<Rightarrow> gotime \<Rightarrow> apply_table \<Rightarrow> apply_error + apply_table" where
  "recoverPending E K clock table =
     (case outcome_Marshal K recovered_pending of
        None \<Rightarrow> Inl ErrApplyDatabase
      | Some encoded \<Rightarrow> Inr (\<lambda>identity. map_option (recover_row E encoded (unixNano clock)) (table identity)))"


section \<open>The journal and its calls\<close>

datatype apply_phase =
  Waiting | Locked | Begun ApplyRecord | Invoking ApplyRecord | Reported ApplyRecord CASOutcome

record apply_call =
  ac_intent :: ApplyIntent
  ac_encoded :: bytes
  ac_digest :: Digest
  ac_phase :: apply_phase

record applyLockEntry =
  le_token :: bool
  le_refs :: nat

text \<open>
  The journal file with the process that owns it, if one does. \<open>jn_invoked\<close> and \<open>jn_reported\<close> are
  what the applier saw: the intents it was called with, and what it returned.
\<close>

record applyJournal =
  jn_table :: apply_table
  jn_alive :: bool
  jn_closed :: bool
  jn_calls :: "nat \<Rightarrow> apply_call option"
  jn_locks :: "ApplyIdentity \<Rightarrow> applyLockEntry option"
  jn_invoked :: "ApplyIntent list"
  jn_reported :: "(ApplyIntent \<times> (string + CASOutcome)) list"

definition new_journal :: applyJournal where
  "new_journal = \<lparr>jn_table = Map.empty, jn_alive = False, jn_closed = False, jn_calls = Map.empty,
     jn_locks = Map.empty, jn_invoked = [], jn_reported = []\<rparr>"

definition journal_acquire :: "applyJournal \<Rightarrow> apply_error + unit" where
  "journal_acquire j = (if jn_closed j \<or> \<not> jn_alive j then Inl ErrApplyClosed else Inr ())"

text \<open>The reference that \<open>lockIdentity\<close> takes before it waits, and its release.\<close>

definition lock_reference :: "ApplyIdentity \<Rightarrow> applyJournal \<Rightarrow> applyJournal" where
  "lock_reference identity j =
     (let entry = (case jn_locks j identity of None \<Rightarrow> \<lparr>le_token = True, le_refs = 0\<rparr> | Some e \<Rightarrow> e) in
      j\<lparr>jn_locks := (jn_locks j)(identity \<mapsto> entry\<lparr>le_refs := le_refs entry + 1\<rparr>)\<rparr>)"

definition releaseIdentityReference :: "ApplyIdentity \<Rightarrow> applyLockEntry \<Rightarrow> applyJournal \<Rightarrow> applyJournal" where
  "releaseIdentityReference identity entry j =
     j\<lparr>jn_locks := (jn_locks j)(identity :=
       (if le_refs entry - 1 = 0 then None else Some (entry\<lparr>le_refs := le_refs entry - 1\<rparr>)))\<rparr>"

definition set_phase :: "nat \<Rightarrow> apply_call \<Rightarrow> apply_phase \<Rightarrow> applyJournal \<Rightarrow> applyJournal" where
  "set_phase i c p j = j\<lparr>jn_calls := (jn_calls j)(i \<mapsto> c\<lparr>ac_phase := p\<rparr>)\<rparr>"

text \<open>The deferred unlock and lifecycle release of a call that returns.\<close>

definition call_identity :: "apply_call \<Rightarrow> ApplyIdentity" where
  "call_identity c = in_Identity (ac_intent c)"

definition finish_call :: "nat \<Rightarrow> apply_call \<Rightarrow> bool \<Rightarrow> applyJournal \<Rightarrow> applyJournal" where
  "finish_call i c holds j =
     (case jn_locks j (call_identity c) of
        None \<Rightarrow> j
      | Some entry \<Rightarrow>
          releaseIdentityReference (call_identity c) (if holds then entry\<lparr>le_token := True\<rparr> else entry)
            (j\<lparr>jn_calls := (jn_calls j)(i := None)\<rparr>))"

text \<open>\<open>Apply\<close> up to the wait for the identity's token.\<close>

definition Apply_enter ::
    "env \<Rightarrow> apply_codec \<Rightarrow> go_context \<Rightarrow> bool \<Rightarrow> ApplyIntent \<Rightarrow> nat \<Rightarrow> applyJournal \<Rightarrow> (apply_error + unit) \<times> applyJournal" where
  "Apply_enter E K ctx nilApplier intent i j =
     (if ctx = NilContext \<or> nilApplier then (Inl ErrInvalidApply, j)
      else case CanonicalApplyIntent E K intent of
        Inl e \<Rightarrow> (Inl e, j)
      | Inr (encoded, digest) \<Rightarrow>
          (case journal_acquire j of
             Inl e \<Rightarrow> (Inl e, j)
           | Inr _ \<Rightarrow>
               (Inr (), set_phase i \<lparr>ac_intent = intent, ac_encoded = encoded, ac_digest = digest, ac_phase = Waiting\<rparr> Waiting
                  (lock_reference (in_Identity intent) j))))"

text \<open>The context ended first, or the token was received.\<close>

definition Apply_canceled :: "nat \<Rightarrow> apply_call \<Rightarrow> applyJournal \<Rightarrow> apply_error \<times> applyJournal" where
  "Apply_canceled i c j = (ErrApplyContext, finish_call i c False j)"

definition Apply_lock :: "nat \<Rightarrow> apply_call \<Rightarrow> applyJournal \<Rightarrow> applyJournal option" where
  "Apply_lock i c j =
     (case jn_locks j (call_identity c) of
        None \<Rightarrow> None
      | Some entry \<Rightarrow>
          if \<not> le_token entry then None
          else Some (set_phase i c Locked
            (j\<lparr>jn_locks := (jn_locks j)(call_identity c \<mapsto> entry\<lparr>le_token := False\<rparr>)\<rparr>)))"

text \<open>\<open>begin\<close>: the call returns an error or a replay, or goes on to the applier.\<close>

definition Apply_begin ::
    "env \<Rightarrow> apply_codec \<Rightarrow> tx_outcome \<Rightarrow> gotime \<Rightarrow> nat \<Rightarrow> apply_call \<Rightarrow> applyJournal
     \<Rightarrow> (apply_error + ApplyResult) option \<times> applyJournal" where
  "Apply_begin E K tx now i c j =
     (case journal_tx tx (journal_begin E K (ac_intent c) (ac_encoded c) (ac_digest c) now) (jn_table j) of
        (r, table) \<Rightarrow>
          (let j' = j\<lparr>jn_table := table\<rparr> in
           case r of
             Inl e \<Rightarrow> (Some (Inl e), finish_call i c True j')
           | Inr (record, replay) \<Rightarrow>
               if replay then (Some (Inr \<lparr>res_Record = record, res_Replay = True\<rparr>), finish_call i c True j')
               else (None, set_phase i c (Begun record) j')))"

text \<open>The call of the applier and its return.\<close>

definition Apply_invoke :: "nat \<Rightarrow> apply_call \<Rightarrow> ApplyRecord \<Rightarrow> applyJournal \<Rightarrow> applyJournal" where
  "Apply_invoke i c record j =
     set_phase i c (Invoking record) (j\<lparr>jn_invoked := ac_intent c # jn_invoked j\<rparr>)"

definition apply_outcome :: "ApplyIntent \<Rightarrow> string + CASOutcome \<Rightarrow> CASOutcome" where
  "apply_outcome intent returned =
     (case returned of
        Inl message \<Rightarrow> IndeterminateOutcome ''cas_callback_error'' message
      | Inr outcome \<Rightarrow>
          if \<not> ok (ValidateCASOutcome outcome intent)
          then IndeterminateOutcome ''invalid_cas_result'' ''CAS applier returned an invalid result''
          else outcome)"

definition Apply_return :: "nat \<Rightarrow> apply_call \<Rightarrow> ApplyRecord \<Rightarrow> string + CASOutcome \<Rightarrow> applyJournal \<Rightarrow> applyJournal" where
  "Apply_return i c record returned j =
     set_phase i c (Reported record (apply_outcome (ac_intent c) returned))
       (j\<lparr>jn_reported := (ac_intent c, returned) # jn_reported j\<rparr>)"

text \<open>\<open>complete\<close>: with the terminal record, or the error and the pending record.\<close>

definition Apply_complete ::
    "env \<Rightarrow> apply_codec \<Rightarrow> tx_outcome \<Rightarrow> gotime \<Rightarrow> nat \<Rightarrow> apply_call \<Rightarrow> ApplyRecord \<Rightarrow> CASOutcome \<Rightarrow> applyJournal
     \<Rightarrow> (apply_error option \<times> ApplyResult) \<times> applyJournal" where
  "Apply_complete E K tx now i c record outcome j =
     (case journal_tx tx (journal_complete E K (call_identity c) (ac_encoded c) outcome now) (jn_table j) of
        (r, table) \<Rightarrow>
          (let j' = finish_call i c True (j\<lparr>jn_table := table\<rparr>) in
           case r of
             Inl e \<Rightarrow> ((Some e, \<lparr>res_Record = record, res_Replay = False\<rparr>), j')
           | Inr completed \<Rightarrow> ((None, \<lparr>res_Record = completed, res_Replay = False\<rparr>), j')))"

definition journal_Lookup ::
    "env \<Rightarrow> apply_codec \<Rightarrow> go_context \<Rightarrow> ApplyIdentity \<Rightarrow> applyJournal \<Rightarrow> apply_error + ApplyRecord" where
  "journal_Lookup E K ctx identity j =
     (if ctx = NilContext then Inl ErrInvalidApply
      else bind_res (ValidateApplyIdentity identity) (\<lambda>_.
        bind_res (journal_acquire j) (\<lambda>_.
          if ctx = DoneContext then Inl ErrApplyContext
          else bind_res (loadApplyRecord E K (jn_table j) identity) (\<lambda>(record, _). Inr record))))"

text \<open>
  The life of the process: \<open>Open\<close> recovers the table before the journal is used, and a failed \<open>Open\<close>
  may have recovered it too; \<open>close\<close> ends admission, the owner is released when no call is left; a
  crash loses everything but the table.
\<close>

definition journal_Open :: "env \<Rightarrow> apply_codec \<Rightarrow> gotime \<Rightarrow> applyJournal \<Rightarrow> apply_error + applyJournal" where
  "journal_Open E K clock j =
     bind_res (recoverPending E K clock (jn_table j)) (\<lambda>table.
       Inr (j\<lparr>jn_table := table, jn_alive := True, jn_closed := False, jn_calls := Map.empty, jn_locks := Map.empty\<rparr>))"

definition journal_close :: "applyJournal \<Rightarrow> applyJournal" where
  "journal_close j = j\<lparr>jn_closed := True\<rparr>"

definition journal_stopped :: "applyJournal \<Rightarrow> applyJournal" where
  "journal_stopped j = j\<lparr>jn_alive := False, jn_calls := Map.empty, jn_locks := Map.empty\<rparr>"

inductive journal_step :: "env \<Rightarrow> apply_codec \<Rightarrow> applyJournal \<Rightarrow> applyJournal \<Rightarrow> bool" for E K where
  Enter: "jn_calls j i = None \<Longrightarrow> Apply_enter E K ctx nilApplier intent i j = (r, j') \<Longrightarrow> journal_step E K j j'"
| Cancel: "jn_calls j i = Some c \<Longrightarrow> ac_phase c = Waiting \<Longrightarrow> Apply_canceled i c j = (e, j') \<Longrightarrow> journal_step E K j j'"
| Lock: "jn_calls j i = Some c \<Longrightarrow> ac_phase c = Waiting \<Longrightarrow> Apply_lock i c j = Some j' \<Longrightarrow> journal_step E K j j'"
| Begin: "jn_calls j i = Some c \<Longrightarrow> ac_phase c = Locked \<Longrightarrow> Apply_begin E K tx now i c j = (r, j') \<Longrightarrow> journal_step E K j j'"
| Invoke: "jn_calls j i = Some c \<Longrightarrow> ac_phase c = Begun record \<Longrightarrow> journal_step E K j (Apply_invoke i c record j)"
| Return: "jn_calls j i = Some c \<Longrightarrow> ac_phase c = Invoking record \<Longrightarrow> journal_step E K j (Apply_return i c record returned j)"
| Complete: "jn_calls j i = Some c \<Longrightarrow> ac_phase c = Reported record outcome \<Longrightarrow>
    Apply_complete E K tx now i c record outcome j = (r, j') \<Longrightarrow> journal_step E K j j'"
| Close: "journal_step E K j (journal_close j)"
| Stop: "jn_closed j \<Longrightarrow> (\<forall>i. jn_calls j i = None) \<Longrightarrow> journal_step E K j (journal_stopped j)"
| Crash: "journal_step E K j (journal_stopped j)"
| Open: "\<not> jn_alive j \<Longrightarrow> journal_Open E K clock j = Inr j' \<Longrightarrow> journal_step E K j j'"
| OpenFailed: "\<not> jn_alive j \<Longrightarrow> recoverPending E K clock (jn_table j) = Inr table \<Longrightarrow> journal_step E K j (j\<lparr>jn_table := table\<rparr>)"

section \<open>What the transactions write\<close>

definition same_intent :: "apply_row \<Rightarrow> apply_row \<Rightarrow> bool" where
  "same_intent row row' \<longleftrightarrow> row_intent row' = row_intent row \<and> row_intent_digest row' = row_intent_digest row
     \<and> row_created_at row' = row_created_at row"

text \<open>The rows of a table stay, with their intents; a terminal row does not change at all.\<close>

definition table_grows :: "apply_table \<Rightarrow> apply_table \<Rightarrow> bool" where
  "table_grows t t' \<longleftrightarrow> (\<forall>ident row. t ident = Some row \<longrightarrow>
     (\<exists>row'. t' ident = Some row' \<and> same_intent row row' \<and> (row_state row \<noteq> ApplyStatePending \<longrightarrow> row' = row)))"

lemma same_intent_refl [simp]: "same_intent row row"
  by (simp add: same_intent_def)

lemma same_intent_terminal [simp]: "same_intent row (terminal_row E s b now row)"
  by (simp add: same_intent_def terminal_row_def)

lemma table_grows_refl [simp]: "table_grows t t"
  by (simp add: table_grows_def)

lemma table_grows_trans: "table_grows t u \<Longrightarrow> table_grows u v \<Longrightarrow> table_grows t v"
proof (unfold table_grows_def, intro allI impI)
  fix ident row
  assume tu: "\<forall>ident row. t ident = Some row \<longrightarrow>
      (\<exists>row'. u ident = Some row' \<and> same_intent row row' \<and> (row_state row \<noteq> ApplyStatePending \<longrightarrow> row' = row))"
    and uv: "\<forall>ident row. u ident = Some row \<longrightarrow>
      (\<exists>row'. v ident = Some row' \<and> same_intent row row' \<and> (row_state row \<noteq> ApplyStatePending \<longrightarrow> row' = row))"
    and row: "t ident = Some row"
  obtain r1 where r1: "u ident = Some r1" "same_intent row r1" "row_state row \<noteq> ApplyStatePending \<longrightarrow> r1 = row"
    using tu row by blast
  obtain r2 where r2: "v ident = Some r2" "same_intent r1 r2" "row_state r1 \<noteq> ApplyStatePending \<longrightarrow> r2 = r1"
    using uv r1(1) by blast
  show "\<exists>row'. v ident = Some row' \<and> same_intent row row' \<and> (row_state row \<noteq> ApplyStatePending \<longrightarrow> row' = row)"
    using r1 r2 by (intro exI [of _ r2]) (auto simp: same_intent_def)
qed

lemma table_grows_insert: "t a = None \<Longrightarrow> table_grows t (t(a \<mapsto> row))"
  by (auto simp: table_grows_def)

lemma table_grows_settle:
  "t a = Some row \<Longrightarrow> row_state row = ApplyStatePending \<Longrightarrow> table_grows t (t(a \<mapsto> terminal_row E s b now row))"
  by (auto simp: table_grows_def)

lemma terminalizeApply_Inr:
  assumes "terminalizeApply E K record outcome clock t = Inr (r, t')"
  shows "\<exists>row encoded now. t (in_Identity (rec_Intent record)) = Some row \<and> row_state row = ApplyStatePending
    \<and> outcome_Marshal K outcome = Some encoded \<and> now = max clock (rec_CreatedAt record)
    \<and> ok (ValidateCASOutcome outcome (rec_Intent record))
    \<and> row_check (terminal_row E (stateForDecision (co_Decision outcome)) encoded now row)
    \<and> r = record\<lparr>rec_State := stateForDecision (co_Decision outcome), rec_Outcome := Some outcome, rec_CompletedAt := Some now\<rparr>
    \<and> t' = t(in_Identity (rec_Intent record) \<mapsto> terminal_row E (stateForDecision (co_Decision outcome)) encoded now row)"
proof -
  let ?now = "if clock < rec_CreatedAt record then rec_CreatedAt record else clock"
  have now: "?now = max clock (rec_CreatedAt record)" by simp
  show ?thesis
    using assms unfolding terminalizeApply_def Let_def now
    by (auto simp: bind_res_Inr ok_unit split: option.splits if_splits)
qed

lemma journal_tx_cases:
  assumes "journal_tx tx f t = (r, t')"
  shows "t' = t \<or> (\<exists>a. f t = Inr (a, t'))" "r = Inr a \<Longrightarrow> f t = Inr (a, t')"
  using assms unfolding journal_tx_def by (rule db_tx_cases)+

text \<open>A loaded record is the one of its row.\<close>

lemma loadApplyRecord_Inr:
  assumes "loadApplyRecord E K t ident = Inr (record, stored)"
  shows "\<exists>row. t ident = Some row \<and> stored = row_intent row \<and> in_Identity (rec_Intent record) = ident
    \<and> CanonicalApplyIntent E K (rec_Intent record) = Inr (row_intent row, row_intent_digest row)
    \<and> rec_IntentDigest record = row_intent_digest row \<and> rec_State record = row_state row
    \<and> rec_CreatedAt record = fromUnixNano (row_created_at row)"
proof -
  obtain row intent where row: "t ident = Some row" "intent_Unmarshal K (row_intent row) = Some intent"
      "CanonicalApplyIntent E K intent = Inr (row_intent row, row_intent_digest row)" "in_Identity intent = ident"
    using assms by (auto simp: loadApplyRecord_def split: option.splits if_splits)
  have "stored = row_intent row \<and> rec_Intent record = intent \<and> rec_IntentDigest record = row_intent_digest row
      \<and> rec_State record = row_state row \<and> rec_CreatedAt record = fromUnixNano (row_created_at row)"
    using assms row
    by (auto simp: loadApplyRecord_def load_terminal_def row_record_def bind_res_Inr split: option.splits if_splits)
  then show ?thesis using row by blast
qed

lemma loadApplyRecord_NotFound: "loadApplyRecord E K t ident = Inl ErrApplyNotFound \<longleftrightarrow> t ident = None"
  by (auto simp: loadApplyRecord_def load_terminal_def bind_res_Inl split: option.splits if_splits)

lemma unresolved_state: "stateForDecision (co_Decision unresolved_pending) = ApplyStateIndeterminate"
  by (simp add: unresolved_pending_def IndeterminateOutcome_def Let_def)

text \<open>\<open>begin\<close> keeps the table for a replay, makes a pending row indeterminate, or inserts a pending row.\<close>

lemma journal_begin_cases:
  assumes "journal_begin E K intent encoded digest now t = Inr ((record, replay), t')"
  shows "replay \<and> t' = t
    \<or> replay \<and> (\<exists>row b at. t (in_Identity intent) = Some row \<and> row_state row = ApplyStatePending
        \<and> t' = t(in_Identity intent \<mapsto> terminal_row E ApplyStateIndeterminate b at row))
    \<or> \<not> replay \<and> t (in_Identity intent) = None \<and> t' = t(in_Identity intent \<mapsto> pending_row encoded digest now)"
proof (cases "loadApplyRecord E K t (in_Identity intent)")
  case (Inl e)
  then show ?thesis using assms by (auto simp: journal_begin_def split: if_splits)
next
  case (Inr p)
  obtain existing stored where p: "p = (existing, stored)" by (cases p)
  have ident: "in_Identity (rec_Intent existing) = in_Identity intent" using loadApplyRecord_Inr [OF Inr [unfolded p]] by blast
  have replay: replay using assms Inr p by (auto simp: journal_begin_def bind_res_Inr split: if_splits)
  show ?thesis
  proof (cases "t' = t")
    case False
    then have "terminalizeApply E K existing unresolved_pending now t = Inr (record, t')"
      using assms Inr p by (auto simp: journal_begin_def bind_res_Inr split: if_splits)
    from terminalizeApply_Inr [OF this] show ?thesis using replay by (auto simp: ident unresolved_state)
  qed (use replay in simp)
qed

lemma journal_complete_cases:
  assumes "journal_complete E K ident enc outcome now t = Inr (record, t')"
  shows "t' = t \<or> (\<exists>row encoded at intent. t ident = Some row \<and> row_state row = ApplyStatePending
    \<and> outcome_Marshal K outcome = Some encoded \<and> row_intent row = enc \<and> in_Identity intent = ident
    \<and> CanonicalApplyIntent E K intent = Inr (row_intent row, row_intent_digest row)
    \<and> ok (ValidateCASOutcome outcome intent)
    \<and> t' = t(ident \<mapsto> terminal_row E (stateForDecision (co_Decision outcome)) encoded at row))"
proof (cases "t' = t")
  case False
  obtain record0 stored where l: "loadApplyRecord E K t ident = Inr (record0, stored)"
    using assms by (auto simp: journal_complete_def bind_res_Inr)
  then have s: "stored = enc" "terminalizeApply E K record0 outcome now t = Inr (record, t')"
    using assms False by (auto simp: journal_complete_def split: if_splits)
  from loadApplyRecord_Inr [OF l] obtain row where row: "t ident = Some row" "stored = row_intent row"
      "in_Identity (rec_Intent record0) = ident"
      "CanonicalApplyIntent E K (rec_Intent record0) = Inr (row_intent row, row_intent_digest row)" by blast
  from terminalizeApply_Inr [OF s(2)] obtain encoded at where t: "row_state row = ApplyStatePending"
      "outcome_Marshal K outcome = Some encoded" "ok (ValidateCASOutcome outcome (rec_Intent record0))"
      "t' = t(ident \<mapsto> terminal_row E (stateForDecision (co_Decision outcome)) encoded at row)"
    using row(1,3) by auto
  show ?thesis using row s(1) t by (intro disjI2 exI [of _ row] exI [of _ encoded] exI [of _ at] exI [of _ "rec_Intent record0"]) simp
qed simp

lemma recoverPending_Inr:
  assumes "recoverPending E K clock t = Inr t'"
  shows "\<exists>encoded. outcome_Marshal K recovered_pending = Some encoded
    \<and> t' = (\<lambda>ident. map_option (recover_row E encoded (unixNano clock)) (t ident))"
  using assms by (auto simp: recoverPending_def split: option.splits)

lemma recoverPending_grows: "recoverPending E K clock t = Inr t' \<Longrightarrow> table_grows t t'"
  by (auto dest!: recoverPending_Inr simp: table_grows_def recover_row_def same_intent_def)

end
