(* ===== verification/Workspace_Invariant.thy ===== *)
theory Workspace_Invariant
  imports Workspace_Journal
begin

text \<open>
  The apply journal as a transition system: what its locks guarantee, the invariant of every reachable
  state, and what only grows: rows with their intents, terminal rows, and the calls of the applier.
\<close>


section \<open>Locks\<close>

text \<open>The calls of an identity, and those that hold its token.\<close>

definition calls_of :: "(nat \<Rightarrow> apply_call option) \<Rightarrow> ApplyIdentity \<Rightarrow> nat set" where
  "calls_of calls ident = {i. \<exists>c. calls i = Some c \<and> call_identity c = ident}"

definition holders :: "(nat \<Rightarrow> apply_call option) \<Rightarrow> ApplyIdentity \<Rightarrow> nat set" where
  "holders calls ident = {i. \<exists>c. calls i = Some c \<and> call_identity c = ident \<and> ac_phase c \<noteq> Waiting}"

definition entry_ok :: "nat set \<Rightarrow> nat set \<Rightarrow> applyLockEntry option \<Rightarrow> bool" where
  "entry_ok cs hs entry = (case entry of
     None \<Rightarrow> cs = {}
   | Some e \<Rightarrow> le_refs e = card cs \<and> (if le_token e then hs = {} else \<exists>i. hs = {i}))"

definition lock_inv :: "(nat \<Rightarrow> apply_call option) \<Rightarrow> (ApplyIdentity \<Rightarrow> applyLockEntry option) \<Rightarrow> bool" where
  "lock_inv calls locks \<longleftrightarrow>
     finite (dom calls) \<and> (\<forall>ident. entry_ok (calls_of calls ident) (holders calls ident) (locks ident))"

lemma lock_inv_upd:
  assumes "lock_inv calls locks" "finite (dom calls')"
    "\<And>a. a \<noteq> ident \<Longrightarrow> calls_of calls' a = calls_of calls a \<and> holders calls' a = holders calls a \<and> locks' a = locks a"
    "entry_ok (calls_of calls' ident) (holders calls' ident) (locks' ident)"
  shows "lock_inv calls' locks'"
  using assms unfolding lock_inv_def by metis

lemma calls_of_upd:
  "calls_of (calls(i \<mapsto> c)) ident = (if call_identity c = ident then insert i (calls_of calls ident) else calls_of calls ident - {i})"
  "calls_of (calls(i := None)) ident = calls_of calls ident - {i}"
  by (auto simp: calls_of_def)

lemma holders_upd:
  "holders (calls(i \<mapsto> c)) ident =
     (if call_identity c = ident \<and> ac_phase c \<noteq> Waiting then insert i (holders calls ident) else holders calls ident - {i})"
  "holders (calls(i := None)) ident = holders calls ident - {i}"
  by (auto simp: holders_def)

lemma call_identity_phase [simp]: "call_identity (c\<lparr>ac_phase := p\<rparr>) = call_identity c"
  by (simp add: call_identity_def)

lemma calls_of_mem: "calls i = Some c \<Longrightarrow> i \<in> calls_of calls ident \<longleftrightarrow> call_identity c = ident"
  "calls i = Some c \<Longrightarrow> i \<in> holders calls ident \<longleftrightarrow> call_identity c = ident \<and> ac_phase c \<noteq> Waiting"
  "calls i = None \<Longrightarrow> i \<notin> calls_of calls ident" "calls i = None \<Longrightarrow> i \<notin> holders calls ident"
  by (auto simp: calls_of_def holders_def)

lemma calls_of_finite: "finite (dom calls) \<Longrightarrow> finite (calls_of calls ident)"
  by (rule finite_subset) (auto simp: calls_of_def)

lemma holders_calls: "holders calls ident \<subseteq> calls_of calls ident"
  by (auto simp: holders_def calls_of_def)

lemma other_identity:
  assumes "calls i = None \<or> (\<exists>c. calls i = Some c \<and> call_identity c = ident)"
    "v = None \<or> (\<exists>c. v = Some c \<and> call_identity c = ident)" "a \<noteq> ident"
  shows "calls_of (calls(i := v)) a = calls_of calls a" "holders (calls(i := v)) a = holders calls a"
  using assms by (auto simp: calls_of_def holders_def)

lemma lock_inv_entry:
  assumes "lock_inv calls locks" "calls i = Some c"
  obtains e where "locks (call_identity c) = Some e" "le_refs e = card (calls_of calls (call_identity c))"
    "if le_token e then holders calls (call_identity c) = {} else \<exists>i. holders calls (call_identity c) = {i}"
proof -
  have "calls_of calls (call_identity c) \<noteq> {}" using calls_of_mem(1) [of calls i c, OF assms(2)] by blast
  moreover have "entry_ok (calls_of calls (call_identity c)) (holders calls (call_identity c)) (locks (call_identity c))"
    using assms(1) by (simp add: lock_inv_def)
  ultimately show ?thesis using that by (cases "locks (call_identity c)") (simp_all add: entry_ok_def)
qed

lemma lock_inv_holder_unique:
  assumes "lock_inv calls locks" "calls i = Some c" "calls i' = Some c'" "call_identity c' = call_identity c"
    "ac_phase c \<noteq> Waiting" "ac_phase c' \<noteq> Waiting"
  shows "i' = i"
proof -
  have "i \<in> holders calls (call_identity c)" "i' \<in> holders calls (call_identity c)"
    using assms by (simp_all add: calls_of_mem)
  moreover obtain e where "locks (call_identity c) = Some e" "le_refs e = card (calls_of calls (call_identity c))"
      "if le_token e then holders calls (call_identity c) = {} else \<exists>i. holders calls (call_identity c) = {i}"
    by (rule lock_inv_entry [OF assms(1,2)])
  ultimately show ?thesis by (auto split: if_splits)
qed

lemma lock_inv_enter:
  assumes "lock_inv calls (jn_locks j)" "calls i = None" "ac_phase c = Waiting" "call_identity c = ident"
  shows "lock_inv (calls(i \<mapsto> c)) (jn_locks (lock_reference ident j))"
proof (rule lock_inv_upd [OF assms(1), where ident = ident])
  have fin: "finite (calls_of calls ident)" using assms(1) by (auto simp: lock_inv_def intro: calls_of_finite)
  have i: "i \<notin> calls_of calls ident" "holders calls ident - {i} = holders calls ident"
    using assms(2) by (simp_all add: calls_of_mem)
  have empty: "calls_of calls ident = {} \<Longrightarrow> holders calls ident = {}" using holders_calls by blast
  have entry: "entry_ok (calls_of calls ident) (holders calls ident) (jn_locks j ident)" using assms(1) by (simp add: lock_inv_def)
  have upd: "calls_of (calls(i \<mapsto> c)) ident = insert i (calls_of calls ident)" "holders (calls(i \<mapsto> c)) ident = holders calls ident"
    using assms(3,4) i by (simp_all add: calls_of_upd holders_upd)
  show "entry_ok (calls_of (calls(i \<mapsto> c)) ident) (holders (calls(i \<mapsto> c)) ident) (jn_locks (lock_reference ident j) ident)"
  proof (cases "jn_locks j ident")
    case None
    then show ?thesis using entry empty upd by (simp add: entry_ok_def lock_reference_def)
  next
    case (Some e)
    then show ?thesis using entry upd fin i by (simp add: entry_ok_def lock_reference_def)
  qed
  show "finite (dom (calls(i \<mapsto> c)))" using assms(1) by (simp add: lock_inv_def)
qed (use assms(2,4) in \<open>auto simp: other_identity lock_reference_def Let_def\<close>)

lemma lock_inv_take:
  assumes "lock_inv calls locks" "calls i = Some c" "ac_phase c = Waiting" "locks (call_identity c) = Some e" "le_token e"
  shows "lock_inv (calls(i \<mapsto> c\<lparr>ac_phase := Locked\<rparr>)) (locks(call_identity c \<mapsto> e\<lparr>le_token := False\<rparr>))"
proof (rule lock_inv_upd [OF assms(1), where ident = "call_identity c"])
  have "entry_ok (calls_of calls (call_identity c)) (holders calls (call_identity c)) (Some e)"
    using assms(1,4) by (metis lock_inv_def)
  moreover have "i \<in> calls_of calls (call_identity c)" using assms(2) by (simp add: calls_of_mem)
  ultimately show "entry_ok (calls_of (calls(i \<mapsto> c\<lparr>ac_phase := Locked\<rparr>)) (call_identity c))
      (holders (calls(i \<mapsto> c\<lparr>ac_phase := Locked\<rparr>)) (call_identity c)) ((locks(call_identity c \<mapsto> e\<lparr>le_token := False\<rparr>)) (call_identity c))"
    using assms(5) by (auto simp: entry_ok_def calls_of_upd holders_upd insert_absorb)
  show "finite (dom (calls(i \<mapsto> c\<lparr>ac_phase := Locked\<rparr>)))" using assms(1) by (simp add: lock_inv_def)
qed (use assms(2) in \<open>auto simp: other_identity\<close>)

lemma lock_inv_phase:
  assumes "lock_inv calls locks" "calls i = Some c" "ac_phase c \<noteq> Waiting" "p \<noteq> Waiting"
  shows "lock_inv (calls(i \<mapsto> c\<lparr>ac_phase := p\<rparr>)) locks"
proof -
  have "calls_of (calls(i \<mapsto> c\<lparr>ac_phase := p\<rparr>)) = calls_of calls" "holders (calls(i \<mapsto> c\<lparr>ac_phase := p\<rparr>)) = holders calls"
    using assms by (auto simp: fun_eq_iff calls_of_mem calls_of_upd holders_upd insert_absorb)
  then show ?thesis using assms(1) by (simp add: lock_inv_def)
qed

lemma lock_inv_finish:
  assumes "lock_inv (jn_calls j) (jn_locks j)" "jn_calls j i = Some c" "holds = (ac_phase c \<noteq> Waiting)"
  shows "lock_inv (jn_calls (finish_call i c holds j)) (jn_locks (finish_call i c holds j))"
    "jn_calls (finish_call i c holds j) = (jn_calls j)(i := None)"
proof -
  obtain e where e: "jn_locks j (call_identity c) = Some e" "le_refs e = card (calls_of (jn_calls j) (call_identity c))"
    "if le_token e then holders (jn_calls j) (call_identity c) = {} else \<exists>i. holders (jn_calls j) (call_identity c) = {i}"
    using lock_inv_entry [OF assms(1,2)] by blast
  show calls: "jn_calls (finish_call i c holds j) = (jn_calls j)(i := None)"
    using e(1) by (simp add: finish_call_def releaseIdentityReference_def)
  let ?i = "call_identity c"
  have fin: "finite (calls_of (jn_calls j) ?i)" using assms(1) by (auto simp: lock_inv_def intro: calls_of_finite)
  have mem: "i \<in> calls_of (jn_calls j) ?i" using assms(2) by (simp add: calls_of_mem)
  have card: "card (calls_of (jn_calls j) ?i - {i}) = le_refs e - 1" using fin mem e(2) by simp
  have empty: "calls_of (jn_calls j) ?i - {i} = {}" if "le_refs e - 1 = 0" using fin card that by (metis card_0_eq finite_Diff)
  have hold: "if holds \<or> le_token e then holders (jn_calls j) ?i - {i} = {} else \<exists>k. holders (jn_calls j) ?i - {i} = {k}"
    using e(3) assms(2,3) calls_of_mem(2) [of "jn_calls j" i c ?i, OF assms(2)] by (cases "le_token e") (auto split: if_splits)
  show "lock_inv (jn_calls (finish_call i c holds j)) (jn_locks (finish_call i c holds j))"
  proof (rule lock_inv_upd [OF assms(1), where ident = ?i])
    show "entry_ok (calls_of (jn_calls (finish_call i c holds j)) ?i) (holders (jn_calls (finish_call i c holds j)) ?i)
        (jn_locks (finish_call i c holds j) ?i)"
      unfolding calls using hold card empty e(1)
      by (auto simp: entry_ok_def calls_of_upd holders_upd finish_call_def releaseIdentityReference_def split: if_splits)
    show "finite (dom (jn_calls (finish_call i c holds j)))" unfolding calls using assms(1) by (simp add: lock_inv_def)
  qed (use assms(2) e(1) in \<open>auto simp: other_identity calls finish_call_def releaseIdentityReference_def\<close>)
qed


section \<open>The invariant of the journal\<close>

definition intent_row :: "env \<Rightarrow> apply_codec \<Rightarrow> ApplyIntent \<Rightarrow> apply_row \<Rightarrow> bool" where
  "intent_row E K intent row \<longleftrightarrow> CanonicalApplyIntent E K intent = Inr (row_intent row, row_intent_digest row)"

lemma intent_row_same: "intent_row E K intent row \<Longrightarrow> same_intent row row' \<Longrightarrow> intent_row E K intent row'"
  by (simp add: intent_row_def same_intent_def)

text \<open>A row is pending or terminal, and a decided outcome is one the applier returned for its intent.\<close>

definition row_inv :: "env \<Rightarrow> apply_codec \<Rightarrow> (ApplyIntent \<times> (string + CASOutcome)) list \<Rightarrow> ApplyIdentity \<Rightarrow> apply_row \<Rightarrow> bool" where
  "row_inv E K reported ident row \<longleftrightarrow> (row_state row \<in> {ApplyStatePending, ApplyStateIndeterminate}
     \<or> (\<exists>intent outcome. (intent, Inr outcome) \<in> set reported \<and> in_Identity intent = ident \<and> intent_row E K intent row
          \<and> ok (ValidateCASOutcome outcome intent) \<and> outcome_Marshal K outcome = row_outcome row))"

fun phase_begun :: "apply_phase \<Rightarrow> bool" where
  "phase_begun Waiting = False" | "phase_begun Locked = False" | "phase_begun _ = True"

definition call_inv :: "env \<Rightarrow> apply_codec \<Rightarrow> applyJournal \<Rightarrow> apply_call \<Rightarrow> bool" where
  "call_inv E K j c \<longleftrightarrow> CanonicalApplyIntent E K (ac_intent c) = Inr (ac_encoded c, ac_digest c)
     \<and> (phase_begun (ac_phase c) \<longrightarrow>
          (\<exists>at. jn_table j (call_identity c) = Some (pending_row (ac_encoded c) (ac_digest c) at)))
     \<and> (\<forall>r. ac_phase c = Begun r \<longrightarrow> call_identity c \<notin> in_Identity ` set (jn_invoked j))
     \<and> (\<forall>r. ac_phase c = Invoking r \<longrightarrow> ac_intent c \<in> set (jn_invoked j))
     \<and> (\<forall>r outcome. ac_phase c = Reported r outcome \<longrightarrow>
          (\<exists>returned. (ac_intent c, returned) \<in> set (jn_reported j) \<and> outcome = apply_outcome (ac_intent c) returned))"

definition invoked_inv :: "env \<Rightarrow> apply_codec \<Rightarrow> apply_table \<Rightarrow> ApplyIntent list \<Rightarrow> bool" where
  "invoked_inv E K t invoked \<longleftrightarrow> distinct (map in_Identity invoked)
     \<and> (\<forall>intent \<in> set invoked. \<exists>row. t (in_Identity intent) = Some row \<and> intent_row E K intent row)"

definition journal_inv :: "env \<Rightarrow> apply_codec \<Rightarrow> applyJournal \<Rightarrow> bool" where
  "journal_inv E K j \<longleftrightarrow> lock_inv (jn_calls j) (jn_locks j) \<and> invoked_inv E K (jn_table j) (jn_invoked j)
     \<and> fst ` set (jn_reported j) \<subseteq> set (jn_invoked j)
     \<and> (\<forall>ident row. jn_table j ident = Some row \<longrightarrow> row_inv E K (jn_reported j) ident row)
     \<and> (\<forall>i c. jn_calls j i = Some c \<longrightarrow> call_inv E K j c)
     \<and> (\<not> jn_alive j \<longrightarrow> jn_calls j = Map.empty)"

lemma journal_invI:
  assumes "lock_inv (jn_calls j) (jn_locks j)" "invoked_inv E K (jn_table j) (jn_invoked j)"
    "fst ` set (jn_reported j) \<subseteq> set (jn_invoked j)"
    "\<And>ident row. jn_table j ident = Some row \<Longrightarrow> row_inv E K (jn_reported j) ident row"
    "\<And>i c. jn_calls j i = Some c \<Longrightarrow> call_inv E K j c" "\<not> jn_alive j \<Longrightarrow> jn_calls j = Map.empty"
  shows "journal_inv E K j"
  using assms by (simp add: journal_inv_def)

lemma journal_invD:
  assumes "journal_inv E K j"
  shows "lock_inv (jn_calls j) (jn_locks j)" "invoked_inv E K (jn_table j) (jn_invoked j)"
    "fst ` set (jn_reported j) \<subseteq> set (jn_invoked j)"
    "jn_table j ident = Some row \<Longrightarrow> row_inv E K (jn_reported j) ident row"
    "jn_calls j i = Some c \<Longrightarrow> call_inv E K j c" "\<not> jn_alive j \<Longrightarrow> jn_calls j = Map.empty"
  using assms by (simp_all add: journal_inv_def)

lemma invoked_inv_grows: "invoked_inv E K t invoked \<Longrightarrow> table_grows t t' \<Longrightarrow> invoked_inv E K t' invoked"
  unfolding invoked_inv_def table_grows_def by (meson intent_row_same)

lemma row_inv_more: "row_inv E K reported ident row \<Longrightarrow> row_inv E K (r # reported) ident row"
  unfolding row_inv_def by auto

lemma rows_inv_upd:
  assumes "\<And>ident row. t ident = Some row \<Longrightarrow> row_inv E K reported ident row" "row_inv E K reported a row'"
    "(t(a \<mapsto> row')) ident = Some row"
  shows "row_inv E K reported ident row"
  using assms by (auto split: if_splits)

lemma row_inv_indeterminate: "row_state row \<in> {ApplyStatePending, ApplyStateIndeterminate} \<Longrightarrow> row_inv E K reported ident row"
  by (simp add: row_inv_def)

lemma call_inv_mono:
  assumes inv: "call_inv E K j c"
    and t: "phase_begun (ac_phase c) \<Longrightarrow> jn_table j' (call_identity c) = jn_table j (call_identity c)"
    and invoked: "set (jn_invoked j) \<subseteq> set (jn_invoked j')"
      "phase_begun (ac_phase c) \<Longrightarrow> call_identity c \<in> in_Identity ` set (jn_invoked j') \<Longrightarrow>
        call_identity c \<in> in_Identity ` set (jn_invoked j)"
    and reported: "set (jn_reported j) \<subseteq> set (jn_reported j')"
  shows "call_inv E K j' c"
proof (cases "ac_phase c")
  case (Begun r)
  then show ?thesis using inv t invoked(2) by (auto simp: call_inv_def)
next
  case (Invoking r)
  then show ?thesis using inv t invoked(1) by (auto simp: call_inv_def)
next
  case (Reported r outcome)
  then show ?thesis using inv t reported by (auto simp: call_inv_def)
qed (use inv in \<open>simp_all add: call_inv_def\<close>)

lemma finish_call_fields [simp]:
  "jn_table (finish_call i c h j) = jn_table j" "jn_alive (finish_call i c h j) = jn_alive j"
  "jn_invoked (finish_call i c h j) = jn_invoked j" "jn_reported (finish_call i c h j) = jn_reported j"
  "jn_closed (finish_call i c h j) = jn_closed j"
  by (simp_all add: finish_call_def releaseIdentityReference_def split: option.splits)

lemma set_phase_fields [simp]:
  "jn_table (set_phase i c p j) = jn_table j" "jn_alive (set_phase i c p j) = jn_alive j"
  "jn_invoked (set_phase i c p j) = jn_invoked j" "jn_reported (set_phase i c p j) = jn_reported j"
  "jn_closed (set_phase i c p j) = jn_closed j" "jn_locks (set_phase i c p j) = jn_locks j"
  "jn_calls (set_phase i c p j) = (jn_calls j)(i \<mapsto> c\<lparr>ac_phase := p\<rparr>)"
  by (simp_all add: set_phase_def)

lemma lock_reference_fields [simp]:
  "jn_table (lock_reference a j) = jn_table j" "jn_alive (lock_reference a j) = jn_alive j"
  "jn_invoked (lock_reference a j) = jn_invoked j" "jn_reported (lock_reference a j) = jn_reported j"
  "jn_closed (lock_reference a j) = jn_closed j" "jn_calls (lock_reference a j) = jn_calls j"
  by (simp_all add: lock_reference_def Let_def)

text \<open>
  The holder of an identity changes the row of that identity and returns: every other call is
  unaffected, since none of them is past its lock.
\<close>

lemma journal_inv_settle:
  assumes inv: "journal_inv E K j" and c: "jn_calls j i = Some c" "ac_phase c \<noteq> Waiting"
    and t: "table_grows (jn_table j) t" "\<And>a. a \<noteq> call_identity c \<Longrightarrow> t a = jn_table j a"
    and row: "\<And>row. t (call_identity c) = Some row \<Longrightarrow> row_inv E K (jn_reported j) (call_identity c) row"
  shows "journal_inv E K (finish_call i c True (j\<lparr>jn_table := t\<rparr>))"
proof (rule journal_invI)
  let ?j = "finish_call i c True (j\<lparr>jn_table := t\<rparr>)"
  have lock: "lock_inv (jn_calls (j\<lparr>jn_table := t\<rparr>)) (jn_locks (j\<lparr>jn_table := t\<rparr>))" using journal_invD(1) [OF inv] by simp
  note f = lock_inv_finish [OF lock, of i c True]
  show "lock_inv (jn_calls ?j) (jn_locks ?j)" using f(1) c by simp
  have calls: "jn_calls ?j = (jn_calls j)(i := None)" using f(2) c by simp
  show "call_inv E K ?j c'" if c': "jn_calls ?j i' = Some c'" for i' c'
  proof (rule call_inv_mono)
    have i': "i' \<noteq> i" "jn_calls j i' = Some c'" using c' calls by (auto split: if_splits)
    then show "call_inv E K j c'" using journal_invD(5) [OF inv] by blast
    assume "phase_begun (ac_phase c')"
    then have "ac_phase c' \<noteq> Waiting" by auto
    then have "call_identity c' \<noteq> call_identity c"
      using lock_inv_holder_unique [OF journal_invD(1) [OF inv] c(1) i'(2) _ c(2)] i'(1) by blast
    then show "jn_table ?j (call_identity c') = jn_table j (call_identity c')" by (simp add: t(2))
  qed simp_all
  show "row_inv E K (jn_reported ?j) a r" if "jn_table ?j a = Some r" for a r
    using that row t(2) journal_invD(4) [OF inv] by (cases "a = call_identity c") auto
  show "invoked_inv E K (jn_table ?j) (jn_invoked ?j)" using invoked_inv_grows [OF journal_invD(2) [OF inv] t(1)] by simp
  show "fst ` set (jn_reported ?j) \<subseteq> set (jn_invoked ?j)" using journal_invD(3) [OF inv] by simp
  show "\<not> jn_alive ?j \<Longrightarrow> jn_calls ?j = Map.empty" using journal_invD(6) [OF inv] c(1) by auto
qed

text \<open>The same holder goes on to its next phase.\<close>

lemma journal_inv_advance:
  assumes inv: "journal_inv E K j" and c: "jn_calls j i = Some c" "ac_phase c \<noteq> Waiting" "p \<noteq> Waiting"
    and t: "table_grows (jn_table j) (jn_table j')" "\<And>a. a \<noteq> call_identity c \<Longrightarrow> jn_table j' a = jn_table j a"
    and row: "\<And>row. jn_table j' (call_identity c) = Some row \<Longrightarrow> row_inv E K (jn_reported j') (call_identity c) row"
    and j': "jn_calls j' = jn_calls j" "jn_locks j' = jn_locks j" "jn_alive j' = jn_alive j"
    and invoked: "invoked_inv E K (jn_table j') (jn_invoked j')" "set (jn_invoked j) \<subseteq> set (jn_invoked j')"
      "\<And>intent. intent \<in> set (jn_invoked j') \<Longrightarrow> intent \<notin> set (jn_invoked j) \<Longrightarrow> in_Identity intent = call_identity c"
    and reported: "set (jn_reported j) \<subseteq> set (jn_reported j')" "fst ` set (jn_reported j') \<subseteq> set (jn_invoked j')"
    and this_call: "call_inv E K j' (c\<lparr>ac_phase := p\<rparr>)"
  shows "journal_inv E K (set_phase i c p j')"
proof (rule journal_invI)
  let ?j = "set_phase i c p j'"
  show "lock_inv (jn_calls ?j) (jn_locks ?j)"
    using lock_inv_phase [OF journal_invD(1) [OF inv] c(1,2,3)] by (simp add: j')
  have old: "row_inv E K (jn_reported j') a r" if "jn_table j a = Some r" for a r
    using journal_invD(4) [OF inv that] reported(1) unfolding row_inv_def by blast
  show "row_inv E K (jn_reported ?j) a r" if "jn_table ?j a = Some r" for a r
    using that row t(2) old by (cases "a = call_identity c") auto
  show "call_inv E K ?j c'" if c': "jn_calls ?j i' = Some c'" for i' c'
  proof (cases "i' = i")
    case True
    then show ?thesis using c' this_call by (simp add: call_inv_def)
  next
    case False
    then have i': "jn_calls j i' = Some c'" using c' by (simp add: j')
    have other: "call_identity c' \<noteq> call_identity c" if "phase_begun (ac_phase c')"
      using lock_inv_holder_unique [OF journal_invD(1) [OF inv] c(1) i' _ c(2)] False that by (metis phase_begun.simps(1))
    show ?thesis
    proof (rule call_inv_mono [OF journal_invD(5) [OF inv i']])
      assume begun: "phase_begun (ac_phase c')"
      show "jn_table ?j (call_identity c') = jn_table j (call_identity c')" using t(2) other [OF begun] by simp
      assume "call_identity c' \<in> in_Identity ` set (jn_invoked ?j)"
      then show "call_identity c' \<in> in_Identity ` set (jn_invoked j)"
        using invoked(3) other [OF begun] by (metis (no_types, lifting) imageE imageI set_phase_fields(3))
    qed (use invoked(2) reported(1) in simp_all)
  qed
  show "invoked_inv E K (jn_table ?j) (jn_invoked ?j)" "fst ` set (jn_reported ?j) \<subseteq> set (jn_invoked ?j)"
    using invoked(1) reported(2) by simp_all
  show "\<not> jn_alive ?j \<Longrightarrow> jn_calls ?j = Map.empty" using journal_invD(6) [OF inv] c(1) j' by auto
qed

text \<open>The tables \<open>begin\<close> may leave behind.\<close>

lemma begin_table:
  assumes "journal_tx tx (journal_begin E K intent encoded digest now) t = (res, t')"
  shows "table_grows t t'" "a \<noteq> in_Identity intent \<Longrightarrow> t' a = t a"
    "t' = t \<or> (\<exists>row. t' (in_Identity intent) = Some row \<and> row_state row \<in> {ApplyStatePending, ApplyStateIndeterminate})"
    "res = Inr (record, False) \<Longrightarrow> t (in_Identity intent) = None \<and> t' = t(in_Identity intent \<mapsto> pending_row encoded digest now)"
proof -
  have *: "t' = t \<or> (\<exists>record replay. journal_begin E K intent encoded digest now t = Inr ((record, replay), t'))"
    using journal_tx_cases(1) [OF assms] by auto
  show "table_grows t t'" "a \<noteq> in_Identity intent \<Longrightarrow> t' a = t a"
    "t' = t \<or> (\<exists>row. t' (in_Identity intent) = Some row \<and> row_state row \<in> {ApplyStatePending, ApplyStateIndeterminate})"
    using * by (auto dest!: journal_begin_cases intro: table_grows_insert table_grows_settle
        simp: terminal_row_def pending_row_def)
  show "t (in_Identity intent) = None \<and> t' = t(in_Identity intent \<mapsto> pending_row encoded digest now)"
    if "res = Inr (record, False)"
    using journal_tx_cases(2) [OF assms that] by (auto dest!: journal_begin_cases)
qed

lemma begin_inv:
  assumes inv: "journal_inv E K j" and c: "jn_calls j i = Some c" "ac_phase c = Locked"
    and run: "Apply_begin E K tx now i c j = (r, j')"
  shows "journal_inv E K j'" "table_grows (jn_table j) (jn_table j')"
proof -
  obtain res t where tx: "journal_tx tx (journal_begin E K (ac_intent c) (ac_encoded c) (ac_digest c) now) (jn_table j) = (res, t)"
    by (cases "journal_tx tx (journal_begin E K (ac_intent c) (ac_encoded c) (ac_digest c) now) (jn_table j)")
  note tab = begin_table [OF tx, folded call_identity_def]
  have hold: "ac_phase c \<noteq> Waiting" using c(2) by simp
  have row: "row_inv E K (jn_reported j) (call_identity c) row" if "t (call_identity c) = Some row" for row
    using tab(3) that journal_invD(4) [OF inv] by (auto intro: row_inv_indeterminate)
  have settle: "journal_inv E K (finish_call i c True (j\<lparr>jn_table := t\<rparr>))"
    by (rule journal_inv_settle [OF inv c(1) hold tab(1,2) row])
  show "journal_inv E K j'"
  proof (cases "\<exists>record. res = Inr (record, False)")
    case False
    then have "j' = finish_call i c True (j\<lparr>jn_table := t\<rparr>)"
      using run tx by (auto simp: Apply_begin_def Let_def split: sum.splits if_splits)
    then show ?thesis using settle by simp
  next
    case True
    then obtain rcd where res: "res = Inr (rcd, False)" by blast
    have t: "jn_table j (call_identity c) = None" "t = (jn_table j)(call_identity c \<mapsto> pending_row (ac_encoded c) (ac_digest c) now)"
      using tab(4) [OF res] by blast+
    have j': "j' = set_phase i c (Begun rcd) (j\<lparr>jn_table := t\<rparr>)" using run tx res by (simp add: Apply_begin_def Let_def)
    have fresh: "call_identity c \<notin> in_Identity ` set (jn_invoked j)"
      using journal_invD(2) [OF inv] t(1) by (auto simp: invoked_inv_def)
    show ?thesis unfolding j'
    proof (rule journal_inv_advance [OF inv c(1) hold])
      show "call_inv E K (j\<lparr>jn_table := t\<rparr>) (c\<lparr>ac_phase := Begun rcd\<rparr>)"
        using journal_invD(5) [OF inv c(1)] fresh t(2) by (auto simp: call_inv_def)
      show "invoked_inv E K (jn_table (j\<lparr>jn_table := t\<rparr>)) (jn_invoked (j\<lparr>jn_table := t\<rparr>))"
        using invoked_inv_grows [OF journal_invD(2) [OF inv] tab(1)] by simp
    qed (use tab row journal_invD(3) [OF inv] in simp_all)
  qed
  show "table_grows (jn_table j) (jn_table j')"
    using run tx tab(1) by (auto simp: Apply_begin_def Let_def split: sum.splits if_splits)
qed

definition journal_grows :: "applyJournal \<Rightarrow> applyJournal \<Rightarrow> bool" where
  "journal_grows j j' \<longleftrightarrow> table_grows (jn_table j) (jn_table j') \<and> set (jn_invoked j) \<subseteq> set (jn_invoked j')
     \<and> set (jn_reported j) \<subseteq> set (jn_reported j')"

lemma journal_inv_finish:
  assumes inv: "journal_inv E K j" and c: "jn_calls j i = Some c" "ac_phase c = Waiting"
  shows "journal_inv E K (finish_call i c False j)"
proof (rule journal_invI)
  let ?j = "finish_call i c False j"
  have f: "lock_inv (jn_calls ?j) (jn_locks ?j)" "jn_calls ?j = (jn_calls j)(i := None)"
    using lock_inv_finish [OF journal_invD(1) [OF inv] c(1), of False] c(2) by simp_all
  show "lock_inv (jn_calls ?j) (jn_locks ?j)" by (rule f(1))
  show "call_inv E K ?j c'" if "jn_calls ?j i' = Some c'" for i' c'
    using that f(2) journal_invD(5) [OF inv, of i' c'] call_inv_mono [of E K j c' ?j] by (auto split: if_splits)
  show "row_inv E K (jn_reported ?j) a r" if "jn_table ?j a = Some r" for a r using that journal_invD(4) [OF inv] by simp
  show "invoked_inv E K (jn_table ?j) (jn_invoked ?j)" "fst ` set (jn_reported ?j) \<subseteq> set (jn_invoked ?j)"
    using journal_invD(2,3) [OF inv] by simp_all
  show "\<not> jn_alive ?j \<Longrightarrow> jn_calls ?j = Map.empty" using journal_invD(6) [OF inv] c(1) by auto
qed

text \<open>A call that is not past its lock, with locks that fit it.\<close>

lemma journal_inv_call:
  assumes inv: "journal_inv E K j" and lock: "lock_inv ((jn_calls j)(i \<mapsto> c\<lparr>ac_phase := p\<rparr>)) locks"
    and c: "CanonicalApplyIntent E K (ac_intent c) = Inr (ac_encoded c, ac_digest c)" "p \<in> {Waiting, Locked}" and alive: "jn_alive j"
  shows "journal_inv E K (set_phase i c p (j\<lparr>jn_locks := locks\<rparr>))"
proof (rule journal_invI)
  let ?j = "set_phase i c p (j\<lparr>jn_locks := locks\<rparr>)"
  show "call_inv E K ?j c'" if "jn_calls ?j i' = Some c'" for i' c'
  proof (cases "i' = i")
    case True
    then show ?thesis using that c by (auto simp: call_inv_def)
  next
    case False
    then have "jn_calls j i' = Some c'" using that by simp
    then show ?thesis using journal_invD(5) [OF inv] call_inv_mono [of E K j c' ?j] by simp
  qed
  show "row_inv E K (jn_reported ?j) a r" if "jn_table ?j a = Some r" for a r using that journal_invD(4) [OF inv] by simp
qed (use journal_invD(2,3) [OF inv] lock alive in simp_all)

lemma enter_inv:
  assumes "journal_inv E K j" "jn_calls j i = None" "Apply_enter E K ctx nilApplier intent i j = (r, j')"
  shows "journal_inv E K j' \<and> journal_grows j j'"
proof (cases "j' = j")
  case False
  then obtain encoded digest where e: "CanonicalApplyIntent E K intent = Inr (encoded, digest)" "jn_alive j"
      "j' = set_phase i \<lparr>ac_intent = intent, ac_encoded = encoded, ac_digest = digest, ac_phase = Waiting\<rparr> Waiting
         (lock_reference (in_Identity intent) j)"
    using assms(3) by (auto simp: Apply_enter_def journal_acquire_def split: if_splits sum.splits prod.splits)
  let ?c = "\<lparr>ac_intent = intent, ac_encoded = encoded, ac_digest = digest, ac_phase = Waiting\<rparr>"
  define L where "L = jn_locks (lock_reference (in_Identity intent) j)"
  have eq: "lock_reference (in_Identity intent) j = j\<lparr>jn_locks := L\<rparr>" by (simp add: L_def lock_reference_def Let_def)
  have "lock_inv ((jn_calls j)(i \<mapsto> ?c\<lparr>ac_phase := Waiting\<rparr>)) L"
    using lock_inv_enter [OF journal_invD(1) [OF assms(1)] assms(2), of ?c "in_Identity intent"] by (simp add: call_identity_def L_def)
  then have "journal_inv E K (set_phase i ?c Waiting (j\<lparr>jn_locks := L\<rparr>))"
    by (rule journal_inv_call [OF assms(1)]) (use e(1,2) in simp_all)
  then show ?thesis unfolding e(3) eq by (simp add: journal_grows_def)
qed (use assms(1) in \<open>simp add: journal_grows_def\<close>)

lemma lock_step_inv:
  assumes "journal_inv E K j" "jn_calls j i = Some c" "ac_phase c = Waiting" "Apply_lock i c j = Some j'"
  shows "journal_inv E K j' \<and> journal_grows j j'"
proof -
  obtain e where e: "jn_locks j (call_identity c) = Some e" "le_token e"
      "j' = set_phase i c Locked (j\<lparr>jn_locks := (jn_locks j)(call_identity c \<mapsto> e\<lparr>le_token := False\<rparr>)\<rparr>)"
    using assms(4) by (auto simp: Apply_lock_def split: option.splits if_splits)
  have "jn_alive j" using journal_invD(6) [OF assms(1)] assms(2) by (cases "jn_alive j") auto
  moreover have "CanonicalApplyIntent E K (ac_intent c) = Inr (ac_encoded c, ac_digest c)"
    using journal_invD(5) [OF assms(1,2)] by (simp add: call_inv_def)
  ultimately show ?thesis
    using journal_inv_call [OF assms(1) lock_inv_take [OF journal_invD(1) [OF assms(1)] assms(2,3) e(1,2)]]
    by (simp add: e(3) journal_grows_def)
qed

lemma invoke_inv:
  assumes inv: "journal_inv E K j" and c: "jn_calls j i = Some c" "ac_phase c = Begun r"
  shows "journal_inv E K (Apply_invoke i c r j) \<and> journal_grows j (Apply_invoke i c r j)"
proof -
  have ci: "call_inv E K j c" by (rule journal_invD(5) [OF inv c(1)])
  let ?j = "j\<lparr>jn_invoked := ac_intent c # jn_invoked j\<rparr>"
  have "journal_inv E K (set_phase i c (Invoking r) ?j)"
  proof (rule journal_inv_advance [OF inv c(1)])
    show "invoked_inv E K (jn_table ?j) (jn_invoked ?j)"
      using journal_invD(2) [OF inv] ci c(2)
      by (auto simp: invoked_inv_def call_inv_def call_identity_def intent_row_def pending_row_def)
    show "call_inv E K ?j (c\<lparr>ac_phase := Invoking r\<rparr>)" using ci c(2) by (auto simp: call_inv_def)
    show "fst ` set (jn_reported ?j) \<subseteq> set (jn_invoked ?j)" using journal_invD(3) [OF inv] by auto
    show "row_inv E K (jn_reported ?j) (call_identity c) row" if "jn_table ?j (call_identity c) = Some row" for row
      using that journal_invD(4) [OF inv] by simp
  qed (auto simp: c(2) call_identity_def)
  then show ?thesis by (auto simp: Apply_invoke_def journal_grows_def)
qed

lemma return_inv:
  assumes inv: "journal_inv E K j" and c: "jn_calls j i = Some c" "ac_phase c = Invoking r"
  shows "journal_inv E K (Apply_return i c r returned j) \<and> journal_grows j (Apply_return i c r returned j)"
proof -
  have ci: "call_inv E K j c" by (rule journal_invD(5) [OF inv c(1)])
  let ?j = "j\<lparr>jn_reported := (ac_intent c, returned) # jn_reported j\<rparr>"
  have "journal_inv E K (set_phase i c (Reported r (apply_outcome (ac_intent c) returned)) ?j)"
  proof (rule journal_inv_advance [OF inv c(1)])
    show "invoked_inv E K (jn_table ?j) (jn_invoked ?j)" using journal_invD(2) [OF inv] by simp
    show "call_inv E K ?j (c\<lparr>ac_phase := Reported r (apply_outcome (ac_intent c) returned)\<rparr>)"
      using ci c(2) by (auto simp: call_inv_def)
    show "fst ` set (jn_reported ?j) \<subseteq> set (jn_invoked ?j)" using journal_invD(3) [OF inv] ci c(2) by (auto simp: call_inv_def)
    show "row_inv E K (jn_reported ?j) (call_identity c) row" if "jn_table ?j (call_identity c) = Some row" for row
      using that journal_invD(4) [OF inv] by (simp add: row_inv_more)
  qed (auto simp: c(2))
  then show ?thesis by (auto simp: Apply_return_def journal_grows_def)
qed

text \<open>The tables \<open>complete\<close> may leave behind.\<close>

lemma complete_table:
  assumes "journal_tx tx (journal_complete E K ident enc outcome now) t = (res, t')"
  shows "table_grows t t'" "a \<noteq> ident \<Longrightarrow> t' a = t a"
    "t' = t \<or> (\<exists>row row' intent. t ident = Some row \<and> t' ident = Some row' \<and> same_intent row row'
       \<and> row_state row' = stateForDecision (co_Decision outcome) \<and> row_outcome row' = outcome_Marshal K outcome
       \<and> in_Identity intent = ident \<and> intent_row E K intent row \<and> ok (ValidateCASOutcome outcome intent))"
proof -
  have *: "t' = t \<or> (\<exists>r. journal_complete E K ident enc outcome now t = Inr (r, t'))"
    using journal_tx_cases(1) [OF assms] by auto
  show "table_grows t t'" "a \<noteq> ident \<Longrightarrow> t' a = t a"
    using * by (auto dest!: journal_complete_cases intro: table_grows_settle)
  show "t' = t \<or> (\<exists>row row' intent. t ident = Some row \<and> t' ident = Some row' \<and> same_intent row row'
       \<and> row_state row' = stateForDecision (co_Decision outcome) \<and> row_outcome row' = outcome_Marshal K outcome
       \<and> in_Identity intent = ident \<and> intent_row E K intent row \<and> ok (ValidateCASOutcome outcome intent))"
    using * by (auto dest!: journal_complete_cases simp: intent_row_def same_intent_def terminal_row_def)
qed

lemma apply_outcome_cases:
  "apply_outcome intent returned = outcome \<Longrightarrow> co_Decision outcome = ApplyIndeterminate
     \<or> returned = Inr outcome \<and> ok (ValidateCASOutcome outcome intent)"
  by (auto simp: apply_outcome_def IndeterminateOutcome_def Let_def split: sum.splits if_splits)

lemma complete_inv:
  assumes inv: "journal_inv E K j" and c: "jn_calls j i = Some c" "ac_phase c = Reported r0 outcome"
    and run: "Apply_complete E K tx now i c r0 outcome j = (r, j')"
  shows "journal_inv E K j' \<and> journal_grows j j'"
proof -
  obtain res t where tx: "journal_tx tx (journal_complete E K (call_identity c) (ac_encoded c) outcome now) (jn_table j) = (res, t)"
    by (cases "journal_tx tx (journal_complete E K (call_identity c) (ac_encoded c) outcome now) (jn_table j)")
  note tab = complete_table [OF tx]
  have j': "j' = finish_call i c True (j\<lparr>jn_table := t\<rparr>)"
    using run tx by (auto simp: Apply_complete_def Let_def split: sum.splits)
  have ci: "call_inv E K j c" by (rule journal_invD(5) [OF inv c(1)])
  obtain returned where ret: "(ac_intent c, returned) \<in> set (jn_reported j)" "outcome = apply_outcome (ac_intent c) returned"
    using ci c(2) by (auto simp: call_inv_def)
  have row: "row_inv E K (jn_reported j) (call_identity c) row'" if r': "t (call_identity c) = Some row'" for row'
  proof (cases "t = jn_table j")
    case True
    then show ?thesis using r' journal_invD(4) [OF inv] by simp
  next
    case False
    then obtain row where row: "jn_table j (call_identity c) = Some row" "same_intent row row'"
        "row_state row' = stateForDecision (co_Decision outcome)" "row_outcome row' = outcome_Marshal K outcome"
      using tab(3) r' by auto
    have "intent_row E K (ac_intent c) row"
      using ci c(2) row(1) by (auto simp: call_inv_def intent_row_def pending_row_def)
    then have "intent_row E K (ac_intent c) row'" using row(2) by (rule intent_row_same)
    then show ?thesis
      using apply_outcome_cases [OF ret(2) [symmetric]] ret(1) row(3,4)
      by (auto simp: row_inv_def call_identity_def)
  qed
  have hold: "ac_phase c \<noteq> Waiting" using c(2) by simp
  show ?thesis using journal_inv_settle [OF inv c(1) hold tab(1,2) row] tab(1) unfolding j' by (simp add: journal_grows_def)
qed

lemma recovered_inv:
  assumes inv: "journal_inv E K j" and dead: "\<not> jn_alive j" and r: "recoverPending E K clock (jn_table j) = Inr t"
    and j': "jn_table j' = t" "jn_calls j' = Map.empty" "jn_locks j' = Map.empty \<or> jn_locks j' = jn_locks j"
      "jn_invoked j' = jn_invoked j" "jn_reported j' = jn_reported j"
  shows "journal_inv E K j' \<and> journal_grows j j'"
proof
  have empty: "lock_inv Map.empty Map.empty" by (simp add: lock_inv_def entry_ok_def calls_of_def)
  show "journal_inv E K j'"
  proof (rule journal_invI)
    show "lock_inv (jn_calls j') (jn_locks j')"
      using j'(2,3) empty journal_invD(1) [OF inv] journal_invD(6) [OF inv dead] by auto
    show "invoked_inv E K (jn_table j') (jn_invoked j')"
      using invoked_inv_grows [OF journal_invD(2) [OF inv] recoverPending_grows [OF r]] by (simp add: j')
    show "row_inv E K (jn_reported j') a row'" if r': "jn_table j' a = Some row'" for a row'
    proof -
      obtain encoded row where "jn_table j a = Some row" "row' = recover_row E encoded (unixNano clock) row"
        using recoverPending_Inr [OF r] r' j'(1) by auto
      then show ?thesis using journal_invD(4) [OF inv, of a row] j'(5)
        by (auto simp: recover_row_def row_inv_def split: if_splits)
    qed
  qed (use journal_invD(3) [OF inv] j' in auto)
  show "journal_grows j j'" using recoverPending_grows [OF r] j' by (simp add: journal_grows_def)
qed

lemma stopped_inv:
  assumes inv: "journal_inv E K j"
  shows "journal_inv E K (journal_stopped j) \<and> journal_grows j (journal_stopped j)"
proof
  show "journal_inv E K (journal_stopped j)"
  proof (rule journal_invI)
    show "row_inv E K (jn_reported (journal_stopped j)) a row" if "jn_table (journal_stopped j) a = Some row" for a row
      using that journal_invD(4) [OF inv] by (simp add: journal_stopped_def)
  qed (use journal_invD(2,3) [OF inv] in \<open>simp_all add: journal_stopped_def lock_inv_def entry_ok_def calls_of_def\<close>)
qed (simp add: journal_grows_def journal_stopped_def)

lemma close_inv: "journal_inv E K j \<Longrightarrow> journal_inv E K (journal_close j) \<and> journal_grows j (journal_close j)"
  by (auto simp: journal_inv_def journal_grows_def journal_close_def call_inv_def)

lemma journal_step_inv:
  assumes "journal_step E K j j'" "journal_inv E K j"
  shows "journal_inv E K j' \<and> journal_grows j j'"
  using assms
proof (induction rule: journal_step.induct)
  case (Enter j i ctx nilApplier intent r j')
  then show ?case using enter_inv by blast
next
  case (Cancel j i c e j')
  then show ?case by (auto simp: Apply_canceled_def journal_grows_def intro: journal_inv_finish)
next
  case (Lock j i c j')
  then show ?case using lock_step_inv by blast
next
  case (Begin j i c tx now r j')
  then show ?case using begin_inv [of E K j i c tx now r j']
    by (auto simp: journal_grows_def Apply_begin_def Let_def split: sum.splits if_splits prod.splits)
next
  case (Complete j i c r0 outcome tx now r j')
  then show ?case using complete_inv by blast
next
  case (Open j clock j')
  then obtain t where "recoverPending E K clock (jn_table j) = Inr t"
      "j' = j\<lparr>jn_table := t, jn_alive := True, jn_closed := False, jn_calls := Map.empty, jn_locks := Map.empty\<rparr>"
    by (auto simp: journal_Open_def bind_res_Inr)
  then show ?case using Open by (intro recovered_inv) auto
next
  case (OpenFailed j clock table)
  then show ?case using journal_invD(6) [OF OpenFailed(3) OpenFailed(1)] by (intro recovered_inv [where t = table]) auto
qed (simp_all add: invoke_inv return_inv close_inv stopped_inv)

lemma journal_grows_refl: "journal_grows j j"
  by (simp add: journal_grows_def)

lemma journal_grows_trans: "journal_grows j k \<Longrightarrow> journal_grows k l \<Longrightarrow> journal_grows j l"
  unfolding journal_grows_def by (blast intro: table_grows_trans)

lemma new_journal_inv: "journal_inv E K new_journal"
  by (simp add: journal_inv_def new_journal_def lock_inv_def entry_ok_def calls_of_def invoked_inv_def)

interpretation apply_journal: invariant_system "\<lambda>j. j = new_journal" "journal_step E K" "journal_inv E K" journal_grows for E K
  by unfold_locales (auto intro: new_journal_inv journal_grows_refl journal_grows_trans dest: journal_step_inv)

end
