(* ===== verification/Workspace_Guarantees.thy ===== *)
theory Workspace_Guarantees
  imports Workspace_Invariant
begin

text \<open>
  What the apply journal guarantees to a caller: at most one external effect per Artifact, records that
  say what the applier reported, and terminal records that stay.
\<close>

section \<open>Reading records\<close>

text \<open>
  What the journal relies on of \<open>encoding/json\<close>: valid intents and outcomes decode to what was encoded.
\<close>

definition codec_faithful :: "env \<Rightarrow> apply_codec \<Rightarrow> bool" where
  "codec_faithful E K \<longleftrightarrow>
     (\<forall>i b. ok (ValidateApplyIntent E i) \<longrightarrow> intent_Marshal K i = Some b \<longrightarrow> intent_Unmarshal K b = Some i)
     \<and> (\<forall>i o' b. ok (ValidateCASOutcome o' i) \<longrightarrow> outcome_Marshal K o' = Some b \<longrightarrow> b \<noteq> [] \<and> outcome_Unmarshal K b = Some o')"

lemma CanonicalApplyIntent_Inr:
  "CanonicalApplyIntent E K i = Inr (b, d) \<longleftrightarrow> ok (ValidateApplyIntent E i) \<and> intent_Marshal K i = Some b \<and> d = sha256Digest E b"
  by (auto simp: CanonicalApplyIntent_def bind_res_Inr ok_iff split: option.splits)

lemma canonical_decodes:
  "codec_faithful E K \<Longrightarrow> CanonicalApplyIntent E K i = Inr (b, d) \<Longrightarrow> intent_Unmarshal K b = Some i"
  by (auto simp: codec_faithful_def CanonicalApplyIntent_Inr)

lemma apply_outcome_ok: "ok (ValidateCASOutcome (apply_outcome intent returned) intent)"
  by (auto simp: apply_outcome_def IndeterminateOutcome_ok split: sum.splits)

lemma valid_decision_terminal: "ok (ValidateCASOutcome o' i) \<Longrightarrow> ApplyState_Terminal (stateForDecision (co_Decision o'))"
  by (cases "co_Decision o'") (simp_all add: ValidateCASOutcome_def)

lemma unixNano_above_zero_time: "zero_time < unixNano t"
  using pos_mod_sign [of "2 ^ 64" "t + 2 ^ 63"] by (simp add: unixNano_def zero_time_def)

lemma unixNano_idem: "unixNano (unixNano t) = unixNano t"
  by (simp add: unixNano_def)

text \<open>Loading a pending row, and a terminal one.\<close>

lemma load_pending:
  assumes "codec_faithful E K" "CanonicalApplyIntent E K i = Inr (b, d)" "t (in_Identity i) = Some (pending_row b d at)"
  shows "loadApplyRecord E K t (in_Identity i) = Inr (row_record (pending_row b d at) i, b)"
proof -
  have "fromUnixNano (unixNano at) \<noteq> zero_time" using unixNano_above_zero_time [of at] by (simp add: fromUnixNano_def)
  then show ?thesis
    using assms(2,3) canonical_decodes [OF assms(1,2)] by (simp add: loadApplyRecord_def pending_row_def)
qed

lemma load_settled:
  assumes "codec_faithful E K" "CanonicalApplyIntent E K i = Inr (b, d)" "ok (ValidateCASOutcome o' i)"
    "outcome_Marshal K o' = Some e" "unixNano now = now" "unixNano at \<le> now"
    "t (in_Identity i) = Some (terminal_row E (stateForDecision (co_Decision o')) e now (pending_row b d at))"
  shows "loadApplyRecord E K t (in_Identity i) =
    Inr ((row_record (pending_row b d at) i)\<lparr>rec_State := stateForDecision (co_Decision o'), rec_Outcome := Some o', rec_CompletedAt := Some now\<rparr>, b)"
proof -
  have "fromUnixNano (unixNano at) \<noteq> zero_time" using unixNano_above_zero_time [of at] by (simp add: fromUnixNano_def)
  moreover have "e \<noteq> []" "outcome_Unmarshal K e = Some o'" using assms(1,3,4) by (auto simp: codec_faithful_def)
  moreover have "ApplyState_Terminal (stateForDecision (co_Decision o'))" by (rule valid_decision_terminal [OF assms(3)])
  ultimately show ?thesis
    using assms(2,3,5,6,7) canonical_decodes [OF assms(1,2)]
    by (auto simp: loadApplyRecord_def load_terminal_def pending_row_def terminal_row_def row_record_def fromUnixNano_def)
qed

text \<open>The record of a settled row.\<close>

lemma load_decided:
  assumes "loadApplyRecord E K t ident = Inr (r, b)" "rec_State r \<noteq> ApplyStatePending"
  obtains row e where "t ident = Some row" "row_outcome row = Some e" "row_state row = rec_State r" "b = row_intent row"
    "rec_Outcome r = outcome_Unmarshal K e" "intent_row E K (rec_Intent r) row" "in_Identity (rec_Intent r) = ident"
proof -
  obtain row where row: "t ident = Some row" "b = row_intent row" "in_Identity (rec_Intent r) = ident"
      "CanonicalApplyIntent E K (rec_Intent r) = Inr (row_intent row, row_intent_digest row)" "rec_State r = row_state row"
    using loadApplyRecord_Inr [OF assms(1)] by blast
  have "\<exists>e. row_outcome row = Some e \<and> rec_Outcome r = outcome_Unmarshal K e"
    using assms row(1,5)
    by (auto simp: loadApplyRecord_def load_terminal_def row_record_def bind_res_Inr split: option.splits if_splits)
  then show ?thesis using that row by (auto simp: intent_row_def)
qed

lemma Lookup_Inr:
  "journal_Lookup E K ctx ident j = Inr r \<longleftrightarrow> ctx = LiveContext \<and> ok (ValidateApplyIdentity ident) \<and> ok (journal_acquire j)
     \<and> (\<exists>b. loadApplyRecord E K (jn_table j) ident = Inr (r, b))"
  by (cases ctx) (auto simp: journal_Lookup_def bind_res_Inr ok_iff)


section \<open>A run\<close>

text \<open>One apply from an empty file to its terminal record, on which the properties are used.\<close>

definition J_env :: env where
  "J_env = \<lparr>sha256_Sum256 = (\<lambda>_. replicate 32 7), json_Marshal = (\<lambda>_. Some [1]), json_Unmarshal = (\<lambda>_ _. None),
     mime_ParseMediaType = (\<lambda>_. True),
     env_wire = \<lparr>wj_marshal_envelope = (\<lambda>_. None), wj_marshal_value = (\<lambda>_. None), wj_fields = (\<lambda>_. None),
       wj_uint16 = (\<lambda>_. None), wj_string = (\<lambda>_. None), wj_bool = (\<lambda>_. None)\<rparr>\<rparr>"

definition J_digest :: Digest where
  "J_digest = sha256Digest J_env [1]"

definition J_id :: ApplyIdentity where
  "J_id = \<lparr>ai_Authority = ''a'', ai_Workspace = ''w'', ai_Artifact = ''x''\<rparr>"

definition J_intent :: ApplyIntent where
  "J_intent = \<lparr>in_Identity = J_id, in_ArtifactDigest = J_digest, in_PayloadDigest = J_digest, in_BaseRevision = ''r1'',
     in_ResultRevision = ''r2'', in_Payload = \<lparr>pl_MediaType = ''text/plain'', pl_Data = [5]\<rparr>\<rparr>"

definition J_outcome :: CASOutcome where
  "J_outcome = \<lparr>co_Decision = ApplySuccess, co_ObservedRevision = ''r2'', co_Code = [], co_Message = []\<rparr>"

definition J_codec :: apply_codec where
  "J_codec = \<lparr>intent_Marshal = (\<lambda>i. if i = J_intent then Some [1] else None),
     intent_Unmarshal = (\<lambda>b. if b = [1] then Some J_intent else None),
     outcome_Marshal = (\<lambda>v. if v = J_outcome then Some [2] else if v = recovered_pending then Some [3] else None),
     outcome_Unmarshal = (\<lambda>b. if b = [2] then Some J_outcome else if b = [3] then Some recovered_pending else None)\<rparr>"

lemma J_faithful: "codec_faithful J_env J_codec"
  by (simp add: codec_faithful_def J_codec_def)

lemma J_intent_ok: "ok (ValidateApplyIntent J_env J_intent)"
  by code_simp

lemma J_outcome_ok: "ok (ValidateCASOutcome J_outcome J_intent)"
  by code_simp

lemma J_canonical: "CanonicalApplyIntent J_env J_codec J_intent = Inr ([1], J_digest)"
  using J_intent_ok by (simp add: CanonicalApplyIntent_Inr J_codec_def J_digest_def)

lemma J_fields: "in_Identity J_intent = J_id"
  by (simp add: J_intent_def)

lemma J_recover: "outcome_Marshal J_codec recovered_pending = Some [3]" "outcome_Marshal J_codec J_outcome = Some [2]"
  by (auto simp: J_codec_def J_outcome_def recovered_pending_def IndeterminateOutcome_def Let_def)

definition J_pending :: ApplyRecord where
  "J_pending = \<lparr>rec_Intent = J_intent, rec_IntentDigest = J_digest, rec_State = ApplyStatePending, rec_Outcome = None,
     rec_CreatedAt = 10, rec_CompletedAt = None\<rparr>"

definition J_call :: "apply_phase \<Rightarrow> apply_call" where
  "J_call p = \<lparr>ac_intent = J_intent, ac_encoded = [1], ac_digest = J_digest, ac_phase = p\<rparr>"

definition J_row :: apply_row where
  "J_row = pending_row [1] J_digest 10"

definition J_state :: "apply_table \<Rightarrow> apply_phase \<Rightarrow> ApplyIntent list \<Rightarrow> (ApplyIntent \<times> (string + CASOutcome)) list \<Rightarrow> applyJournal" where
  "J_state t p invoked reported = \<lparr>jn_table = t, jn_alive = True, jn_closed = False, jn_calls = [0 \<mapsto> J_call p],
     jn_locks = [J_id \<mapsto> \<lparr>le_token = (p = Waiting), le_refs = 1\<rparr>], jn_invoked = invoked, jn_reported = reported\<rparr>"

definition J_open :: applyJournal where
  "J_open = new_journal\<lparr>jn_alive := True\<rparr>"

definition J_done_row :: apply_row where
  "J_done_row = terminal_row J_env ApplyStateSuccess [2] 20 J_row"

definition J_done :: applyJournal where
  "J_done = \<lparr>jn_table = [J_id \<mapsto> J_done_row], jn_alive = True, jn_closed = False, jn_calls = Map.empty, jn_locks = Map.empty,
     jn_invoked = [J_intent], jn_reported = [(J_intent, Inr J_outcome)]\<rparr>"

definition J_record :: ApplyRecord where
  "J_record = J_pending\<lparr>rec_State := ApplyStateSuccess, rec_Outcome := Some J_outcome, rec_CompletedAt := Some 20\<rparr>"

lemma J_nano: "unixNano 10 = 10" "unixNano 20 = 20"
  by (simp_all add: unixNano_def)

lemma J_success: "stateForDecision (co_Decision J_outcome) = ApplyStateSuccess"
  by (simp add: J_outcome_def)

lemma J_step1: "journal_step J_env J_codec new_journal J_open"
  by (rule journal_step.Open [where clock = 1])
     (simp_all add: journal_Open_def recoverPending_def J_recover J_open_def new_journal_def)

lemma J_step2: "journal_step J_env J_codec J_open (J_state Map.empty Waiting [] [])"
  by (rule journal_step.Enter [where i = 0 and ctx = LiveContext and nilApplier = False and intent = J_intent and r = "Inr ()"])
     (simp_all add: Apply_enter_def J_canonical journal_acquire_def J_open_def new_journal_def J_state_def set_phase_def
       lock_reference_def J_fields J_call_def)

lemma J_step3: "journal_step J_env J_codec (J_state Map.empty Waiting [] []) (J_state Map.empty Locked [] [])"
  by (rule journal_step.Lock [where i = 0 and c = "J_call Waiting"])
     (simp_all add: Apply_lock_def J_state_def J_call_def call_identity_def J_fields set_phase_def)

lemma J_step4: "journal_step J_env J_codec (J_state Map.empty Locked [] []) (J_state [J_id \<mapsto> J_row] (Begun J_pending) [] [])"
  by (rule journal_step.Begin [where i = 0 and c = "J_call Locked" and tx = TxCommitted and now = 10 and r = None])
     (simp_all add: Apply_begin_def journal_tx_def db_tx_def journal_begin_def loadApplyRecord_def J_state_def J_call_def J_fields set_phase_def
       J_row_def J_pending_def)

lemma J_step5: "journal_step J_env J_codec (J_state [J_id \<mapsto> J_row] (Begun J_pending) [] []) (J_state [J_id \<mapsto> J_row] (Invoking J_pending) [J_intent] [])"
  using journal_step.Invoke [where i = 0 and c = "J_call (Begun J_pending)" and j = "J_state [J_id \<mapsto> J_row] (Begun J_pending) [] []"]
  by (simp add: Apply_invoke_def J_state_def J_call_def set_phase_def)

lemma J_step6: "journal_step J_env J_codec (J_state [J_id \<mapsto> J_row] (Invoking J_pending) [J_intent] [])
    (J_state [J_id \<mapsto> J_row] (Reported J_pending J_outcome) [J_intent] [(J_intent, Inr J_outcome)])"
  using journal_step.Return [where i = 0 and c = "J_call (Invoking J_pending)" and returned = "Inr J_outcome"
      and j = "J_state [J_id \<mapsto> J_row] (Invoking J_pending) [J_intent] []"] J_outcome_ok
  by (simp add: Apply_return_def J_state_def J_call_def set_phase_def apply_outcome_def)

lemma J_reach:
  "reachable_from (\<lambda>j. j = new_journal) (journal_step J_env J_codec)
    (J_state [J_id \<mapsto> J_row] (Reported J_pending J_outcome) [J_intent] [(J_intent, Inr J_outcome)])"
  by (rule reachable_from.step, rule reachable_from.step, rule reachable_from.step, rule reachable_from.step,
      rule reachable_from.step, rule reachable_from.step, rule reachable_from.start, rule refl, rule J_step1, rule J_step2,
      rule J_step3, rule J_step4, rule J_step5, rule J_step6)

lemma J_load_pending: "loadApplyRecord J_env J_codec [J_id \<mapsto> J_row] J_id = Inr (J_pending, [1])"
  using load_pending [OF J_faithful J_canonical, of "[J_id \<mapsto> J_row]" 10]
  by (simp add: J_fields J_row_def row_record_def pending_row_def J_pending_def fromUnixNano_def J_nano)

lemma J_load: "loadApplyRecord J_env J_codec [J_id \<mapsto> J_done_row] J_id = Inr (J_record, [1])"
  using load_settled [OF J_faithful J_canonical J_outcome_ok J_recover(2) J_nano(2), of 10 "[J_id \<mapsto> J_done_row]"]
  by (simp add: J_fields J_done_row_def J_row_def J_success J_nano row_record_def pending_row_def J_record_def J_pending_def fromUnixNano_def)

lemma J_settled:
  "terminalizeApply J_env J_codec J_pending J_outcome 20 [J_id \<mapsto> J_row] = Inr (J_record, [J_id \<mapsto> J_done_row])"
  using J_outcome_ok
  by (auto simp: terminalizeApply_def ok_iff J_pending_def J_fields J_success J_recover J_row_def pending_row_def row_check_def
      terminal_row_def J_done_row_def J_record_def)

lemma J_step7: "journal_step J_env J_codec
    (J_state [J_id \<mapsto> J_row] (Reported J_pending J_outcome) [J_intent] [(J_intent, Inr J_outcome)]) J_done"
proof (rule journal_step.Complete [where i = 0 and c = "J_call (Reported J_pending J_outcome)" and tx = TxCommitted and now = 20
      and r = "(None, \<lparr>res_Record = J_record, res_Replay = False\<rparr>)"])
  have "journal_complete J_env J_codec J_id [1] J_outcome 20 [J_id \<mapsto> J_row] = Inr (J_record, [J_id \<mapsto> J_done_row])"
    using J_settled by (simp add: journal_complete_def J_load_pending) (simp add: J_pending_def)
  then show "Apply_complete J_env J_codec TxCommitted 20 0 (J_call (Reported J_pending J_outcome)) J_pending J_outcome
      (J_state [J_id \<mapsto> J_row] (Reported J_pending J_outcome) [J_intent] [(J_intent, Inr J_outcome)]) =
      ((None, \<lparr>res_Record = J_record, res_Replay = False\<rparr>), J_done)"
    by (simp add: Apply_complete_def J_state_def J_call_def call_identity_def J_fields journal_tx_def db_tx_def finish_call_def
        releaseIdentityReference_def J_done_def)
qed (simp_all add: J_state_def J_call_def)

lemma J_reach_done: "reachable_from (\<lambda>j. j = new_journal) (journal_step J_env J_codec) J_done"
  by (rule reachable_from.step, rule J_reach, rule J_step7)

lemma J_lookup: "journal_Lookup J_env J_codec LiveContext J_id J_done = Inr J_record"
proof -
  have "ok (ValidateApplyIdentity J_id)" by code_simp
  then show ?thesis by (simp add: Lookup_Inr J_done_def journal_acquire_def J_load)
qed

lemma J_record_fields: "rec_State J_record = ApplyStateSuccess" "rec_Intent J_record = J_intent" "rec_Outcome J_record = Some J_outcome"
  by (simp_all add: J_record_def J_pending_def)


section \<open>Properties\<close>

text \<open>
  C37 (safety). The external compare-and-swap of an Artifact is called at most once, however often the
  apply is retried, by however many callers at the same time, across failed and ambiguous commits,
  shutdowns, crashes and restarts of the process.
\<close>

theorem cas_at_most_once:
  assumes "reachable_from (\<lambda>j. j = new_journal) (journal_step E K) j"
  shows "length (filter (\<lambda>intent. in_Identity intent = ident) (jn_invoked j)) \<le> 1"
proof -
  have d: "distinct (map in_Identity (jn_invoked j))"
    using apply_journal.reachable_inv [OF assms] by (simp add: journal_inv_def invoked_inv_def)
  have "distinct (map in_Identity xs) \<Longrightarrow> length (filter (\<lambda>intent. in_Identity intent = ident) xs) \<le> 1" for xs
  proof (induction xs)
    case (Cons x xs)
    have "filter (\<lambda>intent. in_Identity intent = ident) xs = []" if "in_Identity x = ident"
      using Cons.prems that by (fastforce simp: filter_empty_conv image_iff)
    then show ?case using Cons by auto
  qed simp
  then show ?thesis using d by blast
qed

theorem cas_at_most_once_witness:
  "length (filter (\<lambda>intent. in_Identity intent = J_id) [J_intent]) \<le> 1 \<and> [J_intent] \<noteq> []"
  using cas_at_most_once [OF J_reach, of J_id] by (simp add: J_state_def)

text \<open>
  C31 (safety). The journal tells the truth: a record that says success, conflict or rejected carries
  exactly the outcome that the applier returned for the recorded intent, in a call it really received;
  in particular a recorded success observed the intended revision.
\<close>

theorem decided_outcome_is_reported:
  assumes "reachable_from (\<lambda>j. j = new_journal) (journal_step E K) j" "codec_faithful E K"
    "journal_Lookup E K ctx ident j = Inr r" "rec_State r \<notin> {ApplyStatePending, ApplyStateIndeterminate}"
  shows "\<exists>outcome. rec_Outcome r = Some outcome \<and> (rec_Intent r, Inr outcome) \<in> set (jn_reported j)
    \<and> rec_Intent r \<in> set (jn_invoked j) \<and> in_Identity (rec_Intent r) = ident
    \<and> (co_Decision outcome = ApplySuccess \<longrightarrow> co_ObservedRevision outcome = in_ResultRevision (rec_Intent r))"
proof -
  note inv = apply_journal.reachable_inv [OF assms(1)]
  obtain b where "loadApplyRecord E K (jn_table j) ident = Inr (r, b)" using assms(3) by (auto simp: Lookup_Inr)
  then obtain row e where row: "jn_table j ident = Some row" "row_outcome row = Some e" "row_state row = rec_State r"
      "rec_Outcome r = outcome_Unmarshal K e" "intent_row E K (rec_Intent r) row" "in_Identity (rec_Intent r) = ident"
    using assms(4) by (elim load_decided) auto
  obtain intent outcome where o': "(intent, Inr outcome) \<in> set (jn_reported j)" "intent_row E K intent row"
      "ok (ValidateCASOutcome outcome intent)" "outcome_Marshal K outcome = Some e"
    using journal_invD(4) [OF inv row(1)] row(2,3) assms(4) by (auto simp: row_inv_def)
  have "intent = rec_Intent r"
    using canonical_decodes [OF assms(2)] o'(2) row(5) unfolding intent_row_def by (metis option.inject)
  moreover have "rec_Outcome r = Some outcome" using row(4) o'(3,4) assms(2) by (auto simp: codec_faithful_def)
  moreover have "rec_Intent r \<in> set (jn_invoked j)" using journal_invD(3) [OF inv] o'(1) calculation(1) by force
  ultimately show ?thesis using o'(1,3) row(6) by (auto simp: ValidateCASOutcome_def)
qed

theorem decided_outcome_is_reported_witness:
  "\<exists>outcome. rec_Outcome J_record = Some outcome \<and> (rec_Intent J_record, Inr outcome) \<in> set (jn_reported J_done)
    \<and> rec_Intent J_record \<in> set (jn_invoked J_done) \<and> in_Identity (rec_Intent J_record) = J_id
    \<and> (co_Decision outcome = ApplySuccess \<longrightarrow> co_ObservedRevision outcome = in_ResultRevision (rec_Intent J_record))"
  by (rule decided_outcome_is_reported [OF J_reach_done J_faithful J_lookup]) (simp add: J_record_fields)

text \<open>
  C38 (functional). No outcome is lost while the process lives: once the applier has returned, no other
  call of the same Artifact can have touched its pending record, so the terminal commit, when the
  database accepts it, records exactly this outcome, and the record reads back.
\<close>

theorem in_flight_outcome_recorded:
  assumes "reachable_from (\<lambda>j. j = new_journal) (journal_step E K) j" "codec_faithful E K"
    "jn_calls j i = Some c" "ac_phase c = Reported r outcome" "outcome_Marshal K outcome = Some e"
    "- (2 ^ 63) \<le> now" "now < 2 ^ 63"
  shows "\<exists>fin j'. Apply_complete E K TxCommitted now i c r outcome j = ((None, \<lparr>res_Record = fin, res_Replay = False\<rparr>), j')
    \<and> rec_Intent fin = ac_intent c \<and> rec_Outcome fin = Some outcome
    \<and> rec_State fin = stateForDecision (co_Decision outcome) \<and> jn_calls j' i = None
    \<and> loadApplyRecord E K (jn_table j') (call_identity c) = Inr (fin, ac_encoded c)"
proof -
  note inv = apply_journal.reachable_inv [OF assms(1)]
  have ci: "call_inv E K j c" by (rule journal_invD(5) [OF inv assms(3)])
  have canon: "CanonicalApplyIntent E K (ac_intent c) = Inr (ac_encoded c, ac_digest c)" using ci by (simp add: call_inv_def)
  obtain at where row: "jn_table j (call_identity c) = Some (pending_row (ac_encoded c) (ac_digest c) at)"
    using ci assms(4) by (auto simp: call_inv_def)
  have ok: "ok (ValidateCASOutcome outcome (ac_intent c))"
    using ci assms(4) apply_outcome_ok by (auto simp: call_inv_def)
  let ?row = "pending_row (ac_encoded c) (ac_digest c) at" and ?s = "stateForDecision (co_Decision outcome)"
  let ?now = "if now < unixNano at then unixNano at else now"
  let ?t = "(jn_table j)(call_identity c \<mapsto> terminal_row E ?s e ?now ?row)"
  let ?fin = "(row_record ?row (ac_intent c))\<lparr>rec_State := ?s, rec_Outcome := Some outcome, rec_CompletedAt := Some ?now\<rparr>"
  have nano: "unixNano ?now = ?now"
    using assms(6,7) unixNano_id_iff [of now] unixNano_idem [of at] by (simp add: fromUnixNano_def)
  have check: "row_check (terminal_row E ?s e ?now ?row)"
    using valid_decision_terminal [OF ok] by (simp add: row_check_def terminal_row_def)
  have "terminalizeApply E K (row_record ?row (ac_intent c)) outcome now (jn_table j) = Inr (?fin, ?t)"
    using ok assms(5) row check
    by (auto simp: terminalizeApply_def row_record_def pending_row_def fromUnixNano_def call_identity_def ok_iff Let_def)
  moreover have "loadApplyRecord E K (jn_table j) (call_identity c) = Inr (row_record ?row (ac_intent c), ac_encoded c)"
    using load_pending [OF assms(2) canon, of "jn_table j" at] row by (simp add: call_identity_def)
  ultimately have "journal_complete E K (call_identity c) (ac_encoded c) outcome now (jn_table j) = Inr (?fin, ?t)"
    by (simp add: journal_complete_def row_record_def pending_row_def)
  then have run: "Apply_complete E K TxCommitted now i c r outcome j =
      ((None, \<lparr>res_Record = ?fin, res_Replay = False\<rparr>), finish_call i c True (j\<lparr>jn_table := ?t\<rparr>))"
    by (simp add: Apply_complete_def journal_tx_def db_tx_def)
  have "loadApplyRecord E K ?t (in_Identity (ac_intent c)) = Inr (?fin, ac_encoded c)"
    by (rule load_settled [OF assms(2) canon ok assms(5) nano]) (simp_all add: call_identity_def)
  moreover have "jn_calls (finish_call i c True (j\<lparr>jn_table := ?t\<rparr>)) i = None"
    using lock_inv_finish(2) [of "j\<lparr>jn_table := ?t\<rparr>" i c True] journal_invD(1) [OF inv] assms(3,4) by simp
  ultimately show ?thesis using run by (simp add: row_record_def call_identity_def)
qed

theorem in_flight_outcome_recorded_witness:
  "\<exists>fin j'. Apply_complete J_env J_codec TxCommitted 20 0 (J_call (Reported J_pending J_outcome)) J_pending J_outcome
      (J_state [J_id \<mapsto> J_row] (Reported J_pending J_outcome) [J_intent] [(J_intent, Inr J_outcome)]) =
        ((None, \<lparr>res_Record = fin, res_Replay = False\<rparr>), j')
    \<and> rec_Intent fin = J_intent \<and> rec_Outcome fin = Some J_outcome \<and> rec_State fin = ApplyStateSuccess
    \<and> jn_calls j' 0 = None \<and> loadApplyRecord J_env J_codec (jn_table j') J_id = Inr (fin, [1])"
  using in_flight_outcome_recorded [OF J_reach J_faithful, of 0 "J_call (Reported J_pending J_outcome)" J_pending J_outcome "[2]" 20]
  by (simp add: J_state_def J_call_def J_recover call_identity_def J_fields J_success)

text \<open>
  C40 (safety). A terminal record is final: in every later state of the file a lookup returns the same
  record, an exact retry replays it without touching the table, and a different intent under the same
  identity is refused.
\<close>

theorem terminal_apply_is_final:
  assumes "reachable_from (\<lambda>j. j = new_journal) (journal_step E K) j" "journal_Lookup E K ctx ident j = Inr r"
    "ApplyState_Terminal (rec_State r)" "(journal_step E K)\<^sup>*\<^sup>* j j'"
  shows "\<exists>encoded digest. CanonicalApplyIntent E K (rec_Intent r) = Inr (encoded, digest)
    \<and> (ok (journal_acquire j') \<longrightarrow> journal_Lookup E K LiveContext ident j' = Inr r)
    \<and> (\<forall>now. journal_begin E K (rec_Intent r) encoded digest now (jn_table j') = Inr ((r, True), jn_table j'))
    \<and> (\<forall>intent encoded' digest' now. in_Identity intent = ident \<longrightarrow> encoded' \<noteq> encoded \<longrightarrow>
         journal_begin E K intent encoded' digest' now (jn_table j') = Inl ErrApplyIntentConflict)"
proof -
  have grows: "table_grows (jn_table j) (jn_table j')"
    using apply_journal.steps_R [OF assms(4) apply_journal.reachable_inv [OF assms(1)]] by (simp add: journal_grows_def)
  obtain b where l: "loadApplyRecord E K (jn_table j) ident = Inr (r, b)" using assms(2) by (auto simp: Lookup_Inr)
  from loadApplyRecord_Inr [OF l] obtain row where row: "jn_table j ident = Some row" "b = row_intent row"
      "in_Identity (rec_Intent r) = ident" "CanonicalApplyIntent E K (rec_Intent r) = Inr (row_intent row, row_intent_digest row)"
      "rec_IntentDigest r = row_intent_digest row" "rec_State r = row_state row" by blast
  have notpending: "rec_State r \<noteq> ApplyStatePending" using assms(3) by auto
  then have "jn_table j' ident = Some row" using grows row(1,6) by (auto simp: table_grows_def)
  then have l': "loadApplyRecord E K (jn_table j') ident = Inr (r, b)"
    using l row(1) by (simp add: loadApplyRecord_def)
  show ?thesis
    using row l' notpending assms(2) by (intro exI [of _ b] exI [of _ "row_intent_digest row"])
      (auto simp: journal_begin_def Lookup_Inr)
qed

theorem terminal_apply_is_final_witness:
  "journal_begin J_env J_codec J_intent [1] J_digest 30 (jn_table (journal_stopped J_done)) =
      Inr ((J_record, True), jn_table (journal_stopped J_done))
    \<and> journal_begin J_env J_codec J_intent [9] J_digest 30 (jn_table (journal_stopped J_done)) = Inl ErrApplyIntentConflict"
proof -
  have crash: "(journal_step J_env J_codec)\<^sup>*\<^sup>* J_done (journal_stopped J_done)" by (rule r_into_rtranclp, rule journal_step.Crash)
  show ?thesis
    using terminal_apply_is_final [OF J_reach_done J_lookup _ crash]
    by (auto simp: J_record_fields J_canonical J_fields)
qed

end
