(* ===== verification/Caller_Ledger.thy ===== *)
theory Caller_Ledger
  imports Transactions
begin

text \<open>
  The durable execution ledger of the caller shim, \<^verbatim>\<open>internal/callershim/ledger.go\<close>: the table of tool
  executions, the transactions of \<open>Begin\<close>, \<open>Complete\<close> and \<open>MarkIndeterminate\<close>, and the recovery of
  pending rows when a process opens the ledger. The lemmas say what each transaction may write: rows
  are never removed, keep their request, and a terminal row never changes.
\<close>


section \<open>The table\<close>

datatype shim_error =
    ErrLedgerNotFound
  | ErrExecutionReplay
  | ErrExecutionPending
  | ErrLedgerArgument
  | ErrLedgerDatabase
  | ErrToolRequest
  | ErrToolInput
  | ErrEncodeResponse
  | ErrDecodeResponse
  | ErrNonterminal

record ExecutionKey =
  ek_CallerID :: string
  ek_TaskID :: string
  ek_ToolCallID :: string

text \<open>The values the CHECK constraint admits in the column \<open>status\<close>.\<close>

datatype execution_status = StatusPending | StatusCompleted | StatusIndeterminate

record ledger_row =
  lr_request_digest :: string
  lr_status :: execution_status
  lr_response :: "bytes option"
  lr_created_at :: int
  lr_completed_at :: "int option"

type_synonym ledger_table = "ExecutionKey \<Rightarrow> ledger_row option"

definition ledger_check :: "ledger_row \<Rightarrow> bool" where
  "ledger_check row =
     ((lr_status row = StatusPending \<and> lr_response row = None \<and> lr_completed_at row = None)
      \<or> (lr_status row \<noteq> StatusPending \<and> lr_response row \<noteq> None \<and> lr_completed_at row \<noteq> None))"

record Execution =
  ex_Key :: ExecutionKey
  ex_RequestDigest :: string
  ex_Status :: execution_status
  ex_Response :: "bytes option"
  ex_CreatedAt :: gotime
  ex_CompletedAt :: "gotime option"

record BeginResult =
  br_Execution :: Execution
  br_Replay :: bool

definition getExecution :: "ExecutionKey \<Rightarrow> ledger_table \<Rightarrow> shim_error + Execution" where
  "getExecution key table =
     (case table key of
        None \<Rightarrow> Inl ErrLedgerNotFound
      | Some row \<Rightarrow>
          Inr \<lparr>ex_Key = key, ex_RequestDigest = lr_request_digest row, ex_Status = lr_status row,
               ex_Response = lr_response row, ex_CreatedAt = fromUnixNano (lr_created_at row),
               ex_CompletedAt = map_option fromUnixNano (lr_completed_at row)\<rparr>)"


section \<open>Transactions\<close>

text \<open>The callback of \<open>Begin\<close>: the existing execution of the same request, or a new pending row.\<close>

definition begin_execution ::
    "ExecutionKey \<Rightarrow> string \<Rightarrow> gotime \<Rightarrow> ledger_table \<Rightarrow> shim_error + BeginResult \<times> ledger_table" where
  "begin_execution key digest now table =
     (case getExecution key table of
        Inr existing \<Rightarrow>
          if ex_RequestDigest existing \<noteq> digest then Inl ErrExecutionReplay
          else Inr (\<lparr>br_Execution = existing, br_Replay = True\<rparr>, table)
      | Inl e \<Rightarrow>
          if e \<noteq> ErrLedgerNotFound then Inl e
          else
            Inr (\<lparr>br_Execution = \<lparr>ex_Key = key, ex_RequestDigest = digest, ex_Status = StatusPending, ex_Response = None,
                                  ex_CreatedAt = now, ex_CompletedAt = None\<rparr>, br_Replay = False\<rparr>,
                 table(key \<mapsto> \<lparr>lr_request_digest = digest, lr_status = StatusPending, lr_response = None,
                              lr_created_at = unixNano now, lr_completed_at = None\<rparr>)))"

definition ledger_Begin ::
    "tx_outcome \<Rightarrow> ExecutionKey \<Rightarrow> string \<Rightarrow> gotime \<Rightarrow> ledger_table \<Rightarrow> (shim_error + BeginResult) \<times> ledger_table" where
  "ledger_Begin tx key digest now table =
     (if ek_CallerID key = [] \<or> ek_TaskID key = [] \<or> ek_ToolCallID key = [] \<or> digest = []
      then (Inl ErrLedgerArgument, table)
      else db_tx ErrLedgerDatabase tx (begin_execution key digest now) table)"

text \<open>The UPDATE of a pending row to a terminal one.\<close>

definition settle_row :: "execution_status \<Rightarrow> bytes \<Rightarrow> gotime \<Rightarrow> ledger_row \<Rightarrow> ledger_row" where
  "settle_row status response now row =
     row\<lparr>lr_status := status, lr_response := Some response, lr_completed_at := Some (unixNano now)\<rparr>"

definition settle_pending ::
    "execution_status \<Rightarrow> Execution \<Rightarrow> bytes \<Rightarrow> gotime \<Rightarrow> ledger_table \<Rightarrow> shim_error + Execution \<times> ledger_table" where
  "settle_pending status execution response now table =
     (case table (ex_Key execution) of
        None \<Rightarrow> Inl ErrExecutionReplay
      | Some row \<Rightarrow>
          if lr_status row \<noteq> StatusPending then Inl ErrExecutionReplay
          else Inr (execution\<lparr>ex_Status := status, ex_Response := Some response, ex_CompletedAt := Some now\<rparr>,
                    table(ex_Key execution \<mapsto> settle_row status response now row)))"

definition complete_execution ::
    "ExecutionKey \<Rightarrow> bytes \<Rightarrow> gotime \<Rightarrow> ledger_table \<Rightarrow> shim_error + Execution \<times> ledger_table" where
  "complete_execution key response now table =
     bind_res (getExecution key table) (\<lambda>execution.
       if ex_Status execution = StatusCompleted
       then (if ex_Response execution \<noteq> Some response then Inl ErrExecutionReplay else Inr (execution, table))
       else if ex_Status execution = StatusIndeterminate then Inl ErrExecutionReplay
       else settle_pending StatusCompleted execution response now table)"

definition ledger_Complete ::
    "tx_outcome \<Rightarrow> ExecutionKey \<Rightarrow> bytes \<Rightarrow> gotime \<Rightarrow> ledger_table \<Rightarrow> (shim_error + Execution) \<times> ledger_table" where
  "ledger_Complete tx key response now table =
     db_tx ErrLedgerDatabase tx (complete_execution key response now) table"

definition mark_indeterminate ::
    "ExecutionKey \<Rightarrow> bytes \<Rightarrow> gotime \<Rightarrow> ledger_table \<Rightarrow> shim_error + Execution \<times> ledger_table" where
  "mark_indeterminate key response now table =
     bind_res (getExecution key table) (\<lambda>execution.
       if ex_Status execution \<noteq> StatusPending then Inr (execution, table)
       else settle_pending StatusIndeterminate execution response now table)"

definition ledger_MarkIndeterminate ::
    "tx_outcome \<Rightarrow> ExecutionKey \<Rightarrow> bytes \<Rightarrow> gotime \<Rightarrow> ledger_table \<Rightarrow> (shim_error + Execution) \<times> ledger_table" where
  "ledger_MarkIndeterminate tx key response now table =
     (if response = [] then (Inl ErrLedgerArgument, table)
      else db_tx ErrLedgerDatabase tx (mark_indeterminate key response now) table)"

text \<open>The recovery at \<open>OpenSQLiteLedger\<close>, with the encoded indeterminate response.\<close>

definition ledger_recoverPending :: "bytes \<Rightarrow> gotime \<Rightarrow> ledger_table \<Rightarrow> ledger_table" where
  "ledger_recoverPending response now table =
     (\<lambda>key. map_option (\<lambda>row. if lr_status row = StatusPending
                              then settle_row StatusIndeterminate response now row else row) (table key))"


section \<open>What the transactions write\<close>

text \<open>
  The only change of a row: a pending one of the same request becomes terminal with a response. \<open>P\<close>
  says which status and response a transaction may settle a key with.
\<close>

definition row_settles :: "(execution_status \<Rightarrow> bytes \<Rightarrow> bool) \<Rightarrow> ledger_row \<Rightarrow> ledger_row \<Rightarrow> bool" where
  "row_settles P row row' \<longleftrightarrow>
     (row' = row \<or> (lr_status row = StatusPending \<and>
       (\<exists>status response now. status \<noteq> StatusPending \<and> P status response \<and> row' = settle_row status response now row)))"

definition table_settles :: "(ExecutionKey \<Rightarrow> execution_status \<Rightarrow> bytes \<Rightarrow> bool) \<Rightarrow> ledger_table \<Rightarrow> ledger_table \<Rightarrow> bool" where
  "table_settles P t t' \<longleftrightarrow> dom t' = dom t \<and> (\<forall>k row. t k = Some row \<longrightarrow> (\<exists>row'. t' k = Some row' \<and> row_settles (P k) row row'))"

lemma row_settles_refl [simp]: "row_settles P row row"
  by (simp add: row_settles_def)

lemma table_settles_refl [simp]: "table_settles P t t"
  by (simp add: table_settles_def)

lemma table_settlesD:
  assumes "table_settles P t t'" "t k = Some row"
  shows "\<exists>row'. t' k = Some row' \<and> row_settles (P k) row row'"
  using assms by (simp add: table_settles_def)

lemma table_settles_back:
  assumes "table_settles P t t'" "t' k = Some row'"
  shows "\<exists>row. t k = Some row \<and> row_settles (P k) row row'"
proof -
  have "k \<in> dom t" using assms by (auto simp: table_settles_def)
  then show ?thesis using assms table_settlesD [OF assms(1)] by force
qed

lemma settle_row_sel [simp]:
  "lr_status (settle_row s b now row) = s" "lr_response (settle_row s b now row) = Some b"
  "lr_request_digest (settle_row s b now row) = lr_request_digest row"
  "lr_completed_at (settle_row s b now row) = Some (unixNano now)"
  by (simp_all add: settle_row_def)

lemma table_settles_upd:
  assumes "t k = Some row" "lr_status row = StatusPending" "s \<noteq> StatusPending" "P k s b"
  shows "table_settles P t (t(k \<mapsto> settle_row s b now row))"
  using assms by (auto simp: table_settles_def row_settles_def)

lemma getExecution_Inr:
  "getExecution k t = Inr x \<Longrightarrow> \<exists>row. t k = Some row \<and> ex_Key x = k \<and> ex_RequestDigest x = lr_request_digest row
     \<and> ex_Status x = lr_status row \<and> ex_Response x = lr_response row"
  by (auto simp: getExecution_def split: option.splits)

lemma settle_pending_Inr:
  assumes "settle_pending s x b now t = Inr (y, t')"
  shows "\<exists>row. t (ex_Key x) = Some row \<and> lr_status row = StatusPending
    \<and> t' = t(ex_Key x \<mapsto> settle_row s b now row) \<and> ex_Status y = s \<and> ex_Response y = Some b"
  using assms by (auto simp: settle_pending_def split: option.splits if_splits)

text \<open>
  A returned execution shows its row: the terminal status, the response and the request of the table
  the transaction leaves.
\<close>

definition execution_of :: "ExecutionKey \<Rightarrow> ledger_table \<Rightarrow> execution_status \<Rightarrow> bytes option \<Rightarrow> bool" where
  "execution_of k t s b \<longleftrightarrow> (\<exists>row. t k = Some row \<and> lr_status row = s \<and> lr_response row = b)"

lemma complete_execution_Inr:
  assumes "complete_execution k b now t = Inr (x, t')"
  shows "table_settles (\<lambda>k' s b'. k' = k \<and> s = StatusCompleted \<and> b' = b) t t'"
    "ex_Status x = StatusCompleted" "ex_Response x = Some b" "execution_of k t' StatusCompleted (Some b)"
proof -
  obtain y where y: "getExecution k t = Inr y"
    and step: "(ex_Status y = StatusCompleted \<and> ex_Response y = Some b \<and> x = y \<and> t' = t)
      \<or> (ex_Status y = StatusPending \<and> settle_pending StatusCompleted y b now t = Inr (x, t'))"
    using assms by (cases "getExecution k t")
      (auto simp: complete_execution_def split: if_splits intro: execution_status.exhaust)
  obtain row where row: "t k = Some row" "ex_Key y = k" "ex_Status y = lr_status row" "ex_Response y = lr_response row"
    using getExecution_Inr [OF y] by blast
  have "table_settles (\<lambda>k' s b'. k' = k \<and> s = StatusCompleted \<and> b' = b) t t' \<and> ex_Status x = StatusCompleted
      \<and> ex_Response x = Some b \<and> execution_of k t' StatusCompleted (Some b)"
    using step
  proof
    assume "ex_Status y = StatusPending \<and> settle_pending StatusCompleted y b now t = Inr (x, t')"
    then show ?thesis
      using row settle_pending_Inr [of StatusCompleted y b now t x t']
      by (auto simp: execution_of_def intro: table_settles_upd)
  qed (use row in \<open>auto simp: execution_of_def\<close>)
  then show "table_settles (\<lambda>k' s b'. k' = k \<and> s = StatusCompleted \<and> b' = b) t t'"
    "ex_Status x = StatusCompleted" "ex_Response x = Some b" "execution_of k t' StatusCompleted (Some b)"
    by blast+
qed

lemma mark_indeterminate_Inr:
  assumes "mark_indeterminate k b now t = Inr (x, t')"
  shows "table_settles (\<lambda>k' s b'. k' = k \<and> s = StatusIndeterminate \<and> b' = b) t t'"
    "ex_Status x \<noteq> StatusPending" "execution_of k t' (ex_Status x) (ex_Response x)"
proof -
  obtain y where y: "getExecution k t = Inr y"
    and step: "(ex_Status y \<noteq> StatusPending \<and> x = y \<and> t' = t)
      \<or> (ex_Status y = StatusPending \<and> settle_pending StatusIndeterminate y b now t = Inr (x, t'))"
    using assms by (cases "getExecution k t") (auto simp: mark_indeterminate_def split: if_splits)
  obtain row where row: "t k = Some row" "ex_Key y = k" "ex_Status y = lr_status row" "ex_Response y = lr_response row"
    using getExecution_Inr [OF y] by blast
  have "table_settles (\<lambda>k' s b'. k' = k \<and> s = StatusIndeterminate \<and> b' = b) t t' \<and> ex_Status x \<noteq> StatusPending
      \<and> execution_of k t' (ex_Status x) (ex_Response x)"
    using step
  proof
    assume "ex_Status y = StatusPending \<and> settle_pending StatusIndeterminate y b now t = Inr (x, t')"
    then show ?thesis
      using row settle_pending_Inr [of StatusIndeterminate y b now t x t']
      by (auto simp: execution_of_def intro: table_settles_upd)
  qed (use row in \<open>auto simp: execution_of_def\<close>)
  then show "table_settles (\<lambda>k' s b'. k' = k \<and> s = StatusIndeterminate \<and> b' = b) t t'"
    "ex_Status x \<noteq> StatusPending" "execution_of k t' (ex_Status x) (ex_Response x)"
    by blast+
qed

lemma ledger_recoverPending_settles:
  "table_settles (\<lambda>k s b'. s = StatusIndeterminate \<and> b' = b) t (ledger_recoverPending b now t)"
  by (auto simp: table_settles_def ledger_recoverPending_def row_settles_def dom_def)

lemma begin_execution_Inr:
  assumes "begin_execution k d now t = Inr (r, t')"
  shows "(br_Replay r \<and> t' = t \<and> (\<exists>row. t k = Some row \<and> lr_request_digest row = d
            \<and> ex_Status (br_Execution r) = lr_status row \<and> ex_Response (br_Execution r) = lr_response row))
    \<or> (\<not> br_Replay r \<and> t k = None \<and> (\<exists>row. t' = t(k \<mapsto> row) \<and> lr_request_digest row = d
            \<and> lr_status row = StatusPending \<and> ledger_check row))"
  using assms by (auto simp: begin_execution_def getExecution_def ledger_check_def split: option.splits if_splits)

lemma row_settles_digest: "row_settles P row row' \<Longrightarrow> lr_request_digest row' = lr_request_digest row"
  by (auto simp: row_settles_def)

lemma row_settles_terminal: "row_settles P row row' \<Longrightarrow> lr_status row \<noteq> StatusPending \<Longrightarrow> row' = row"
  by (auto simp: row_settles_def)

lemma row_settles_check: "row_settles P row row' \<Longrightarrow> ledger_check row \<Longrightarrow> ledger_check row'"
  by (auto simp: row_settles_def ledger_check_def)

lemma row_settles_completed:
  "row_settles P row row' \<Longrightarrow> lr_status row' = StatusCompleted \<Longrightarrow> row' = row \<or> (\<exists>b. P StatusCompleted b \<and> lr_response row' = Some b)"
  by (auto simp: row_settles_def)

end
