(* ===== verification/Virtual_Path.thy ===== *)
theory Virtual_Path
  imports Human_Prelude
begin

text \<open>
  The lexical defence of the completion gateway, \<^verbatim>\<open>internal/completion/safety/path.go\<close>:
  \<open>CheckVirtualPath\<close> over a byte-level model of \<open>path.Clean\<close> (a read position, an output buffer and
  the index below which it never backtracks), \<open>CheckCommand\<close>, and the equivalence of the first with
  a walk over path segments. The equivalence goes through one lemma on the buffer: it always holds
  the joined stack of the segments resolved so far.
\<close>


section \<open>Go's string functions\<close>

definition strings_HasPrefix :: "string \<Rightarrow> string \<Rightarrow> bool" where
  "strings_HasPrefix s prefix = (take (length prefix) s = prefix)"

definition strings_TrimPrefix :: "string \<Rightarrow> string \<Rightarrow> string" where
  "strings_TrimPrefix s prefix = (if strings_HasPrefix s prefix then drop (length prefix) s else s)"

fun strings_Contains :: "string \<Rightarrow> string \<Rightarrow> bool" where
  "strings_Contains [] sub = (sub = [])"
| "strings_Contains (c # s) sub = (strings_HasPrefix (c # s) sub \<or> strings_Contains s sub)"

text \<open>\<open>strings.Split\<close> by a one-byte separator, and \<open>strings.Join\<close>.\<close>

fun split_on :: "char \<Rightarrow> string \<Rightarrow> string list" where
  "split_on c [] = [[]]"
| "split_on c (x # xs) =
     (if x = c then [] # split_on c xs
      else (case split_on c xs of [] \<Rightarrow> [[x]] | y # ys \<Rightarrow> (x # y) # ys))"

fun join_with :: "char \<Rightarrow> string list \<Rightarrow> string" where
  "join_with c [] = []"
| "join_with c [x] = x"
| "join_with c (x # y # zs) = x @ c # join_with c (y # zs)"

text \<open>
  \<open>strings.ToLower\<close> works byte by byte on ASCII strings; on the others it maps every rune by the
  Unicode tables, which are the argument \<open>U\<close>.
\<close>

definition ascii_lower :: "char \<Rightarrow> char" where
  "ascii_lower c = (let b = byte c in if 65 \<le> b \<and> b \<le> 90 then char_of (b + 32) else c)"

definition strings_ToLower :: "(string \<Rightarrow> string) \<Rightarrow> string \<Rightarrow> string" where
  "strings_ToLower U s = (if list_all (\<lambda>c. byte c < 128) s then map ascii_lower s else U s)"

text \<open>
  \<open>path.Clean\<close>. The output buffer is kept in reverse: its length is \<open>out.w\<close>. \<open>backtrack\<close> removes the
  last element of the buffer down to the index \<open>d\<close>; \<open>clean_loop\<close> is the loop over the rest of
  the path.
\<close>

fun backtrack :: "nat \<Rightarrow> string \<Rightarrow> string" where
  "backtrack d [] = []"
| "backtrack d (c # out) = (if d < length out \<and> c \<noteq> CHR ''/'' then backtrack d out else out)"

function clean_loop :: "bool \<Rightarrow> nat \<Rightarrow> string \<Rightarrow> string \<Rightarrow> string" where
  "clean_loop rooted d out [] = out"
| "clean_loop rooted d out (c # cs) =
     (if c = CHR ''/'' then clean_loop rooted d out cs
      else if c = CHR ''.'' \<and> (cs = [] \<or> hd cs = CHR ''/'') then clean_loop rooted d out cs
      else if c = CHR ''.'' \<and> hd cs = CHR ''.'' \<and> (List.tl cs = [] \<or> hd (List.tl cs) = CHR ''/'') then
        (if d < length out then clean_loop rooted d (backtrack d out) (List.tl cs)
         else if \<not> rooted then
           (let out' = ''..'' @ (if out \<noteq> [] then CHR ''/'' # out else out) in
            clean_loop rooted (length out') out' (List.tl cs))
         else clean_loop rooted d out (List.tl cs))
      else
        (let out' = (if rooted \<and> length out \<noteq> 1 \<or> \<not> rooted \<and> length out \<noteq> 0
                     then CHR ''/'' # out else out) in
         clean_loop rooted d (rev (takeWhile (\<lambda>x. x \<noteq> CHR ''/'') (c # cs)) @ out')
           (dropWhile (\<lambda>x. x \<noteq> CHR ''/'') (c # cs))))"
  by pat_completeness auto
termination
  by (relation "measure (\<lambda>(_, _, _, p). length p)")
     (auto simp: length_dropWhile_le less_Suc_eq_le)

definition path_Clean :: "string \<Rightarrow> string" where
  "path_Clean path =
     (if path = [] then ''.''
      else
        (let rooted = (hd path = CHR ''/'');
             out = (if rooted then clean_loop True 1 ''/'' (List.tl path) else clean_loop False 0 [] path) in
         if out = [] then ''.'' else rev out))"


section \<open>Decisions on paths and commands\<close>

datatype Operation = OperationRead | OperationWrite | OperationDelete | OperationRename

datatype Severity = SeverityAllow | SeverityWarn | SeverityBlock

record PathDecision =
  pd_Normalized :: string
  pd_Relative :: string
  pd_Severity :: Severity
  pd_Reasons :: "string list"

definition sensitiveSegments :: "string list" where
  "sensitiveSegments = [''.env'', ''.ssh'', ''.aws'', ''.gcp'', ''.azure'', ''.npmrc'', ''.pypirc'']"

definition posix_input :: "string \<Rightarrow> string" where
  "posix_input input =
     (let normalizedInput = map (\<lambda>c. if c = CHR 0x5C then CHR ''/'' else c) (TrimSpace input) in
      if \<not> strings_HasPrefix normalizedInput ''/'' then ''/workspace/'' @ normalizedInput
      else normalizedInput)"

text \<open>The marks on a path below the root: \<open>.git\<close> first, then the segments that may hold secrets.\<close>

definition mark_segments :: "string list \<Rightarrow> Operation \<Rightarrow> PathDecision \<Rightarrow> PathDecision" where
  "mark_segments segments operation decision =
     (let decision = (if operation \<noteq> OperationRead \<and> ''.git'' \<in> set segments
                      then decision\<lparr>pd_Severity := SeverityBlock,
                             pd_Reasons := pd_Reasons decision @ [''writes to .git are forbidden'']\<rparr>
                      else decision) in
      if list_ex (\<lambda>segment. segment \<in> set sensitiveSegments \<and> pd_Severity decision \<noteq> SeverityBlock) segments
      then decision\<lparr>pd_Severity := SeverityWarn,
             pd_Reasons := pd_Reasons decision @ [''path may contain secrets'']\<rparr>
      else decision)"

definition CheckVirtualPath :: "(string \<Rightarrow> string) \<Rightarrow> string \<Rightarrow> Operation \<Rightarrow> string + PathDecision" where
  "CheckVirtualPath U input operation =
     (if TrimSpace input = [] then Inl ''path is required''
      else
        (let normalized = path_Clean (posix_input input);
             decision = \<lparr>pd_Normalized = normalized, pd_Relative = [], pd_Severity = SeverityAllow, pd_Reasons = []\<rparr> in
         if normalized \<noteq> ''/workspace'' \<and> \<not> strings_HasPrefix normalized ''/workspace/''
         then Inr (decision\<lparr>pd_Severity := SeverityBlock, pd_Reasons := [''path escapes /workspace'']\<rparr>)
         else
           (let relative = (if normalized = ''/workspace'' then ''.'' else strings_TrimPrefix normalized ''/workspace/'') in
            Inr (mark_segments (split_on CHR ''/'' (strings_ToLower U relative)) operation
                   (decision\<lparr>pd_Relative := relative\<rparr>)))))"

record CommandDecision =
  cd_Severity :: Severity
  cd_Reasons :: "string list"

definition dangerousCommandFragments :: "string list" where
  "dangerousCommandFragments =
     [''rm -rf'', ''curl|sh'', ''curl | sh'', ''wget|sh'', ''wget | sh'', ''sudo '', ''> /dev/'', ''mkfs'',
      ''shutdown'', ''reboot'']"

definition CheckCommand :: "(string \<Rightarrow> string) \<Rightarrow> string \<Rightarrow> bool \<Rightarrow> CommandDecision" where
  "CheckCommand U command enabled =
     (if \<not> enabled then \<lparr>cd_Severity = SeverityBlock, cd_Reasons = [''command capability is disabled'']\<rparr>
      else if list_ex (strings_Contains (strings_ToLower U command)) dangerousCommandFragments
      then \<lparr>cd_Severity = SeverityWarn, cd_Reasons = [''command matches a dangerous pattern'']\<rparr>
      else \<lparr>cd_Severity = SeverityAllow, cd_Reasons = []\<rparr>)"


section \<open>The reference: a walk over segments\<close>

text \<open>
  The stack of resolved segments, innermost first: empty segments and \<open>.\<close> are skipped, \<open>..\<close> leaves
  the innermost segment, and at the root it stays there.
\<close>

fun walk :: "string list \<Rightarrow> string list \<Rightarrow> string list" where
  "walk st [] = st"
| "walk st (seg # segs) =
     walk (if seg = [] \<or> seg = ''.'' then st else if seg = ''..'' then List.tl st else seg # st) segs"

text \<open>A path splits at slashes and backslashes, and starts in the workspace unless it begins with one of them.\<close>

definition is_sep :: "char \<Rightarrow> bool" where
  "is_sep c \<longleftrightarrow> c = CHR ''/'' \<or> c = CHR 0x5C"

fun segments :: "string \<Rightarrow> string list" where
  "segments [] = [[]]"
| "segments (x # xs) =
     (if is_sep x then [] # segments xs
      else (case segments xs of [] \<Rightarrow> [[x]] | y # ys \<Rightarrow> (x # y) # ys))"

definition walk_input :: "string \<Rightarrow> string list" where
  "walk_input s = rev (walk (if s \<noteq> [] \<and> is_sep (hd s) then [] else [''workspace'']) (segments s))"

definition path_verdict :: "(string \<Rightarrow> string) \<Rightarrow> string \<Rightarrow> Operation \<Rightarrow> string + PathDecision" where
  "path_verdict U input operation =
     (if TrimSpace input = [] then Inl ''path is required''
      else
        (let segs = walk_input (TrimSpace input); normalized = CHR ''/'' # join_with CHR ''/'' segs;
             rest = List.tl segs; lower = map (strings_ToLower U) rest in
         if segs = [] \<or> hd segs \<noteq> ''workspace''
         then Inr \<lparr>pd_Normalized = normalized, pd_Relative = [], pd_Severity = SeverityBlock,
                   pd_Reasons = [''path escapes /workspace'']\<rparr>
         else
           (let relative = (if rest = [] then ''.'' else join_with CHR ''/'' rest) in
            if operation \<noteq> OperationRead \<and> ''.git'' \<in> set lower
            then Inr \<lparr>pd_Normalized = normalized, pd_Relative = relative, pd_Severity = SeverityBlock,
                      pd_Reasons = [''writes to .git are forbidden'']\<rparr>
            else if set lower \<inter> set sensitiveSegments \<noteq> {}
            then Inr \<lparr>pd_Normalized = normalized, pd_Relative = relative, pd_Severity = SeverityWarn,
                      pd_Reasons = [''path may contain secrets'']\<rparr>
            else Inr \<lparr>pd_Normalized = normalized, pd_Relative = relative, pd_Severity = SeverityAllow,
                      pd_Reasons = []\<rparr>)))"

text \<open>
  What the Unicode lower-case map does with separators: it maps rune by rune and no rune but the
  slash maps to it, so the segments of the result are the lower-cased segments.
\<close>

definition lowers_segments :: "(string \<Rightarrow> string) \<Rightarrow> bool" where
  "lowers_segments U \<longleftrightarrow>
     (\<forall>s. split_on CHR ''/'' (strings_ToLower U s) = map (strings_ToLower U) (split_on CHR ''/'' s))"


section \<open>Splitting and joining\<close>

lemma split_on_not_Nil [simp]: "split_on c s \<noteq> []"
  by (induction s) (auto split: list.splits)

lemma split_on_takeWhile:
  "split_on c p = takeWhile (\<lambda>x. x \<noteq> c) p
     # (case dropWhile (\<lambda>x. x \<noteq> c) p of [] \<Rightarrow> [] | x # r \<Rightarrow> split_on c r)"
  by (induction p) (auto split: list.splits)

lemma split_on_free: "s \<in> set (split_on c p) \<Longrightarrow> c \<notin> set s"
  by (induction p arbitrary: s) (auto split: list.splits if_splits)

lemma split_on_word [simp]: "c \<notin> set s \<Longrightarrow> split_on c s = [s]"
  by (induction s) auto

lemma split_on_append: "c \<notin> set s \<Longrightarrow> split_on c (s @ c # p) = s # split_on c p"
  by (induction s) auto

lemma join_with_Cons: "zs \<noteq> [] \<Longrightarrow> join_with c (x # zs) = x @ c # join_with c zs"
  by (cases zs) auto

lemma join_with_snoc: "zs \<noteq> [] \<Longrightarrow> join_with c (zs @ [x]) = join_with c zs @ c # x"
proof (induction zs rule: join_with.induct)
  case (3 c x y zs)
  then show ?case by simp
qed auto

lemma split_join: "(\<And>s. s \<in> set segs \<Longrightarrow> c \<notin> set s) \<Longrightarrow> segs \<noteq> [] \<Longrightarrow> split_on c (join_with c segs) = segs"
  by (induction segs rule: join_with.induct) (auto simp: split_on_append)


section \<open>Cleaning is walking\<close>

definition path_seg :: "string \<Rightarrow> bool" where
  "path_seg s \<longleftrightarrow> s \<noteq> [] \<and> CHR ''/'' \<notin> set s"

text \<open>The reversed buffer of a stack.\<close>

definition buf :: "string list \<Rightarrow> string" where
  "buf st = rev (CHR ''/'' # join_with CHR ''/'' (rev st))"

lemma buf_Nil [simp]: "buf [] = ''/''"
  by (simp add: buf_def)

lemma buf_Cons: "buf (s # st) = rev s @ (if st = [] then ''/'' else CHR ''/'' # buf st)"
  by (simp add: buf_def join_with_snoc)

lemma length_buf: "length (buf st) = Suc (length (join_with CHR ''/'' (rev st)))"
  by (simp add: buf_def)

lemma join_with_eq_Nil: "list_all path_seg segs \<Longrightarrow> join_with c segs = [] \<longleftrightarrow> segs = []"
  by (induction segs rule: join_with.induct) (auto simp: path_seg_def)

lemma length_buf_1: "list_all path_seg st \<Longrightarrow> length (buf st) = 1 \<longleftrightarrow> st = []"
  by (simp add: length_buf join_with_eq_Nil list_all_rev)

lemma backtrack_seg:
  "CHR ''/'' \<notin> set s \<Longrightarrow> out \<noteq> [] \<Longrightarrow> backtrack 1 (s @ CHR ''/'' # out) = out"
  by (induction s) (auto simp: neq_Nil_conv)

lemma backtrack_root: "CHR ''/'' \<notin> set s \<Longrightarrow> s \<noteq> [] \<Longrightarrow> backtrack 1 (s @ ''/'') = ''/''"
proof (induction s)
  case (Cons c s)
  then show ?case by (cases s) auto
qed simp

lemma buf_not_Nil [simp]: "buf st \<noteq> []"
  by (simp add: buf_def)

lemma backtrack_buf:
  assumes "list_all path_seg st" "st \<noteq> []"
  shows "backtrack 1 (buf st) = buf (List.tl st)"
proof (cases st)
  case (Cons s ss)
  then have "CHR ''/'' \<notin> set (rev s)" "rev s \<noteq> []"
    using assms by (auto simp: path_seg_def)
  then show ?thesis
    using Cons backtrack_root [of "rev s"] backtrack_seg [of "rev s" "buf ss"] by (simp add: buf_Cons)
qed (use assms in simp)

lemma walk_segs:
  "list_all path_seg st \<Longrightarrow> (\<And>s. s \<in> set segs \<Longrightarrow> CHR ''/'' \<notin> set s) \<Longrightarrow> list_all path_seg (walk st segs)"
proof (induction segs arbitrary: st)
  case (Cons s segs)
  have "list_all path_seg (List.tl st)" using Cons.prems(1) by (cases st) simp_all
  then show ?case
    using Cons.prems(1) Cons.prems(2) [of s] Cons.IH Cons.prems(2) by (auto simp: path_seg_def [of s])
qed simp

definition resolve :: "string \<Rightarrow> string list" where
  "resolve p = rev (walk [] (split_on CHR ''/'' p))"

lemma resolve_segs: "list_all path_seg (resolve p)"
  unfolding resolve_def list_all_rev by (rule walk_segs) (auto dest: split_on_free)

lemma split_dotted:
  assumes "CHR ''/'' \<notin> set s" "rest = [] \<or> hd rest = CHR ''/''"
  shows "walk st (split_on CHR ''/'' (s @ rest)) = walk (walk st [s]) (split_on CHR ''/'' rest)"
proof (cases rest)
  case (Cons x r)
  then have "rest = CHR ''/'' # r" using assms(2) by simp
  then show ?thesis using assms(1) by (simp add: split_on_append)
qed (use assms in simp)

lemma push_buf:
  assumes "list_all path_seg st"
  shows "rev s @ (if length (buf st) \<noteq> 1 then CHR ''/'' # buf st else buf st) = buf (s # st)"
  using length_buf_1 [OF assms] by (simp add: buf_Cons)

lemma clean_loop_walk:
  assumes "list_all path_seg st"
  shows "clean_loop True 1 (buf st) p = buf (walk st (split_on CHR ''/'' p))"
  using assms
proof (induction p arbitrary: st rule: length_induct)
  case (1 p)
  note IH = 1(1) [rule_format] and st = 1(2)
  show ?case
  proof (cases p)
    case Nil
    then show ?thesis by simp
  next
    case (Cons c cs)
    let ?w = "takeWhile (\<lambda>x. x \<noteq> CHR ''/'') p" and ?r = "dropWhile (\<lambda>x. x \<noteq> CHR ''/'') p"
    consider (slash) "c = CHR ''/''"
      | (dot) "c = CHR ''.''" "cs = [] \<or> hd cs = CHR ''/''"
      | (dotdot) r2 where "c = CHR ''.''" "cs = CHR ''.'' # r2" "r2 = [] \<or> hd r2 = CHR ''/''"
      | (seg) "c \<noteq> CHR ''/''" "\<not> (c = CHR ''.'' \<and> (cs = [] \<or> hd cs = CHR ''/''))"
          "\<not> (c = CHR ''.'' \<and> hd cs = CHR ''.'' \<and> (List.tl cs = [] \<or> hd (List.tl cs) = CHR ''/''))"
      by (cases cs) auto
    then show ?thesis
    proof cases
      case slash
      then show ?thesis using IH [of cs st] st Cons by simp
    next
      case dot
      have "walk st (split_on CHR ''/'' p) = walk st (split_on CHR ''/'' cs)"
        using split_dotted [of "''.''" cs st] dot Cons by simp
      then show ?thesis using IH [of cs st] st Cons dot by auto
    next
      case dotdot
      have p: "p = ''..'' @ r2" using dotdot Cons by simp
      have w: "walk st (split_on CHR ''/'' p) = walk (List.tl st) (split_on CHR ''/'' r2)"
        using split_dotted [of "''..''" r2 st] dotdot p by simp
      have len: "length r2 < length p" using p by simp
      have tl: "list_all path_seg (List.tl st)" using st by (cases st) simp_all
      have loop: "clean_loop True 1 (buf st) p =
          (if 1 < length (buf st) then clean_loop True 1 (backtrack 1 (buf st)) r2 else clean_loop True 1 (buf st) r2)"
        using dotdot by (auto simp: p)
      show ?thesis
      proof (cases "st = []")
        case True
        then show ?thesis using loop w IH [OF len, of "[]"] by simp
      next
        case False
        then have "1 < length (buf st)"
          using length_buf_1 [OF st] length_buf [of st] by linarith
        then show ?thesis using loop w IH [OF len tl] backtrack_buf [OF st False] by simp
      qed
    next
      case seg
      have wr: "?w @ ?r = p" by simp
      have w: "?w \<noteq> []" "CHR ''/'' \<notin> set ?w" using seg(1) Cons by (auto dest: set_takeWhileD)
      have r: "?r = [] \<or> hd ?r = CHR ''/''" using hd_dropWhile [of "\<lambda>x. x \<noteq> CHR ''/''" p] by blast
      have eq: "p = ?w @ ?r" by simp
      have nd1: "?w \<noteq> ''.''"
      proof
        assume "?w = ''.''"
        then have "c = CHR ''.''" "cs = ?r" using eq Cons by auto
        then show False using seg(2) r by auto
      qed
      have nd2: "?w \<noteq> ''..''"
      proof
        assume "?w = ''..''"
        then have "c = CHR ''.''" "cs = CHR ''.'' # ?r" using eq Cons by auto
        then show False using seg(3) r by (cases cs) auto
      qed
      note nd = nd1 nd2
      have "length p = length ?w + length ?r" by (subst length_append [symmetric]) (simp only: wr)
      then have len: "length ?r < length p" using w(1) by simp
      have "list_all path_seg (?w # st)" using st w by (simp add: path_seg_def [of ?w])
      then have ih: "clean_loop True 1 (buf (?w # st)) ?r = buf (walk (?w # st) (split_on CHR ''/'' ?r))"
        by (rule IH [OF len])
      have "walk st (split_on CHR ''/'' p) = walk (?w # st) (split_on CHR ''/'' ?r)"
        using split_dotted [OF w(2) r, of st] w nd by (simp only: wr) simp
      moreover have "clean_loop True 1 (buf st) p = clean_loop True 1 (buf (?w # st)) ?r"
        unfolding push_buf [OF st, symmetric] using seg Cons by auto
      ultimately show ?thesis using ih by simp
    qed
  qed
qed

lemma path_Clean_rooted: "path_Clean (CHR ''/'' # p) = CHR ''/'' # join_with CHR ''/'' (resolve p)"
proof -
  have "clean_loop True 1 ''/'' p = buf (walk [] (split_on CHR ''/'' p))"
    using clean_loop_walk [of "[]" p] by simp
  then show ?thesis
    by (simp add: path_Clean_def buf_def resolve_def)
qed

section \<open>The verdict\<close>

lemma HasPrefix_iff: "strings_HasPrefix s q \<longleftrightarrow> (\<exists>p. s = q @ p)"
  by (metis append_eq_conv_conj append_take_drop_id strings_HasPrefix_def)

lemma posix_input_rooted: "posix_input input = CHR ''/'' # List.tl (posix_input input)"
  by (auto simp: posix_input_def Let_def HasPrefix_iff)

lemma path_Clean_posix: "path_Clean (posix_input input) = CHR ''/'' # join_with CHR ''/'' (resolve (posix_input input))"
proof -
  have "resolve (posix_input input) = resolve (List.tl (posix_input input))"
    by (subst posix_input_rooted) (simp add: resolve_def)
  then show ?thesis
    by (subst (1) posix_input_rooted) (simp only: path_Clean_rooted)
qed

lemma segments_split:
  "split_on CHR ''/'' (map (\<lambda>c. if c = CHR 0x5C then CHR ''/'' else c) s) = segments s"
  by (induction s) (auto simp: is_sep_def split: list.splits)

lemma resolve_posix: "resolve (posix_input input) = walk_input (TrimSpace input)"
proof -
  define s n where "s = TrimSpace input" and "n = map (\<lambda>c. if c = CHR 0x5C then CHR ''/'' else c) s"
  have n: "split_on CHR ''/'' n = segments s" by (simp add: n_def segments_split)
  have root: "strings_HasPrefix n ''/'' \<longleftrightarrow> s \<noteq> [] \<and> is_sep (hd s)"
    by (cases s) (auto simp: n_def HasPrefix_iff is_sep_def)
  have "split_on CHR ''/'' (''/workspace/'' @ n) = [] # ''workspace'' # segments s"
    using n by (simp del: split_on_word)
  then show ?thesis
    using n root by (simp add: posix_input_def Let_def resolve_def walk_input_def flip: s_def n_def)
qed

lemma append_sep_inject:
  "c \<notin> set x \<Longrightarrow> c \<notin> set w \<Longrightarrow> x @ c # q = w @ c # p \<longleftrightarrow> x = w \<and> q = p"
  by (auto simp: append_eq_append_conv2 append_eq_Cons_conv Cons_eq_append_conv)

lemma join_with_prefix:
  assumes "list_all path_seg segs" "CHR ''/'' \<notin> set w"
  shows "join_with CHR ''/'' segs = w @ CHR ''/'' # p
    \<longleftrightarrow> segs \<noteq> [] \<and> hd segs = w \<and> List.tl segs \<noteq> [] \<and> p = join_with CHR ''/'' (List.tl segs)"
proof (cases segs)
  case (Cons x rest)
  then have x: "CHR ''/'' \<notin> set x" using assms(1) by (simp add: path_seg_def)
  then show ?thesis using Cons assms(2) by (cases rest) (auto simp: append_sep_inject)
qed simp

lemma join_with_word:
  assumes "list_all path_seg segs" "CHR ''/'' \<notin> set w" "w \<noteq> []"
  shows "join_with CHR ''/'' segs = w \<longleftrightarrow> segs = [w]"
  using assms by (cases segs rule: remdups_adj.cases) (auto simp: path_seg_def)

lemma mark_segments_fresh:
  "pd_Severity d = SeverityAllow \<Longrightarrow> pd_Reasons d = [] \<Longrightarrow> mark_segments segs operation d =
     (if operation \<noteq> OperationRead \<and> ''.git'' \<in> set segs
      then d\<lparr>pd_Severity := SeverityBlock, pd_Reasons := [''writes to .git are forbidden'']\<rparr>
      else if set segs \<inter> set sensitiveSegments \<noteq> {}
      then d\<lparr>pd_Severity := SeverityWarn, pd_Reasons := [''path may contain secrets'']\<rparr> else d)"
  by (auto simp: mark_segments_def Let_def list_ex_iff)

lemma lower_relative:
  assumes "lowers_segments U" "list_all path_seg rest" "rest \<noteq> []"
  shows "split_on CHR ''/'' (strings_ToLower U (join_with CHR ''/'' rest)) = map (strings_ToLower U) rest"
proof -
  have "split_on CHR ''/'' (join_with CHR ''/'' rest) = rest"
    using assms(2,3) by (intro split_join) (auto simp: list_all_iff path_seg_def)
  then show ?thesis using assms(1) by (simp add: lowers_segments_def)
qed

lemma ToLower_dot [simp]: "strings_ToLower U ''.'' = ''.''"
  by (simp add: strings_ToLower_def ascii_lower_def byte_def)

text \<open>
  C36 (equivalence). \<open>CheckVirtualPath\<close>, which normalises with the buffer of \<open>path.Clean\<close> and compares string prefixes,
  decides every input as the walk over its segments does.
\<close>

theorem virtual_path_walks:
  assumes U: "lowers_segments U"
  shows "CheckVirtualPath U input operation = path_verdict U input operation"
proof (cases "TrimSpace input = []")
  case True
  then show ?thesis by (simp add: CheckVirtualPath_def path_verdict_def)
next
  case False
  define segs where "segs = walk_input (TrimSpace input)"
  have segs: "list_all path_seg segs" by (simp add: segs_def resolve_segs flip: resolve_posix)
  have clean: "path_Clean (posix_input input) = CHR ''/'' # join_with CHR ''/'' segs"
    by (simp add: segs_def path_Clean_posix resolve_posix)
  have root: "join_with CHR ''/'' segs = ''workspace'' \<longleftrightarrow> segs = [''workspace'']"
    by (rule join_with_word [OF segs]) simp_all
  have below: "join_with CHR ''/'' segs = ''workspace/'' @ p
      \<longleftrightarrow> segs \<noteq> [] \<and> hd segs = ''workspace'' \<and> List.tl segs \<noteq> [] \<and> p = join_with CHR ''/'' (List.tl segs)" for p
    using join_with_prefix [OF segs, of "''workspace''" p] by simp
  consider (escape) "segs = [] \<or> hd segs \<noteq> ''workspace''" | (root) "segs = [''workspace'']"
    | (rest) rest where "segs = ''workspace'' # rest" "rest \<noteq> []"
    by (cases segs) auto
  then show ?thesis
  proof cases
    case escape
    then show ?thesis
      using False root below
      by (auto simp: CheckVirtualPath_def path_verdict_def clean Let_def HasPrefix_iff simp flip: segs_def)
  next
    case root
    then show ?thesis
      using False
      by (simp add: CheckVirtualPath_def path_verdict_def clean Let_def mark_segments_fresh sensitiveSegments_def
          flip: segs_def)
  next
    case rest
    then have "list_all path_seg rest" using segs by simp
    note lower = lower_relative [OF U this rest(2)]
    show ?thesis
      using False rest
      by (simp add: CheckVirtualPath_def path_verdict_def clean Let_def mark_segments_fresh lower join_with_Cons
          strings_HasPrefix_def strings_TrimPrefix_def flip: segs_def)
  qed
qed

lemma split_on_map:
  "(\<And>x. f x = c \<longleftrightarrow> x = c) \<Longrightarrow> split_on c (map f s) = map (map f) (split_on c s)"
  by (induction s) (auto split: list.splits)

lemma ascii_lower_slash: "ascii_lower c = CHR ''/'' \<longleftrightarrow> c = CHR ''/''"
proof -
  have "char_of (b + 32) \<noteq> CHR ''/''" if "65 \<le> b" "b \<le> 90" for b :: nat
  proof
    assume "char_of (b + 32) = CHR ''/''"
    then have "of_char (char_of (b + 32) :: char) = (of_char CHR ''/'' :: nat)" by simp
    then show False using that by simp
  qed
  then show ?thesis by (auto simp: ascii_lower_def Let_def byte_def)
qed

lemma ascii_lowers_segments: "lowers_segments (map ascii_lower)"
proof -
  have "strings_ToLower (map ascii_lower) = map ascii_lower" by (simp add: fun_eq_iff strings_ToLower_def)
  then show ?thesis by (simp add: lowers_segments_def split_on_map ascii_lower_slash)
qed

text \<open>A write through \<open>..\<close> and backslashes reaches \<open>.git\<close> and is blocked.\<close>

theorem virtual_path_walks_witness:
  "lowers_segments (map ascii_lower)
   \<and> path_verdict (map ascii_lower) ('' src//../.'' @ [CHR 0x5C] @ ''.GIT/config '') OperationWrite
     = Inr \<lparr>pd_Normalized = ''/workspace/.GIT/config'', pd_Relative = ''.GIT/config'', pd_Severity = SeverityBlock,
            pd_Reasons = [''writes to .git are forbidden'']\<rparr>
   \<and> CheckVirtualPath (map ascii_lower) ('' src//../.'' @ [CHR 0x5C] @ ''.GIT/config '') OperationWrite
     = path_verdict (map ascii_lower) ('' src//../.'' @ [CHR 0x5C] @ ''.GIT/config '') OperationWrite"
proof (intro conjI)
  show "lowers_segments (map ascii_lower)" by (rule ascii_lowers_segments)
  show "path_verdict (map ascii_lower) ('' src//../.'' @ [CHR 0x5C] @ ''.GIT/config '') OperationWrite
     = Inr \<lparr>pd_Normalized = ''/workspace/.GIT/config'', pd_Relative = ''.GIT/config'', pd_Severity = SeverityBlock,
            pd_Reasons = [''writes to .git are forbidden'']\<rparr>"
    by code_simp
qed (rule virtual_path_walks [OF ascii_lowers_segments])

end
