(* ===== verification/Caller_Shim.thy ===== *)
theory Caller_Shim
  imports Caller_Ledger Virtual_Path
begin

text \<open>
  The executor of the caller shim, \<^verbatim>\<open>internal/callershim/executor.go\<close>, and the identity its server gives a
  tool request (\<^verbatim>\<open>server.go\<close>). \<open>Execute\<close> is split at its atomic sections: the critical sections of
  \<open>unsettledMu\<close>, the ledger transactions, and the start and return of the tool. Several processes may
  follow each other on one ledger file; the owner lock lets only one of them hold an open handle. What
  the tools do to the caller's files is the environment's; the state remembers which executions
  were started, what they returned and what callers were answered.
\<close>


section \<open>Requests and responses\<close>

record ToolRequest =
  tq_CallerID :: string
  tq_TaskID :: string
  tq_ToolCallID :: string
  tq_Name :: string
  tq_Input :: bytes

text \<open>The content of a response: a text, or the fields of a result object in their JSON spelling.\<close>

datatype tool_content = CText string | CFields "(string \<times> string) list"

record ToolResponse =
  tr_Content :: tool_content
  tr_IsError :: bool
  tr_ErrorCode :: string

text \<open>The libraries the executor calls: SHA-256, \<open>encoding/json\<close> at the types it is used with, and \<open>%q\<close>.\<close>

record shim_env =
  se_sha256 :: "bytes \<Rightarrow> bytes"
  se_canonical :: "bytes \<Rightarrow> bytes option"
  se_payload :: "string \<Rightarrow> bytes \<Rightarrow> bytes"
  se_marshal :: "ToolResponse \<Rightarrow> bytes option"
  se_unmarshal :: "bytes \<Rightarrow> ToolResponse option"
  se_quote :: "string \<Rightarrow> string"

definition requestDigest :: "shim_env \<Rightarrow> string \<Rightarrow> bytes \<Rightarrow> shim_error + string \<times> bytes" where
  "requestDigest S name input =
     (case se_canonical S (if input = [] then [123, 125] else input) of
        None \<Rightarrow> Inl ErrToolInput
      | Some canonicalInput \<Rightarrow>
          Inr (hex_EncodeToString (se_sha256 S (se_payload S name canonicalInput)), canonicalInput))"

definition indeterminateToolResponse :: ToolResponse where
  "indeterminateToolResponse =
     \<lparr>tr_Content = CText (''the previous execution may already have changed the workspace, but its result was not ''
        @ ''durably recorded; reconcile the workspace state, then retry with a new tool_call_id''),
      tr_IsError = True, tr_ErrorCode = ''execution_outcome_indeterminate''\<rparr>"

definition decodePersistedToolResponse :: "shim_env \<Rightarrow> bytes option \<Rightarrow> shim_error + ToolResponse" where
  "decodePersistedToolResponse S encoded =
     (case encoded of
        None \<Rightarrow> Inl ErrDecodeResponse
      | Some b \<Rightarrow> (case se_unmarshal S b of None \<Rightarrow> Inl ErrDecodeResponse | Some r \<Rightarrow> Inr r))"

definition toolMayMutate :: "string \<Rightarrow> bool" where
  "toolMayMutate name \<longleftrightarrow>
     name \<in> {''human_write_file'', ''human_edit_file'', ''human_delete_file'', ''human_rename_file'', ''human_exec''}"

text \<open>The errors \<open>classifyError\<close> tells apart, with their text, and a failed command with its result.\<close>

datatype tool_error =
    CommandFailure "(string \<times> string) list"
  | ErrOutsideRoot string
  | ErrGitWriteForbidden string
  | ErrPreconditionFailed string
  | ErrEditMatch string
  | ErrDestinationExists string
  | ErrFileTooLarge string
  | OtherToolError string

fun classifyError :: "tool_error \<Rightarrow> string" where
  "classifyError (CommandFailure _) = ''command_failed''"
| "classifyError (ErrOutsideRoot _) = ''outside_workspace''"
| "classifyError (ErrGitWriteForbidden _) = ''git_write_forbidden''"
| "classifyError (ErrPreconditionFailed _) = ''cas_mismatch''"
| "classifyError (ErrEditMatch _) = ''edit_match_error''"
| "classifyError (ErrDestinationExists _) = ''destination_exists''"
| "classifyError (ErrFileTooLarge _) = ''result_too_large''"
| "classifyError (OtherToolError _) = ''tool_error''"

fun error_content :: "tool_error \<Rightarrow> tool_content" where
  "error_content (CommandFailure result) = CFields result"
| "error_content (ErrOutsideRoot m) = CText m"
| "error_content (ErrGitWriteForbidden m) = CText m"
| "error_content (ErrPreconditionFailed m) = CText m"
| "error_content (ErrEditMatch m) = CText m"
| "error_content (ErrDestinationExists m) = CText m"
| "error_content (ErrFileTooLarge m) = CText m"
| "error_content (OtherToolError m) = CText m"

definition HumanShimID :: string where
  "HumanShimID = ''human-shim''"

definition HumanShimVersion :: string where
  "HumanShimVersion = ''1''"

definition tool_names :: "string list" where
  "tool_names = [''human_read_file'', ''human_search'', ''human_write_file'', ''human_edit_file'',
     ''human_delete_file'', ''human_rename_file'', ''human_exec'']"

text \<open>\<open>executeOnce\<close>, given what the tool of that name returned.\<close>

definition executeOnce :: "shim_env \<Rightarrow> string \<Rightarrow> tool_error + tool_content \<Rightarrow> ToolResponse" where
  "executeOnce S name returned =
     (case (if name \<in> set tool_names then returned
            else Inl (OtherToolError (''tool '' @ se_quote S name @ '' is not part of '' @ HumanShimID @ CHR ''@'' # HumanShimVersion))) of
        Inl e \<Rightarrow> \<lparr>tr_Content = error_content e, tr_IsError = True, tr_ErrorCode = classifyError e\<rparr>
      | Inr content \<Rightarrow> \<lparr>tr_Content = content, tr_IsError = False, tr_ErrorCode = []\<rparr>)"

definition tooLargeResponse :: "string \<Rightarrow> nat \<Rightarrow> nat \<Rightarrow> ToolResponse" where
  "tooLargeResponse name encodedLen limit =
     (let guidance = (if toolMayMutate name
        then ''the tool may already have changed external state; reconcile that state before deciding whether to use a new tool_call_id''
        else ''narrow the request and use a new tool_call_id'') in
      \<lparr>tr_Content = CText (''tool result encoded to '' @ decimal encodedLen @ '' bytes, exceeding the '' @ decimal limit
         @ ''-byte durable result limit; '' @ guidance),
       tr_IsError = True, tr_ErrorCode = ''result_too_large''\<rparr>)"

text \<open>The bytes to persist for a response, bounded by \<open>MaxResultBytes\<close>.\<close>

definition encode_result :: "shim_env \<Rightarrow> nat \<Rightarrow> string \<Rightarrow> ToolResponse \<Rightarrow> shim_error + bytes" where
  "encode_result S maxResultBytes name response =
     (case se_marshal S response of
        None \<Rightarrow> Inl ErrEncodeResponse
      | Some encoded \<Rightarrow>
          if length encoded > maxResultBytes
          then (case se_marshal S (tooLargeResponse name (length encoded) maxResultBytes) of
                  None \<Rightarrow> Inl ErrEncodeResponse | Some bounded \<Rightarrow> Inr bounded)
          else Inr encoded)"


section \<open>The executor's configuration and the bounds on a command\<close>

record ExecutorConfig =
  ec_Root :: bool
  ec_Ledger :: bool
  ec_ExecEnabled :: bool
  ec_DefaultTimeout :: int
  ec_MaxTimeout :: int
  ec_MaxOutputBytes :: int
  ec_MaxReadBytes :: int
  ec_MaxResultBytes :: int

definition NewExecutor :: "ExecutorConfig \<Rightarrow> string + ExecutorConfig" where
  "NewExecutor config =
     (if \<not> ec_Root config \<or> \<not> ec_Ledger config then Inl ''caller root and durable ledger are required''
      else
        (let config = (if ec_DefaultTimeout config \<le> 0 then config\<lparr>ec_DefaultTimeout := 30000000000\<rparr> else config);
             config = (if ec_MaxTimeout config \<le> 0 then config\<lparr>ec_MaxTimeout := 300000000000\<rparr> else config) in
         if ec_DefaultTimeout config > ec_MaxTimeout config then Inl ''default exec timeout exceeds maximum''
         else
           (let config = (if ec_MaxOutputBytes config \<le> 0 then config\<lparr>ec_MaxOutputBytes := 1048576\<rparr> else config);
                config = (if ec_MaxReadBytes config \<le> 0 then config\<lparr>ec_MaxReadBytes := 1048576\<rparr> else config);
                config = (if ec_MaxResultBytes config \<le> 0 then config\<lparr>ec_MaxResultBytes := 2097152\<rparr> else config) in
            if ec_MaxResultBytes config < 256 then Inl ''maximum encoded tool result must be at least 256 bytes''
            else Inr config)))"

text \<open>\<open>int64\<close> arithmetic: the product of \<open>time.Duration(input.TimeoutMS) * time.Millisecond\<close> wraps.\<close>

definition int64_of :: "int \<Rightarrow> int" where
  "int64_of x = (x + 2 ^ 63) mod 2 ^ 64 - 2 ^ 63"

definition command_timeout :: "ExecutorConfig \<Rightarrow> int \<Rightarrow> string + int" where
  "command_timeout config timeoutMS =
     (let timeout = (if timeoutMS > 0 then int64_of (timeoutMS * 1000000) else ec_DefaultTimeout config) in
      if timeout > ec_MaxTimeout config then Inl ''timeout exceeds maximum'' else Inr timeout)"

fun strings_Join :: "string \<Rightarrow> string list \<Rightarrow> string" where
  "strings_Join sep [] = []"
| "strings_Join sep [x] = x"
| "strings_Join sep (x # y # zs) = x @ sep @ strings_Join sep (y # zs)"

text \<open>The checks of \<open>run\<close> on the command and its timeout before it is started.\<close>

definition run_admits :: "(string \<Rightarrow> string) \<Rightarrow> ExecutorConfig \<Rightarrow> string \<Rightarrow> int \<Rightarrow> string + int" where
  "run_admits U config command timeoutMS =
     (if cd_Severity (CheckCommand U command (ec_ExecEnabled config)) = SeverityBlock
      then Inl (strings_Join ''; '' (cd_Reasons (CheckCommand U command (ec_ExecEnabled config))))
      else if TrimSpace command = [] then Inl ''command is required''
      else command_timeout config timeoutMS)"

record limitedBuffer =
  lb_buffer :: bytes
  lb_limit :: int
  lb_truncated :: bool

definition limitedBuffer_Write :: "bytes \<Rightarrow> limitedBuffer \<Rightarrow> nat \<times> limitedBuffer" where
  "limitedBuffer_Write data buffer =
     (let original = length data; remaining = lb_limit buffer - int (length (lb_buffer buffer)) in
      if remaining \<le> 0 then (original, buffer\<lparr>lb_truncated := lb_truncated buffer \<or> original > 0\<rparr>)
      else if int (length data) > remaining
      then (original, buffer\<lparr>lb_buffer := lb_buffer buffer @ take (nat remaining) data, lb_truncated := True\<rparr>)
      else (original, buffer\<lparr>lb_buffer := lb_buffer buffer @ data\<rparr>))"

text \<open>On a system whose separator is the slash, where \<open>filepath.ToSlash\<close> is the identity.\<close>

definition workspaceRelative :: "string \<Rightarrow> tool_error + string" where
  "workspaceRelative path =
     (let v = TrimSpace path in
      if strings_HasPrefix v ''/workspace/'' then Inr (strings_TrimPrefix v ''/workspace/'')
      else if v = ''/workspace'' then Inr ''.''
      else if strings_HasPrefix v ''/'' then Inl (ErrOutsideRoot ''path resolves outside caller workspace root'')
      else if v = [] then Inl (OtherToolError ''path is required'')
      else Inr v)"


section \<open>The server's identity\<close>

definition bearerMatches :: "(string \<Rightarrow> string) \<Rightarrow> string \<Rightarrow> string \<Rightarrow> bool" where
  "bearerMatches U header expected =
     (strings_HasPrefix (strings_ToLower U header) ''bearer '' \<and> TrimSpace (drop 7 header) = expected)"

definition scoped_request :: "string \<Rightarrow> string \<Rightarrow> ToolRequest \<Rightarrow> ToolRequest" where
  "scoped_request callerID taskID request =
     request\<lparr>tq_CallerID := TrimSpace callerID, tq_TaskID := TrimSpace taskID\<rparr>"

definition tool_status :: "shim_error + ToolResponse \<Rightarrow> nat" where
  "tool_status result =
     (case result of
        Inl e \<Rightarrow> if e = ErrExecutionReplay then 409 else if e = ErrExecutionPending then 503 else 500
      | Inr _ \<Rightarrow> 200)"


section \<open>The executors and their calls\<close>

record unsettledExecution =
  us_requestDigest :: string
  us_indeterminatePayload :: bytes

datatype exec_phase =
    Entered
  | Checked
  | Begun
  | Running
  | Ran bytes
  | Failed unsettledExecution
  | Resolving unsettledExecution
  | Resolved unsettledExecution Execution

record exec_call =
  xc_gen :: nat
  xc_key :: ExecutionKey
  xc_digest :: string
  xc_name :: string
  xc_input :: bytes
  xc_phase :: exec_phase

text \<open>
  The ledger file and the processes that opened it, numbered: \<open>sh_gen\<close> is the latest, whose handle is
  open while \<open>sh_open\<close>; \<open>sh_live\<close> are the processes that still run.
\<close>

record shim =
  sh_table :: ledger_table
  sh_gen :: nat
  sh_open :: bool
  sh_live :: "nat \<Rightarrow> bool"
  sh_unsettled :: "nat \<Rightarrow> ExecutionKey \<Rightarrow> unsettledExecution option"
  sh_calls :: "nat \<Rightarrow> exec_call option"
  sh_started :: "ExecutionKey list"
  sh_results :: "(ExecutionKey \<times> string \<times> ToolResponse) list"
  sh_answers :: "(ExecutionKey \<times> string \<times> ToolResponse) list"

definition new_shim :: shim where
  "new_shim = \<lparr>sh_table = Map.empty, sh_gen = 0, sh_open = False, sh_live = (\<lambda>_. False), sh_unsettled = (\<lambda>_. Map.empty),
     sh_calls = Map.empty, sh_started = [], sh_results = [], sh_answers = []\<rparr>"

text \<open>A closed handle fails every transaction.\<close>

definition handle_tx :: "nat \<Rightarrow> tx_outcome \<Rightarrow> shim \<Rightarrow> tx_outcome" where
  "handle_tx g tx s = (if sh_open s \<and> g = sh_gen s then tx else TxFailed)"

definition at_phase :: "nat \<Rightarrow> exec_call \<Rightarrow> exec_phase \<Rightarrow> shim \<Rightarrow> shim" where
  "at_phase i c p s = s\<lparr>sh_calls := (sh_calls s)(i \<mapsto> c\<lparr>xc_phase := p\<rparr>)\<rparr>"

definition return_call :: "nat \<Rightarrow> exec_call \<Rightarrow> shim_error + ToolResponse \<Rightarrow> shim \<Rightarrow> (shim_error + ToolResponse) option \<times> shim" where
  "return_call i c result s =
     (Some result, s\<lparr>sh_calls := (sh_calls s)(i := None),
        sh_answers := (case result of Inl _ \<Rightarrow> sh_answers s | Inr r \<Rightarrow> (xc_key c, xc_digest c, r) # sh_answers s)\<rparr>)"

definition Execute_enter ::
    "shim_env \<Rightarrow> nat \<Rightarrow> ToolRequest \<Rightarrow> nat \<Rightarrow> shim \<Rightarrow> (shim_error + ToolResponse) option \<times> shim" where
  "Execute_enter S g request i s =
     (if tq_CallerID request = [] \<or> tq_TaskID request = [] \<or> tq_ToolCallID request = [] \<or> tq_Name request = []
      then (Some (Inl ErrToolRequest), s)
      else case requestDigest S (tq_Name request) (tq_Input request) of
        Inl e \<Rightarrow> (Some (Inl e), s)
      | Inr (digest, canonicalInput) \<Rightarrow>
          (None, s\<lparr>sh_calls := (sh_calls s)(i \<mapsto>
             \<lparr>xc_gen = g, xc_key = \<lparr>ek_CallerID = tq_CallerID request, ek_TaskID = tq_TaskID request,
                                    ek_ToolCallID = tq_ToolCallID request\<rparr>,
              xc_digest = digest, xc_name = tq_Name request, xc_input = canonicalInput, xc_phase = Entered\<rparr>)\<rparr>))"

text \<open>The critical section of \<open>retryUnsettledExecution\<close>.\<close>

definition Execute_check :: "nat \<Rightarrow> exec_call \<Rightarrow> shim \<Rightarrow> (shim_error + ToolResponse) option \<times> shim" where
  "Execute_check i c s =
     (case sh_unsettled s (xc_gen c) (xc_key c) of
        None \<Rightarrow> (None, at_phase i c Checked s)
      | Some unsettled \<Rightarrow>
          if us_requestDigest unsettled \<noteq> xc_digest c then return_call i c (Inl ErrExecutionReplay) s
          else (None, at_phase i c (Resolving unsettled) s))"

definition Execute_begin ::
    "shim_env \<Rightarrow> tx_outcome \<Rightarrow> gotime \<Rightarrow> nat \<Rightarrow> exec_call \<Rightarrow> shim \<Rightarrow> (shim_error + ToolResponse) option \<times> shim" where
  "Execute_begin S tx now i c s =
     (case ledger_Begin (handle_tx (xc_gen c) tx s) (xc_key c) (xc_digest c) now (sh_table s) of
        (r, table) \<Rightarrow>
          (let s' = s\<lparr>sh_table := table\<rparr> in
           case r of
             Inl e \<Rightarrow> return_call i c (Inl e) s'
           | Inr begun \<Rightarrow>
               if br_Replay begun then
                 (if ex_Status (br_Execution begun) = StatusPending then return_call i c (Inl ErrExecutionPending) s'
                  else return_call i c (decodePersistedToolResponse S (ex_Response (br_Execution begun))) s')
               else (None, at_phase i c Begun s')))"

text \<open>The start of the tool, and its return with the encoded response.\<close>

definition Execute_start :: "nat \<Rightarrow> exec_call \<Rightarrow> shim \<Rightarrow> shim" where
  "Execute_start i c s = at_phase i c Running (s\<lparr>sh_started := xc_key c # sh_started s\<rparr>)"

definition Execute_return ::
    "shim_env \<Rightarrow> nat \<Rightarrow> tool_error + tool_content \<Rightarrow> nat \<Rightarrow> exec_call \<Rightarrow> shim \<Rightarrow> (shim_error + ToolResponse) option \<times> shim" where
  "Execute_return S maxResultBytes returned i c s =
     (let response = executeOnce S (xc_name c) returned;
          s' = s\<lparr>sh_results := (xc_key c, xc_name c, response) # sh_results s\<rparr> in
      case encode_result S maxResultBytes (xc_name c) response of
        Inl e \<Rightarrow> return_call i c (Inl e) s'
      | Inr encoded \<Rightarrow> (None, at_phase i c (Ran encoded) s'))"

definition Execute_complete ::
    "shim_env \<Rightarrow> tx_outcome \<Rightarrow> gotime \<Rightarrow> nat \<Rightarrow> exec_call \<Rightarrow> bytes \<Rightarrow> shim \<Rightarrow> (shim_error + ToolResponse) option \<times> shim" where
  "Execute_complete S tx now i c encoded s =
     (case ledger_Complete (handle_tx (xc_gen c) tx s) (xc_key c) encoded now (sh_table s) of
        (r, table) \<Rightarrow>
          (let s' = s\<lparr>sh_table := table\<rparr> in
           case r of
             Inr completed \<Rightarrow> return_call i c (decodePersistedToolResponse S (ex_Response completed)) s'
           | Inl e \<Rightarrow>
               (case se_marshal S indeterminateToolResponse of
                  None \<Rightarrow> return_call i c (Inl ErrEncodeResponse) s'
                | Some payload \<Rightarrow>
                    (None, at_phase i c (Failed \<lparr>us_requestDigest = xc_digest c, us_indeterminatePayload = payload\<rparr>) s'))))"

definition rememberUnsettledExecution :: "nat \<Rightarrow> exec_call \<Rightarrow> unsettledExecution \<Rightarrow> shim \<Rightarrow> shim" where
  "rememberUnsettledExecution i c unsettled s =
     at_phase i c (Resolving unsettled)
       (s\<lparr>sh_unsettled := (sh_unsettled s)(xc_gen c := (sh_unsettled s (xc_gen c))(xc_key c \<mapsto> unsettled))\<rparr>)"

text \<open>\<open>resolveUnsettledExecution\<close>: the transaction, then the critical section.\<close>

definition Execute_resolve ::
    "tx_outcome \<Rightarrow> gotime \<Rightarrow> nat \<Rightarrow> exec_call \<Rightarrow> unsettledExecution \<Rightarrow> shim \<Rightarrow> (shim_error + ToolResponse) option \<times> shim" where
  "Execute_resolve tx now i c unsettled s =
     (case ledger_MarkIndeterminate (handle_tx (xc_gen c) tx s) (xc_key c) (us_indeterminatePayload unsettled) now (sh_table s) of
        (r, table) \<Rightarrow>
          (let s' = s\<lparr>sh_table := table\<rparr> in
           case r of
             Inl e \<Rightarrow> return_call i c (Inl e) s'
           | Inr resolved \<Rightarrow>
               if ex_Status resolved \<noteq> StatusCompleted \<and> ex_Status resolved \<noteq> StatusIndeterminate
               then return_call i c (Inl ErrNonterminal) s'
               else (None, at_phase i c (Resolved unsettled resolved) s')))"

definition Execute_settle ::
    "shim_env \<Rightarrow> nat \<Rightarrow> exec_call \<Rightarrow> unsettledExecution \<Rightarrow> Execution \<Rightarrow> shim \<Rightarrow> (shim_error + ToolResponse) option \<times> shim" where
  "Execute_settle S i c unsettled resolved s =
     (let remaining = (sh_unsettled s (xc_gen c))(xc_key c :=
            (case sh_unsettled s (xc_gen c) (xc_key c) of
               None \<Rightarrow> None
             | Some current \<Rightarrow>
                 if us_requestDigest current = us_requestDigest unsettled
                    \<and> us_indeterminatePayload current = us_indeterminatePayload unsettled
                 then None else Some current)) in
      return_call i c (decodePersistedToolResponse S (ex_Response resolved))
        (s\<lparr>sh_unsettled := (sh_unsettled s)(xc_gen c := remaining)\<rparr>))"

text \<open>
  The life of a process: it opens the ledger when no other handle is open, recovering the pending
  rows; it closes its handle while its calls go on; it may crash.
\<close>

definition OpenSQLiteLedger :: "shim_env \<Rightarrow> gotime \<Rightarrow> shim \<Rightarrow> shim option" where
  "OpenSQLiteLedger S now s =
     (if sh_open s then None
      else case se_marshal S indeterminateToolResponse of
        None \<Rightarrow> None
      | Some response \<Rightarrow>
          (let g = Suc (sh_gen s) in
           Some (s\<lparr>sh_table := ledger_recoverPending response now (sh_table s), sh_gen := g, sh_open := True,
                   sh_live := (sh_live s)(g := True), sh_unsettled := (sh_unsettled s)(g := Map.empty)\<rparr>)))"

definition ledger_Close :: "shim \<Rightarrow> shim" where
  "ledger_Close s = s\<lparr>sh_open := False\<rparr>"

definition process_crash :: "nat \<Rightarrow> shim \<Rightarrow> shim" where
  "process_crash g s =
     s\<lparr>sh_open := (sh_open s \<and> g \<noteq> sh_gen s), sh_live := (sh_live s)(g := False),
       sh_unsettled := (sh_unsettled s)(g := Map.empty),
       sh_calls := (\<lambda>i. case sh_calls s i of None \<Rightarrow> None | Some c \<Rightarrow> if xc_gen c = g then None else Some c)\<rparr>"

inductive shim_step :: "shim_env \<Rightarrow> nat \<Rightarrow> shim \<Rightarrow> shim \<Rightarrow> bool" for S m where
  Enter: "sh_calls s i = None \<Longrightarrow> sh_live s g \<Longrightarrow> Execute_enter S g request i s = (r, s') \<Longrightarrow> shim_step S m s s'"
| Check: "sh_calls s i = Some c \<Longrightarrow> xc_phase c = Entered \<Longrightarrow> Execute_check i c s = (r, s') \<Longrightarrow> shim_step S m s s'"
| Begin: "sh_calls s i = Some c \<Longrightarrow> xc_phase c = Checked \<Longrightarrow> Execute_begin S tx now i c s = (r, s') \<Longrightarrow> shim_step S m s s'"
| Start: "sh_calls s i = Some c \<Longrightarrow> xc_phase c = Begun \<Longrightarrow> shim_step S m s (Execute_start i c s)"
| Return: "sh_calls s i = Some c \<Longrightarrow> xc_phase c = Running \<Longrightarrow> Execute_return S m returned i c s = (r, s') \<Longrightarrow> shim_step S m s s'"
| Complete: "sh_calls s i = Some c \<Longrightarrow> xc_phase c = Ran encoded \<Longrightarrow>
    Execute_complete S tx now i c encoded s = (r, s') \<Longrightarrow> shim_step S m s s'"
| Remember: "sh_calls s i = Some c \<Longrightarrow> xc_phase c = Failed u \<Longrightarrow> shim_step S m s (rememberUnsettledExecution i c u s)"
| Resolve: "sh_calls s i = Some c \<Longrightarrow> xc_phase c = Resolving u \<Longrightarrow>
    Execute_resolve tx now i c u s = (r, s') \<Longrightarrow> shim_step S m s s'"
| Settle: "sh_calls s i = Some c \<Longrightarrow> xc_phase c = Resolved u x \<Longrightarrow>
    Execute_settle S i c u x s = (r, s') \<Longrightarrow> shim_step S m s s'"
| Open: "OpenSQLiteLedger S now s = Some s' \<Longrightarrow> shim_step S m s s'"
| OpenFailed: "\<not> sh_open s \<Longrightarrow> se_marshal S indeterminateToolResponse = Some b \<Longrightarrow>
    shim_step S m s (s\<lparr>sh_table := ledger_recoverPending b now (sh_table s)\<rparr>)"
| Close: "shim_step S m s (ledger_Close s)"
| Crash: "shim_step S m s (process_crash g s)"


section \<open>Bounds\<close>

definition limited_writes :: "bytes list \<Rightarrow> limitedBuffer \<Rightarrow> limitedBuffer" where
  "limited_writes chunks buffer = fold (\<lambda>data b. snd (limitedBuffer_Write data b)) chunks buffer"

lemma take_take_append: "take n (take n xs @ ys) = take n (xs @ ys)"
  by (cases "n \<le> length xs") auto

lemma limitedBuffer_Write_take:
  assumes "int (length (lb_buffer b)) \<le> lb_limit b"
  shows "snd (limitedBuffer_Write d b) = b\<lparr>lb_buffer := take (nat (lb_limit b)) (lb_buffer b @ d),
     lb_truncated := lb_truncated b \<or> int (length (lb_buffer b @ d)) > lb_limit b\<rparr>"
proof -
  have take: "take (nat (lb_limit b)) (lb_buffer b) = lb_buffer b" using assms by simp
  have rest: "nat (lb_limit b) - length (lb_buffer b) = nat (lb_limit b - int (length (lb_buffer b)))" by simp
  show ?thesis
    using assms unfolding limitedBuffer_Write_def Let_def
    by (cases "int (length (lb_buffer b)) = lb_limit b") (auto simp: take rest)
qed

text \<open>
  However the output of a command is cut into writes, the buffer keeps the first \<open>limit\<close> bytes of it and
  says whether there were more.
\<close>

lemma limited_writes_prefix:
  assumes "int (length (lb_buffer b)) \<le> lb_limit b"
  shows "limited_writes chunks b = b\<lparr>lb_buffer := take (nat (lb_limit b)) (lb_buffer b @ concat chunks),
     lb_truncated := lb_truncated b \<or> int (length (lb_buffer b @ concat chunks)) > lb_limit b\<rparr>"
  using assms
proof (induction chunks arbitrary: b)
  case Nil
  then show ?case by (simp add: limited_writes_def)
next
  case (Cons d chunks)
  let ?b = "snd (limitedBuffer_Write d b)"
  have step: "limited_writes (d # chunks) b = limited_writes chunks ?b" by (simp add: limited_writes_def)
  have b: "?b = b\<lparr>lb_buffer := take (nat (lb_limit b)) (lb_buffer b @ d),
     lb_truncated := lb_truncated b \<or> int (length (lb_buffer b @ d)) > lb_limit b\<rparr>"
    by (rule limitedBuffer_Write_take [OF Cons.prems])
  have "int (length (lb_buffer ?b)) \<le> lb_limit ?b" using Cons.prems by (simp add: b)
  note ih = Cons.IH [OF this]
  let ?n = "nat (lb_limit b)" and ?x = "lb_buffer b @ d" and ?y = "concat chunks"
  have buffer: "take ?n (take ?n ?x @ ?y) = take ?n (?x @ ?y)" by (rule take_take_append)
  have trunc: "(lb_limit b < int (length ?x) \<or> lb_limit b < int (length (take ?n ?x @ ?y)))
      \<longleftrightarrow> lb_limit b < int (length (?x @ ?y))"
    using Cons.prems by (cases "?n < length ?x") (auto simp del: length_concat)
  show ?case
    unfolding step ih unfolding b using buffer trunc by (simp del: take_append length_append)
qed

text \<open>
  A command never runs longer than the maximum, although the conversion of milliseconds may wrap: the
  wrapped value is the one that is compared and used. A timeout far above the maximum can so be
  accepted as a short one instead of being refused.
\<close>

lemma command_timeout_bound: "command_timeout config ms = Inr timeout \<Longrightarrow> timeout \<le> ec_MaxTimeout config"
  by (auto simp: command_timeout_def Let_def split: if_splits)

lemma command_timeout_wraps:
  "448384 \<le> ec_MaxTimeout config \<Longrightarrow> command_timeout config 18446744073710 = Inr 448384"
  by (simp add: command_timeout_def int64_of_def)

text \<open>
  The replacement of an oversized result is not bounded itself: with the smallest limit \<open>NewExecutor\<close>
  accepts, the JSON text of the replacement for a mutating tool is longer than the limit.
\<close>

definition json_error_text :: "ToolResponse \<Rightarrow> string" where
  "json_error_text r = (let q = CHR 0x22 in
     CHR ''{'' # q # ''content'' @ [q, CHR '':'', q] @ (case tr_Content r of CText t \<Rightarrow> t | CFields _ \<Rightarrow> [])
     @ [q, CHR '','', q] @ ''is_error'' @ [q] @ '':true,'' @ [q] @ ''error_code'' @ [q, CHR '':'', q] @ tr_ErrorCode r @ [q, CHR ''}''])"

lemma replacement_exceeds_minimum: "length (json_error_text (tooLargeResponse ''human_write_file'' 257 256)) = 261"
  by code_simp

end
