(* ===== verification/Caller_Guarantees.thy ===== *)
theory Caller_Guarantees
  imports Caller_Shim
begin

text \<open>
  What the caller shim guarantees across retries, concurrent calls, failed commits, closed handles,
  crashes and restarts: a tool call is started at most once, and all answers to it are the same. The
  invariant has one part per piece of the state; a change of the table is carried through all of them
  by one monotonicity lemma.
\<close>


section \<open>The table over time\<close>

definition table_mono :: "ledger_table \<Rightarrow> ledger_table \<Rightarrow> bool" where
  "table_mono t t' \<longleftrightarrow> (\<forall>k row. t k = Some row \<longrightarrow>
     (\<exists>row'. t' k = Some row' \<and> lr_request_digest row' = lr_request_digest row
        \<and> (lr_status row \<noteq> StatusPending \<longrightarrow> row' = row)))"

lemma table_monoD:
  "table_mono t t' \<Longrightarrow> t k = Some row \<Longrightarrow>
   \<exists>row'. t' k = Some row' \<and> lr_request_digest row' = lr_request_digest row \<and> (lr_status row \<noteq> StatusPending \<longrightarrow> row' = row)"
  by (simp add: table_mono_def)

lemma table_mono_refl [simp]: "table_mono t t"
  by (simp add: table_mono_def)

lemma table_mono_trans: "table_mono t u \<Longrightarrow> table_mono u v \<Longrightarrow> table_mono t v"
  unfolding table_mono_def by (metis (no_types, lifting))

lemma table_settles_mono: "table_settles P t t' \<Longrightarrow> table_mono t t'"
  unfolding table_mono_def by (metis table_settlesD row_settles_digest row_settles_terminal)

lemma table_insert_mono: "t k = None \<Longrightarrow> table_mono t (t(k \<mapsto> row))"
  by (auto simp: table_mono_def)

definition row_for :: "ledger_table \<Rightarrow> ExecutionKey \<Rightarrow> string \<Rightarrow> bool" where
  "row_for t k d \<longleftrightarrow> (\<exists>row. t k = Some row \<and> lr_request_digest row = d)"

lemma row_for_mono: "row_for t k d \<Longrightarrow> table_mono t t' \<Longrightarrow> row_for t' k d"
  by (fastforce simp: row_for_def dest: table_monoD)

lemma execution_of_mono: "execution_of k t st b \<Longrightarrow> st \<noteq> StatusPending \<Longrightarrow> table_mono t t' \<Longrightarrow> execution_of k t' st b"
  by (fastforce simp: execution_of_def dest: table_monoD)


section \<open>The invariant\<close>

text \<open>What is persisted: the response of an execution that returned, or the indeterminate one.\<close>

definition returned_as :: "shim_env \<Rightarrow> nat \<Rightarrow> shim \<Rightarrow> ExecutionKey \<Rightarrow> bytes \<Rightarrow> bool" where
  "returned_as S m s k b \<longleftrightarrow> (\<exists>name r. (k, name, r) \<in> set (sh_results s) \<and> encode_result S m name r = Inr b)"

definition persisted_ok :: "shim_env \<Rightarrow> nat \<Rightarrow> shim \<Rightarrow> ExecutionKey \<Rightarrow> execution_status \<Rightarrow> bytes \<Rightarrow> bool" where
  "persisted_ok S m s k st b \<longleftrightarrow>
     (st = StatusCompleted \<longrightarrow> returned_as S m s k b)
     \<and> (st = StatusIndeterminate \<longrightarrow> se_marshal S indeterminateToolResponse = Some b)"

definition rows_ok :: "shim_env \<Rightarrow> nat \<Rightarrow> shim \<Rightarrow> bool" where
  "rows_ok S m s \<longleftrightarrow> (\<forall>k row. sh_table s k = Some row \<longrightarrow> ledger_check row
     \<and> (\<forall>b. lr_response row = Some b \<longrightarrow> persisted_ok S m s k (lr_status row) b))"

definition unsettled_ok :: "shim_env \<Rightarrow> ledger_table \<Rightarrow> ExecutionKey \<Rightarrow> unsettledExecution \<Rightarrow> bool" where
  "unsettled_ok S t k u \<longleftrightarrow> row_for t k (us_requestDigest u) \<and> se_marshal S indeterminateToolResponse = Some (us_indeterminatePayload u)"

definition call_ok :: "shim_env \<Rightarrow> nat \<Rightarrow> shim \<Rightarrow> exec_call \<Rightarrow> bool" where
  "call_ok S m s c \<longleftrightarrow>
     (xc_phase c \<notin> {Entered, Checked} \<longrightarrow> row_for (sh_table s) (xc_key c) (xc_digest c))
     \<and> (xc_phase c = Begun \<longrightarrow> xc_key c \<notin> set (sh_started s))
     \<and> (\<forall>b. xc_phase c = Ran b \<longrightarrow> returned_as S m s (xc_key c) b)
     \<and> (\<forall>u. xc_phase c = Failed u \<or> xc_phase c = Resolving u \<longrightarrow>
          us_requestDigest u = xc_digest c \<and> unsettled_ok S (sh_table s) (xc_key c) u)
     \<and> (\<forall>u x. xc_phase c = Resolved u x \<longrightarrow>
          ex_Status x \<noteq> StatusPending \<and> execution_of (xc_key c) (sh_table s) (ex_Status x) (ex_Response x))"

definition answer_ok :: "shim_env \<Rightarrow> ledger_table \<Rightarrow> ExecutionKey \<times> string \<times> ToolResponse \<Rightarrow> bool" where
  "answer_ok S t a \<longleftrightarrow> (case a of (k, d, r) \<Rightarrow>
     \<exists>row b. t k = Some row \<and> lr_request_digest row = d \<and> lr_status row \<noteq> StatusPending
       \<and> lr_response row = Some b \<and> se_unmarshal S b = Some r)"

definition shim_inv :: "shim_env \<Rightarrow> nat \<Rightarrow> shim \<Rightarrow> bool" where
  "shim_inv S m s \<longleftrightarrow>
     rows_ok S m s
     \<and> (\<forall>i c. sh_calls s i = Some c \<longrightarrow> call_ok S m s c)
     \<and> (\<forall>i j c d. sh_calls s i = Some c \<longrightarrow> sh_calls s j = Some d \<longrightarrow> i \<noteq> j \<longrightarrow>
          xc_phase c = Begun \<longrightarrow> xc_phase d = Begun \<longrightarrow> xc_key c \<noteq> xc_key d)
     \<and> distinct (sh_started s) \<and> set (sh_started s) \<subseteq> dom (sh_table s)
     \<and> (\<forall>g k u. sh_unsettled s g k = Some u \<longrightarrow> unsettled_ok S (sh_table s) k u)
     \<and> list_all (answer_ok S (sh_table s)) (sh_answers s)"

text \<open>What the parts read of the state.\<close>

definition shim_le :: "shim \<Rightarrow> shim \<Rightarrow> bool" where
  "shim_le s s' \<longleftrightarrow> table_mono (sh_table s) (sh_table s') \<and> set (sh_started s) \<subseteq> set (sh_started s')
     \<and> set (sh_results s) \<subseteq> set (sh_results s') \<and> set (sh_answers s) \<subseteq> set (sh_answers s')"

lemma returned_as_mono: "returned_as S m s k b \<Longrightarrow> set (sh_results s) \<subseteq> set (sh_results s') \<Longrightarrow> returned_as S m s' k b"
  by (auto simp: returned_as_def)

lemma unsettled_ok_mono: "unsettled_ok S t k u \<Longrightarrow> table_mono t t' \<Longrightarrow> unsettled_ok S t' k u"
  by (auto simp: unsettled_ok_def row_for_mono)

lemma answer_ok_mono: "answer_ok S t a \<Longrightarrow> table_mono t t' \<Longrightarrow> answer_ok S t' a"
  by (fastforce simp: answer_ok_def dest: table_monoD split: prod.splits)

lemma call_ok_mono:
  assumes "call_ok S m s c" "table_mono (sh_table s) (sh_table s')" "set (sh_results s) \<subseteq> set (sh_results s')"
    "xc_phase c = Begun \<Longrightarrow> xc_key c \<notin> set (sh_started s')"
  shows "call_ok S m s' c"
  using assms unfolding call_ok_def
  by (auto intro: row_for_mono returned_as_mono unsettled_ok_mono execution_of_mono)

text \<open>A step at call \<open>i\<close>, which leaves the call or puts it into a phase that is in order.\<close>

lemma shim_inv_step:
  assumes inv: "shim_inv S m s"
    and mono: "table_mono (sh_table s) (sh_table s')" "set (sh_results s) \<subseteq> set (sh_results s')"
    and rows: "rows_ok S m s'"
    and started: "distinct (sh_started s')" "set (sh_started s') \<subseteq> dom (sh_table s')"
    and calls: "\<And>j. j \<noteq> i \<Longrightarrow> sh_calls s' j = sh_calls s j"
    and call: "\<And>c. sh_calls s' i = Some c \<Longrightarrow> call_ok S m s' c"
    and others: "\<And>j c. j \<noteq> i \<Longrightarrow> sh_calls s j = Some c \<Longrightarrow> xc_phase c = Begun \<Longrightarrow> xc_key c \<notin> set (sh_started s')"
    and begun: "\<And>j c d. j \<noteq> i \<Longrightarrow> sh_calls s j = Some c \<Longrightarrow> sh_calls s' i = Some d \<Longrightarrow> xc_phase c = Begun \<Longrightarrow>
      xc_phase d = Begun \<Longrightarrow> xc_key c \<noteq> xc_key d"
    and unsettled: "\<And>g k u. sh_unsettled s' g k = Some u \<Longrightarrow> sh_unsettled s g k = Some u \<or> unsettled_ok S (sh_table s') k u"
    and answers: "\<And>a. a \<in> set (sh_answers s') \<Longrightarrow> a \<in> set (sh_answers s) \<or> answer_ok S (sh_table s') a"
  shows "shim_inv S m s'"
proof -
  have "call_ok S m s' c" if "sh_calls s' j = Some c" for j c
  proof (cases "j = i")
    case False
    then have "sh_calls s j = Some c" using that calls by simp
    moreover from this have "call_ok S m s c" using inv by (auto simp: shim_inv_def)
    ultimately show ?thesis using others [OF False] mono by (blast intro: call_ok_mono)
  qed (use that call in blast)
  moreover have "xc_key c \<noteq> xc_key d"
    if "sh_calls s' j = Some c" "sh_calls s' l = Some d" "j \<noteq> l" "xc_phase c = Begun" "xc_phase d = Begun" for j l c d
  proof -
    consider "j = i" | "l = i" | "j \<noteq> i" "l \<noteq> i" by blast
    then show ?thesis
    proof cases
      case 1
      then show ?thesis using begun [of l d c] that calls [of l] by metis
    next
      case 2
      then show ?thesis using begun [of j c d] that calls [of j] by metis
    next
      case 3
      then have "sh_calls s j = Some c" "sh_calls s l = Some d" using that calls by auto
      then show ?thesis using inv that unfolding shim_inv_def by blast
    qed
  qed
  moreover have "unsettled_ok S (sh_table s') k u" if "sh_unsettled s' g k = Some u" for g k u
    using unsettled [OF that] inv mono(1) unsettled_ok_mono unfolding shim_inv_def by blast
  moreover have "list_all (answer_ok S (sh_table s')) (sh_answers s')"
    unfolding list_all_iff
  proof
    fix a
    assume "a \<in> set (sh_answers s')"
    then consider "a \<in> set (sh_answers s)" | "answer_ok S (sh_table s') a" using answers by blast
    then show "answer_ok S (sh_table s') a"
      using inv mono(1) by cases (auto simp: shim_inv_def list_all_iff intro: answer_ok_mono)
  qed
  ultimately show ?thesis
    using rows started unfolding shim_inv_def by blast
qed

lemma shim_inv_rows: "shim_inv S m s \<Longrightarrow> rows_ok S m s"
  by (simp add: shim_inv_def)

lemma rows_ok_settles:
  assumes "rows_ok S m s" "table_settles P (sh_table s) t'" "\<And>k st b. P k st b \<Longrightarrow> persisted_ok S m s' k st b"
    "sh_table s' = t'" "set (sh_results s) \<subseteq> set (sh_results s')"
  shows "rows_ok S m s'"
  unfolding rows_ok_def
proof (intro allI impI)
  fix k row'
  assume "sh_table s' k = Some row'"
  then obtain row where row: "sh_table s k = Some row" "row_settles (P k) row row'"
    using table_settles_back [OF assms(2)] assms(4) by metis
  have ok: "ledger_check row" "\<And>b. lr_response row = Some b \<Longrightarrow> persisted_ok S m s k (lr_status row) b"
    using assms(1) row(1) by (auto simp: rows_ok_def)
  have "persisted_ok S m s' k (lr_status row') b" if "lr_response row' = Some b" for b
  proof (cases "row' = row")
    case True
    then show ?thesis using ok(2) that assms(5) by (auto simp: persisted_ok_def intro: returned_as_mono)
  next
    case False
    then show ?thesis using row(2) that assms(3) by (auto simp: row_settles_def)
  qed
  then show "ledger_check row' \<and> (\<forall>b. lr_response row' = Some b \<longrightarrow> persisted_ok S m s' k (lr_status row') b)"
    using row_settles_check [OF row(2) ok(1)] by blast
qed

lemma rows_ok_same:
  assumes "rows_ok S m s" "sh_table s' = sh_table s" "set (sh_results s) \<subseteq> set (sh_results s')"
  shows "rows_ok S m s'"
  by (rule rows_ok_settles [OF assms(1) table_settles_refl, of "\<lambda>_ _ _. False"]) (use assms in auto)

lemma rows_ok_insert:
  assumes "rows_ok S m s" "sh_table s' = (sh_table s)(k \<mapsto> row)" "ledger_check row" "lr_status row = StatusPending"
    "sh_results s' = sh_results s"
  shows "rows_ok S m s'"
  using assms by (auto simp: rows_ok_def persisted_ok_def returned_as_def ledger_check_def)


section \<open>The steps keep the invariant\<close>

lemma shim_inv_ext:
  assumes "shim_inv S m s" "table_mono (sh_table s) (sh_table s')" "set (sh_results s) \<subseteq> set (sh_results s')" "rows_ok S m s'"
    "sh_calls s' = sh_calls s" "sh_started s' = sh_started s" "sh_unsettled s' = sh_unsettled s" "sh_answers s' = sh_answers s"
  shows "shim_inv S m s'"
proof -
  have "call_ok S m s' c" if "sh_calls s i = Some c" for i c
  proof -
    have c: "call_ok S m s c" using assms(1) that by (simp add: shim_inv_def)
    show ?thesis by (rule call_ok_mono [OF c assms(2,3)]) (use c assms(6) in \<open>simp add: call_ok_def\<close>)
  qed
  moreover have "set (sh_started s) \<subseteq> dom (sh_table s')"
  proof
    fix k
    assume "k \<in> set (sh_started s)"
    then obtain row where "sh_table s k = Some row" using assms(1) by (auto simp: shim_inv_def)
    then show "k \<in> dom (sh_table s')" using table_monoD [OF assms(2)] by blast
  qed
  moreover have "list_all (answer_ok S (sh_table s')) (sh_answers s)"
    using assms(1) answer_ok_mono [OF _ assms(2)] unfolding shim_inv_def list_all_iff by blast
  moreover have "unsettled_ok S (sh_table s') k u" if "sh_unsettled s g k = Some u" for g k u
    using assms(1) that unsettled_ok_mono [OF _ assms(2)] unfolding shim_inv_def by blast
  ultimately show ?thesis
    using assms unfolding shim_inv_def by simp
qed

lemma return_call_inv:
  assumes "shim_inv S m s" "\<And>r. result = Inr r \<Longrightarrow> answer_ok S (sh_table s) (xc_key c, xc_digest c, r)"
    "return_call i c result s = (ret, s')"
  shows "shim_inv S m s'"
proof (rule shim_inv_step [OF assms(1), of s' i])
  show "a \<in> set (sh_answers s) \<or> answer_ok S (sh_table s') a" if "a \<in> set (sh_answers s')" for a
    using that assms(2,3) by (auto simp: return_call_def split: sum.splits)
qed (use assms(1,3) in \<open>auto simp: return_call_def shim_inv_def call_ok_def intro: rows_ok_same\<close>)

lemma phase_inv:
  assumes "shim_inv S m s" "call_ok S m s (c\<lparr>xc_phase := p\<rparr>)"
    "\<And>j d. p = Begun \<Longrightarrow> j \<noteq> i \<Longrightarrow> sh_calls s j = Some d \<Longrightarrow> xc_phase d = Begun \<Longrightarrow> xc_key d \<noteq> xc_key c"
  shows "shim_inv S m (at_phase i c p s)"
proof (rule shim_inv_step [OF assms(1), of _ i])
  show "call_ok S m (at_phase i c p s) d" if "sh_calls (at_phase i c p s) i = Some d" for d
    using that assms(2) call_ok_mono [OF assms(2), of "at_phase i c p s"] by (auto simp: at_phase_def call_ok_def)
qed (use assms(1,3) in \<open>auto simp: at_phase_def shim_inv_def call_ok_def intro: rows_ok_same\<close>)

lemma phase_inv_other:
  "shim_inv S m s \<Longrightarrow> call_ok S m s (c\<lparr>xc_phase := p\<rparr>) \<Longrightarrow> p \<noteq> Begun \<Longrightarrow> shim_inv S m (at_phase i c p s)"
  using phase_inv by blast

lemma call_okD: "shim_inv S m s \<Longrightarrow> sh_calls s i = Some c \<Longrightarrow> call_ok S m s c"
  by (simp add: shim_inv_def)

lemma execution_answer:
  assumes "row_for t k d" "execution_of k t st b" "st \<noteq> StatusPending" "decodePersistedToolResponse S b = Inr r"
  shows "answer_ok S t (k, d, r)"
  using assms by (auto simp: answer_ok_def row_for_def execution_of_def decodePersistedToolResponse_def split: option.splits)

lemma shim_inv_table:
  assumes "shim_inv S m s" "table_settles P (sh_table s) t" "\<And>k st b. P k st b \<Longrightarrow> persisted_ok S m s k st b"
  shows "shim_inv S m (s\<lparr>sh_table := t\<rparr>)"
proof (rule shim_inv_ext [OF assms(1)])
  have P: "persisted_ok S m (s\<lparr>sh_table := t\<rparr>) k st b" if "P k st b" for k st b
    using assms(3) [OF that] by (simp add: persisted_ok_def returned_as_def)
  have "rows_ok S m s" using assms(1) by (simp add: shim_inv_def)
  then show "rows_ok S m (s\<lparr>sh_table := t\<rparr>)"
    by (rule rows_ok_settles [OF _ assms(2) P]) simp_all
qed (use table_settles_mono [OF assms(2)] in simp_all)

lemma Execute_check_inv:
  assumes "shim_inv S m s" "sh_calls s i = Some c" "xc_phase c = Entered" "Execute_check i c s = (r, s')"
  shows "shim_inv S m s'"
proof (cases "sh_unsettled s (xc_gen c) (xc_key c)")
  case None
  then have "s' = at_phase i c Checked s" using assms(4) by (simp add: Execute_check_def)
  then show ?thesis using assms(1) by (simp add: phase_inv_other call_ok_def)
next
  case (Some u)
  then have u: "unsettled_ok S (sh_table s) (xc_key c) u" using assms(1) by (auto simp: shim_inv_def)
  show ?thesis
  proof (cases "us_requestDigest u = xc_digest c")
    case True
    then have "s' = at_phase i c (Resolving u) s" using assms(4) Some by (simp add: Execute_check_def)
    moreover have "call_ok S m s (c\<lparr>xc_phase := Resolving u\<rparr>)"
      using u True by (simp add: call_ok_def unsettled_ok_def)
    ultimately show ?thesis using assms(1) by (simp add: phase_inv_other)
  next
    case False
    then show ?thesis using assms(1,4) Some return_call_inv [of S m s "Inl ErrExecutionReplay"] by (simp add: Execute_check_def)
  qed
qed

lemma ledger_Begin_cases:
  assumes "ledger_Begin tx k d now t = (r, t')"
  shows "(\<exists>e. r = Inl e \<and> t' = t)
    \<or> (\<exists>x. r = Inr x \<and> br_Replay x \<and> t' = t \<and> row_for t k d
         \<and> execution_of k t (ex_Status (br_Execution x)) (ex_Response (br_Execution x)))
    \<or> (t k = None \<and> (\<exists>row. t' = t(k \<mapsto> row) \<and> lr_request_digest row = d \<and> lr_status row = StatusPending \<and> ledger_check row)
         \<and> (\<forall>x. r = Inr x \<longrightarrow> \<not> br_Replay x))"
proof (cases "ek_CallerID k = [] \<or> ek_TaskID k = [] \<or> ek_ToolCallID k = [] \<or> d = []")
  case True
  then show ?thesis using assms by (auto simp: ledger_Begin_def)
next
  case False
  then have tx: "db_tx ErrLedgerDatabase tx (begin_execution k d now) t = (r, t')"
    using assms by (simp add: ledger_Begin_def split: if_splits)
  consider (same) "t' = t" "\<nexists>x. r = Inr x" | (run) a where "begin_execution k d now t = Inr (a, t')" "\<And>x. r = Inr x \<Longrightarrow> x = a"
    using db_tx_cases [OF tx] by (cases r) (auto, (metis old.prod.inject sum.inject(2))?)
  then show ?thesis
  proof cases
    case same
    then show ?thesis by (cases r) auto
  next
    case run
    then show ?thesis
      using begin_execution_Inr [OF run(1)] run(2)
      by (cases r) (auto simp: row_for_def execution_of_def)
  qed
qed

lemma Execute_begin_inv:
  assumes inv: "shim_inv S m s" and c: "sh_calls s i = Some c" "xc_phase c = Checked"
    and step: "Execute_begin S tx now i c s = (ret, s')"
  shows "shim_inv S m s'"
proof -
  obtain r t where tx: "ledger_Begin (handle_tx (xc_gen c) tx s) (xc_key c) (xc_digest c) now (sh_table s) = (r, t)"
    by (cases "ledger_Begin (handle_tx (xc_gen c) tx s) (xc_key c) (xc_digest c) now (sh_table s)")
  let ?s = "s\<lparr>sh_table := t\<rparr>"
  have "t = sh_table s \<or> (sh_table s (xc_key c) = None \<and> (\<exists>row. t = (sh_table s)(xc_key c \<mapsto> row)
      \<and> lr_request_digest row = xc_digest c \<and> lr_status row = StatusPending \<and> ledger_check row))"
    using ledger_Begin_cases [OF tx] by blast
  then have inv': "shim_inv S m ?s"
  proof (elim disjE conjE exE)
    fix row
    assume row: "sh_table s (xc_key c) = None" "t = (sh_table s)(xc_key c \<mapsto> row)" "lr_status row = StatusPending" "ledger_check row"
    show ?thesis
      by (rule shim_inv_ext [OF inv]) (use row inv in \<open>auto simp: table_insert_mono shim_inv_def intro: rows_ok_insert [of S m s]\<close>)
  qed (use inv in simp)
  show ?thesis
  proof (cases r)
    case (Inl e)
    then show ?thesis using step tx return_call_inv [OF inv', of "Inl e" c i] by (simp add: Execute_begin_def)
  next
    case (Inr x)
    show ?thesis
    proof (cases "br_Replay x")
      case True
      then have row: "row_for t (xc_key c) (xc_digest c)"
          "execution_of (xc_key c) t (ex_Status (br_Execution x)) (ex_Response (br_Execution x))"
        using ledger_Begin_cases [OF tx] Inr by auto
      show ?thesis
      proof (cases "ex_Status (br_Execution x) = StatusPending")
        case pending: True
        then have "return_call i c (Inl ErrExecutionPending) ?s = (ret, s')"
          using step tx Inr True by (simp add: Execute_begin_def)
        then show ?thesis using inv' return_call_inv [of S m ?s "Inl ErrExecutionPending"] by simp
      next
        case False
        then have "return_call i c (decodePersistedToolResponse S (ex_Response (br_Execution x))) ?s = (ret, s')"
          using step tx Inr True by (simp add: Execute_begin_def Let_def)
        then show ?thesis
          by (rule return_call_inv [OF inv', rotated]) (simp add: execution_answer [OF row False])
      qed
    next
      case False
      then have new: "sh_table s (xc_key c) = None" "row_for t (xc_key c) (xc_digest c)"
        using ledger_Begin_cases [OF tx] Inr by (auto simp: row_for_def)
      have s': "s' = at_phase i c Begun ?s" using step tx Inr False by (simp add: Execute_begin_def)
      have "xc_key c \<notin> set (sh_started s)" using inv new(1) by (auto simp: shim_inv_def)
      then have ok: "call_ok S m ?s (c\<lparr>xc_phase := Begun\<rparr>)" using new(2) by (simp add: call_ok_def)
      have "xc_key d \<noteq> xc_key c" if "sh_calls s j = Some d" "xc_phase d = Begun" for j d
        using call_okD [OF inv that(1)] that(2) new(1) by (auto simp: call_ok_def row_for_def)
      then show ?thesis unfolding s' by (intro phase_inv inv' ok) auto
    qed
  qed
qed

lemma Execute_start_inv:
  assumes inv: "shim_inv S m s" and c: "sh_calls s i = Some c" "xc_phase c = Begun"
  shows "shim_inv S m (Execute_start i c s)"
proof (rule shim_inv_step [OF inv, of _ i])
  have ok: "row_for (sh_table s) (xc_key c) (xc_digest c)" "xc_key c \<notin> set (sh_started s)"
    using call_okD [OF inv c(1)] c(2) by (auto simp: call_ok_def)
  show "distinct (sh_started (Execute_start i c s))"
    using inv ok(2) by (simp add: Execute_start_def at_phase_def shim_inv_def)
  show "set (sh_started (Execute_start i c s)) \<subseteq> dom (sh_table (Execute_start i c s))"
    using inv ok(1) by (auto simp: Execute_start_def at_phase_def shim_inv_def row_for_def)
  show "call_ok S m (Execute_start i c s) d" if "sh_calls (Execute_start i c s) i = Some d" for d
    using that ok(1) by (auto simp: Execute_start_def at_phase_def call_ok_def)
  show "xc_key d \<notin> set (sh_started (Execute_start i c s))" if "j \<noteq> i" "sh_calls s j = Some d" "xc_phase d = Begun" for j d
  proof -
    have "xc_key d \<noteq> xc_key c" using inv c that unfolding shim_inv_def by metis
    moreover have "xc_key d \<notin> set (sh_started s)" using call_okD [OF inv that(2)] that(3) by (simp add: call_ok_def)
    ultimately show ?thesis by (simp add: Execute_start_def at_phase_def)
  qed
qed (use inv in \<open>auto simp: Execute_start_def at_phase_def shim_inv_def intro: rows_ok_same\<close>)

lemma Execute_return_inv:
  assumes inv: "shim_inv S m s" and c: "sh_calls s i = Some c" "xc_phase c = Running"
    and step: "Execute_return S m returned i c s = (ret, s')"
  shows "shim_inv S m s'"
proof -
  define r where "r = executeOnce S (xc_name c) returned"
  let ?s = "s\<lparr>sh_results := (xc_key c, xc_name c, r) # sh_results s\<rparr>"
  have rows: "rows_ok S m ?s" by (rule rows_ok_same [OF inv [THEN shim_inv_rows]]) auto
  have inv': "shim_inv S m ?s" by (rule shim_inv_ext [OF inv _ _ rows]) auto
  have row: "row_for (sh_table s) (xc_key c) (xc_digest c)" using call_okD [OF inv c(1)] c(2) by (simp add: call_ok_def)
  show ?thesis
  proof (cases "encode_result S m (xc_name c) r")
    case (Inl e)
    then have "return_call i c (Inl e) ?s = (ret, s')" using step by (simp add: Execute_return_def r_def Let_def)
    then show ?thesis by (rule return_call_inv [OF inv', rotated]) simp
  next
    case (Inr b)
    then have s': "s' = at_phase i c (Ran b) ?s" using step by (simp add: Execute_return_def r_def Let_def)
    have "returned_as S m ?s (xc_key c) b"
      unfolding returned_as_def by (rule exI [of _ "xc_name c"], rule exI [of _ r]) (simp add: Inr)
    then have "call_ok S m ?s (c\<lparr>xc_phase := Ran b\<rparr>)" using row by (simp add: call_ok_def)
    then show ?thesis unfolding s' by (intro phase_inv_other inv') simp_all
  qed
qed

lemma ledger_Complete_cases:
  assumes "ledger_Complete tx k b now t = (r, t')"
  shows "table_settles (\<lambda>k' st b'. k' = k \<and> st = StatusCompleted \<and> b' = b) t t'"
    "r = Inr x \<Longrightarrow> ex_Response x = Some b \<and> execution_of k t' StatusCompleted (Some b)"
proof -
  note tx = db_tx_cases [OF assms [unfolded ledger_Complete_def]]
  show "table_settles (\<lambda>k' st b'. k' = k \<and> st = StatusCompleted \<and> b' = b) t t'"
    using tx(1) complete_execution_Inr(1) table_settles_refl by metis
  show "ex_Response x = Some b \<and> execution_of k t' StatusCompleted (Some b)" if "r = Inr x"
    using complete_execution_Inr(3,4) [OF tx(2) [OF that]] by blast
qed

lemma ledger_MarkIndeterminate_cases:
  assumes "ledger_MarkIndeterminate tx k b now t = (r, t')"
  shows "table_settles (\<lambda>k' st b'. k' = k \<and> st = StatusIndeterminate \<and> b' = b) t t'"
    "r = Inr x \<Longrightarrow> ex_Status x \<noteq> StatusPending \<and> execution_of k t' (ex_Status x) (ex_Response x)"
proof -
  have "table_settles (\<lambda>k' st b'. k' = k \<and> st = StatusIndeterminate \<and> b' = b) t t'
    \<and> (r = Inr x \<longrightarrow> ex_Status x \<noteq> StatusPending \<and> execution_of k t' (ex_Status x) (ex_Response x))"
  proof (cases "b = []")
    case True
    then show ?thesis using assms by (auto simp: ledger_MarkIndeterminate_def)
  next
    case False
    then have tx: "db_tx ErrLedgerDatabase tx (mark_indeterminate k b now) t = (r, t')"
      using assms by (simp add: ledger_MarkIndeterminate_def)
    have "table_settles (\<lambda>k' st b'. k' = k \<and> st = StatusIndeterminate \<and> b' = b) t t'"
      using db_tx_cases(1) [OF tx] mark_indeterminate_Inr(1) table_settles_refl by metis
    then show ?thesis using db_tx_cases(2) [OF tx] mark_indeterminate_Inr(2,3) by blast
  qed
  then show "table_settles (\<lambda>k' st b'. k' = k \<and> st = StatusIndeterminate \<and> b' = b) t t'"
    "r = Inr x \<Longrightarrow> ex_Status x \<noteq> StatusPending \<and> execution_of k t' (ex_Status x) (ex_Response x)"
    by blast+
qed

lemma Execute_complete_inv:
  assumes inv: "shim_inv S m s" and c: "sh_calls s i = Some c" "xc_phase c = Ran b"
    and step: "Execute_complete S tx now i c b s = (ret, s')"
  shows "shim_inv S m s'"
proof -
  obtain r t where tx: "ledger_Complete (handle_tx (xc_gen c) tx s) (xc_key c) b now (sh_table s) = (r, t)"
    by (cases "ledger_Complete (handle_tx (xc_gen c) tx s) (xc_key c) b now (sh_table s)")
  let ?s = "s\<lparr>sh_table := t\<rparr>"
  note settles = ledger_Complete_cases(1) [OF tx]
  have ok: "row_for (sh_table s) (xc_key c) (xc_digest c)" "returned_as S m s (xc_key c) b"
    using call_okD [OF inv c(1)] c(2) by (auto simp: call_ok_def)
  have inv': "shim_inv S m ?s"
    by (rule shim_inv_table [OF inv settles]) (auto simp: persisted_ok_def ok)
  have row: "row_for t (xc_key c) (xc_digest c)" by (rule row_for_mono [OF ok(1) table_settles_mono [OF settles]])
  show ?thesis
  proof (cases r)
    case (Inr x)
    then have x: "ex_Response x = Some b" "execution_of (xc_key c) t StatusCompleted (Some b)"
      using ledger_Complete_cases(2) [OF tx] by auto
    have "return_call i c (decodePersistedToolResponse S (Some b)) ?s = (ret, s')"
      using step tx Inr x(1) by (simp add: Execute_complete_def)
    then show ?thesis
      by (rule return_call_inv [OF inv', rotated]) (simp add: execution_answer [OF row x(2)])
  next
    case (Inl e)
    show ?thesis
    proof (cases "se_marshal S indeterminateToolResponse")
      case None
      then have "return_call i c (Inl ErrEncodeResponse) ?s = (ret, s')"
        using step tx Inl by (simp add: Execute_complete_def)
      then show ?thesis by (rule return_call_inv [OF inv', rotated]) simp
    next
      case (Some payload)
      then have s': "s' = at_phase i c (Failed \<lparr>us_requestDigest = xc_digest c, us_indeterminatePayload = payload\<rparr>) ?s"
        using step tx Inl by (simp add: Execute_complete_def)
      show ?thesis unfolding s'
        by (rule phase_inv_other [OF inv']) (simp_all add: call_ok_def unsettled_ok_def row Some)
    qed
  qed
qed

lemma remember_inv:
  assumes inv: "shim_inv S m s" and c: "sh_calls s i = Some c" "xc_phase c = Failed u"
  shows "shim_inv S m (rememberUnsettledExecution i c u s)"
proof -
  have ok: "call_ok S m s (c\<lparr>xc_phase := Resolving u\<rparr>)" "unsettled_ok S (sh_table s) (xc_key c) u"
    using call_okD [OF inv c(1)] c(2) by (auto simp: call_ok_def)
  let ?s = "s\<lparr>sh_unsettled := (sh_unsettled s)(xc_gen c := (sh_unsettled s (xc_gen c))(xc_key c \<mapsto> u))\<rparr>"
  have rows: "rows_ok S m ?s" by (rule rows_ok_same [OF inv [THEN shim_inv_rows]]) auto
  have "shim_inv S m ?s"
    by (rule shim_inv_step [OF inv _ _ rows, of i])
       (use inv ok(2) call_okD [OF inv] in \<open>auto simp: shim_inv_def call_ok_def returned_as_def split: if_splits\<close>)
  moreover have "call_ok S m ?s (c\<lparr>xc_phase := Resolving u\<rparr>)"
    using ok(1) by (simp add: call_ok_def)
  ultimately show ?thesis unfolding rememberUnsettledExecution_def by (rule phase_inv_other) simp
qed

lemma Execute_resolve_inv:
  assumes inv: "shim_inv S m s" and c: "sh_calls s i = Some c" "xc_phase c = Resolving u"
    and step: "Execute_resolve tx now i c u s = (ret, s')"
  shows "shim_inv S m s'"
proof -
  let ?b = "us_indeterminatePayload u"
  obtain r t where tx: "ledger_MarkIndeterminate (handle_tx (xc_gen c) tx s) (xc_key c) ?b now (sh_table s) = (r, t)"
    by (cases "ledger_MarkIndeterminate (handle_tx (xc_gen c) tx s) (xc_key c) ?b now (sh_table s)")
  let ?s = "s\<lparr>sh_table := t\<rparr>"
  note settles = ledger_MarkIndeterminate_cases(1) [OF tx]
  have ok: "row_for (sh_table s) (xc_key c) (xc_digest c)" "se_marshal S indeterminateToolResponse = Some ?b"
    using call_okD [OF inv c(1)] c(2) by (auto simp: call_ok_def unsettled_ok_def)
  have inv': "shim_inv S m ?s"
    by (rule shim_inv_table [OF inv settles]) (auto simp: persisted_ok_def ok(2))
  have row: "row_for t (xc_key c) (xc_digest c)" by (rule row_for_mono [OF ok(1) table_settles_mono [OF settles]])
  show ?thesis
  proof (cases r)
    case (Inl e)
    then have "return_call i c (Inl e) ?s = (ret, s')" using step tx by (simp add: Execute_resolve_def)
    then show ?thesis by (rule return_call_inv [OF inv', rotated]) simp
  next
    case (Inr x)
    then have x: "ex_Status x \<noteq> StatusPending" "execution_of (xc_key c) t (ex_Status x) (ex_Response x)"
      using ledger_MarkIndeterminate_cases(2) [OF tx] by auto
    then have s': "s' = at_phase i c (Resolved u x) ?s"
      using step tx Inr by (cases "ex_Status x") (simp_all add: Execute_resolve_def)
    show ?thesis unfolding s'
      by (rule phase_inv_other [OF inv']) (simp_all add: call_ok_def row x)
  qed
qed

lemma Execute_settle_inv:
  assumes inv: "shim_inv S m s" and c: "sh_calls s i = Some c" "xc_phase c = Resolved u x"
    and step: "Execute_settle S i c u x s = (ret, s')"
  shows "shim_inv S m s'"
proof -
  have ok: "row_for (sh_table s) (xc_key c) (xc_digest c)" "ex_Status x \<noteq> StatusPending"
      "execution_of (xc_key c) (sh_table s) (ex_Status x) (ex_Response x)"
    using call_okD [OF inv c(1)] c(2) by (auto simp: call_ok_def)
  define un where "un = (sh_unsettled s)(xc_gen c := (sh_unsettled s (xc_gen c))(xc_key c :=
      (case sh_unsettled s (xc_gen c) (xc_key c) of None \<Rightarrow> None
       | Some current \<Rightarrow> if us_requestDigest current = us_requestDigest u
           \<and> us_indeterminatePayload current = us_indeterminatePayload u then None else Some current)))"
  have un: "un g k = Some v \<Longrightarrow> sh_unsettled s g k = Some v" for g k v
    by (auto simp: un_def split: if_splits option.splits)
  have ret: "return_call i c (decodePersistedToolResponse S (ex_Response x)) (s\<lparr>sh_unsettled := un\<rparr>) = (ret, s')"
    using step by (simp add: Execute_settle_def un_def)
  let ?s = "s\<lparr>sh_unsettled := un\<rparr>"
  have rows: "rows_ok S m ?s" by (rule rows_ok_same [OF inv [THEN shim_inv_rows]]) auto
  have inv': "shim_inv S m ?s"
    by (rule shim_inv_step [OF inv _ _ rows, of i])
       (use inv un call_okD [OF inv] in \<open>auto simp: shim_inv_def call_ok_def returned_as_def\<close>)
  show ?thesis
    using ret by (rule return_call_inv [OF inv', rotated]) (simp add: execution_answer [OF ok(1,3,2)])
qed

lemma Execute_enter_inv:
  assumes inv: "shim_inv S m s" and i: "sh_calls s i = None" and step: "Execute_enter S g request i s = (ret, s')"
  shows "shim_inv S m s'"
proof -
  show ?thesis
  proof (cases ret)
    case None
    then obtain d b where s': "s' = s\<lparr>sh_calls := (sh_calls s)(i \<mapsto>
        \<lparr>xc_gen = g, xc_key = \<lparr>ek_CallerID = tq_CallerID request, ek_TaskID = tq_TaskID request,
          ek_ToolCallID = tq_ToolCallID request\<rparr>, xc_digest = d, xc_name = tq_Name request, xc_input = b, xc_phase = Entered\<rparr>)\<rparr>"
      using step by (auto simp: Execute_enter_def split: if_splits sum.splits)
    let ?c = "\<lparr>xc_gen = g, xc_key = \<lparr>ek_CallerID = tq_CallerID request, ek_TaskID = tq_TaskID request,
          ek_ToolCallID = tq_ToolCallID request\<rparr>, xc_digest = d, xc_name = tq_Name request, xc_input = b, xc_phase = Entered\<rparr>"
    have "s' = at_phase i ?c Entered s" using s' by (simp add: at_phase_def)
    then show ?thesis using inv by (auto simp: phase_inv_other call_ok_def)
  next
    case (Some r)
    then have "s' = s" using step by (auto simp: Execute_enter_def split: if_splits sum.splits)
    then show ?thesis using inv by simp
  qed
qed

lemma recover_inv:
  assumes "shim_inv S m s" "se_marshal S indeterminateToolResponse = Some b"
  shows "shim_inv S m (s\<lparr>sh_table := ledger_recoverPending b now (sh_table s)\<rparr>)"
  by (rule shim_inv_table [OF assms(1) ledger_recoverPending_settles]) (auto simp: persisted_ok_def assms(2))

lemma drop_inv:
  assumes inv: "shim_inv S m s"
    and same: "sh_table s' = sh_table s" "sh_started s' = sh_started s" "sh_results s' = sh_results s" "sh_answers s' = sh_answers s"
    and calls: "\<And>i c. sh_calls s' i = Some c \<Longrightarrow> sh_calls s i = Some c"
    and un: "\<And>g k u. sh_unsettled s' g k = Some u \<Longrightarrow> sh_unsettled s g k = Some u"
  shows "shim_inv S m s'"
proof -
  have "rows_ok S m s'" by (rule rows_ok_same [OF inv [THEN shim_inv_rows]]) (simp_all add: same)
  moreover have "call_ok S m s' c" if "sh_calls s' i = Some c" for i c
    using call_okD [OF inv calls [OF that]] by (simp add: call_ok_def returned_as_def same)
  moreover have "xc_key c \<noteq> xc_key d"
    if "sh_calls s' i = Some c" "sh_calls s' j = Some d" "i \<noteq> j" "xc_phase c = Begun" "xc_phase d = Begun" for i j c d
    using inv calls [OF that(1)] calls [OF that(2)] that(3-5) unfolding shim_inv_def by blast
  moreover have "unsettled_ok S (sh_table s') k u" if "sh_unsettled s' g k = Some u" for g k u
    using inv un [OF that] unfolding shim_inv_def same(1) by blast
  ultimately show ?thesis using inv unfolding shim_inv_def same by blast
qed

lemma Open_inv:
  assumes inv: "shim_inv S m s" and step: "OpenSQLiteLedger S now s = Some s'"
  shows "shim_inv S m s'"
proof -
  obtain b where b: "se_marshal S indeterminateToolResponse = Some b"
    and s': "s' = (s\<lparr>sh_table := ledger_recoverPending b now (sh_table s)\<rparr>)
      \<lparr>sh_gen := Suc (sh_gen s), sh_open := True, sh_live := (sh_live s)(Suc (sh_gen s) := True),
       sh_unsettled := (sh_unsettled s)(Suc (sh_gen s) := Map.empty)\<rparr>"
    using step by (auto simp: OpenSQLiteLedger_def Let_def split: if_splits option.splits)
  show ?thesis
    unfolding s' by (rule drop_inv [OF recover_inv [OF inv b, of now]]) (auto split: if_splits)
qed

lemma shim_step_inv: "shim_step S m s s' \<Longrightarrow> shim_inv S m s \<Longrightarrow> shim_inv S m s'"
proof (induction rule: shim_step.induct)
  case (Crash s g)
  then show ?case by (rule drop_inv) (auto simp: process_crash_def split: option.splits if_splits)
next
  case (Close s)
  then show ?case by (rule drop_inv) (auto simp: ledger_Close_def)
qed (blast intro: Execute_enter_inv Execute_check_inv Execute_begin_inv Execute_start_inv Execute_return_inv
       Execute_complete_inv remember_inv Execute_resolve_inv Execute_settle_inv Open_inv recover_inv)+

lemma new_shim_inv: "shim_inv S m new_shim"
  by (simp add: shim_inv_def new_shim_def rows_ok_def)

text \<open>What every step keeps: started tools, results and answers are remembered, and terminal rows do not change.\<close>

lemma ledger_mono:
  "ledger_Begin tx k d now t = (r, t') \<Longrightarrow> table_mono t t'"
  "ledger_Complete tx k b now t = (r', t') \<Longrightarrow> table_mono t t'"
  "ledger_MarkIndeterminate tx k b now t = (r', t') \<Longrightarrow> table_mono t t'"
  "table_mono t (ledger_recoverPending b now t)"
  by (auto dest: ledger_Begin_cases intro: table_insert_mono table_settles_mono ledger_recoverPending_settles
      ledger_Complete_cases(1) ledger_MarkIndeterminate_cases(1))

lemma shim_le_refl [simp]: "shim_le s s"
  by (simp add: shim_le_def)

lemma shim_le_trans: "shim_le s t \<Longrightarrow> shim_le t u \<Longrightarrow> shim_le s u"
  unfolding shim_le_def using table_mono_trans by blast

lemma return_call_le: "return_call i c result s = (r, s') \<Longrightarrow> shim_le s s'"
  by (auto simp: return_call_def shim_le_def split: sum.splits)

lemma at_phase_le [simp]: "shim_le s (at_phase i c p s)"
  by (simp add: shim_le_def at_phase_def)

lemma with_table_le: "table_mono (sh_table s) t \<Longrightarrow> shim_le s (s\<lparr>sh_table := t\<rparr>)"
  by (simp add: shim_le_def)

lemmas shim_le_rules = shim_le_trans [OF with_table_le at_phase_le] shim_le_trans [OF with_table_le return_call_le]

lemma Execute_begin_le: "Execute_begin S tx now i c s = (r, s') \<Longrightarrow> shim_le s s'"
  by (auto simp: Execute_begin_def Let_def intro: shim_le_rules ledger_mono split: prod.splits sum.splits if_splits)

lemma Execute_complete_le: "Execute_complete S tx now i c b s = (r, s') \<Longrightarrow> shim_le s s'"
  by (auto simp: Execute_complete_def Let_def intro: shim_le_rules ledger_mono split: prod.splits sum.splits option.splits)

lemma Execute_resolve_le: "Execute_resolve tx now i c u s = (r, s') \<Longrightarrow> shim_le s s'"
  by (auto simp: Execute_resolve_def Let_def intro: shim_le_rules ledger_mono split: prod.splits sum.splits if_splits)

lemma shim_step_le: "shim_step S m s s' \<Longrightarrow> shim_le s s'"
proof (induction rule: shim_step.induct)
  case (Enter s i g request r s')
  then show ?case by (auto simp: Execute_enter_def shim_le_def split: if_splits sum.splits)
next
  case (Check s i c r s')
  then show ?case by (auto simp: Execute_check_def intro: return_call_le split: option.splits if_splits)
next
  case (Return s i c returned r s')
  then show ?case
    by (auto simp: Execute_return_def Let_def at_phase_def return_call_def shim_le_def split: sum.splits)
next
  case (Settle s i c u x r s')
  then have "shim_le (s\<lparr>sh_unsettled := sh_unsettled s'\<rparr>) s'"
    by (auto simp: Execute_settle_def Let_def return_call_def shim_le_def split: sum.splits)
  then show ?case by (auto simp: shim_le_def)
next
  case (Open now s s')
  then show ?case by (auto simp: OpenSQLiteLedger_def Let_def shim_le_def ledger_mono split: if_splits option.splits)
next
  case Begin
  then show ?case by (blast dest: Execute_begin_le)
next
  case Complete
  then show ?case by (blast dest: Execute_complete_le)
next
  case Resolve
  then show ?case by (blast dest: Execute_resolve_le)
qed (auto simp: Execute_start_def rememberUnsettledExecution_def at_phase_def ledger_Close_def process_crash_def shim_le_def ledger_mono)

interpretation caller: invariant_system "\<lambda>s. s = new_shim" "shim_step S m" "shim_inv S m" shim_le
  by unfold_locales (auto simp: new_shim_inv dest: shim_step_inv shim_step_le intro: shim_le_trans)


section \<open>A run\<close>

text \<open>
  A process opens the ledger and runs a tool, and the commit of its result fails; the retry in the same
  process answers that the outcome is indeterminate. After a crash the next process gives the same answer.
\<close>

definition W_env :: shim_env where
  "W_env = \<lparr>se_sha256 = (\<lambda>_. [1]), se_canonical = Some, se_payload = (\<lambda>_ input. input),
     se_marshal = (\<lambda>r. Some (if tr_ErrorCode r = [] then [2] else [1])),
     se_unmarshal = (\<lambda>b. Some (if b = [1] then indeterminateToolResponse
        else \<lparr>tr_Content = CText ''ok'', tr_IsError = False, tr_ErrorCode = []\<rparr>)), se_quote = (\<lambda>q. q)\<rparr>"

definition W_request :: ToolRequest where
  "W_request = \<lparr>tq_CallerID = ''caller'', tq_TaskID = ''task'', tq_ToolCallID = ''call'', tq_Name = ''human_write_file'', tq_Input = []\<rparr>"

definition W_key :: ExecutionKey where
  "W_key = \<lparr>ek_CallerID = ''caller'', ek_TaskID = ''task'', ek_ToolCallID = ''call''\<rparr>"

definition W_call :: "nat \<Rightarrow> exec_phase \<Rightarrow> exec_call" where
  "W_call g p = \<lparr>xc_gen = g, xc_key = W_key, xc_digest = ''01'', xc_name = ''human_write_file'', xc_input = [123, 125], xc_phase = p\<rparr>"

definition W_open :: unsettledExecution where
  "W_open = \<lparr>us_requestDigest = ''01'', us_indeterminatePayload = [1]\<rparr>"

definition W_settled :: Execution where
  "W_settled = \<lparr>ex_Key = W_key, ex_RequestDigest = ''01'', ex_Status = StatusIndeterminate, ex_Response = Some [1],
     ex_CreatedAt = 20, ex_CompletedAt = Some 50\<rparr>"

definition W1 :: shim where
  "W1 = the (OpenSQLiteLedger W_env 10 new_shim)"

definition W2 :: shim where
  "W2 = snd (Execute_enter W_env 1 W_request 0 W1)"

definition W3 :: shim where
  "W3 = snd (Execute_check 0 (W_call 1 Entered) W2)"

definition W4 :: shim where
  "W4 = snd (Execute_begin W_env TxCommitted 20 0 (W_call 1 Checked) W3)"

definition W5 :: shim where
  "W5 = Execute_start 0 (W_call 1 Begun) W4"

definition W6 :: shim where
  "W6 = snd (Execute_return W_env 256 (Inr (CText ''ok'')) 0 (W_call 1 Running) W5)"

definition W7 :: shim where
  "W7 = snd (Execute_complete W_env TxFailed 30 0 (W_call 1 (Ran [2])) [2] W6)"

definition W8 :: shim where
  "W8 = rememberUnsettledExecution 0 (W_call 1 (Failed W_open)) W_open W7"

definition W9 :: shim where
  "W9 = snd (Execute_resolve TxFailed 40 0 (W_call 1 (Resolving W_open)) W_open W8)"

definition W10 :: shim where
  "W10 = snd (Execute_enter W_env 1 W_request 1 W9)"

definition W11 :: shim where
  "W11 = snd (Execute_check 1 (W_call 1 Entered) W10)"

definition W12 :: shim where
  "W12 = snd (Execute_resolve TxCommitted 50 1 (W_call 1 (Resolving W_open)) W_open W11)"

definition W13 :: shim where
  "W13 = snd (Execute_settle W_env 1 (W_call 1 (Resolved W_open W_settled)) W_open W_settled W12)"

definition W14 :: shim where
  "W14 = process_crash 1 W13"

definition W15 :: shim where
  "W15 = the (OpenSQLiteLedger W_env 60 W14)"

definition W16 :: shim where
  "W16 = snd (Execute_enter W_env 2 W_request 2 W15)"

definition W17 :: shim where
  "W17 = snd (Execute_check 2 (W_call 2 Entered) W16)"

definition W18 :: shim where
  "W18 = snd (Execute_begin W_env TxCommitted 70 2 (W_call 2 Checked) W17)"

lemma shim_step_at:
  "sh_calls s i = None \<Longrightarrow> sh_live s g \<Longrightarrow> shim_step S m s (snd (Execute_enter S g request i s))"
  "sh_calls s i = Some c \<Longrightarrow> xc_phase c = Entered \<Longrightarrow> shim_step S m s (snd (Execute_check i c s))"
  "sh_calls s i = Some c \<Longrightarrow> xc_phase c = Checked \<Longrightarrow> shim_step S m s (snd (Execute_begin S tx now i c s))"
  "sh_calls s i = Some c \<Longrightarrow> xc_phase c = Begun \<Longrightarrow> shim_step S m s (Execute_start i c s)"
  "sh_calls s i = Some c \<Longrightarrow> xc_phase c = Running \<Longrightarrow> shim_step S m s (snd (Execute_return S m returned i c s))"
  "sh_calls s i = Some c \<Longrightarrow> xc_phase c = Ran b \<Longrightarrow> shim_step S m s (snd (Execute_complete S tx now i c b s))"
  "sh_calls s i = Some c \<Longrightarrow> xc_phase c = Failed u \<Longrightarrow> shim_step S m s (rememberUnsettledExecution i c u s)"
  "sh_calls s i = Some c \<Longrightarrow> xc_phase c = Resolving u \<Longrightarrow> shim_step S m s (snd (Execute_resolve tx now i c u s))"
  "sh_calls s i = Some c \<Longrightarrow> xc_phase c = Resolved u x \<Longrightarrow> shim_step S m s (snd (Execute_settle S i c u x s))"
  by (rule shim_step.Enter, assumption, assumption, rule surjective_pairing,
      rule shim_step.Check, assumption, assumption, rule surjective_pairing,
      rule shim_step.Begin, assumption, assumption, rule surjective_pairing,
      rule shim_step.Start, assumption, assumption,
      rule shim_step.Return, assumption, assumption, rule surjective_pairing,
      rule shim_step.Complete, assumption, assumption, rule surjective_pairing,
      rule shim_step.Remember, assumption, assumption,
      rule shim_step.Resolve, assumption, assumption, rule surjective_pairing,
      rule shim_step.Settle, assumption, assumption, rule surjective_pairing)

lemma shim_step_open:
  "\<not> sh_open s \<Longrightarrow> se_marshal S indeterminateToolResponse \<noteq> None \<Longrightarrow> shim_step S m s (the (OpenSQLiteLedger S now s))"
  by (auto intro: shim_step.Open simp: OpenSQLiteLedger_def)

abbreviation W_reachable :: "shim \<Rightarrow> bool" where
  "W_reachable \<equiv> reachable_from (\<lambda>s. s = new_shim) (shim_step W_env 256)"

lemma W0_reachable: "W_reachable new_shim"
  by (rule reachable_from.start) (rule refl)

lemma W1_reachable: "W_reachable W1"
  unfolding W1_def by (rule reachable_from.step [OF W0_reachable]) (rule shim_step_open; code_simp)

lemma W2_reachable: "W_reachable W2"
  unfolding W2_def by (rule reachable_from.step [OF W1_reachable]) (rule shim_step_at(1); code_simp)

lemma W3_reachable: "W_reachable W3"
  unfolding W3_def by (rule reachable_from.step [OF W2_reachable]) (rule shim_step_at(2); code_simp)

lemma W4_reachable: "W_reachable W4"
  unfolding W4_def by (rule reachable_from.step [OF W3_reachable]) (rule shim_step_at(3); code_simp)

lemma W5_reachable: "W_reachable W5"
  unfolding W5_def by (rule reachable_from.step [OF W4_reachable]) (rule shim_step_at(4); code_simp)

lemma W6_reachable: "W_reachable W6"
  unfolding W6_def by (rule reachable_from.step [OF W5_reachable]) (rule shim_step_at(5); code_simp)

lemma W7_reachable: "W_reachable W7"
  unfolding W7_def by (rule reachable_from.step [OF W6_reachable]) (rule shim_step_at(6); code_simp)

lemma W8_reachable: "W_reachable W8"
  unfolding W8_def by (rule reachable_from.step [OF W7_reachable]) (rule shim_step_at(7); code_simp)

lemma W9_reachable: "W_reachable W9"
  unfolding W9_def by (rule reachable_from.step [OF W8_reachable]) (rule shim_step_at(8); code_simp)

lemma W10_reachable: "W_reachable W10"
  unfolding W10_def by (rule reachable_from.step [OF W9_reachable]) (rule shim_step_at(1); code_simp)

lemma W11_reachable: "W_reachable W11"
  unfolding W11_def by (rule reachable_from.step [OF W10_reachable]) (rule shim_step_at(2); code_simp)

lemma W12_reachable: "W_reachable W12"
  unfolding W12_def by (rule reachable_from.step [OF W11_reachable]) (rule shim_step_at(8); code_simp)

lemma W13_reachable: "W_reachable W13"
  unfolding W13_def by (rule reachable_from.step [OF W12_reachable]) (rule shim_step_at(9); code_simp)

lemma W14_reachable: "W_reachable W14"
  unfolding W14_def by (rule reachable_from.step [OF W13_reachable]) (rule shim_step.Crash)

lemma W15_reachable: "W_reachable W15"
  unfolding W15_def by (rule reachable_from.step [OF W14_reachable]) (rule shim_step_open; code_simp)

lemma W16_reachable: "W_reachable W16"
  unfolding W16_def by (rule reachable_from.step [OF W15_reachable]) (rule shim_step_at(1); code_simp)

lemma W17_reachable: "W_reachable W17"
  unfolding W17_def by (rule reachable_from.step [OF W16_reachable]) (rule shim_step_at(2); code_simp)

lemma W18_reachable: "W_reachable W18"
  unfolding W18_def by (rule reachable_from.step [OF W17_reachable]) (rule shim_step_at(3); code_simp)


section \<open>The guarantees\<close>

lemma distinct_count_list: "distinct xs \<Longrightarrow> count_list xs x \<le> 1"
  by (induction xs) (auto simp: count_list_0_iff)

text \<open>
  C30 (safety). Whatever calls arrive, retry and interleave, however commits fail and however often the
  processes that share a ledger file crash, close their handle and restart, the tool behind a tool
  call id is started at most once; and a call that is about to start it finds it not yet started.
\<close>

theorem tool_started_at_most_once:
  assumes "reachable_from (\<lambda>s. s = new_shim) (shim_step S m) s"
  shows "count_list (sh_started s) k \<le> 1
    \<and> (\<forall>i c. sh_calls s i = Some c \<and> xc_phase c = Begun \<longrightarrow> count_list (sh_started s) (xc_key c) = 0)"
proof -
  have inv: "shim_inv S m s" by (rule caller.reachable_inv [OF assms])
  then have "distinct (sh_started s)" by (simp add: shim_inv_def)
  then have "count_list (sh_started s) k \<le> 1" by (rule distinct_count_list)
  moreover have "count_list (sh_started s) (xc_key c) = 0" if "sh_calls s i = Some c" "xc_phase c = Begun" for i c
    using call_okD [OF inv that(1)] that(2) by (simp add: call_ok_def count_list_0_iff)
  ultimately show ?thesis by blast
qed

theorem tool_started_at_most_once_witness:
  "W_reachable W18 \<and> sh_started W18 = [W_key] \<and> count_list (sh_started W18) W_key \<le> 1"
proof (intro conjI)
  show "W_reachable W18" by (rule W18_reachable)
  show "sh_started W18 = [W_key]" by code_simp
  show "count_list (sh_started W18) W_key \<le> 1"
    using tool_started_at_most_once [OF W18_reachable, of W_key] by blast
qed

text \<open>
  C35 (safety). All successful answers to a tool call id agree, within a process and across restarts,
  and were given to the same request: what is answered is either the persisted response of the one
  execution that returned, or the indeterminate response.
\<close>

theorem one_answer_per_tool_call:
  assumes "reachable_from (\<lambda>s. s = new_shim) (shim_step S m) s"
    and "(k, d, r) \<in> set (sh_answers s)" "(k, d', r') \<in> set (sh_answers s)"
  shows "d' = d \<and> r' = r \<and> (\<exists>b. se_unmarshal S b = Some r
    \<and> (se_marshal S indeterminateToolResponse = Some b
       \<or> (\<exists>name response. (k, name, response) \<in> set (sh_results s) \<and> encode_result S m name response = Inr b)))"
proof -
  have inv: "shim_inv S m s" by (rule caller.reachable_inv [OF assms(1)])
  then have ok: "answer_ok S (sh_table s) (k, d, r)" "answer_ok S (sh_table s) (k, d', r')"
    using assms(2,3) unfolding shim_inv_def list_all_iff by blast+
  then obtain row b where row: "sh_table s k = Some row" "lr_request_digest row = d" "lr_status row \<noteq> StatusPending"
      "lr_response row = Some b" "se_unmarshal S b = Some r"
    by (auto simp: answer_ok_def)
  then have "persisted_ok S m s k (lr_status row) b"
    using shim_inv_rows [OF inv] by (auto simp: rows_ok_def)
  then have "se_marshal S indeterminateToolResponse = Some b \<or> returned_as S m s k b"
    using row(3) by (cases "lr_status row") (auto simp: persisted_ok_def)
  then show ?thesis using ok(2) row by (auto simp: answer_ok_def returned_as_def)
qed

theorem one_answer_per_tool_call_witness:
  "W_reachable W18
   \<and> sh_answers W18 = [(W_key, ''01'', indeterminateToolResponse), (W_key, ''01'', indeterminateToolResponse)]
   \<and> (\<exists>b. se_unmarshal W_env b = Some indeterminateToolResponse
    \<and> (se_marshal W_env indeterminateToolResponse = Some b
       \<or> (\<exists>name response. (W_key, name, response) \<in> set (sh_results W18) \<and> encode_result W_env 256 name response = Inr b)))"
proof (intro conjI)
  show "W_reachable W18" by (rule W18_reachable)
  show answers: "sh_answers W18 = [(W_key, ''01'', indeterminateToolResponse), (W_key, ''01'', indeterminateToolResponse)]"
    by code_simp
  show "\<exists>b. se_unmarshal W_env b = Some indeterminateToolResponse
    \<and> (se_marshal W_env indeterminateToolResponse = Some b
       \<or> (\<exists>name response. (W_key, name, response) \<in> set (sh_results W18) \<and> encode_result W_env 256 name response = Inr b))"
    using one_answer_per_tool_call [OF W18_reachable, of W_key "''01''" indeterminateToolResponse "''01''" indeterminateToolResponse]
    by (simp add: answers)
qed

end
