(* ===== verification/Completion_Hub.thy ===== *)
theory Completion_Hub
  imports Human_Prelude
begin

text \<open>
  The in-memory worker hub of the completion gateway, \<^verbatim>\<open>internal/completion/hub/hub.go\<close>, with the events of
  \<^verbatim>\<open>internal/completion/event.go\<close>. Workers, sessions and deliveries are Go pointers and live in heaps
  indexed by numbers; a channel of structs that is only closed is a flag. Each definition is one section
  under \<open>Hub.mu\<close> or one channel operation, and \<open>hub_step\<close> interleaves them: publishers, the consumers of
  sessions, admissions, registrations and the dispatchers of the workers.
\<close>


section \<open>Events and assignments\<close>

datatype EventType =
    EventAccepted | EventProgress | EventFinal | EventClarification | EventToolCalls | EventRejected
  | EventExpired | EventFailed | EventUnavailable

record ToolCall =
  tc_ID :: string
  tc_Namespace :: string
  tc_Name :: string
  tc_Input :: "(string \<times> string) list"
  tc_TextInput :: "string option"

record Event =
  ev_ID :: string
  ev_Type :: EventType
  ev_WorkerID :: string
  ev_Text :: string
  ev_ToolCalls :: "ToolCall list"
  ev_ErrorCode :: string
  ev_Error :: string

definition EndsResponse :: "Event \<Rightarrow> bool" where
  "EndsResponse event \<longleftrightarrow> ev_Type event \<in> {EventFinal, EventClarification, EventToolCalls, EventRejected,
     EventExpired, EventFailed, EventUnavailable}"

text \<open>The fields of an assignment the hub reads or writes; \<open>as_Body\<close> is the rest of it.\<close>

record Assignment =
  as_CallerID :: string
  as_IdempotencyKey :: string
  as_LeaseOwner :: string
  as_Body :: string

definition session_key :: "string \<Rightarrow> string \<Rightarrow> string" where
  "session_key callerID idempotencyKey = callerID @ CHR 0x00 # idempotencyKey"

definition SessionKey :: "Assignment \<Rightarrow> string" where
  "SessionKey assignment = session_key (as_CallerID assignment) (as_IdempotencyKey assignment)"

datatype hub_error =
    ErrNoWorker | ErrCapacity | ErrReservationUsed | ErrSessionExists | ErrSessionMissing | ErrEventConflict
  | ErrWorkerOwnership | ErrWorkerConnected | ErrEventRejected | ErrHubArgument | ErrWrongWorker
  | ErrMarshalEvent | ErrContext | ErrProcessing


section \<open>State\<close>

text \<open>A delivery is committed once, with an error or with nil.\<close>

record Delivery =
  dl_Event :: Event
  dl_Session :: nat
  dl_done :: "hub_error option option"

record session =
  ss_key :: string
  ss_workerID :: string
  ss_assignment :: Assignment
  ss_events :: "nat list"
  ss_terminal :: bool
  ss_accepted :: bool
  ss_terminalPending :: bool
  ss_seen :: "string set"
  ss_inflight :: "string \<Rightarrow> nat option"
  ss_pending :: "nat set"
  ss_retired :: bool

definition newSession :: "string \<Rightarrow> Assignment \<Rightarrow> bool \<Rightarrow> session" where
  "newSession workerID assignment accepted =
     \<lparr>ss_key = SessionKey assignment, ss_workerID = workerID, ss_assignment = assignment, ss_events = [], ss_terminal = False,
      ss_accepted = accepted, ss_terminalPending = False, ss_seen = {}, ss_inflight = Map.empty, ss_pending = {},
      ss_retired = False\<rparr>"

text \<open>A queued assignment carries the session whose \<open>retired\<close> channel it selects on.\<close>

record workerState =
  ws_instanceID :: string
  ws_pending :: "(Assignment \<times> nat) list"
  ws_capacity :: nat
  ws_done :: bool
  ws_dispatching :: "(Assignment \<times> nat) option"
  ws_checked :: bool
  ws_stopped :: bool
  ws_received :: "Assignment list"

record terminalReceipt =
  rc_eventID :: string
  rc_digest :: "bytes option"
  rc_workerID :: string

record Reservation =
  rs_workerID :: string
  rs_used :: bool

datatype publish_phase = AwaitDuplicate nat | Sending nat | Sent nat

record publish_call =
  pc_session :: nat
  pc_event :: Event
  pc_phase :: publish_phase

text \<open>
  \<open>hb_processing\<close> are the deliveries a consumer has received and not yet committed, \<open>hb_log\<close> the events whose delivery a consumer committed with nil, by session; \<open>hb_known\<close> the event
  ids a session knew without a commit: those restored from the durable log, and repeated acceptances.
\<close>

record Hub =
  hb_capacity :: nat
  hb_reserved :: int
  hb_active :: int
  hb_workers :: "string \<Rightarrow> nat option"
  hb_online :: int
  hb_sessions :: "string \<Rightarrow> nat option"
  hb_retired :: "string \<Rightarrow> terminalReceipt option"
  hb_order :: "string list"
  hb_maxRetired :: nat
  hb_states :: "nat \<Rightarrow> workerState option"
  hb_heap :: "nat \<Rightarrow> session option"
  hb_deliveries :: "nat \<Rightarrow> Delivery option"
  hb_reservations :: "nat \<Rightarrow> Reservation option"
  hb_calls :: "nat \<Rightarrow> publish_call option"
  hb_processing :: "nat set"
  hb_log :: "(nat \<times> Event) list"
  hb_known :: "(nat \<times> string) list"

definition New_hub :: "int \<Rightarrow> Hub" where
  "New_hub capacity =
     (let capacity = (if capacity < 1 then 1 else nat capacity);
          maxRetired = (if capacity * 4 < 64 then 64 else capacity * 4) in
      \<lparr>hb_capacity = capacity, hb_reserved = 0, hb_active = 0, hb_workers = Map.empty, hb_online = 0,
       hb_sessions = Map.empty, hb_retired = Map.empty, hb_order = [], hb_maxRetired = maxRetired,
       hb_states = Map.empty, hb_heap = Map.empty, hb_deliveries = Map.empty, hb_reservations = Map.empty,
       hb_calls = Map.empty, hb_processing = {}, hb_log = [], hb_known = []\<rparr>)"

definition Snapshot :: "Hub \<Rightarrow> int \<times> bool" where
  "Snapshot hub = (hb_online hub, hb_online hub > 0)"


section \<open>Worker queues\<close>

definition session_retired :: "Hub \<Rightarrow> nat \<Rightarrow> bool" where
  "session_retired hub sid = (case hb_heap hub sid of None \<Rightarrow> True | Some s \<Rightarrow> ss_retired s)"

definition newWorkerState :: "nat \<Rightarrow> string \<Rightarrow> workerState" where
  "newWorkerState capacity instanceID =
     \<lparr>ws_instanceID = instanceID, ws_pending = [], ws_capacity = capacity, ws_done = False, ws_dispatching = None,
      ws_checked = False, ws_stopped = False, ws_received = []\<rparr>"

definition enqueue :: "Hub \<Rightarrow> Assignment \<Rightarrow> nat \<Rightarrow> workerState \<Rightarrow> bool \<times> workerState" where
  "enqueue hub assignment sid state =
     (if ws_done state then (False, state)
      else
        (let kept = filter (\<lambda>(_, q). \<not> session_retired hub q) (ws_pending state); state = state\<lparr>ws_pending := kept\<rparr> in
         if length kept \<ge> ws_capacity state then (False, state)
         else (True, state\<lparr>ws_pending := kept @ [(assignment, sid)]\<rparr>)))"

definition ensureCapacity :: "nat \<Rightarrow> workerState \<Rightarrow> workerState" where
  "ensureCapacity capacity state = (if capacity > ws_capacity state then state\<lparr>ws_capacity := capacity\<rparr> else state)"

text \<open>
  The goroutine \<open>dispatch\<close>: \<open>next\<close> takes the first entry; a first select drops it when its session retired, the
  second one hands it over, drops it, or ends the dispatcher when the worker closed.
\<close>

definition dispatch_next :: "nat \<Rightarrow> Hub \<Rightarrow> Hub option" where
  "dispatch_next wid hub =
     (case hb_states hub wid of
        None \<Rightarrow> None
      | Some state \<Rightarrow>
          (case (ws_dispatching state, ws_pending state) of
             (None, queued # rest) \<Rightarrow>
               if ws_stopped state then None
               else Some (hub\<lparr>hb_states := (hb_states hub)(wid \<mapsto>
                 state\<lparr>ws_dispatching := Some queued, ws_checked := False, ws_pending := rest\<rparr>)\<rparr>)
           | _ \<Rightarrow> None))"

definition dispatch_check :: "nat \<Rightarrow> Hub \<Rightarrow> Hub option" where
  "dispatch_check wid hub =
     (case hb_states hub wid of
        None \<Rightarrow> None
      | Some state \<Rightarrow>
          (case ws_dispatching state of
             None \<Rightarrow> None
           | Some (assignment, sid) \<Rightarrow>
               if ws_checked state then None
               else Some (hub\<lparr>hb_states := (hb_states hub)(wid \<mapsto>
                 (if session_retired hub sid then state\<lparr>ws_dispatching := None\<rparr> else state\<lparr>ws_checked := True\<rparr>))\<rparr>)))"

definition dispatch_send :: "nat \<Rightarrow> Hub \<Rightarrow> Hub option" where
  "dispatch_send wid hub =
     (case hb_states hub wid of
        None \<Rightarrow> None
      | Some state \<Rightarrow>
          (case ws_dispatching state of
             None \<Rightarrow> None
           | Some (assignment, sid) \<Rightarrow>
               if ws_checked state
               then Some (hub\<lparr>hb_states := (hb_states hub)(wid \<mapsto>
                 state\<lparr>ws_dispatching := None, ws_received := assignment # ws_received state\<rparr>)\<rparr>) else None))"

definition dispatch_drop :: "nat \<Rightarrow> Hub \<Rightarrow> Hub option" where
  "dispatch_drop wid hub =
     (case hb_states hub wid of
        None \<Rightarrow> None
      | Some state \<Rightarrow>
          (case ws_dispatching state of
             None \<Rightarrow> None
           | Some (assignment, sid) \<Rightarrow>
               if ws_checked state \<and> session_retired hub sid
               then Some (hub\<lparr>hb_states := (hb_states hub)(wid \<mapsto> state\<lparr>ws_dispatching := None\<rparr>)\<rparr>) else None))"

definition dispatch_stop :: "nat \<Rightarrow> Hub \<Rightarrow> Hub option" where
  "dispatch_stop wid hub =
     (case hb_states hub wid of
        None \<Rightarrow> None
      | Some state \<Rightarrow>
          if ws_done state \<and> (if ws_dispatching state = None then ws_pending state = [] else ws_checked state)
          then Some (hub\<lparr>hb_states := (hb_states hub)(wid \<mapsto> state\<lparr>ws_dispatching := None, ws_stopped := True\<rparr>)\<rparr>) else None)"

definition close_worker :: "nat \<Rightarrow> Hub \<Rightarrow> Hub" where
  "close_worker wid hub =
     (case hb_states hub wid of
        None \<Rightarrow> hub | Some state \<Rightarrow> hub\<lparr>hb_states := (hb_states hub)(wid \<mapsto> state\<lparr>ws_done := True\<rparr>)\<rparr>)"


section \<open>Workers and admission\<close>

definition chooseWorker :: "string list \<Rightarrow> string \<Rightarrow> Hub \<Rightarrow> hub_error + string" where
  "chooseWorker ids preferred hub =
     (if preferred \<noteq> [] then (if hb_workers hub preferred = None then Inl ErrNoWorker else Inr preferred)
      else (case sort_Slice (<) ids of [] \<Rightarrow> Inl ErrNoWorker | w # _ \<Rightarrow> Inr w))"

text \<open>
  The loop of \<open>RegisterInstance\<close> over the sessions in the order the map iteration yields: unowned
  sessions become the worker's, and all its sessions are queued.
\<close>

fun adopt_sessions :: "string \<Rightarrow> nat \<Rightarrow> nat list \<Rightarrow> Hub \<Rightarrow> bool \<times> Hub" where
  "adopt_sessions workerID wid [] hub = (True, hub)"
| "adopt_sessions workerID wid (sid # sids) hub =
     (case hb_heap hub sid of
        None \<Rightarrow> adopt_sessions workerID wid sids hub
      | Some active \<Rightarrow>
          (let active' = (if ss_workerID active = [] \<and> \<not> ss_terminal active
                 then active\<lparr>ss_workerID := workerID, ss_assignment := (ss_assignment active)\<lparr>as_LeaseOwner := workerID\<rparr>\<rparr>
                 else active);
               hub' = hub\<lparr>hb_heap := (hb_heap hub)(sid \<mapsto> active')\<rparr> in
           if ss_workerID active' = workerID \<and> \<not> ss_terminal active' then
             (case hb_states hub' wid of
                None \<Rightarrow> (False, hub')
              | Some state \<Rightarrow>
                  (case enqueue hub' (ss_assignment active') sid state of
                     (queued, state') \<Rightarrow>
                       (let hub'' = hub'\<lparr>hb_states := (hb_states hub')(wid \<mapsto> state')\<rparr> in
                        if queued then adopt_sessions workerID wid sids hub'' else (False, hub''))))
           else adopt_sessions workerID wid sids hub'))"

definition RegisterInstance :: "string \<Rightarrow> string \<Rightarrow> nat \<Rightarrow> nat list \<Rightarrow> Hub \<Rightarrow> (hub_error + nat) \<times> Hub" where
  "RegisterInstance workerID instanceID wid sids hub =
     (if workerID = [] then (Inl ErrHubArgument, hub)
      else if \<not> match_stable instanceID then (Inl ErrHubArgument, hub)
      else
        (let previous = hb_workers hub workerID in
         if (case previous of None \<Rightarrow> False | Some p \<Rightarrow>
               map_option ws_instanceID (hb_states hub p) \<noteq> Some instanceID) then (Inl ErrWorkerConnected, hub)
         else
           (let state = newWorkerState (max (hb_capacity hub) (nat (hb_active hub))) instanceID;
                hub' = hub\<lparr>hb_states := (hb_states hub)(wid \<mapsto> state), hb_workers := (hb_workers hub)(workerID \<mapsto> wid)\<rparr> in
            case adopt_sessions workerID wid sids hub' of
              (True, hub'') \<Rightarrow>
                (Inr wid, (case previous of
                   Some p \<Rightarrow> close_worker p hub'' | None \<Rightarrow> hub''\<lparr>hb_online := hb_online hub'' + 1\<rparr>))
            | (False, hub'') \<Rightarrow>
                (Inl ErrNoWorker, close_worker wid (hub''\<lparr>hb_workers := (hb_workers hub'')(workerID := previous)\<rparr>)))))"

definition unregister :: "string \<Rightarrow> nat \<Rightarrow> Hub \<Rightarrow> Hub" where
  "unregister workerID registered hub =
     (if hb_workers hub workerID \<noteq> Some registered then close_worker registered hub
      else close_worker registered (hub\<lparr>hb_workers := (hb_workers hub)(workerID := None), hb_online := hb_online hub - 1\<rparr>))"

definition Reserve :: "string list \<Rightarrow> string \<Rightarrow> nat \<Rightarrow> Hub \<Rightarrow> (hub_error + nat) \<times> Hub" where
  "Reserve ids preferredWorker rid hub =
     (case chooseWorker ids preferredWorker hub of
        Inl e \<Rightarrow> (Inl e, hub)
      | Inr workerID \<Rightarrow>
          if hb_active hub + hb_reserved hub \<ge> int (hb_capacity hub) then (Inl ErrCapacity, hub)
          else (Inr rid, hub\<lparr>hb_reserved := hb_reserved hub + 1,
                 hb_reservations := (hb_reservations hub)(rid \<mapsto> \<lparr>rs_workerID = workerID, rs_used = False\<rparr>)\<rparr>))"

definition use_reservation :: "nat \<Rightarrow> Reservation \<Rightarrow> Hub \<Rightarrow> Hub" where
  "use_reservation rid r hub =
     hub\<lparr>hb_reservations := (hb_reservations hub)(rid \<mapsto> r\<lparr>rs_used := True\<rparr>), hb_reserved := hb_reserved hub - 1\<rparr>"

definition Reservation_Release :: "nat \<Rightarrow> Reservation \<Rightarrow> Hub \<Rightarrow> Hub" where
  "Reservation_Release rid r hub = (if rs_used r then hub else use_reservation rid r hub)"

text \<open>\<open>Commit\<close> keeps the first outcome; retirement commits every pending delivery of the session.\<close>

definition commit_delivery :: "hub_error option \<Rightarrow> Delivery \<Rightarrow> Delivery" where
  "commit_delivery err d = (if dl_done d = None then d\<lparr>dl_done := Some err\<rparr> else d)"

definition retireSessionLocked :: "string \<Rightarrow> nat \<Rightarrow> hub_error \<Rightarrow> Hub \<Rightarrow> Hub" where
  "retireSessionLocked key sid err hub =
     (case hb_heap hub sid of
        None \<Rightarrow> hub
      | Some active \<Rightarrow>
          if hb_sessions hub key \<noteq> Some sid \<or> ss_terminal active then hub
          else hub\<lparr>hb_heap := (hb_heap hub)(sid \<mapsto> active\<lparr>ss_terminal := True, ss_terminalPending := False, ss_retired := True\<rparr>),
                   hb_sessions := (hb_sessions hub)(key := None), hb_active := hb_active hub - 1,
                   hb_deliveries := (\<lambda>d. if d \<in> ss_pending active then map_option (commit_delivery (Some err)) (hb_deliveries hub d)
                                         else hb_deliveries hub d)\<rparr>)"

definition add_session :: "nat \<Rightarrow> session \<Rightarrow> Hub \<Rightarrow> Hub" where
  "add_session sid s hub =
     hub\<lparr>hb_heap := (hb_heap hub)(sid \<mapsto> s), hb_sessions := (hb_sessions hub)(ss_key s \<mapsto> sid), hb_active := hb_active hub + 1\<rparr>"

text \<open>The end of \<open>Enqueue\<close> and \<open>Restore\<close>: the new session is queued for its worker, or retired again.\<close>

definition queue_session :: "nat \<Rightarrow> session \<Rightarrow> nat \<Rightarrow> workerState \<Rightarrow> Hub \<Rightarrow> (hub_error + nat) \<times> Hub" where
  "queue_session sid s wid state hub =
     (case enqueue hub (ss_assignment s) sid state of
        (queued, state') \<Rightarrow>
          (let hub' = hub\<lparr>hb_states := (hb_states hub)(wid \<mapsto> state')\<rparr> in
           if queued then (Inr sid, hub') else (Inl ErrNoWorker, retireSessionLocked (ss_key s) sid ErrNoWorker hub')))"

definition Reservation_Enqueue :: "nat \<Rightarrow> Reservation \<Rightarrow> Assignment \<Rightarrow> nat \<Rightarrow> Hub \<Rightarrow> (hub_error + nat) \<times> Hub" where
  "Reservation_Enqueue rid r assignment sid hub =
     (if rs_used r then (Inl ErrReservationUsed, hub)
      else
        (let hub = use_reservation rid r hub in
         case hb_workers hub (rs_workerID r) of
           None \<Rightarrow> (Inl ErrNoWorker, hub)
         | Some wid \<Rightarrow>
             if hb_sessions hub (SessionKey assignment) \<noteq> None \<or> hb_retired hub (SessionKey assignment) \<noteq> None
             then (Inl ErrSessionExists, hub)
             else
               (let s = newSession (rs_workerID r) (assignment\<lparr>as_LeaseOwner := rs_workerID r\<rparr>) False;
                    hub = add_session sid s hub in
                case hb_states hub wid of
                  None \<Rightarrow> (Inl ErrNoWorker, retireSessionLocked (ss_key s) sid ErrNoWorker hub)
                | Some state \<Rightarrow> queue_session sid s wid state hub)))"

record RestoreOptions =
  ro_WorkerID :: string
  ro_Accepted :: bool
  ro_SeenEventIDs :: "string list"

definition Restore :: "string list \<Rightarrow> Assignment \<Rightarrow> RestoreOptions \<Rightarrow> nat \<Rightarrow> Hub \<Rightarrow> (hub_error + nat) \<times> Hub" where
  "Restore ids assignment options sid hub =
     (if hb_sessions hub (SessionKey assignment) \<noteq> None \<or> hb_retired hub (SessionKey assignment) \<noteq> None
      then (Inl ErrSessionExists, hub)
      else
        (case (if ro_WorkerID options = [] \<and> ids \<noteq> [] then chooseWorker ids [] hub else Inr (ro_WorkerID options)) of
           Inl e \<Rightarrow> (Inl e, hub)
         | Inr workerID \<Rightarrow>
             (let seen = filter (\<lambda>q. q \<noteq> []) (ro_SeenEventIDs options);
                  s = (newSession workerID (assignment\<lparr>as_LeaseOwner := workerID\<rparr>) (ro_Accepted options))\<lparr>ss_seen := set seen\<rparr>;
                  hub = (add_session sid s hub)\<lparr>hb_known := map (\<lambda>q. (sid, q)) seen @ hb_known hub\<rparr> in
              case hb_workers hub workerID of
                None \<Rightarrow> (Inr sid, hub)
              | Some wid \<Rightarrow>
                  (case hb_states hub wid of
                     None \<Rightarrow> (Inr sid, hub)
                   | Some state \<Rightarrow> queue_session sid s wid (ensureCapacity (nat (hb_active hub)) state) hub))))"


section \<open>Publishing\<close>

definition AuthorizePublisher :: "string \<Rightarrow> string \<Rightarrow> string \<Rightarrow> Hub \<Rightarrow> hub_error + unit" where
  "AuthorizePublisher workerID callerID idempotencyKey hub =
     (if workerID = [] then Inl ErrWorkerOwnership
      else
        (let key = session_key callerID idempotencyKey in
         case hb_sessions hub key of
           Some sid \<Rightarrow>
             if map_option ss_workerID (hb_heap hub sid) \<noteq> Some workerID then Inl ErrWorkerOwnership else Inr ()
         | None \<Rightarrow>
             (case hb_retired hub key of
                Some receipt \<Rightarrow> if rc_workerID receipt \<noteq> workerID then Inl ErrWorkerOwnership else Inr ()
              | None \<Rightarrow> Inl ErrSessionMissing)))"

text \<open>\<open>terminalEventDigest\<close> is the argument \<open>D\<close>: SHA-256 of the JSON text, None when it cannot be encoded.\<close>

type_synonym event_digest = "Event \<Rightarrow> bytes option"

definition publish_missing :: "event_digest \<Rightarrow> string \<Rightarrow> string \<Rightarrow> Event \<Rightarrow> Hub \<Rightarrow> hub_error option" where
  "publish_missing D workerID key event hub =
     (case hb_retired hub key of
        None \<Rightarrow> Some ErrSessionMissing
      | Some receipt \<Rightarrow>
          if workerID \<noteq> [] \<and> workerID \<noteq> rc_workerID receipt then Some ErrWorkerOwnership
          else if ev_ID event \<noteq> [] \<and> ev_ID event = rc_eventID receipt then
            (case D event of
               None \<Rightarrow> Some ErrMarshalEvent
             | Some digest \<Rightarrow> if Some digest \<noteq> rc_digest receipt then Some ErrEventConflict else None)
          else Some ErrSessionMissing)"

text \<open>The worker an acceptance is attributed to.\<close>

definition accepted_event :: "string \<Rightarrow> session \<Rightarrow> Event \<Rightarrow> hub_error + Event" where
  "accepted_event workerID active event =
     (if ev_Type event \<noteq> EventAccepted then Inr event
      else if workerID \<noteq> [] then Inr (event\<lparr>ev_WorkerID := workerID\<rparr>)
      else if ev_WorkerID event = [] then Inr (event\<lparr>ev_WorkerID := ss_workerID active\<rparr>)
      else if ev_WorkerID event \<noteq> ss_workerID active then Inl ErrWrongWorker
      else Inr event)"

definition put_session :: "nat \<Rightarrow> session \<Rightarrow> Hub \<Rightarrow> Hub" where
  "put_session sid s hub = hub\<lparr>hb_heap := (hb_heap hub)(sid \<mapsto> s)\<rparr>"

definition put_call :: "nat \<Rightarrow> publish_call \<Rightarrow> Hub \<Rightarrow> Hub" where
  "put_call i c hub = hub\<lparr>hb_calls := (hb_calls hub)(i \<mapsto> c)\<rparr>"

text \<open>
  The first section of \<open>publish\<close>: an immediate result (\<open>Some None\<close> is nil), or the wait for a delivery of
  the same event id, or a new delivery with number \<open>did\<close>.
\<close>

definition publish_active ::
    "string \<Rightarrow> Event \<Rightarrow> nat \<Rightarrow> session \<Rightarrow> nat \<Rightarrow> nat \<Rightarrow> Hub \<Rightarrow> hub_error option option \<times> Hub" where
  "publish_active workerID event sid active did i hub =
     (if workerID \<noteq> [] \<and> workerID \<noteq> ss_workerID active then (Some (Some ErrWorkerOwnership), hub)
      else if ev_ID event \<noteq> [] \<and> ev_ID event \<in> ss_seen active then (Some None, hub)
      else case (if ev_ID event \<noteq> [] then ss_inflight active (ev_ID event) else None) of
        Some pending \<Rightarrow>
          (None, put_call i \<lparr>pc_session = sid, pc_event = event, pc_phase = AwaitDuplicate pending\<rparr> hub)
      | None \<Rightarrow>
          if ss_terminal active \<or> ss_terminalPending active then (Some (Some ErrSessionMissing), hub)
          else case accepted_event workerID active event of
            Inl e \<Rightarrow> (Some (Some e), hub)
          | Inr event \<Rightarrow>
              if ev_Type event = EventAccepted \<and> ss_accepted active then
                (if ev_ID event \<noteq> []
                 then (Some None, (put_session sid (active\<lparr>ss_seen := insert (ev_ID event) (ss_seen active)\<rparr>) hub)
                        \<lparr>hb_known := (sid, ev_ID event) # hb_known hub\<rparr>)
                 else (Some None, hub))
              else
                (let active = active\<lparr>ss_terminalPending := (ss_terminalPending active \<or> EndsResponse event),
                       ss_pending := insert did (ss_pending active),
                       ss_inflight := (if ev_ID event \<noteq> [] then (ss_inflight active)(ev_ID event \<mapsto> did) else ss_inflight active)\<rparr>;
                     hub = put_session sid active
                       (hub\<lparr>hb_deliveries := (hb_deliveries hub)(did \<mapsto> \<lparr>dl_Event = event, dl_Session = sid, dl_done = None\<rparr>)\<rparr>) in
                 (None, put_call i \<lparr>pc_session = sid, pc_event = event, pc_phase = Sending did\<rparr> hub)))"

definition publish_enter ::
    "event_digest \<Rightarrow> string \<Rightarrow> string \<Rightarrow> string \<Rightarrow> Event \<Rightarrow> nat \<Rightarrow> nat \<Rightarrow> Hub \<Rightarrow> hub_error option option \<times> Hub" where
  "publish_enter D workerID callerID idempotencyKey event did i hub =
     (let key = session_key callerID idempotencyKey in
      case hb_sessions hub key of
        None \<Rightarrow> (Some (publish_missing D workerID key event hub), hub)
      | Some sid \<Rightarrow>
          (case hb_heap hub sid of
             None \<Rightarrow> (Some (Some ErrSessionMissing), hub)
           | Some active \<Rightarrow> publish_active workerID event sid active did i hub))"

definition PublishFrom ::
    "event_digest \<Rightarrow> string \<Rightarrow> string \<Rightarrow> string \<Rightarrow> Event \<Rightarrow> nat \<Rightarrow> nat \<Rightarrow> Hub \<Rightarrow> hub_error option option \<times> Hub" where
  "PublishFrom D workerID callerID idempotencyKey event did i hub =
     (if workerID = [] then (Some (Some ErrWorkerOwnership), hub)
      else publish_enter D workerID callerID idempotencyKey event did i hub)"

text \<open>The select of a publisher: the channel of 32 takes the delivery, the session retired, or the context ended.\<close>

definition publish_send :: "nat \<Rightarrow> publish_call \<Rightarrow> nat \<Rightarrow> Hub \<Rightarrow> Hub option" where
  "publish_send i c did hub =
     (case hb_heap hub (pc_session c) of
        None \<Rightarrow> None
      | Some active \<Rightarrow>
          if length (ss_events active) < 32
          then Some (put_call i (c\<lparr>pc_phase := Sent did\<rparr>)
                 (put_session (pc_session c) (active\<lparr>ss_events := ss_events active @ [did]\<rparr>) hub))
          else None)"

definition publish_retired :: "nat \<Rightarrow> publish_call \<Rightarrow> nat \<Rightarrow> Hub \<Rightarrow> Hub option" where
  "publish_retired i c did hub =
     (if session_retired hub (pc_session c) then Some (put_call i (c\<lparr>pc_phase := Sent did\<rparr>) hub) else None)"

definition commit :: "nat \<Rightarrow> hub_error option \<Rightarrow> Hub \<Rightarrow> Hub" where
  "commit did err hub = hub\<lparr>hb_deliveries := (hb_deliveries hub)(did := map_option (commit_delivery err) (hb_deliveries hub did))\<rparr>"

definition publish_canceled :: "nat \<Rightarrow> publish_call \<Rightarrow> nat \<Rightarrow> Hub \<Rightarrow> Hub" where
  "publish_canceled i c did hub = put_call i (c\<lparr>pc_phase := Sent did\<rparr>) (commit did (Some ErrContext) hub)"

definition evict_retired :: "Hub \<Rightarrow> Hub" where
  "evict_retired hub =
     (if length (hb_order hub) > hb_maxRetired hub
      then hub\<lparr>hb_order := drop (length (hb_order hub) - hb_maxRetired hub) (hb_order hub),
               hb_retired := (\<lambda>k. if k \<in> set (take (length (hb_order hub) - hb_maxRetired hub) (hb_order hub))
                                  then None else hb_retired hub k)\<rparr>
      else hub)"

definition put_receipt :: "string \<Rightarrow> terminalReceipt \<Rightarrow> Hub \<Rightarrow> Hub" where
  "put_receipt key receipt hub =
     (if hb_retired hub key \<noteq> None then hub\<lparr>hb_retired := (hb_retired hub)(key \<mapsto> receipt)\<rparr>
      else evict_retired (hub\<lparr>hb_retired := (hb_retired hub)(key \<mapsto> receipt), hb_order := hb_order hub @ [key]\<rparr>))"

definition rememberTerminal :: "event_digest \<Rightarrow> string \<Rightarrow> string \<Rightarrow> Event \<Rightarrow> Hub \<Rightarrow> Hub" where
  "rememberTerminal D key workerID event hub =
     (if ev_ID event = [] then hub
      else case D event of
        None \<Rightarrow> hub
      | Some digest \<Rightarrow> put_receipt key \<lparr>rc_eventID = ev_ID event, rc_digest = Some digest, rc_workerID = workerID\<rparr> hub)"

definition rememberRetiredOwner :: "string \<Rightarrow> string \<Rightarrow> Hub \<Rightarrow> Hub" where
  "rememberRetiredOwner key workerID hub =
     (if hb_retired hub key \<noteq> None then hub
      else put_receipt key \<lparr>rc_eventID = [], rc_digest = None, rc_workerID = workerID\<rparr> hub)"

text \<open>The last section of \<open>publish\<close>, once the delivery is committed with \<open>err\<close>.\<close>

definition settle_session :: "nat \<Rightarrow> Event \<Rightarrow> hub_error option \<Rightarrow> session \<Rightarrow> session" where
  "settle_session did event err active =
     active\<lparr>ss_pending := ss_pending active - {did},
            ss_inflight := (if ev_ID event \<noteq> [] \<and> ss_inflight active (ev_ID event) = Some did
                            then (ss_inflight active)(ev_ID event := None) else ss_inflight active),
            ss_seen := (if ev_ID event \<noteq> [] \<and> err = None then insert (ev_ID event) (ss_seen active) else ss_seen active)\<rparr>"

definition publish_finish ::
    "event_digest \<Rightarrow> nat \<Rightarrow> publish_call \<Rightarrow> nat \<Rightarrow> hub_error option \<Rightarrow> session \<Rightarrow> Hub \<Rightarrow> hub_error option \<times> Hub" where
  "publish_finish D i c did err active hub =
     (let event = pc_event c; sid = pc_session c; key = ss_key active; terminal = EndsResponse event;
          hub = hub\<lparr>hb_calls := (hb_calls hub)(i := None)\<rparr>;
          active = settle_session did event err active;
          current = (hb_sessions hub key = Some sid \<and> \<not> ss_terminal active) in
      if err \<noteq> None then
        (err, put_session sid (if terminal \<and> current then active\<lparr>ss_terminalPending := False\<rparr> else active) hub)
      else
        (let active = (if ev_Type event = EventAccepted then active\<lparr>ss_accepted := True\<rparr> else active);
             active = (if terminal then active\<lparr>ss_terminalPending := False\<rparr> else active);
             hub = put_session sid active hub in
         if terminal then
           (None, rememberTerminal D key (ss_workerID active) event
              (if current then retireSessionLocked key sid ErrSessionMissing hub else hub))
         else (None, hub)))"

definition Abort :: "string \<Rightarrow> string \<Rightarrow> Hub \<Rightarrow> hub_error option \<times> Hub" where
  "Abort callerID idempotencyKey hub =
     (let key = session_key callerID idempotencyKey in
      case hb_sessions hub key of
        None \<Rightarrow> (Some ErrSessionMissing, hub)
      | Some sid \<Rightarrow>
          (case hb_heap hub sid of
             None \<Rightarrow> (Some ErrSessionMissing, hub)
           | Some s \<Rightarrow>
               if ss_terminal s then (Some ErrSessionMissing, hub)
               else (None, rememberRetiredOwner key (ss_workerID s) (retireSessionLocked key sid ErrSessionMissing hub))))"

text \<open>The consumer of a session receives a delivery and commits it after processing it.\<close>

definition consumer_receive :: "nat \<Rightarrow> Hub \<Rightarrow> (nat \<times> Hub) option" where
  "consumer_receive sid hub =
     (case hb_heap hub sid of
        None \<Rightarrow> None
      | Some active \<Rightarrow>
          (case ss_events active of
             [] \<Rightarrow> None
           | did # rest \<Rightarrow> Some (did, (put_session sid (active\<lparr>ss_events := rest\<rparr>) hub)\<lparr>hb_processing := insert did (hb_processing hub)\<rparr>)))"

definition consumer_commit :: "nat \<Rightarrow> hub_error option \<Rightarrow> Hub \<Rightarrow> Hub" where
  "consumer_commit did err hub =
     (case hb_deliveries hub did of
        None \<Rightarrow> hub
      | Some d \<Rightarrow>
          (let hub' = (commit did err hub)\<lparr>hb_processing := hb_processing hub - {did}\<rparr> in
           if dl_done d = None \<and> err = None then hub'\<lparr>hb_log := (dl_Session d, dl_Event d) # hb_log hub\<rparr> else hub'))"


section \<open>Steps\<close>

text \<open>The returns of \<open>publish\<close> to its caller, by session key and event; None is nil.\<close>

inductive publish_returns :: "event_digest \<Rightarrow> Hub \<Rightarrow> string \<Rightarrow> Event \<Rightarrow> hub_error option \<Rightarrow> Hub \<Rightarrow> bool" for D where
  Immediate: "hb_calls hub i = None \<Longrightarrow> hb_deliveries hub did = None \<Longrightarrow>
    publish_enter D workerID callerID idempotencyKey event did i hub = (Some err, hub') \<Longrightarrow>
    publish_returns D hub (session_key callerID idempotencyKey) event err hub'"
| Duplicate: "hb_calls hub i = Some c \<Longrightarrow> pc_phase c = AwaitDuplicate d \<Longrightarrow> hb_deliveries hub d = Some dl \<Longrightarrow>
    dl_done dl = Some err \<Longrightarrow> hb_heap hub (pc_session c) = Some active \<Longrightarrow>
    publish_returns D hub (ss_key active) (pc_event c) err (hub\<lparr>hb_calls := (hb_calls hub)(i := None)\<rparr>)"
| Finished: "hb_calls hub i = Some c \<Longrightarrow> pc_phase c = Sent d \<Longrightarrow> hb_deliveries hub d = Some dl \<Longrightarrow>
    dl_done dl = Some done_err \<Longrightarrow> hb_heap hub (pc_session c) = Some active \<Longrightarrow>
    publish_finish D i c d done_err active hub = (err, hub') \<Longrightarrow>
    publish_returns D hub (ss_key active) (pc_event c) err hub'"

inductive hub_step :: "event_digest \<Rightarrow> Hub \<Rightarrow> Hub \<Rightarrow> bool" for D where
  Register: "hb_states hub wid = None \<Longrightarrow> distinct sids \<Longrightarrow> set sids = ran (hb_sessions hub) \<Longrightarrow>
    RegisterInstance workerID instanceID wid sids hub = (r, hub') \<Longrightarrow> hub_step D hub hub'"
| Unregister: "hub_step D hub (unregister workerID wid hub)"
| Reserve: "hb_reservations hub rid = None \<Longrightarrow> distinct ids \<Longrightarrow> set ids = dom (hb_workers hub) \<Longrightarrow>
    Reserve ids preferred rid hub = (r, hub') \<Longrightarrow> hub_step D hub hub'"
| Release: "hb_reservations hub rid = Some r \<Longrightarrow> hub_step D hub (Reservation_Release rid r hub)"
| Enqueue: "hb_reservations hub rid = Some r \<Longrightarrow> hb_heap hub sid = None \<Longrightarrow>
    Reservation_Enqueue rid r assignment sid hub = (q, hub') \<Longrightarrow> hub_step D hub hub'"
| Restore: "hb_heap hub sid = None \<Longrightarrow> distinct ids \<Longrightarrow> set ids = dom (hb_workers hub) \<Longrightarrow>
    Restore ids assignment options sid hub = (q, hub') \<Longrightarrow> hub_step D hub hub'"
| Publish: "hb_calls hub i = None \<Longrightarrow> hb_deliveries hub did = None \<Longrightarrow>
    publish_enter D workerID callerID idempotencyKey event did i hub = (None, hub') \<Longrightarrow> hub_step D hub hub'"
| Send: "hb_calls hub i = Some c \<Longrightarrow> pc_phase c = Sending d \<Longrightarrow> publish_send i c d hub = Some hub' \<Longrightarrow> hub_step D hub hub'"
| Retired: "hb_calls hub i = Some c \<Longrightarrow> pc_phase c = Sending d \<Longrightarrow> publish_retired i c d hub = Some hub' \<Longrightarrow> hub_step D hub hub'"
| Canceled: "hb_calls hub i = Some c \<Longrightarrow> pc_phase c = Sending d \<Longrightarrow> hub_step D hub (publish_canceled i c d hub)"
| Returned: "publish_returns D hub key event err hub' \<Longrightarrow> hub_step D hub hub'"
| Abort: "Abort callerID idempotencyKey hub = (r, hub') \<Longrightarrow> hub_step D hub hub'"
| Receive: "consumer_receive sid hub = Some (d, hub') \<Longrightarrow> hub_step D hub hub'"
| Commit: "d \<in> hb_processing hub \<Longrightarrow> hub_step D hub (consumer_commit d err hub)"
| Next: "dispatch_next wid hub = Some hub' \<Longrightarrow> hub_step D hub hub'"
| Handover: "dispatch_send wid hub = Some hub' \<Longrightarrow> hub_step D hub hub'"
| Check: "dispatch_check wid hub = Some hub' \<Longrightarrow> hub_step D hub hub'"
| Drop: "dispatch_drop wid hub = Some hub' \<Longrightarrow> hub_step D hub hub'"
| Stop: "dispatch_stop wid hub = Some hub' \<Longrightarrow> hub_step D hub hub'"

end
