(* ===== verification/Hub_Invariant.thy ===== *)
theory Hub_Invariant
  imports Completion_Hub
begin

text \<open>
  The invariant of the hub in two parts: \<open>hub_acct\<close>, what the counters and tables count, and \<open>hub_pub\<close>, how
  deliveries, publishers, the consumer's log and the receipts belong together. Each is kept by the
  operations the sections are made of (adding and retiring a session, receipts, commits), and the steps
  are compositions of them.
\<close>


section \<open>Accounting\<close>

definition sessions_ok :: "Hub \<Rightarrow> bool" where
  "sessions_ok hub \<longleftrightarrow>
     (\<forall>k sid. hb_sessions hub k = Some sid \<longrightarrow> (\<exists>s. hb_heap hub sid = Some s \<and> ss_key s = k \<and> \<not> ss_terminal s))
     \<and> (\<forall>sid s. hb_heap hub sid = Some s \<longrightarrow> \<not> ss_terminal s \<longrightarrow> hb_sessions hub (ss_key s) = Some sid)
     \<and> (\<forall>sid s. hb_heap hub sid = Some s \<longrightarrow> ss_retired s = ss_terminal s)"

lemma sessions_okD:
  "sessions_ok hub \<Longrightarrow> hb_sessions hub k = Some sid \<Longrightarrow> \<exists>s. hb_heap hub sid = Some s \<and> ss_key s = k \<and> \<not> ss_terminal s"
  "sessions_ok hub \<Longrightarrow> hb_heap hub sid = Some s \<Longrightarrow> \<not> ss_terminal s \<Longrightarrow> hb_sessions hub (ss_key s) = Some sid"
  "sessions_ok hub \<Longrightarrow> hb_heap hub sid = Some s \<Longrightarrow> ss_retired s = ss_terminal s"
  unfolding sessions_ok_def by blast+

definition open_reservations :: "Hub \<Rightarrow> nat set" where
  "open_reservations hub = {rid. \<exists>r. hb_reservations hub rid = Some r \<and> \<not> rs_used r}"

definition order_ok :: "Hub \<Rightarrow> bool" where
  "order_ok hub \<longleftrightarrow> distinct (hb_order hub) \<and> set (hb_order hub) = dom (hb_retired hub)
     \<and> length (hb_order hub) \<le> hb_maxRetired hub"

definition counts_ok :: "Hub \<Rightarrow> bool" where
  "counts_ok hub \<longleftrightarrow>
     finite (dom (hb_sessions hub)) \<and> hb_active hub = int (card (dom (hb_sessions hub)))
     \<and> finite (open_reservations hub) \<and> hb_reserved hub = int (card (open_reservations hub))
     \<and> finite (dom (hb_workers hub)) \<and> hb_online hub = int (card (dom (hb_workers hub)))"

definition hub_acct :: "Hub \<Rightarrow> bool" where
  "hub_acct hub \<longleftrightarrow> sessions_ok hub \<and> counts_ok hub \<and> order_ok hub"

lemma card_dom_insert: "finite (dom f) \<Longrightarrow> f k = None \<Longrightarrow> card (dom (f(k \<mapsto> v))) = Suc (card (dom f))"
  by (simp add: card_insert_if domIff)

lemma card_dom_remove: "finite (dom f) \<Longrightarrow> f k = Some v \<Longrightarrow> int (card (dom (f(k := None)))) = int (card (dom f)) - 1"
proof -
  assume f: "finite (dom f)" and k: "f k = Some v"
  then have "0 < card (dom f)" "k \<in> dom f" by (auto simp: card_gt_0_iff)
  then show ?thesis using f by (simp add: card_Diff_singleton of_nat_diff Suc_leI card_gt_0_iff)
qed

lemma card_dom_overwrite: "f k = Some w \<Longrightarrow> dom (f(k \<mapsto> v)) = dom f"
  by auto

text \<open>Changes of a session that the accounting does not see.\<close>

definition session_like :: "session \<Rightarrow> session \<Rightarrow> bool" where
  "session_like s s' \<longleftrightarrow> ss_key s' = ss_key s \<and> ss_terminal s' = ss_terminal s \<and> ss_retired s' = ss_retired s"

lemma sessions_ok_like:
  assumes "sessions_ok hub" "hb_sessions hub' = hb_sessions hub"
    "\<And>sid. rel_option session_like (hb_heap hub sid) (hb_heap hub' sid)"
  shows "sessions_ok hub'"
proof -
  have fwd: "\<exists>s'. hb_heap hub' sid = Some s' \<and> session_like s s'" if "hb_heap hub sid = Some s" for sid s
    using assms(3) [of sid] that by (cases "hb_heap hub' sid") auto
  have bwd: "\<exists>s. hb_heap hub sid = Some s \<and> session_like s s'" if "hb_heap hub' sid = Some s'" for sid s'
    using assms(3) [of sid] that by (cases "hb_heap hub sid") auto
  show ?thesis
    unfolding sessions_ok_def
  proof (intro conjI allI impI)
    fix k sid
    assume "hb_sessions hub' k = Some sid"
    then obtain s where "hb_heap hub sid = Some s" "ss_key s = k" "\<not> ss_terminal s"
      using assms(2) sessions_okD(1) [OF assms(1)] by metis
    then show "\<exists>s. hb_heap hub' sid = Some s \<and> ss_key s = k \<and> \<not> ss_terminal s"
      using fwd by (fastforce simp: session_like_def)
  next
    fix sid s
    assume "hb_heap hub' sid = Some s"
    then obtain s0 where s0: "hb_heap hub sid = Some s0" "session_like s0 s" using bwd by blast
    show "ss_retired s = ss_terminal s" using s0 sessions_okD(3) [OF assms(1) s0(1)] by (simp add: session_like_def)
    show "hb_sessions hub' (ss_key s) = Some sid" if "\<not> ss_terminal s"
      using s0 assms(2) that sessions_okD(2) [OF assms(1) s0(1)] by (simp add: session_like_def)
  qed
qed

lemma hub_acct_like:
  assumes "hub_acct hub" "\<And>sid. rel_option session_like (hb_heap hub sid) (hb_heap hub' sid)"
    "hb_sessions hub' = hb_sessions hub" "hb_active hub' = hb_active hub" "hb_reserved hub' = hb_reserved hub"
    "hb_reservations hub' = hb_reservations hub" "hb_workers hub' = hb_workers hub" "hb_online hub' = hb_online hub"
    "hb_retired hub' = hb_retired hub" "hb_order hub' = hb_order hub" "hb_maxRetired hub' = hb_maxRetired hub"
  shows "hub_acct hub'"
  using assms(1) sessions_ok_like [OF _ assms(3,2)] assms(3-)
  by (simp add: hub_acct_def counts_ok_def order_ok_def open_reservations_def)

lemma session_like_refl [simp]: "session_like s s"
  by (simp add: session_like_def)

lemma rel_option_like_refl [simp]: "rel_option session_like x x"
  by (cases x) simp_all

lemma rel_option_put:
  "hb_heap hub sid = Some s \<Longrightarrow> session_like s s' \<Longrightarrow> rel_option session_like (hb_heap hub q) (((hb_heap hub)(sid \<mapsto> s')) q)"
  by simp

lemma put_session_sel [simp]:
  "hb_sessions (put_session sid s hub) = hb_sessions hub" "hb_active (put_session sid s hub) = hb_active hub" "hb_reserved (put_session sid s hub) = hb_reserved hub"
  "hb_reservations (put_session sid s hub) = hb_reservations hub" "hb_workers (put_session sid s hub) = hb_workers hub" "hb_online (put_session sid s hub) = hb_online hub"
  "hb_retired (put_session sid s hub) = hb_retired hub" "hb_order (put_session sid s hub) = hb_order hub" "hb_maxRetired (put_session sid s hub) = hb_maxRetired hub"
  "hb_deliveries (put_session sid s hub) = hb_deliveries hub" "hb_log (put_session sid s hub) = hb_log hub" "hb_known (put_session sid s hub) = hb_known hub"
  "hb_states (put_session sid s hub) = hb_states hub" "hb_capacity (put_session sid s hub) = hb_capacity hub" "hb_processing (put_session sid s hub) = hb_processing hub"
  "hb_calls (put_session sid s hub) = hb_calls hub" "hb_heap (put_session sid s hub) = (hb_heap hub)(sid \<mapsto> s)"
  by (simp_all add: put_session_def put_call_def)

lemma put_call_sel [simp]:
  "hb_sessions (put_call i c hub) = hb_sessions hub" "hb_active (put_call i c hub) = hb_active hub" "hb_reserved (put_call i c hub) = hb_reserved hub"
  "hb_reservations (put_call i c hub) = hb_reservations hub" "hb_workers (put_call i c hub) = hb_workers hub" "hb_online (put_call i c hub) = hb_online hub"
  "hb_retired (put_call i c hub) = hb_retired hub" "hb_order (put_call i c hub) = hb_order hub" "hb_maxRetired (put_call i c hub) = hb_maxRetired hub"
  "hb_deliveries (put_call i c hub) = hb_deliveries hub" "hb_log (put_call i c hub) = hb_log hub" "hb_known (put_call i c hub) = hb_known hub"
  "hb_states (put_call i c hub) = hb_states hub" "hb_capacity (put_call i c hub) = hb_capacity hub" "hb_processing (put_call i c hub) = hb_processing hub"
  "hb_heap (put_call i c hub) = hb_heap hub" "hb_calls (put_call i c hub) = (hb_calls hub)(i \<mapsto> c)"
  by (simp_all add: put_session_def put_call_def)

text \<open>The operations.\<close>

lemma add_session_acct:
  assumes "hub_acct hub" "hb_heap hub sid = None" "hb_sessions hub (ss_key s) = None" "\<not> ss_terminal s" "\<not> ss_retired s"
  shows "hub_acct (add_session sid s hub)"
proof -
  have ok: "sessions_ok hub" using assms by (simp add: hub_acct_def)
  have "sessions_ok (add_session sid s hub)"
    unfolding sessions_ok_def add_session_def
    using assms(2-) sessions_okD [OF ok] by (fastforce split: if_splits)
  moreover have "counts_ok (add_session sid s hub)"
    using assms by (simp add: hub_acct_def counts_ok_def add_session_def open_reservations_def card_insert_if domIff)
  moreover have "order_ok (add_session sid s hub)"
    using assms by (simp add: hub_acct_def order_ok_def add_session_def)
  ultimately show ?thesis by (simp add: hub_acct_def)
qed

lemma retire_acct:
  assumes "hub_acct hub"
  shows "hub_acct (retireSessionLocked key sid err hub)"
proof (cases "\<exists>s. hb_heap hub sid = Some s \<and> hb_sessions hub key = Some sid \<and> \<not> ss_terminal s")
  case False
  then have "retireSessionLocked key sid err hub = hub"
    by (auto simp: retireSessionLocked_def split: option.splits)
  then show ?thesis using assms by simp
next
  case True
  then obtain s where s: "hb_heap hub sid = Some s" "hb_sessions hub key = Some sid" "\<not> ss_terminal s" by blast
  have ok: "sessions_ok hub" using assms by (simp add: hub_acct_def)
  then have key: "ss_key s = key" using sessions_okD(1) [OF ok s(2)] s(1) by auto
  let ?hub = "retireSessionLocked key sid err hub"
  have sel: "hb_sessions ?hub = (hb_sessions hub)(key := None)" "hb_active ?hub = hb_active hub - 1"
    "hb_heap ?hub = (hb_heap hub)(sid \<mapsto> s\<lparr>ss_terminal := True, ss_terminalPending := False, ss_retired := True\<rparr>)"
    "hb_reserved ?hub = hb_reserved hub" "hb_reservations ?hub = hb_reservations hub" "hb_workers ?hub = hb_workers hub"
    "hb_online ?hub = hb_online hub" "hb_retired ?hub = hb_retired hub" "hb_order ?hub = hb_order hub"
    "hb_maxRetired ?hub = hb_maxRetired hub"
    using s by (simp_all add: retireSessionLocked_def)
  have "sessions_ok ?hub"
    unfolding sessions_ok_def sel
  proof (intro conjI allI impI)
    fix k q
    assume "((hb_sessions hub)(key := None)) k = Some q"
    then have k: "k \<noteq> key" "hb_sessions hub k = Some q" by (auto split: if_splits)
    then obtain s' where s': "hb_heap hub q = Some s'" "ss_key s' = k" "\<not> ss_terminal s'"
      using sessions_okD(1) [OF ok] by blast
    then have "q \<noteq> sid" using s key k by auto
    then show "\<exists>t. ((hb_heap hub)(sid \<mapsto> s\<lparr>ss_terminal := True, ss_terminalPending := False, ss_retired := True\<rparr>)) q = Some t
        \<and> ss_key t = k \<and> \<not> ss_terminal t"
      using s' by simp
  next
    fix q t
    assume t: "((hb_heap hub)(sid \<mapsto> s\<lparr>ss_terminal := True, ss_terminalPending := False, ss_retired := True\<rparr>)) q = Some t"
    show "ss_retired t = ss_terminal t"
      using t sessions_okD(3) [OF ok] by (auto split: if_splits)
    show "((hb_sessions hub)(key := None)) (ss_key t) = Some q" if "\<not> ss_terminal t"
    proof -
      have q: "q \<noteq> sid" using t that by (auto split: if_splits)
      then have "hb_sessions hub (ss_key t) = Some q"
        using t that sessions_okD(2) [OF ok] by simp
      then show ?thesis using q s(2) by auto
    qed
  qed
  moreover have "counts_ok ?hub"
    using assms s(2) card_dom_remove [of "hb_sessions hub" key sid]
    by (simp add: hub_acct_def counts_ok_def sel open_reservations_def del: dom_fun_upd) simp
  moreover have "order_ok ?hub" using assms by (simp add: hub_acct_def order_ok_def sel)
  ultimately show ?thesis by (simp add: hub_acct_def)
qed

lemma evict_order_ok:
  assumes "distinct (hb_order hub)" "set (hb_order hub) = dom (hb_retired hub)"
  shows "order_ok (evict_retired hub)"
proof (cases "length (hb_order hub) > hb_maxRetired hub")
  case True
  let ?n = "length (hb_order hub) - hb_maxRetired hub"
  have "set (drop ?n (hb_order hub)) = set (hb_order hub) - set (take ?n (hb_order hub))"
    using assms(1) set_append [of "take ?n (hb_order hub)" "drop ?n (hb_order hub)"]
      distinct_append [of "take ?n (hb_order hub)" "drop ?n (hb_order hub)"] by auto
  then show ?thesis
    using True assms by (auto simp: order_ok_def evict_retired_def dom_def)
qed (use assms in \<open>simp add: order_ok_def evict_retired_def\<close>)

lemma evict_retired_sel [simp]:
  "hb_sessions (evict_retired hub) = hb_sessions hub" "hb_heap (evict_retired hub) = hb_heap hub"
  "hb_active (evict_retired hub) = hb_active hub" "hb_reserved (evict_retired hub) = hb_reserved hub"
  "hb_reservations (evict_retired hub) = hb_reservations hub" "hb_workers (evict_retired hub) = hb_workers hub"
  "hb_online (evict_retired hub) = hb_online hub" "hb_deliveries (evict_retired hub) = hb_deliveries hub"
  "hb_calls (evict_retired hub) = hb_calls hub" "hb_log (evict_retired hub) = hb_log hub"
  "hb_known (evict_retired hub) = hb_known hub" "hb_maxRetired (evict_retired hub) = hb_maxRetired hub"
  "hb_capacity (evict_retired hub) = hb_capacity hub"
  by (simp_all add: evict_retired_def)

lemma put_receipt_sel [simp]:
  "hb_sessions (put_receipt k r hub) = hb_sessions hub" "hb_heap (put_receipt k r hub) = hb_heap hub"
  "hb_active (put_receipt k r hub) = hb_active hub" "hb_reserved (put_receipt k r hub) = hb_reserved hub"
  "hb_reservations (put_receipt k r hub) = hb_reservations hub" "hb_workers (put_receipt k r hub) = hb_workers hub"
  "hb_online (put_receipt k r hub) = hb_online hub" "hb_deliveries (put_receipt k r hub) = hb_deliveries hub"
  "hb_calls (put_receipt k r hub) = hb_calls hub" "hb_log (put_receipt k r hub) = hb_log hub"
  "hb_known (put_receipt k r hub) = hb_known hub" "hb_maxRetired (put_receipt k r hub) = hb_maxRetired hub"
  "hb_capacity (put_receipt k r hub) = hb_capacity hub"
  by (simp_all add: put_receipt_def)

lemma put_receipt_acct:
  assumes "hub_acct hub"
  shows "hub_acct (put_receipt k r hub)"
proof -
  have "order_ok (put_receipt k r hub)"
  proof (cases "hb_retired hub k")
    case None
    then have "k \<notin> set (hb_order hub)" using assms by (auto simp: hub_acct_def order_ok_def)
    then have "order_ok (evict_retired (hub\<lparr>hb_retired := (hb_retired hub)(k \<mapsto> r), hb_order := hb_order hub @ [k]\<rparr>))"
      using assms by (intro evict_order_ok) (auto simp: hub_acct_def order_ok_def)
    then show ?thesis using None by (simp add: put_receipt_def)
  next
    case (Some r')
    then show ?thesis using assms unfolding put_receipt_def by (auto simp: hub_acct_def order_ok_def)
  qed
  then show ?thesis
    using assms by (simp add: hub_acct_def sessions_ok_def counts_ok_def open_reservations_def)
qed

lemma use_reservation_acct:
  assumes "hub_acct hub" "hb_reservations hub rid = Some r" "\<not> rs_used r"
  shows "hub_acct (use_reservation rid r hub)"
proof -
  have avail: "open_reservations (use_reservation rid r hub) = open_reservations hub - {rid}"
    by (auto simp: open_reservations_def use_reservation_def)
  have rid: "rid \<in> open_reservations hub" using assms(2,3) by (auto simp: open_reservations_def)
  have fin: "finite (open_reservations hub)" using assms(1) by (simp add: hub_acct_def counts_ok_def)
  have "0 < card (open_reservations hub)" using rid fin by (auto simp: card_gt_0_iff)
  then have "int (card (open_reservations hub - {rid})) = int (card (open_reservations hub)) - 1"
    using rid fin by (simp add: card_Diff_singleton of_nat_diff Suc_leI)
  then show ?thesis
    using assms(1) fin by (simp add: hub_acct_def counts_ok_def avail) (simp add: use_reservation_def sessions_ok_def order_ok_def)
qed

lemma close_worker_sel [simp]:
  "hb_sessions (close_worker w hub) = hb_sessions hub" "hb_heap (close_worker w hub) = hb_heap hub"
  "hb_active (close_worker w hub) = hb_active hub" "hb_reserved (close_worker w hub) = hb_reserved hub"
  "hb_reservations (close_worker w hub) = hb_reservations hub" "hb_workers (close_worker w hub) = hb_workers hub"
  "hb_online (close_worker w hub) = hb_online hub" "hb_deliveries (close_worker w hub) = hb_deliveries hub"
  "hb_calls (close_worker w hub) = hb_calls hub" "hb_log (close_worker w hub) = hb_log hub"
  "hb_known (close_worker w hub) = hb_known hub" "hb_maxRetired (close_worker w hub) = hb_maxRetired hub"
  "hb_retired (close_worker w hub) = hb_retired hub" "hb_order (close_worker w hub) = hb_order hub"
  "hb_capacity (close_worker w hub) = hb_capacity hub"
  by (simp_all add: close_worker_def split: option.splits)

text \<open>Adoption changes owners of sessions and queues only.\<close>

definition session_owned :: "session \<Rightarrow> session \<Rightarrow> bool" where
  "session_owned s s' \<longleftrightarrow> s' = s\<lparr>ss_workerID := ss_workerID s', ss_assignment := ss_assignment s'\<rparr>"

lemma session_owned_sel:
  assumes "session_owned s s'"
  shows "ss_key s' = ss_key s" "ss_terminal s' = ss_terminal s" "ss_retired s' = ss_retired s" "ss_seen s' = ss_seen s"
    "ss_inflight s' = ss_inflight s" "ss_pending s' = ss_pending s" "ss_terminalPending s' = ss_terminalPending s"
    "ss_accepted s' = ss_accepted s"
  by (subst assms [unfolded session_owned_def], simp)+

lemma session_owned_refl [simp]: "session_owned s s"
  by (simp add: session_owned_def)

lemma session_owned_trans: "session_owned s t \<Longrightarrow> session_owned t u \<Longrightarrow> session_owned s u"
  unfolding session_owned_def by (cases s; cases t; cases u) simp

definition hub_owned :: "Hub \<Rightarrow> Hub \<Rightarrow> bool" where
  "hub_owned hub hub' \<longleftrightarrow> (\<forall>sid. rel_option session_owned (hb_heap hub sid) (hb_heap hub' sid))
     \<and> hb_sessions hub' = hb_sessions hub \<and> hb_active hub' = hb_active hub \<and> hb_reserved hub' = hb_reserved hub
     \<and> hb_reservations hub' = hb_reservations hub \<and> hb_workers hub' = hb_workers hub \<and> hb_online hub' = hb_online hub
     \<and> hb_deliveries hub' = hb_deliveries hub \<and> hb_calls hub' = hb_calls hub \<and> hb_log hub' = hb_log hub
     \<and> hb_known hub' = hb_known hub \<and> hb_maxRetired hub' = hb_maxRetired hub \<and> hb_retired hub' = hb_retired hub
     \<and> hb_order hub' = hb_order hub \<and> hb_capacity hub' = hb_capacity hub"

lemma hub_owned_refl [simp]: "hub_owned hub hub"
  by (auto simp: hub_owned_def rel_option_iff split: option.splits)

lemma rel_owned_trans:
  "rel_option session_owned x y \<Longrightarrow> rel_option session_owned y z \<Longrightarrow> rel_option session_owned x z"
  by (cases x; cases y; cases z) (auto intro: session_owned_trans)

lemma hub_owned_trans: "hub_owned h h' \<Longrightarrow> hub_owned h' h'' \<Longrightarrow> hub_owned h h''"
  unfolding hub_owned_def using rel_owned_trans by metis

lemma hub_owned_states: "hub_owned hub (hub\<lparr>hb_states := x\<rparr>)"
  by (auto simp: hub_owned_def rel_option_iff split: option.splits)

lemma hub_owned_put: "hb_heap hub sid = Some s \<Longrightarrow> session_owned s s' \<Longrightarrow> hub_owned hub (hub\<lparr>hb_heap := (hb_heap hub)(sid \<mapsto> s')\<rparr>)"
  by (auto simp: hub_owned_def rel_option_iff split: option.splits)

lemma adopt_owned:
  "adopt_sessions w wid sids hub = (b, hub') \<Longrightarrow> hub_owned hub hub'"
proof (induction sids arbitrary: hub)
  case Nil
  then show ?case by simp
next
  case (Cons sid sids)
  show ?case
  proof (cases "hb_heap hub sid")
    case None
    then show ?thesis using Cons by simp
  next
    case (Some s)
    define s' where "s' = (if ss_workerID s = [] \<and> \<not> ss_terminal s
      then s\<lparr>ss_workerID := w, ss_assignment := (ss_assignment s)\<lparr>as_LeaseOwner := w\<rparr>\<rparr> else s)"
    define h1 where "h1 = hub\<lparr>hb_heap := (hb_heap hub)(sid \<mapsto> s')\<rparr>"
    have "session_owned s s'" by (auto simp: s'_def session_owned_def)
    then have h1: "hub_owned hub h1" unfolding h1_def by (rule hub_owned_put [OF Some])
    have run: "adopt_sessions w wid (sid # sids) hub =
       (if ss_workerID s' = w \<and> \<not> ss_terminal s' then
          (case hb_states h1 wid of None \<Rightarrow> (False, h1)
           | Some state \<Rightarrow> (case enqueue h1 (ss_assignment s') sid state of (queued, state') \<Rightarrow>
               (let h2 = h1\<lparr>hb_states := (hb_states h1)(wid \<mapsto> state')\<rparr> in
                if queued then adopt_sessions w wid sids h2 else (False, h2))))
        else adopt_sessions w wid sids h1)"
      by (simp only: adopt_sessions.simps Some option.case Let_def s'_def [symmetric] h1_def [symmetric])
    note step = Cons.prems [unfolded run]
    show ?thesis
    proof (cases "ss_workerID s' = w \<and> \<not> ss_terminal s'")
      case False
      then have "adopt_sessions w wid sids h1 = (b, hub')" using step by (simp only: if_False)
      then show ?thesis using h1 Cons.IH hub_owned_trans by blast
    next
      case True
      show ?thesis
      proof (cases "hb_states h1 wid")
        case None
        then have "hub' = h1" using step True by simp
        then show ?thesis using h1 by simp
      next
        case st: (Some st)
        obtain q st' where enq: "enqueue h1 (ss_assignment s') sid st = (q, st')" by fastforce
        let ?h2 = "h1\<lparr>hb_states := (hb_states h1)(wid \<mapsto> st')\<rparr>"
        have h2: "hub_owned hub ?h2" by (rule hub_owned_trans [OF h1 hub_owned_states])
        show ?thesis
        proof (cases q)
          case q: True
          then have "adopt_sessions w wid sids ?h2 = (b, hub')" using step True st enq by (simp only: if_True option.case prod.case Let_def simp_thms)
          then show ?thesis using h2 Cons.IH hub_owned_trans by blast
        next
          case q: False
          then have "hub' = ?h2" using step True st enq by simp
          then show ?thesis using h2 by simp
        qed
      qed
    qed
  qed
qed

lemma hub_owned_acct: "hub_acct hub \<Longrightarrow> hub_owned hub hub' \<Longrightarrow> hub_acct hub'"
proof (rule hub_acct_like [of hub])
  fix sid
  assume "hub_owned hub hub'"
  then have "rel_option session_owned (hb_heap hub sid) (hb_heap hub' sid)" by (simp add: hub_owned_def)
  then show "rel_option session_like (hb_heap hub sid) (hb_heap hub' sid)"
    by (rule option.rel_mono_strong) (simp add: session_like_def session_owned_sel)
qed (simp_all add: hub_owned_def)


section \<open>Deliveries, publishers and the log\<close>

definition acknowledged :: "Hub \<Rightarrow> nat \<Rightarrow> string \<Rightarrow> bool" where
  "acknowledged hub sid q \<longleftrightarrow> (sid, q) \<in> set (hb_known hub) \<or> (\<exists>e. (sid, e) \<in> set (hb_log hub) \<and> ev_ID e = q)"

definition session_pub :: "Hub \<Rightarrow> nat \<Rightarrow> session \<Rightarrow> bool" where
  "session_pub hub sid s \<longleftrightarrow> (\<forall>q \<in> ss_seen s. acknowledged hub sid q)
     \<and> (\<forall>q d. ss_inflight s q = Some d \<longrightarrow> (\<exists>dl. hb_deliveries hub d = Some dl \<and> dl_Session dl = sid \<and> ev_ID (dl_Event dl) = q))"

definition owns :: "publish_call \<Rightarrow> nat \<Rightarrow> bool" where
  "owns c d \<longleftrightarrow> pc_phase c = Sending d \<or> pc_phase c = Sent d"

definition delivery_pub :: "Hub \<Rightarrow> nat \<Rightarrow> Delivery \<Rightarrow> bool" where
  "delivery_pub hub d dl \<longleftrightarrow>
     (\<exists>s. hb_heap hub (dl_Session dl) = Some s \<and> (dl_done dl = None \<longrightarrow> \<not> ss_terminal s \<and> d \<in> ss_pending s))
     \<and> (dl_done dl = None \<longrightarrow> (\<exists>i c. hb_calls hub i = Some c \<and> owns c d))
     \<and> (dl_done dl = Some None \<longrightarrow> (dl_Session dl, dl_Event dl) \<in> set (hb_log hub))"

definition call_pub :: "Hub \<Rightarrow> publish_call \<Rightarrow> bool" where
  "call_pub hub c \<longleftrightarrow>
     (\<forall>d. pc_phase c = AwaitDuplicate d \<longrightarrow> (\<exists>dl. hb_deliveries hub d = Some dl \<and> dl_Session dl = pc_session c
          \<and> ev_ID (dl_Event dl) = ev_ID (pc_event c)))
     \<and> (\<forall>d. owns c d \<longrightarrow> (\<exists>dl. hb_deliveries hub d = Some dl \<and> dl_Session dl = pc_session c \<and> dl_Event dl = pc_event c))"

definition term_call :: "Hub \<Rightarrow> nat \<Rightarrow> nat \<Rightarrow> bool" where
  "term_call hub i sid \<longleftrightarrow> (\<exists>c d. hb_calls hub i = Some c \<and> owns c d \<and> pc_session c = sid \<and> EndsResponse (pc_event c))"

definition calls_pub :: "Hub \<Rightarrow> bool" where
  "calls_pub hub \<longleftrightarrow>
     (\<forall>i c. hb_calls hub i = Some c \<longrightarrow> call_pub hub c)
     \<and> (\<forall>i j c c' d. hb_calls hub i = Some c \<longrightarrow> hb_calls hub j = Some c' \<longrightarrow> owns c d \<longrightarrow> owns c' d \<longrightarrow> i = j)
     \<and> (\<forall>i j sid. term_call hub i sid \<longrightarrow> term_call hub j sid \<longrightarrow> i = j)
     \<and> (\<forall>i sid s. term_call hub i sid \<longrightarrow> hb_heap hub sid = Some s \<longrightarrow> \<not> ss_terminal s \<longrightarrow> ss_terminalPending s)"

definition terminals :: "Hub \<Rightarrow> nat \<Rightarrow> (nat \<times> Event) list" where
  "terminals hub sid = filter (\<lambda>(q, e). q = sid \<and> EndsResponse e) (hb_log hub)"

definition committing :: "Hub \<Rightarrow> nat \<Rightarrow> bool" where
  "committing hub sid \<longleftrightarrow> (\<exists>i c d dl. hb_calls hub i = Some c \<and> owns c d \<and> hb_deliveries hub d = Some dl
     \<and> dl_Session dl = sid \<and> dl_done dl = Some None \<and> EndsResponse (dl_Event dl))"

definition log_pub :: "Hub \<Rightarrow> bool" where
  "log_pub hub \<longleftrightarrow> (\<forall>sid. length (terminals hub sid) \<le> 1
     \<and> (terminals hub sid \<noteq> [] \<longrightarrow> (\<exists>s. hb_heap hub sid = Some s \<and> ss_terminal s) \<or> committing hub sid))"

definition receipts_pub :: "event_digest \<Rightarrow> Hub \<Rightarrow> bool" where
  "receipts_pub D hub \<longleftrightarrow> (\<forall>k r. hb_retired hub k = Some r \<longrightarrow> rc_eventID r \<noteq> [] \<longrightarrow>
     (\<exists>sid e s. (sid, e) \<in> set (hb_log hub) \<and> hb_heap hub sid = Some s \<and> ss_key s = k \<and> ev_ID e = rc_eventID r \<and> rc_digest r = D e))"

definition hub_pub :: "event_digest \<Rightarrow> Hub \<Rightarrow> bool" where
  "hub_pub D hub \<longleftrightarrow>
     (\<forall>sid s. hb_heap hub sid = Some s \<longrightarrow> session_pub hub sid s)
     \<and> (\<forall>d dl. hb_deliveries hub d = Some dl \<longrightarrow> delivery_pub hub d dl)
     \<and> calls_pub hub \<and> log_pub hub \<and> receipts_pub D hub"

lemmas hub_pub_defs = hub_pub_def session_pub_def acknowledged_def delivery_pub_def call_pub_def calls_pub_def term_call_def
  log_pub_def terminals_def committing_def receipts_pub_def

lemma hub_pub_cong:
  assumes "hb_heap hub' = hb_heap hub" "hb_deliveries hub' = hb_deliveries hub" "hb_calls hub' = hb_calls hub"
    "hb_log hub' = hb_log hub" "hb_known hub' = hb_known hub" "hb_retired hub' = hb_retired hub"
  shows "hub_pub D hub' = hub_pub D hub"
  by (simp add: hub_pub_defs assms)

lemma hub_pubD:
  "hub_pub D hub \<Longrightarrow> hb_heap hub sid = Some s \<Longrightarrow> session_pub hub sid s"
  "hub_pub D hub \<Longrightarrow> hb_deliveries hub d = Some dl \<Longrightarrow> delivery_pub hub d dl"
  "hub_pub D hub \<Longrightarrow> calls_pub hub"
  "hub_pub D hub \<Longrightarrow> log_pub hub"
  "hub_pub D hub \<Longrightarrow> receipts_pub D hub"
  by (simp_all add: hub_pub_def)

lemma calls_pubD:
  "calls_pub hub \<Longrightarrow> hb_calls hub i = Some c \<Longrightarrow> call_pub hub c"
  "calls_pub hub \<Longrightarrow> hb_calls hub i = Some c \<Longrightarrow> hb_calls hub j = Some c' \<Longrightarrow> owns c d \<Longrightarrow> owns c' d \<Longrightarrow> i = j"
  "calls_pub hub \<Longrightarrow> term_call hub i sid \<Longrightarrow> term_call hub j sid \<Longrightarrow> i = j"
  "calls_pub hub \<Longrightarrow> term_call hub i sid \<Longrightarrow> hb_heap hub sid = Some s \<Longrightarrow> \<not> ss_terminal s \<Longrightarrow> ss_terminalPending s"
  unfolding calls_pub_def by blast+

text \<open>
  Most steps keep the identity of sessions and deliveries, and only grow what was acknowledged. The
  conditions on a step are stated per component and joined by this lemma.
\<close>

lemma hub_pub_step:
  assumes inv: "hub_pub D hub"
    and heap: "\<And>sid s. hb_heap hub sid = Some s \<Longrightarrow> \<exists>s'. hb_heap hub' sid = Some s' \<and> ss_key s' = ss_key s"
    and sessions: "\<And>sid s. hb_heap hub' sid = Some s \<Longrightarrow> session_pub hub' sid s"
    and deliveries: "\<And>d dl. hb_deliveries hub' d = Some dl \<Longrightarrow> delivery_pub hub' d dl"
    and calls: "calls_pub hub'"
    and log: "log_pub hub'" "set (hb_log hub) \<subseteq> set (hb_log hub')"
    and retired: "\<And>k r. hb_retired hub' k = Some r \<Longrightarrow> rc_eventID r \<noteq> [] \<Longrightarrow> hb_retired hub k = Some r
      \<or> (\<exists>sid e s. (sid, e) \<in> set (hb_log hub') \<and> hb_heap hub' sid = Some s \<and> ss_key s = k \<and> ev_ID e = rc_eventID r \<and> rc_digest r = D e)"
  shows "hub_pub D hub'"
proof -
  have "receipts_pub D hub'"
    unfolding receipts_pub_def
  proof (intro allI impI)
    fix k r
    assume r: "hb_retired hub' k = Some r" "rc_eventID r \<noteq> []"
    show "\<exists>sid e s. (sid, e) \<in> set (hb_log hub') \<and> hb_heap hub' sid = Some s \<and> ss_key s = k \<and> ev_ID e = rc_eventID r \<and> rc_digest r = D e"
    proof (cases "hb_retired hub k = Some r")
      case True
      then obtain sid e s where "(sid, e) \<in> set (hb_log hub)" "hb_heap hub sid = Some s" "ss_key s = k" "ev_ID e = rc_eventID r"
          "rc_digest r = D e"
        using hub_pubD(5) [OF inv] r(2) unfolding receipts_pub_def by blast
      moreover from this obtain s' where "hb_heap hub' sid = Some s'" "ss_key s' = k" using heap by blast
      ultimately show ?thesis using log(2) by blast
    qed (use retired [OF r] in blast)
  qed
  then show ?thesis using sessions deliveries calls log(1) by (simp add: hub_pub_def)
qed

text \<open>Steps without new calls and deliveries: sessions keep their identity, deliveries may be committed with an error.\<close>

definition session_evolves :: "session \<Rightarrow> session \<Rightarrow> bool" where
  "session_evolves s s' \<longleftrightarrow> ss_key s' = ss_key s \<and> ss_seen s' \<subseteq> ss_seen s \<and> ss_inflight s' = ss_inflight s
     \<and> (ss_terminal s \<longrightarrow> ss_terminal s') \<and> (\<not> ss_terminal s' \<longrightarrow> ss_terminalPending s \<longrightarrow> ss_terminalPending s')"

definition delivery_evolves :: "Delivery \<Rightarrow> Delivery \<Rightarrow> bool" where
  "delivery_evolves dl dl' \<longleftrightarrow> dl' = dl \<or> (dl_done dl = None \<and> (\<exists>e. dl' = dl\<lparr>dl_done := Some (Some e)\<rparr>))"

lemma delivery_evolves_sel:
  assumes "delivery_evolves dl dl'"
  shows "dl_Session dl' = dl_Session dl" "dl_Event dl' = dl_Event dl" "dl_done dl = Some x \<Longrightarrow> dl_done dl' = Some x"
    "dl_done dl' = None \<Longrightarrow> dl_done dl = None" "dl_done dl' = Some None \<Longrightarrow> dl_done dl = Some None"
  using assms by (auto simp: delivery_evolves_def)

lemma rel_option_Some2D: "rel_option R x y \<Longrightarrow> y = Some b \<Longrightarrow> \<exists>a. x = Some a \<and> R a b"
  by (cases x) auto

lemma rel_option_Some1D: "rel_option R x y \<Longrightarrow> x = Some a \<Longrightarrow> \<exists>b. y = Some b \<and> R a b"
  by (cases y) auto

lemma hub_pub_evolve:
  assumes inv: "hub_pub D hub"
    and same: "hb_calls hub' = hb_calls hub" "hb_log hub' = hb_log hub" "hb_known hub' = hb_known hub" "hb_retired hub' = hb_retired hub"
    and heap: "\<And>sid. rel_option session_evolves (hb_heap hub sid) (hb_heap hub' sid)"
    and dels: "\<And>d. rel_option delivery_evolves (hb_deliveries hub d) (hb_deliveries hub' d)"
    and pending: "\<And>d dl s. hb_deliveries hub' d = Some dl \<Longrightarrow> dl_done dl = None \<Longrightarrow> hb_heap hub' (dl_Session dl) = Some s \<Longrightarrow>
      \<not> ss_terminal s \<and> d \<in> ss_pending s"
  shows "hub_pub D hub'"
proof (rule hub_pub_step [OF inv])
  note fwd = rel_option_Some1D [OF heap] and bwd = rel_option_Some2D [OF heap]
  note dfwd = rel_option_Some1D [OF dels] and dbwd = rel_option_Some2D [OF dels]
  show "\<exists>s'. hb_heap hub' sid = Some s' \<and> ss_key s' = ss_key s" if "hb_heap hub sid = Some s" for sid s
    using fwd [OF that] by (auto simp: session_evolves_def)
  show "session_pub hub' sid s'" if h: "hb_heap hub' sid = Some s'" for sid s'
  proof -
    obtain s where s: "hb_heap hub sid = Some s" "session_evolves s s'" using bwd [OF h] by blast
    have "\<exists>dl. hb_deliveries hub' d = Some dl \<and> dl_Session dl = sid \<and> ev_ID (dl_Event dl) = q" if "ss_inflight s' q = Some d" for q d
    proof -
      have "ss_inflight s q = Some d" using that s(2) by (simp add: session_evolves_def)
      then obtain dl where "hb_deliveries hub d = Some dl" "dl_Session dl = sid" "ev_ID (dl_Event dl) = q"
        using hub_pubD(1) [OF inv s(1)] unfolding session_pub_def by blast
      then show ?thesis using dfwd delivery_evolves_sel by metis
    qed
    moreover have "acknowledged hub' sid q" if "q \<in> ss_seen s'" for q
    proof -
      have "q \<in> ss_seen s" using that s(2) by (auto simp: session_evolves_def)
      then have "acknowledged hub sid q" using hub_pubD(1) [OF inv s(1)] by (simp add: session_pub_def)
      then show ?thesis by (simp add: acknowledged_def same)
    qed
    ultimately show ?thesis by (simp add: session_pub_def)
  qed
  show "delivery_pub hub' d dl'" if d: "hb_deliveries hub' d = Some dl'" for d dl'
  proof -
    obtain dl where dl: "hb_deliveries hub d = Some dl" "delivery_evolves dl dl'" using dbwd [OF d] by blast
    note sel = delivery_evolves_sel [OF dl(2)]
    have ok: "delivery_pub hub d dl" by (rule hub_pubD(2) [OF inv dl(1)])
    then obtain s where "hb_heap hub (dl_Session dl) = Some s" by (auto simp: delivery_pub_def)
    then obtain s' where s': "hb_heap hub' (dl_Session dl') = Some s'" using fwd sel(1) by metis
    have "\<exists>i c. hb_calls hub i = Some c \<and> owns c d" if "dl_done dl' = None"
      using ok sel(4) [OF that] by (simp add: delivery_pub_def)
    moreover have "(dl_Session dl', dl_Event dl') \<in> set (hb_log hub)" if "dl_done dl' = Some None"
      using ok sel(5) [OF that] sel(1,2) by (simp add: delivery_pub_def)
    moreover have "\<exists>s. hb_heap hub' (dl_Session dl') = Some s \<and> (dl_done dl' = None \<longrightarrow> \<not> ss_terminal s \<and> d \<in> ss_pending s)"
      using pending [OF d _ s'] by (intro exI [of _ s']) (simp add: s')
    ultimately show ?thesis
      unfolding delivery_pub_def same by simp
  qed
  have cp: "calls_pub hub" by (rule hub_pubD(3) [OF inv])
  have tc: "term_call hub' = term_call hub" by (simp add: fun_eq_iff term_call_def same)
  have keep: "\<exists>dl'. hb_deliveries hub' d = Some dl' \<and> dl_Session dl' = dl_Session dl \<and> dl_Event dl' = dl_Event dl"
    if "hb_deliveries hub d = Some dl" for d dl
    using dfwd [OF that] delivery_evolves_sel(1,2) by blast
  have "call_pub hub' c" if "hb_calls hub i = Some c" for i c
    unfolding call_pub_def
  proof (intro conjI allI impI)
    have ok: "call_pub hub c" by (rule calls_pubD(1) [OF cp that])
    show "\<exists>dl. hb_deliveries hub' d = Some dl \<and> dl_Session dl = pc_session c \<and> ev_ID (dl_Event dl) = ev_ID (pc_event c)"
      if "pc_phase c = AwaitDuplicate d" for d
      using ok that keep unfolding call_pub_def by (metis (no_types))
    show "\<exists>dl. hb_deliveries hub' d = Some dl \<and> dl_Session dl = pc_session c \<and> dl_Event dl = pc_event c" if "owns c d" for d
      using ok that keep unfolding call_pub_def by (metis (no_types))
  qed
  moreover have "ss_terminalPending s'" if h: "term_call hub i sid" "hb_heap hub' sid = Some s'" "\<not> ss_terminal s'" for i sid s'
  proof -
    obtain s where s: "hb_heap hub sid = Some s" "session_evolves s s'" using bwd [OF h(2)] by blast
    then show ?thesis using calls_pubD(4) [OF cp h(1) s(1)] h(3) by (auto simp: session_evolves_def)
  qed
  ultimately show "calls_pub hub'"
    using cp unfolding calls_pub_def same tc by blast
  have com: "committing hub' sid" if c0: "committing hub sid" for sid
  proof -
    obtain i c d dl where c: "hb_calls hub i = Some c" "owns c d" "hb_deliveries hub d = Some dl" "dl_Session dl = sid"
      "dl_done dl = Some None" "EndsResponse (dl_Event dl)"
      using c0 unfolding committing_def by blast
    obtain dl' where dl': "hb_deliveries hub' d = Some dl'" "delivery_evolves dl dl'" using dfwd [OF c(3)] by blast
    note sel = delivery_evolves_sel [OF dl'(2)]
    have "dl_Session dl' = sid" "dl_done dl' = Some None" "EndsResponse (dl_Event dl')"
      using sel(1,2) sel(3) [OF c(5)] c(4,6) by simp_all
    then show ?thesis using c(1,2) dl'(1) unfolding committing_def same by blast
  qed
  show "log_pub hub'"
    unfolding log_pub_def
  proof (intro allI conjI impI)
    fix sid
    have eq: "terminals hub' sid = terminals hub sid" by (simp add: terminals_def same)
    have lp: "length (terminals hub sid) \<le> 1"
      "terminals hub sid \<noteq> [] \<longrightarrow> (\<exists>s. hb_heap hub sid = Some s \<and> ss_terminal s) \<or> committing hub sid"
      using hub_pubD(4) [OF inv] by (simp_all add: log_pub_def)
    show "length (terminals hub' sid) \<le> 1" using lp(1) eq by simp
    show "(\<exists>s. hb_heap hub' sid = Some s \<and> ss_terminal s) \<or> committing hub' sid" if h: "terminals hub' sid \<noteq> []"
    proof -
      consider s where "hb_heap hub sid = Some s" "ss_terminal s" | "committing hub sid" using lp(2) h eq by auto
      then show ?thesis
      proof cases
        case (1 s)
        then show ?thesis using fwd [OF 1(1)] by (auto simp: session_evolves_def)
      qed (use com in blast)
    qed
  qed
qed (simp_all add: same)

section \<open>Operations\<close>

definition hub_inv :: "event_digest \<Rightarrow> Hub \<Rightarrow> bool" where
  "hub_inv D hub \<longleftrightarrow> hub_acct hub \<and> hub_pub D hub"

lemma session_evolves_refl [simp]: "session_evolves s s"
  by (simp add: session_evolves_def)

lemma rel_evolves_refl [simp]: "rel_option session_evolves x x" "rel_option delivery_evolves y y"
  by (cases x; simp) (cases y; simp add: delivery_evolves_def)

lemma delivery_pending:
  assumes "hub_pub D hub" "hb_deliveries hub d = Some dl" "dl_done dl = None" "hb_heap hub (dl_Session dl) = Some s"
  shows "\<not> ss_terminal s" "d \<in> ss_pending s"
  using hub_pubD(2) [OF assms(1,2)] assms(3,4) by (auto simp: delivery_pub_def)

lemma hub_owned_pub:
  assumes "hub_pub D hub" "hub_owned hub hub'"
  shows "hub_pub D hub'"
proof (rule hub_pub_evolve [OF assms(1)])
  have owned: "rel_option session_owned (hb_heap hub sid) (hb_heap hub' sid)" for sid using assms(2) by (simp add: hub_owned_def)
  show "rel_option session_evolves (hb_heap hub sid) (hb_heap hub' sid)" for sid
    by (rule option.rel_mono_strong [OF owned]) (simp add: session_evolves_def session_owned_sel)
  show "\<not> ss_terminal s \<and> d \<in> ss_pending s"
    if h: "hb_deliveries hub' d = Some dl" "dl_done dl = None" "hb_heap hub' (dl_Session dl) = Some s" for d dl s
  proof -
    obtain s0 where "hb_heap hub (dl_Session dl) = Some s0" "session_owned s0 s"
      using rel_option_Some2D [OF owned h(3)] by blast
    then show ?thesis using delivery_pending [OF assms(1), of d dl s0] h assms(2) by (simp add: hub_owned_def session_owned_sel)
  qed
qed (use assms(2) in \<open>simp_all add: hub_owned_def\<close>)

lemma commit_delivery_done [simp]: "dl_done (commit_delivery err x) = None \<longleftrightarrow> False"
  by (cases "dl_done x") (simp_all add: commit_delivery_def)

lemma retire_pub:
  assumes "hub_pub D hub"
  shows "hub_pub D (retireSessionLocked key sid err hub)"
proof (cases "\<exists>s. hb_heap hub sid = Some s \<and> hb_sessions hub key = Some sid \<and> \<not> ss_terminal s")
  case False
  then have "retireSessionLocked key sid err hub = hub"
    by (auto simp: retireSessionLocked_def split: option.splits)
  then show ?thesis using assms by simp
next
  case True
  then obtain s where s: "hb_heap hub sid = Some s" "hb_sessions hub key = Some sid" "\<not> ss_terminal s" by blast
  let ?hub = "retireSessionLocked key sid err hub"
  have sel: "hb_calls ?hub = hb_calls hub" "hb_log ?hub = hb_log hub" "hb_known ?hub = hb_known hub" "hb_retired ?hub = hb_retired hub"
    "hb_heap ?hub = (hb_heap hub)(sid \<mapsto> s\<lparr>ss_terminal := True, ss_terminalPending := False, ss_retired := True\<rparr>)"
    "hb_deliveries ?hub = (\<lambda>d. if d \<in> ss_pending s then map_option (commit_delivery (Some err)) (hb_deliveries hub d) else hb_deliveries hub d)"
    using s by (simp_all add: retireSessionLocked_def)
  show ?thesis
  proof (rule hub_pub_evolve [OF assms sel(1-4)])
    show "rel_option session_evolves (hb_heap hub q) (hb_heap ?hub q)" for q
      using s by (simp add: sel session_evolves_def)
    show "rel_option delivery_evolves (hb_deliveries hub d) (hb_deliveries ?hub d)" for d
      by (cases "hb_deliveries hub d") (auto simp: sel delivery_evolves_def commit_delivery_def)
    show "\<not> ss_terminal t \<and> d \<in> ss_pending t"
      if d: "hb_deliveries ?hub d = Some dl" "dl_done dl = None" "hb_heap ?hub (dl_Session dl) = Some t" for d dl t
    proof -
      have "d \<notin> ss_pending s" using d(1,2) by (auto simp: sel split: if_splits)
      then have dl: "hb_deliveries hub d = Some dl" using d(1) by (simp add: sel)
      then have "dl_Session dl \<noteq> sid"
        using delivery_pending(2) [OF assms dl d(2)] s(1) \<open>d \<notin> ss_pending s\<close> by auto
      then show ?thesis using delivery_pending [OF assms dl d(2)] d(3) by (simp add: sel)
    qed
  qed
qed

lemma commit_error_pub:
  assumes "hub_pub D hub"
  shows "hub_pub D (commit d (Some e) hub)"
proof (rule hub_pub_evolve [OF assms])
  show "rel_option delivery_evolves (hb_deliveries hub q) (hb_deliveries (commit d (Some e) hub) q)" for q
    by (cases "hb_deliveries hub q") (auto simp: commit_def delivery_evolves_def commit_delivery_def)
  show "\<not> ss_terminal s \<and> q \<in> ss_pending s"
    if "hb_deliveries (commit d (Some e) hub) q = Some dl" "dl_done dl = None" "hb_heap (commit d (Some e) hub) (dl_Session dl) = Some s" for q dl s
  proof -
    have "hb_deliveries hub q = Some dl" using that(1,2) by (auto simp: commit_def commit_delivery_def split: if_splits)
    then show ?thesis using delivery_pending [OF assms _ that(2)] that(3) by (simp add: commit_def)
  qed
qed (simp_all add: commit_def)

lemma add_session_pub:
  assumes inv: "hub_pub D hub" and fresh: "hb_heap hub sid = None"
    and s: "\<And>q. q \<in> ss_seen s \<Longrightarrow> (sid, q) \<in> set known" "ss_inflight s = Map.empty"
  shows "hub_pub D ((add_session sid s hub)\<lparr>hb_known := known @ hb_known hub\<rparr>)"
proof (rule hub_pub_step [OF inv])
  let ?hub = "(add_session sid s hub)\<lparr>hb_known := known @ hb_known hub\<rparr>"
  have sel: "hb_heap ?hub = (hb_heap hub)(sid \<mapsto> s)" "hb_deliveries ?hub = hb_deliveries hub" "hb_calls ?hub = hb_calls hub"
    "hb_log ?hub = hb_log hub" "hb_known ?hub = known @ hb_known hub" "hb_retired ?hub = hb_retired hub"
    by (simp_all add: add_session_def)
  have other: "dl_Session dl \<noteq> sid" if "hb_deliveries hub d = Some dl" for d dl
    using hub_pubD(2) [OF inv that] fresh by (auto simp: delivery_pub_def)
  show "session_pub ?hub q t" if "hb_heap ?hub q = Some t" for q t
  proof (cases "q = sid")
    case True
    then show ?thesis using that s by (auto simp: session_pub_def acknowledged_def sel)
  next
    case False
    then show ?thesis using that hub_pubD(1) [OF inv, of q t] by (auto simp: session_pub_def acknowledged_def sel)
  qed
  show "delivery_pub ?hub d dl" if "hb_deliveries ?hub d = Some dl" for d dl
    using that hub_pubD(2) [OF inv, of d dl] other [of d dl] by (simp add: delivery_pub_def sel)
  have cp: "calls_pub hub" by (rule hub_pubD(3) [OF inv])
  have tc: "term_call ?hub = term_call hub" by (simp add: fun_eq_iff term_call_def sel)
  have none: "\<not> term_call hub i sid" for i
    using calls_pubD(1) [OF cp] other unfolding term_call_def call_pub_def by metis
  have same: "call_pub ?hub = call_pub hub" by (simp add: fun_eq_iff call_pub_def sel)
  have "ss_terminalPending t" if "term_call hub i q" "hb_heap ?hub q = Some t" "\<not> ss_terminal t" for i q t
  proof -
    have "q \<noteq> sid" using that(1) none by blast
    then show ?thesis using calls_pubD(4) [OF cp that(1)] that(2,3) by (simp add: sel)
  qed
  then show "calls_pub ?hub"
    using cp unfolding calls_pub_def tc same sel(3) by blast
  have com: "committing ?hub = committing hub" by (simp add: fun_eq_iff committing_def sel)
  have tm: "terminals ?hub = terminals hub" by (simp add: fun_eq_iff terminals_def sel)
  show "log_pub ?hub"
    using hub_pubD(4) [OF inv] fresh unfolding log_pub_def com tm sel by (metis fun_upd_other option.distinct(1))
qed (use fresh in \<open>auto simp: add_session_def\<close>)

lemma put_receipt_pub:
  assumes inv: "hub_pub D hub"
    and r: "rc_eventID r \<noteq> [] \<Longrightarrow> \<exists>sid e s. (sid, e) \<in> set (hb_log hub) \<and> hb_heap hub sid = Some s \<and> ss_key s = k
      \<and> ev_ID e = rc_eventID r \<and> rc_digest r = D e"
  shows "hub_pub D (put_receipt k r hub)"
proof -
  have ret: "hb_retired (put_receipt k r hub) q = Some r' \<Longrightarrow> hb_retired hub q = Some r' \<or> (q = k \<and> r' = r)" for q r'
    by (auto simp: put_receipt_def evict_retired_def split: if_splits)
  have "receipts_pub D (put_receipt k r hub)"
    unfolding receipts_pub_def put_receipt_sel
  proof (intro allI impI)
    fix q r'
    assume "hb_retired (put_receipt k r hub) q = Some r'" "rc_eventID r' \<noteq> []"
    then show "\<exists>sid e s. (sid, e) \<in> set (hb_log hub) \<and> hb_heap hub sid = Some s \<and> ss_key s = q
      \<and> ev_ID e = rc_eventID r' \<and> rc_digest r' = D e"
      using ret r hub_pubD(5) [OF inv] unfolding receipts_pub_def by blast
  qed
  then show ?thesis
    using inv by (simp add: hub_pub_def session_pub_def acknowledged_def delivery_pub_def calls_pub_def call_pub_def term_call_def
        log_pub_def terminals_def committing_def)
qed

text \<open>Calls enter and leave the invariant through the delivery they own.\<close>

definition owner :: "Hub \<Rightarrow> nat \<Rightarrow> nat \<Rightarrow> nat \<Rightarrow> Event \<Rightarrow> bool" where
  "owner hub i d sid e \<longleftrightarrow> (\<exists>c. hb_calls hub i = Some c \<and> owns c d \<and> pc_session c = sid \<and> pc_event c = e)"

lemma owned_iff: "(\<exists>i c. hb_calls hub i = Some c \<and> owns c d) \<longleftrightarrow> (\<exists>i sid e. owner hub i d sid e)"
  by (auto simp: owner_def)

lemma delivery_pubI:
  assumes "\<exists>s. hb_heap hub (dl_Session dl) = Some s \<and> (dl_done dl = None \<longrightarrow> \<not> ss_terminal s \<and> d \<in> ss_pending s)"
    and "dl_done dl = None \<Longrightarrow> \<exists>i q e. owner hub i d q e"
    and "dl_done dl = Some None \<Longrightarrow> (dl_Session dl, dl_Event dl) \<in> set (hb_log hub)"
  shows "delivery_pub hub d dl"
  unfolding delivery_pub_def owned_iff using assms by blast

lemma term_call_owner: "term_call hub i sid \<longleftrightarrow> (\<exists>d e. owner hub i d sid e \<and> EndsResponse e)"
  by (auto simp: term_call_def owner_def)

lemma committing_owner: "committing hub sid \<longleftrightarrow> (\<exists>i d q e dl. owner hub i d q e \<and> hb_deliveries hub d = Some dl
     \<and> dl_Session dl = sid \<and> dl_done dl = Some None \<and> EndsResponse (dl_Event dl))"
  by (auto simp: committing_def owner_def)

lemma owner_unique: "calls_pub hub \<Longrightarrow> owner hub i d q e \<Longrightarrow> owner hub j d q' e' \<Longrightarrow> i = j"
  unfolding owner_def using calls_pubD(2) by blast

lemma calls_pubI:
  assumes "\<And>i c. hb_calls hub i = Some c \<Longrightarrow> call_pub hub c"
    and "\<And>i j d q e q' e'. owner hub i d q e \<Longrightarrow> owner hub j d q' e' \<Longrightarrow> i = j"
    and "\<And>i j sid. term_call hub i sid \<Longrightarrow> term_call hub j sid \<Longrightarrow> i = j"
    and "\<And>i sid s. term_call hub i sid \<Longrightarrow> hb_heap hub sid = Some s \<Longrightarrow> \<not> ss_terminal s \<Longrightarrow> ss_terminalPending s"
  shows "calls_pub hub"
proof -
  have "i = j" if "hb_calls hub i = Some c" "hb_calls hub j = Some c'" "owns c d" "owns c' d" for i j c c' d
    by (rule assms(2) [of i d "pc_session c" "pc_event c" j "pc_session c'" "pc_event c'"]) (use that in \<open>auto simp: owner_def\<close>)
  then show ?thesis
    unfolding calls_pub_def using assms(1,3,4) by blast
qed

lemma hub_pub_recall:
  assumes inv: "hub_pub D hub"
    and same: "hb_heap hub' = hb_heap hub" "hb_deliveries hub' = hb_deliveries hub" "hb_log hub' = hb_log hub"
      "hb_known hub' = hb_known hub" "hb_retired hub' = hb_retired hub"
    and own: "owner hub' = owner hub"
    and calls: "\<And>i c. hb_calls hub' i = Some c \<Longrightarrow> call_pub hub c"
  shows "hub_pub D hub'"
proof -
  have cp: "calls_pub hub" by (rule hub_pubD(3) [OF inv])
  have tc: "term_call hub' = term_call hub" by (simp add: fun_eq_iff term_call_owner own)
  have call: "call_pub hub' = call_pub hub" by (simp add: fun_eq_iff call_pub_def same)
  have "calls_pub hub'"
  proof (rule calls_pubI)
    show "call_pub hub' c" if "hb_calls hub' i = Some c" for i c using calls [OF that] call by simp
    show "i = j" if "owner hub' i d q e" "owner hub' j d q' e'" for i j d q e q' e'
      using owner_unique [OF cp] that own by metis
    show "i = j" if "term_call hub' i sid" "term_call hub' j sid" for i j sid using calls_pubD(3) [OF cp] that tc by metis
    show "ss_terminalPending s" if "term_call hub' i sid" "hb_heap hub' sid = Some s" "\<not> ss_terminal s" for i sid s
      using calls_pubD(4) [OF cp] that tc same(1) by metis
  qed
  moreover have "delivery_pub hub' d dl" if "hb_deliveries hub' d = Some dl" for d dl
    using hub_pubD(2) [OF inv] that unfolding delivery_pub_def owned_iff own same by blast
  moreover have "log_pub hub'"
    using hub_pubD(4) [OF inv] by (simp add: log_pub_def terminals_def committing_owner own same)
  ultimately show ?thesis
    using inv by (simp add: hub_pub_def session_pub_def acknowledged_def receipts_pub_def same)
qed

text \<open>A publisher that sent its delivery, one that waits for a duplicate, and one that waited.\<close>

lemma sent_pub:
  assumes "hub_pub D hub" "hb_calls hub i = Some c" "pc_phase c = Sending d"
  shows "hub_pub D (put_call i (c\<lparr>pc_phase := Sent d\<rparr>) hub)"
proof (rule hub_pub_recall [OF assms(1)])
  show "owner (put_call i (c\<lparr>pc_phase := Sent d\<rparr>) hub) = owner hub"
    using assms(2,3) by (auto simp: fun_eq_iff owner_def put_call_def owns_def)
  show "call_pub hub c'" if "hb_calls (put_call i (c\<lparr>pc_phase := Sent d\<rparr>) hub) j = Some c'" for j c'
    using that calls_pubD(1) [OF hub_pubD(3) [OF assms(1)]] assms(2,3)
    by (auto simp: put_call_def call_pub_def owns_def split: if_splits)
qed (simp_all add: put_call_def)

lemma await_pub:
  assumes "hub_pub D hub" "hb_calls hub i = None" "hb_heap hub sid = Some s" "ss_inflight s (ev_ID e) = Some d"
  shows "hub_pub D (put_call i \<lparr>pc_session = sid, pc_event = e, pc_phase = AwaitDuplicate d\<rparr> hub)"
proof (rule hub_pub_recall [OF assms(1)])
  let ?hub = "put_call i \<lparr>pc_session = sid, pc_event = e, pc_phase = AwaitDuplicate d\<rparr> hub"
  show "owner ?hub = owner hub"
    using assms(2) by (auto simp: fun_eq_iff owner_def put_call_def owns_def)
  obtain dl where "hb_deliveries hub d = Some dl" "dl_Session dl = sid" "ev_ID (dl_Event dl) = ev_ID e"
    using hub_pubD(1) [OF assms(1,3)] assms(4) unfolding session_pub_def by blast
  then show "call_pub hub c'" if "hb_calls ?hub j = Some c'" for j c'
    using that calls_pubD(1) [OF hub_pubD(3) [OF assms(1)]]
    by (cases "j = i") (auto simp: put_call_def call_pub_def owns_def)
qed (simp_all add: put_call_def)

lemma await_done_pub:
  assumes "hub_pub D hub" "hb_calls hub i = Some c" "pc_phase c = AwaitDuplicate d"
  shows "hub_pub D (hub\<lparr>hb_calls := (hb_calls hub)(i := None)\<rparr>)"
proof (rule hub_pub_recall [OF assms(1)])
  show "owner (hub\<lparr>hb_calls := (hb_calls hub)(i := None)\<rparr>) = owner hub"
    using assms(2,3) by (auto simp: fun_eq_iff owner_def owns_def)
  show "call_pub hub c'" if "hb_calls (hub\<lparr>hb_calls := (hb_calls hub)(i := None)\<rparr>) j = Some c'" for j c'
    using that calls_pubD(1) [OF hub_pubD(3) [OF assms(1)]] by (auto split: if_splits)
qed simp_all

lemma owner_delivery:
  assumes "calls_pub hub" "owner hub i d q e"
  shows "\<exists>dl. hb_deliveries hub d = Some dl \<and> dl_Session dl = q \<and> dl_Event dl = e"
proof -
  obtain c where c: "hb_calls hub i = Some c" "owns c d" "pc_session c = q" "pc_event c = e"
    using assms(2) by (auto simp: owner_def)
  show ?thesis using calls_pubD(1) [OF assms(1) c(1)] c(2-4) by (auto simp: call_pub_def)
qed

lemma owner_one: "owner hub i d q e \<Longrightarrow> owner hub i d' q' e' \<Longrightarrow> d' = d \<and> q' = q \<and> e' = e"
  by (auto simp: owner_def owns_def)

lemma log_pub_mono:
  assumes "log_pub hub" "hb_log hub' = hb_log hub"
    and "\<And>q. \<exists>t. hb_heap hub q = Some t \<and> ss_terminal t \<Longrightarrow> \<exists>t. hb_heap hub' q = Some t \<and> ss_terminal t"
    and "\<And>q. committing hub q \<Longrightarrow> (\<exists>t. hb_heap hub' q = Some t \<and> ss_terminal t) \<or> committing hub' q"
  shows "log_pub hub'"
  using assms(1) assms(3,4) unfolding log_pub_def terminals_def assms(2) by blast

text \<open>A repeated acceptance is remembered as known.\<close>

lemma known_pub:
  assumes inv: "hub_pub D hub" and s: "hb_heap hub sid = Some s"
  shows "hub_pub D ((put_session sid (s\<lparr>ss_seen := insert q (ss_seen s)\<rparr>) hub)\<lparr>hb_known := (sid, q) # hb_known hub\<rparr>)"
    (is "hub_pub D ?hub")
proof (rule hub_pub_step [OF inv])
  have sel: "hb_heap ?hub = (hb_heap hub)(sid \<mapsto> s\<lparr>ss_seen := insert q (ss_seen s)\<rparr>)" "hb_deliveries ?hub = hb_deliveries hub"
    "hb_calls ?hub = hb_calls hub" "hb_log ?hub = hb_log hub" "hb_known ?hub = (sid, q) # hb_known hub" "hb_retired ?hub = hb_retired hub"
    by (simp_all add: put_session_def)
  show "session_pub ?hub p t" if "hb_heap ?hub p = Some t" for p t
    using that hub_pubD(1) [OF inv s] hub_pubD(1) [OF inv, of p t] by (cases "p = sid") (auto simp: session_pub_def acknowledged_def)
  show "delivery_pub ?hub d dl" if "hb_deliveries ?hub d = Some dl" for d dl
    using hub_pubD(2) [OF inv, of d dl] that s by (auto simp: delivery_pub_def sel)
  have cp: "calls_pub hub" by (rule hub_pubD(3) [OF inv])
  have tc: "term_call ?hub = term_call hub" by (simp add: fun_eq_iff term_call_def sel)
  have own: "owner ?hub = owner hub" by (simp add: fun_eq_iff owner_def sel)
  show "calls_pub ?hub"
  proof (rule calls_pubI)
    show "call_pub ?hub c" if "hb_calls ?hub i = Some c" for i c
      using calls_pubD(1) [OF cp] that by (simp add: sel call_pub_def)
    show "ss_terminalPending t" if "term_call ?hub i p" "hb_heap ?hub p = Some t" "\<not> ss_terminal t" for i p t
      using calls_pubD(4) [OF cp] that s unfolding tc by (cases "p = sid") (auto simp: sel)
  qed (use owner_unique [OF cp] calls_pubD(3) [OF cp] in \<open>unfold own tc, blast+\<close>)
  show "log_pub ?hub"
    by (rule log_pub_mono [OF hub_pubD(4) [OF inv]]) (use s in \<open>auto simp: committing_def\<close>)
qed (use s in \<open>auto simp: put_session_def\<close>)

text \<open>A new delivery.\<close>

lemma deliver_pub:
  assumes inv: "hub_pub D hub" and s: "hb_heap hub sid = Some s" "\<not> ss_terminal s" "\<not> ss_terminalPending s"
    and fresh: "hb_calls hub i = None" "hb_deliveries hub d = None"
    and s': "ss_key s' = ss_key s" "ss_terminal s' = ss_terminal s" "ss_seen s' = ss_seen s" "ss_pending s' = insert d (ss_pending s)"
      "ss_terminalPending s' = EndsResponse e"
      "\<And>q x. ss_inflight s' q = Some x \<Longrightarrow> ss_inflight s q = Some x \<or> (x = d \<and> q = ev_ID e)"
  shows "hub_pub D (put_call i \<lparr>pc_session = sid, pc_event = e, pc_phase = Sending d\<rparr>
    (put_session sid s' (hub\<lparr>hb_deliveries := (hb_deliveries hub)(d \<mapsto> \<lparr>dl_Event = e, dl_Session = sid, dl_done = None\<rparr>)\<rparr>)))"
    (is "hub_pub D ?hub")
proof (rule hub_pub_step [OF inv])
  have sel: "hb_heap ?hub = (hb_heap hub)(sid \<mapsto> s')" "hb_log ?hub = hb_log hub" "hb_known ?hub = hb_known hub"
    "hb_calls ?hub = (hb_calls hub)(i \<mapsto> \<lparr>pc_session = sid, pc_event = e, pc_phase = Sending d\<rparr>)" "hb_retired ?hub = hb_retired hub"
    "hb_deliveries ?hub = (hb_deliveries hub)(d \<mapsto> \<lparr>dl_Event = e, dl_Session = sid, dl_done = None\<rparr>)"
    by (simp_all add: put_session_def put_call_def)
  have cp: "calls_pub hub" by (rule hub_pubD(3) [OF inv])
  have own: "owner ?hub j x q f \<longleftrightarrow> (if j = i then x = d \<and> q = sid \<and> f = e else owner hub j x q f)" for j x q f
    by (auto simp: owner_def sel owns_def)
  have old: "x \<noteq> d" if "owner hub j x q f" for j x q f
    using owner_delivery [OF cp that] fresh(2) by auto
  have noterm: "\<not> term_call hub j sid" for j
    using calls_pubD(4) [OF cp _ s(1,2)] s(3) by blast
  have tc: "term_call ?hub j q \<longleftrightarrow> (if j = i then q = sid \<and> EndsResponse e else term_call hub j q)" for j q
    by (auto simp: term_call_owner own)
  have inflight: "\<exists>dl. hb_deliveries ?hub x = Some dl \<and> dl_Session dl = p \<and> ev_ID (dl_Event dl) = q"
    if h: "hb_heap hub p = Some t" "ss_inflight t q = Some x" for p t q x
  proof -
    obtain dl where "hb_deliveries hub x = Some dl" "dl_Session dl = p" "ev_ID (dl_Event dl) = q"
      using hub_pubD(1) [OF inv h(1)] h(2) unfolding session_pub_def by blast
    then show ?thesis using fresh(2) by (cases "x = d") (auto simp: sel)
  qed
  show "session_pub ?hub p t" if t: "hb_heap ?hub p = Some t" for p t
  proof (cases "p = sid")
    case True
    then have "t = s'" using t by (simp add: sel)
    moreover have "\<exists>dl. hb_deliveries ?hub x = Some dl \<and> dl_Session dl = sid \<and> ev_ID (dl_Event dl) = q"
      if "ss_inflight s' q = Some x" for q x
      using s'(6) [OF that] inflight [OF s(1), of q x] by (auto simp: sel)
    ultimately show ?thesis
      using hub_pubD(1) [OF inv s(1)] True by (simp add: session_pub_def acknowledged_def sel(2,3) s'(3))
  next
    case False
    then have "hb_heap hub p = Some t" using t by (simp add: sel)
    then show ?thesis
      using hub_pubD(1) [OF inv, of p t] inflight [of p t] by (simp add: session_pub_def acknowledged_def sel(2,3))
  qed
  show "delivery_pub ?hub x dl" if x: "hb_deliveries ?hub x = Some dl" for x dl
  proof (cases "x = d")
    case True
    then have "dl = \<lparr>dl_Event = e, dl_Session = sid, dl_done = None\<rparr>" using x by (simp add: sel)
    then show ?thesis using True s(2) s'(2,4) by (auto simp: delivery_pub_def owns_def intro!: exI [of _ i])
  next
    case False
    then have dl: "hb_deliveries hub x = Some dl" using x by (simp add: sel)
    note ok = hub_pubD(2) [OF inv dl, unfolded delivery_pub_def owned_iff]
    have "\<exists>t. hb_heap ?hub (dl_Session dl) = Some t \<and> (dl_done dl = None \<longrightarrow> \<not> ss_terminal t \<and> x \<in> ss_pending t)"
      using ok s(1) s'(2,4) by (cases "dl_Session dl = sid") (auto simp: sel)
    moreover have "\<exists>j q f. owner ?hub j x q f" if "dl_done dl = None"
    proof -
      obtain j q f where "owner hub j x q f" using ok \<open>dl_done dl = None\<close> by blast
      moreover from this have "j \<noteq> i" using fresh(1) by (auto simp: owner_def)
      ultimately show ?thesis using own by metis
    qed
    ultimately show ?thesis using ok by (intro delivery_pubI) simp_all
  qed
  show "calls_pub ?hub"
  proof (rule calls_pubI)
    show "call_pub ?hub c" if c: "hb_calls ?hub j = Some c" for j c
    proof (cases "j = i")
      case True
      then show ?thesis using c by (auto simp: sel call_pub_def owns_def)
    next
      case False
      then have "call_pub hub c" using calls_pubD(1) [OF cp] c by (simp add: sel)
      then show ?thesis using fresh(2) unfolding call_pub_def sel by (metis fun_upd_other option.distinct(1))
    qed
    show "j = l" if "owner ?hub j x q f" "owner ?hub l x q' f'" for j l x q f q' f'
      using that owner_unique [OF cp] old unfolding own by (metis (no_types))
    show "j = l" if "term_call ?hub j q" "term_call ?hub l q" for j l q
      using that calls_pubD(3) [OF cp] noterm unfolding tc by (metis (no_types))
    show "ss_terminalPending t" if "term_call ?hub j q" "hb_heap ?hub q = Some t" "\<not> ss_terminal t" for j q t
      using that noterm calls_pubD(4) [OF cp] s'(5) unfolding tc sel by (metis fun_upd_other fun_upd_same option.inject)
  qed
  have "committing ?hub q" if "committing hub q" for q
  proof -
    obtain j x p f dl where c: "owner hub j x p f" "hb_deliveries hub x = Some dl" "dl_Session dl = q" "dl_done dl = Some None"
      "EndsResponse (dl_Event dl)" using \<open>committing hub q\<close> unfolding committing_owner by blast
    have "j \<noteq> i" using c(1) fresh(1) by (auto simp: owner_def)
    then have "owner ?hub j x p f" using c(1) own by simp
    moreover have "hb_deliveries ?hub x = Some dl" using c(2) old [OF c(1)] by (simp add: sel)
    ultimately show ?thesis using c(3-5) unfolding committing_owner by blast
  qed
  moreover have "(\<exists>t. hb_heap ?hub q = Some t \<and> ss_terminal t)" if "\<exists>t. hb_heap hub q = Some t \<and> ss_terminal t" for q
    using that s(1) s'(2) by (cases "q = sid") (auto simp: sel)
  ultimately show "log_pub ?hub"
    using log_pub_mono [OF hub_pubD(4) [OF inv] sel(2)] by blast
qed (use s(1) s'(1) in \<open>auto simp: put_session_def put_call_def\<close>)

text \<open>The consumer commits a delivery with nil.\<close>

lemma commit_nil_pub:
  assumes inv: "hub_pub D hub" and dl: "hb_deliveries hub d = Some dl" "dl_done dl = None"
  shows "hub_pub D (hub\<lparr>hb_deliveries := (hb_deliveries hub)(d \<mapsto> dl\<lparr>dl_done := Some None\<rparr>),
    hb_log := (dl_Session dl, dl_Event dl) # hb_log hub\<rparr>)" (is "hub_pub D ?hub")
proof (rule hub_pub_step [OF inv])
  have cp: "calls_pub hub" by (rule hub_pubD(3) [OF inv])
  have own: "owner ?hub = owner hub" by (simp add: fun_eq_iff owner_def)
  have tc: "term_call ?hub = term_call hub" by (simp add: fun_eq_iff term_call_owner own)
  have keep: "\<exists>y. hb_deliveries ?hub x = Some y \<and> dl_Session y = dl_Session z \<and> dl_Event y = dl_Event z"
    if "hb_deliveries hub x = Some z" for x z
    using that dl(1) by (cases "x = d") auto
  show "session_pub ?hub p t" if t: "hb_heap ?hub p = Some t" for p t
  proof -
    have ok: "session_pub hub p t" using t hub_pubD(1) [OF inv] by simp
    have "\<exists>y. hb_deliveries ?hub x = Some y \<and> dl_Session y = p \<and> ev_ID (dl_Event y) = q" if "ss_inflight t q = Some x" for q x
      using ok that keep unfolding session_pub_def by metis
    then show ?thesis using ok by (auto simp: session_pub_def acknowledged_def)
  qed
  show "delivery_pub ?hub x y" if y: "hb_deliveries ?hub x = Some y" for x y
  proof (cases "x = d")
    case True
    then have "y = dl\<lparr>dl_done := Some None\<rparr>" using y by simp
    then show ?thesis using hub_pubD(2) [OF inv dl(1)] by (auto simp: delivery_pub_def)
  next
    case False
    then have "hb_deliveries hub x = Some y" using y by simp
    then show ?thesis using hub_pubD(2) [OF inv] by (auto simp: delivery_pub_def)
  qed
  show "calls_pub ?hub"
  proof (rule calls_pubI)
    show "call_pub ?hub c" if "hb_calls ?hub i = Some c" for i c
    proof -
      have "call_pub hub c" using calls_pubD(1) [OF cp] that by simp
      then show ?thesis unfolding call_pub_def using keep by metis
    qed
    show "ss_terminalPending t" if "term_call ?hub i q" "hb_heap ?hub q = Some t" "\<not> ss_terminal t" for i q t
      using that calls_pubD(4) [OF cp] unfolding tc by simp
  qed (use owner_unique [OF cp] calls_pubD(3) [OF cp] in \<open>unfold own tc, blast+\<close>)
  obtain i q e where i: "owner hub i d q e" using hub_pubD(2) [OF inv dl(1)] dl(2) unfolding delivery_pub_def owned_iff by blast
  then have qe: "q = dl_Session dl" "e = dl_Event dl" using owner_delivery [OF cp i] dl(1) by auto
  have fresh: "terminals hub (dl_Session dl) = []" if ends: "EndsResponse (dl_Event dl)"
  proof (rule ccontr)
    assume "terminals hub (dl_Session dl) \<noteq> []"
    then consider t where "hb_heap hub (dl_Session dl) = Some t" "ss_terminal t" | "committing hub (dl_Session dl)"
      using hub_pubD(4) [OF inv] unfolding log_pub_def by blast
    then show False
    proof cases
      case 1
      then show ?thesis using delivery_pending(1) [OF inv dl] by blast
    next
      case 2
      then obtain j x p f y where j: "owner hub j x p f" "hb_deliveries hub x = Some y" "dl_Session y = dl_Session dl"
        "dl_done y = Some None" "EndsResponse (dl_Event y)" unfolding committing_owner by blast
      then have pf: "p = dl_Session dl" "f = dl_Event y" using owner_delivery [OF cp j(1)] by auto
      have "term_call hub j (dl_Session dl)" "term_call hub i (dl_Session dl)"
        using j(1,5) pf i qe ends unfolding term_call_owner by blast+
      then have "i = j" using calls_pubD(3) [OF cp] by blast
      then have "x = d" using owner_one i j(1) by blast
      then show False using dl j(2,4) by simp
    qed
  qed
  have com: "committing ?hub p" if "committing hub p" for p
  proof -
    obtain j x p' f y where j: "owner hub j x p' f" "hb_deliveries hub x = Some y" "dl_Session y = p"
        "dl_done y = Some None" "EndsResponse (dl_Event y)" using \<open>committing hub p\<close> unfolding committing_owner by blast
    then have "x \<noteq> d" using dl by auto
    then have "hb_deliveries ?hub x = Some y" using j(2) by simp
    then show ?thesis using j unfolding committing_owner own by blast
  qed
  show "log_pub ?hub"
    unfolding log_pub_def
  proof (intro allI)
    fix p
    have new: "committing ?hub (dl_Session dl)" if "EndsResponse (dl_Event dl)"
      unfolding committing_owner own using i that by (intro exI [of _ i] exI [of _ d] exI [of _ q] exI [of _ e]) simp
    show "length (terminals ?hub p) \<le> 1
      \<and> (terminals ?hub p \<noteq> [] \<longrightarrow> (\<exists>s. hb_heap ?hub p = Some s \<and> ss_terminal s) \<or> committing ?hub p)"
    proof (cases "p = dl_Session dl \<and> EndsResponse (dl_Event dl)")
      case True
      then have "terminals ?hub p = [(p, dl_Event dl)]" using fresh by (simp add: terminals_def)
      then show ?thesis using new True by simp
    next
      case False
      then have "terminals ?hub p = terminals hub p" by (auto simp: terminals_def)
      then show ?thesis using hub_pubD(4) [OF inv] com unfolding log_pub_def by auto
    qed
  qed
qed auto

text \<open>A publisher leaves with the outcome of its delivery.\<close>

lemma finish_pub:
  assumes inv: "hub_pub D hub" and c: "hb_calls hub i = Some c" "pc_phase c = Sent d"
    and dl: "hb_deliveries hub d = Some dl" "dl_done dl = Some err"
    and s: "hb_heap hub (pc_session c) = Some s"
    and s': "ss_key s' = ss_key s" "ss_terminal s' = ss_terminal s" "ss_pending s - {d} \<subseteq> ss_pending s'"
      "\<And>q x. ss_inflight s' q = Some x \<Longrightarrow> ss_inflight s q = Some x"
      "\<And>q. q \<in> ss_seen s' \<Longrightarrow> q \<in> ss_seen s \<or> (err = None \<and> q = ev_ID (pc_event c))"
      "ss_terminalPending s \<Longrightarrow> ss_terminalPending s' \<or> EndsResponse (pc_event c)"
    and ended: "err = None \<Longrightarrow> EndsResponse (pc_event c) \<Longrightarrow> ss_terminal s"
  shows "hub_pub D (put_session (pc_session c) s' (hub\<lparr>hb_calls := (hb_calls hub)(i := None)\<rparr>))" (is "hub_pub D ?hub")
proof (rule hub_pub_step [OF inv])
  have cp: "calls_pub hub" by (rule hub_pubD(3) [OF inv])
  have i: "owner hub i d (pc_session c) (pc_event c)" using c by (auto simp: owner_def owns_def)
  have sd: "dl_Session dl = pc_session c" "dl_Event dl = pc_event c" using owner_delivery [OF cp i] dl(1) by auto
  have own: "owner ?hub j x q e \<longleftrightarrow> j \<noteq> i \<and> owner hub j x q e" for j x q e by (auto simp: owner_def)
  have tc: "term_call ?hub j q \<longleftrightarrow> j \<noteq> i \<and> term_call hub j q" for j q by (auto simp: term_call_owner own)
  show "session_pub ?hub p t" if t: "hb_heap ?hub p = Some t" for p t
  proof (cases "p = pc_session c")
    case True
    then have t': "t = s'" using t by simp
    have ok: "session_pub hub p s" using hub_pubD(1) [OF inv] s True by blast
    have "acknowledged hub p q" if "q \<in> ss_seen s'" for q
    proof (cases "q \<in> ss_seen s")
      case False
      then have "err = None" "q = ev_ID (pc_event c)" using s'(5) that by auto
      then have "(p, pc_event c) \<in> set (hb_log hub)"
        using hub_pubD(2) [OF inv dl(1)] dl(2) sd True by (simp add: delivery_pub_def)
      then show ?thesis using \<open>q = ev_ID (pc_event c)\<close> unfolding acknowledged_def by blast
    qed (use ok in \<open>simp add: session_pub_def\<close>)
    then show ?thesis using ok s'(4) unfolding t' session_pub_def by (auto simp: acknowledged_def)
  next
    case False
    then show ?thesis using t hub_pubD(1) [OF inv, of p t] by (simp add: session_pub_def acknowledged_def)
  qed
  show "delivery_pub ?hub x y" if y: "hb_deliveries ?hub x = Some y" for x y
  proof -
    have y: "hb_deliveries hub x = Some y" using y by simp
    note ok = hub_pubD(2) [OF inv y, unfolded delivery_pub_def owned_iff]
    have "\<exists>t. hb_heap ?hub (dl_Session y) = Some t \<and> (dl_done y = None \<longrightarrow> \<not> ss_terminal t \<and> x \<in> ss_pending t)"
    proof (cases "dl_Session y = pc_session c")
      case True
      have "x \<noteq> d" if "dl_done y = None" using that y dl by auto
      then show ?thesis using ok True s s'(2,3) by auto
    qed (use ok in auto)
    moreover have "\<exists>j q e. owner ?hub j x q e" if "dl_done y = None"
    proof -
      obtain j q e where j: "owner hub j x q e" using ok \<open>dl_done y = None\<close> by blast
      have "x \<noteq> d" using \<open>dl_done y = None\<close> y dl by auto
      then have "j \<noteq> i" using owner_one i j by blast
      then show ?thesis using j own by blast
    qed
    ultimately show ?thesis using ok by (intro delivery_pubI) simp_all
  qed
  show "calls_pub ?hub"
  proof (rule calls_pubI)
    show "call_pub ?hub c'" if "hb_calls ?hub j = Some c'" for j c'
      using that calls_pubD(1) [OF cp, of j c'] by (auto simp: call_pub_def split: if_splits)
    show "ss_terminalPending t" if t: "term_call ?hub j q" "hb_heap ?hub q = Some t" "\<not> ss_terminal t" for j q t
    proof (cases "q = pc_session c")
      case True
      have j: "j \<noteq> i" "term_call hub j q" using t(1) tc by auto
      have "\<not> EndsResponse (pc_event c)"
        using j calls_pubD(3) [OF cp j(2)] i True unfolding term_call_owner by blast
      then show ?thesis using t(2,3) True s'(2,6) calls_pubD(4) [OF cp j(2)] s by auto
    next
      case False
      then show ?thesis using t(2,3) t(1) [unfolded tc] calls_pubD(4) [OF cp, of j q t] by simp
    qed
  qed (use owner_unique [OF cp] calls_pubD(3) [OF cp] in \<open>unfold own tc, blast+\<close>)
  show "log_pub ?hub"
  proof (rule log_pub_mono [OF hub_pubD(4) [OF inv]])
    show "\<exists>t. hb_heap ?hub q = Some t \<and> ss_terminal t" if "\<exists>t. hb_heap hub q = Some t \<and> ss_terminal t" for q
      using that s s'(2) by (cases "q = pc_session c") auto
    show "(\<exists>t. hb_heap ?hub q = Some t \<and> ss_terminal t) \<or> committing ?hub q" if "committing hub q" for q
    proof -
      obtain j x p f y where j: "owner hub j x p f" "hb_deliveries hub x = Some y" "dl_Session y = q"
        "dl_done y = Some None" "EndsResponse (dl_Event y)" using \<open>committing hub q\<close> unfolding committing_owner by blast
      show ?thesis
      proof (cases "j = i")
        case True
        then have "y = dl" using owner_one [OF i] j(1,2) dl(1) by force
        then show ?thesis using j(3-5) sd dl(2) ended s s'(2) by auto
      next
        case False
        then show ?thesis using j own unfolding committing_owner by fastforce
      qed
    qed
  qed simp
qed (use s s'(1) in auto)

end
