(* ===== verification/Hub_Steps.thy ===== *)
theory Hub_Steps
  imports Hub_Invariant
begin

text \<open>
  Every step of the hub keeps the invariant: registrations and admissions, the sections of a publisher, the
  consumer's commits and the dispatchers.
\<close>


section \<open>Workers and admission\<close>

lemma hub_inv_owned: "hub_inv D hub \<Longrightarrow> hub_owned hub hub' \<Longrightarrow> hub_inv D hub'"
  using hub_owned_acct hub_owned_pub unfolding hub_inv_def by blast

lemma hub_inv_states: "hub_inv D hub \<Longrightarrow> hub_inv D (hub\<lparr>hb_states := x\<rparr>)"
  by (rule hub_inv_owned [OF _ hub_owned_states])

lemma workers_inv:
  assumes "hub_inv D hub" "hub_owned hub (hub'\<lparr>hb_workers := hb_workers hub, hb_online := hb_online hub\<rparr>)"
    "finite (dom (hb_workers hub'))" "hb_online hub' = int (card (dom (hb_workers hub')))"
  shows "hub_inv D hub'"
proof -
  let ?hub = "hub'\<lparr>hb_workers := hb_workers hub, hb_online := hb_online hub\<rparr>"
  have inv: "hub_inv D ?hub" by (rule hub_inv_owned [OF assms(1,2)])
  then have "hub_acct hub'"
    using assms(3,4) by (simp add: hub_inv_def hub_acct_def sessions_ok_def counts_ok_def order_ok_def open_reservations_def)
  moreover have "hub_pub D hub'"
    using inv hub_pub_cong [of hub' ?hub D] by (simp add: hub_inv_def)
  ultimately show ?thesis by (simp add: hub_inv_def)
qed

lemma hub_inv_counts:
  "hub_inv D hub \<Longrightarrow> finite (dom (hb_workers hub)) \<and> hb_online hub = int (card (dom (hb_workers hub)))"
  by (simp add: hub_inv_def hub_acct_def counts_ok_def)

lemma owned_workers:
  assumes "hub_owned (hub\<lparr>hb_states := x, hb_workers := w\<rparr>) hub'"
  shows "hub_owned hub (hub'\<lparr>hb_workers := hb_workers hub\<rparr>)" "hb_workers hub' = w" "hb_online hub' = hb_online hub"
  using assms by (simp_all add: hub_owned_def)

lemma owned_more:
  "hub_owned hub hub' \<Longrightarrow> hub_owned hub (close_worker p hub')"
  by (simp add: hub_owned_def)

lemma close_worker_update:
  "(close_worker p hub)\<lparr>hb_workers := x, hb_online := y\<rparr> = close_worker p (hub\<lparr>hb_workers := x, hb_online := y\<rparr>)"
  by (simp add: close_worker_def split: option.splits)

lemma RegisterInstance_inv:
  assumes inv: "hub_inv D hub" and run: "RegisterInstance workerID instanceID wid sids hub = (r, hub')"
  shows "hub_inv D hub'"
proof (cases "hub' = hub")
  case False
  let ?st = "newWorkerState (max (hb_capacity hub) (nat (hb_active hub))) instanceID"
  let ?h1 = "hub\<lparr>hb_states := (hb_states hub)(wid \<mapsto> ?st), hb_workers := (hb_workers hub)(workerID \<mapsto> wid)\<rparr>"
  obtain b h2 where adopt: "adopt_sessions workerID wid sids ?h1 = (b, h2)" by fastforce
  note own = owned_workers [OF adopt_owned [OF adopt]]
  have own': "hub_owned hub (h2\<lparr>hb_workers := hb_workers hub, hb_online := hb_online hub\<rparr>)"
    using own(1,3) by (simp add: hub_owned_def)
  have hub': "hub' = (if b then (case hb_workers hub workerID of
                   Some p \<Rightarrow> close_worker p h2 | None \<Rightarrow> h2\<lparr>hb_online := hb_online h2 + 1\<rparr>)
      else close_worker wid (h2\<lparr>hb_workers := (hb_workers h2)(workerID := hb_workers hub workerID)\<rparr>))"
    using run False adopt by (auto simp: RegisterInstance_def Let_def split: if_splits)
  have fin: "finite (dom (hb_workers hub))" "hb_online hub = int (card (dom (hb_workers hub)))"
    using hub_inv_counts [OF inv] by simp_all
  show ?thesis
  proof (rule workers_inv [OF inv])
    show "hub_owned hub (hub'\<lparr>hb_workers := hb_workers hub, hb_online := hb_online hub\<rparr>)"
      using own' by (auto simp: hub' close_worker_update intro: owned_more split: option.split)
    show "finite (dom (hb_workers hub'))" using fin by (auto simp: hub' own(2) split: option.split)
    show "hb_online hub' = int (card (dom (hb_workers hub')))"
    proof (cases "hb_workers hub workerID")
      case None
      then show ?thesis using fin card_dom_insert [OF fin(1) None] by (auto simp: hub' own(2,3) fun_upd_idem)
    next
      case (Some p)
      then show ?thesis using fin card_dom_overwrite [of "hb_workers hub", OF Some] by (auto simp: hub' own(2,3) fun_upd_idem insert_absorb domI)
    qed
  qed
qed (use inv in simp)

lemma unregister_inv:
  assumes "hub_inv D hub"
  shows "hub_inv D (unregister workerID wid hub)"
proof (cases "hb_workers hub workerID = Some wid")
  case False
  then show ?thesis using hub_inv_owned [OF assms owned_more [OF hub_owned_refl]] by (simp add: unregister_def)
next
  case True
  have fin: "finite (dom (hb_workers hub))" "hb_online hub = int (card (dom (hb_workers hub)))"
    using hub_inv_counts [OF assms] by simp_all
  show ?thesis
  proof (rule workers_inv [OF assms])
    show "hb_online (unregister workerID wid hub) = int (card (dom (hb_workers (unregister workerID wid hub))))"
      using True fin card_dom_remove [OF fin(1) True] by (simp add: unregister_def)
  qed (use True fin(1) in \<open>auto simp: unregister_def close_worker_update intro: owned_more\<close>)
qed

lemma Reserve_inv:
  assumes inv: "hub_inv D hub" and fresh: "hb_reservations hub rid = None" and run: "Reserve ids p rid hub = (r, hub')"
  shows "hub_inv D hub'"
proof (cases "hub' = hub")
  case False
  then obtain w where hub': "hub' = hub\<lparr>hb_reserved := hb_reserved hub + 1,
                 hb_reservations := (hb_reservations hub)(rid \<mapsto> \<lparr>rs_workerID = w, rs_used = False\<rparr>)\<rparr>"
    using run by (auto simp: Reserve_def split: sum.splits if_splits)
  have avail: "open_reservations hub' = insert rid (open_reservations hub)" "rid \<notin> open_reservations hub"
    using fresh by (auto simp: hub' open_reservations_def)
  then have "hub_acct hub'"
    using inv by (simp add: hub_inv_def hub_acct_def counts_ok_def) (simp add: hub' sessions_ok_def order_ok_def)
  moreover have "hub_pub D hub'" using inv hub_pub_cong [of hub' hub D] by (simp add: hub_inv_def hub')
  ultimately show ?thesis by (simp add: hub_inv_def)
qed (use inv in simp)

lemma use_reservation_inv:
  assumes "hub_inv D hub" "hb_reservations hub rid = Some r" "\<not> rs_used r"
  shows "hub_inv D (use_reservation rid r hub)"
  using use_reservation_acct [OF _ assms(2,3)] hub_pub_cong [of "use_reservation rid r hub" hub D] assms(1)
  by (simp add: hub_inv_def use_reservation_def)

lemma retire_inv: "hub_inv D hub \<Longrightarrow> hub_inv D (retireSessionLocked key sid err hub)"
  using retire_acct retire_pub unfolding hub_inv_def by blast

lemma add_session_inv:
  assumes "hub_inv D hub" "hb_heap hub sid = None" "hb_sessions hub (ss_key s) = None" "\<not> ss_terminal s" "\<not> ss_retired s"
    "\<And>q. q \<in> ss_seen s \<Longrightarrow> (sid, q) \<in> set known" "ss_inflight s = Map.empty"
  shows "hub_inv D ((add_session sid s hub)\<lparr>hb_known := known @ hb_known hub\<rparr>)"
proof -
  have "hub_acct (add_session sid s hub)" using add_session_acct assms(1-5) by (simp add: hub_inv_def)
  then have "hub_acct ((add_session sid s hub)\<lparr>hb_known := known @ hb_known hub\<rparr>)"
    by (simp add: hub_acct_def sessions_ok_def counts_ok_def order_ok_def open_reservations_def)
  then show ?thesis using add_session_pub [OF _ assms(2,6,7)] assms(1) by (simp add: hub_inv_def)
qed

lemma queue_session_inv:
  "hub_inv D hub \<Longrightarrow> queue_session sid s wid state hub = (r, hub') \<Longrightarrow> hub_inv D hub'"
  by (auto simp: queue_session_def Let_def intro: retire_inv hub_inv_states split: prod.splits if_splits)

lemma newSession_sel [simp]:
  "ss_key (newSession w a b) = SessionKey a" "ss_terminal (newSession w a b) = False" "ss_retired (newSession w a b) = False"
  "ss_seen (newSession w a b) = {}" "ss_inflight (newSession w a b) = Map.empty" "ss_assignment (newSession w a b) = a"
  by (simp_all add: newSession_def)

lemma SessionKey_owner [simp]: "SessionKey (a\<lparr>as_LeaseOwner := w\<rparr>) = SessionKey a"
  by (simp add: SessionKey_def)

lemma Enqueue_inv:
  assumes inv: "hub_inv D hub" and r: "hb_reservations hub rid = Some r" and fresh: "hb_heap hub sid = None"
    and run: "Reservation_Enqueue rid r assignment sid hub = (q, hub')"
  shows "hub_inv D hub'"
proof (cases "rs_used r")
  case True
  then show ?thesis using inv run by (simp add: Reservation_Enqueue_def)
next
  case False
  let ?h1 = "use_reservation rid r hub" and ?s = "newSession (rs_workerID r) (assignment\<lparr>as_LeaseOwner := rs_workerID r\<rparr>) False"
  have h1: "hub_inv D ?h1" by (rule use_reservation_inv [OF inv r False])
  have f1: "hb_heap ?h1 sid = None" using fresh by (simp add: use_reservation_def)
  have h2: "hub_inv D (add_session sid ?s ?h1)" if "hb_sessions ?h1 (SessionKey assignment) = None"
    using add_session_inv [OF h1 f1, of ?s "[]"] that by (simp add: add_session_def)
  show ?thesis
  proof (cases "hub' = ?h1")
    case no: False
    then obtain wid where wid: "hb_workers ?h1 (rs_workerID r) = Some wid"
      and key: "hb_sessions ?h1 (SessionKey assignment) = None"
      using run False by (auto simp: Reservation_Enqueue_def Let_def split: option.splits if_splits)
    have free: "hb_retired ?h1 (SessionKey assignment) = None"
      using run False no wid key by (auto simp: Reservation_Enqueue_def Let_def split: if_splits)
    show ?thesis
      using run False wid key free h2 [OF key]
      by (auto simp: Reservation_Enqueue_def Let_def intro: retire_inv queue_session_inv split: option.splits)
  qed (use h1 in simp)
qed

lemma offer_session_inv:
  assumes "hub_inv D hub"
    "(case hb_workers hub w of None \<Rightarrow> (Inr sid, hub)
      | Some wid \<Rightarrow> (case hb_states hub wid of None \<Rightarrow> (Inr sid, hub) | Some state \<Rightarrow> queue_session sid s wid (f state) hub)) = (q, hub')"
  shows "hub_inv D hub'"
  using assms by (auto intro: queue_session_inv split: option.splits)

lemma Restore_inv:
  assumes inv: "hub_inv D hub" and fresh: "hb_heap hub sid = None" and run: "Restore ids assignment options sid hub = (q, hub')"
  shows "hub_inv D hub'"
proof (cases "hub' = hub")
  case False
  let ?seen = "filter (\<lambda>q. q \<noteq> []) (ro_SeenEventIDs options)"
  obtain w where w: "(if ro_WorkerID options = [] \<and> ids \<noteq> [] then chooseWorker ids [] hub else Inr (ro_WorkerID options)) = Inr w"
    and key: "hb_sessions hub (SessionKey assignment) = None" "hb_retired hub (SessionKey assignment) = None"
    using run False by (auto simp: Restore_def split: sum.splits if_splits)
  let ?s = "(newSession w (assignment\<lparr>as_LeaseOwner := w\<rparr>) (ro_Accepted options))\<lparr>ss_seen := set ?seen\<rparr>"
  let ?h1 = "(add_session sid ?s hub)\<lparr>hb_known := map (\<lambda>q. (sid, q)) ?seen @ hb_known hub\<rparr>"
  have h1: "hub_inv D ?h1" by (rule add_session_inv [OF inv fresh]) (use key in auto)
  have run': "Restore ids assignment options sid hub = (case hb_workers ?h1 w of
                None \<Rightarrow> (Inr sid, ?h1)
              | Some wid \<Rightarrow>
                  (case hb_states ?h1 wid of
                     None \<Rightarrow> (Inr sid, ?h1)
                   | Some state \<Rightarrow> queue_session sid ?s wid (ensureCapacity (nat (hb_active ?h1)) state) ?h1))"
    by (simp only: Restore_def key w Let_def sum.case option.case not_True_eq_False simp_thms if_False HOL.refl)
  show ?thesis by (rule offer_session_inv [OF h1 trans [OF run' [symmetric] run]])
qed (use inv in simp)


section \<open>Publishers\<close>

lemma put_session_acct:
  "hub_acct hub \<Longrightarrow> hb_heap hub sid = Some s \<Longrightarrow> session_like s s' \<Longrightarrow> hub_acct (put_session sid s' hub)"
  by (rule hub_acct_like [of hub]) simp_all

lemma hub_acct_frame:
  assumes "hub_acct hub"
  shows "hub_acct (put_call i c hub)" "hub_acct (hub\<lparr>hb_calls := x\<rparr>)" "hub_acct (hub\<lparr>hb_deliveries := y\<rparr>)"
    "hub_acct (hub\<lparr>hb_known := z\<rparr>)" "hub_acct (hub\<lparr>hb_processing := p\<rparr>)" "hub_acct (hub\<lparr>hb_log := l\<rparr>)"
  by (rule hub_acct_like [OF assms], simp_all)+

lemma accepted_event_sel:
  "accepted_event w s e = Inr e' \<Longrightarrow> ev_ID e' = ev_ID e \<and> ev_Type e' = ev_Type e \<and> EndsResponse e' = EndsResponse e"
  by (auto simp: accepted_event_def EndsResponse_def split: if_splits)

lemma publish_active_inv:
  assumes inv: "hub_inv D hub" and fresh: "hb_calls hub i = None" "hb_deliveries hub did = None"
    and s: "hb_heap hub sid = Some s" and run: "publish_active w e sid s did i hub = (r, hub')"
  shows "hub_inv D hub'"
proof -
  have acct: "hub_acct hub" and pub: "hub_pub D hub" using inv by (simp_all add: hub_inv_def)
  show ?thesis
  proof (cases "hub' = hub")
    case changed: False
    then have seen: "\<not> (w \<noteq> [] \<and> w \<noteq> ss_workerID s)" "\<not> (ev_ID e \<noteq> [] \<and> ev_ID e \<in> ss_seen s)"
      using run by (auto simp: publish_active_def split: if_splits)
    note run' = run [unfolded publish_active_def, simplified if_not_P [OF seen(1)] if_not_P [OF seen(2)]]
    show ?thesis
    proof (cases "if ev_ID e \<noteq> [] then ss_inflight s (ev_ID e) else None")
      case (Some d)
      then have d: "ss_inflight s (ev_ID e) = Some d" "ev_ID e \<noteq> []" by (auto split: if_splits)
      then have "hub' = put_call i \<lparr>pc_session = sid, pc_event = e, pc_phase = AwaitDuplicate d\<rparr> hub"
        using run' by simp
      then show ?thesis using await_pub [OF pub fresh(1) s d(1)] hub_acct_frame(1) [OF acct] by (simp add: hub_inv_def)
    next
      case None
      then obtain e' where live: "\<not> ss_terminal s" "\<not> ss_terminalPending s" and e': "accepted_event w s e = Inr e'"
        using run' changed by (auto split: if_splits sum.splits)
      show ?thesis
      proof (cases "ev_Type e' = EventAccepted \<and> ss_accepted s")
        case True
        then have "hub' = (put_session sid (s\<lparr>ss_seen := insert (ev_ID e') (ss_seen s)\<rparr>) hub)\<lparr>hb_known := (sid, ev_ID e') # hb_known hub\<rparr>"
          using run' changed None live e' by (auto split: if_splits)
        then show ?thesis
          using known_pub [OF pub s] hub_acct_frame(4) put_session_acct [OF acct s, of "s\<lparr>ss_seen := insert (ev_ID e') (ss_seen s)\<rparr>"]
          by (simp add: hub_inv_def session_like_def)
      next
        case False
        let ?s = "s\<lparr>ss_terminalPending := (ss_terminalPending s \<or> EndsResponse e'), ss_pending := insert did (ss_pending s),
           ss_inflight := (if ev_ID e' \<noteq> [] then (ss_inflight s)(ev_ID e' \<mapsto> did) else ss_inflight s)\<rparr>"
        let ?h = "hub\<lparr>hb_deliveries := (hb_deliveries hub)(did \<mapsto> \<lparr>dl_Event = e', dl_Session = sid, dl_done = None\<rparr>)\<rparr>"
        have hub': "hub' = put_call i \<lparr>pc_session = sid, pc_event = e', pc_phase = Sending did\<rparr> (put_session sid ?s ?h)"
          using run' changed None live e' False by (auto simp: Let_def split: if_splits)
        have "hub_pub D hub'"
          unfolding hub' by (rule deliver_pub [OF pub s live fresh]) (use live in \<open>auto split: if_splits\<close>)
        moreover have "hub_acct hub'"
          unfolding hub' by (intro hub_acct_frame(1) put_session_acct [OF hub_acct_frame(3) [OF acct]])
            (simp_all add: s session_like_def)
        ultimately show ?thesis by (simp add: hub_inv_def)
      qed
    qed
  qed (use inv in simp)
qed

lemma publish_enter_inv:
  assumes "hub_inv D hub" "hb_calls hub i = None" "hb_deliveries hub did = None"
    "publish_enter D w caller key e did i hub = (r, hub')"
  shows "hub_inv D hub'"
  using assms(1,4) by (auto simp: publish_enter_def Let_def intro: publish_active_inv [OF assms(1-3)] split: option.splits)

lemma publish_send_inv:
  assumes inv: "hub_inv D hub" and c: "hb_calls hub i = Some c" "pc_phase c = Sending d" and run: "publish_send i c d hub = Some hub'"
  shows "hub_inv D hub'"
proof -
  obtain s where s: "hb_heap hub (pc_session c) = Some s"
    and hub': "hub' = put_call i (c\<lparr>pc_phase := Sent d\<rparr>) (put_session (pc_session c) (s\<lparr>ss_events := ss_events s @ [d]\<rparr>) hub)"
    using run by (auto simp: publish_send_def split: option.splits if_splits)
  let ?h = "put_session (pc_session c) (s\<lparr>ss_events := ss_events s @ [d]\<rparr>) hub"
  have acct: "hub_acct ?h" using inv put_session_acct [OF _ s] by (simp add: hub_inv_def session_like_def)
  have "hub_pub D ?h"
  proof (rule hub_pub_evolve [of D hub])
    show "\<not> ss_terminal t \<and> q \<in> ss_pending t"
      if "hb_deliveries ?h q = Some dl" "dl_done dl = None" "hb_heap ?h (dl_Session dl) = Some t" for q dl t
      using that inv s delivery_pending [of D hub q dl] by (cases "dl_Session dl = pc_session c") (auto simp: hub_inv_def)
  qed (use inv s in \<open>simp_all add: hub_inv_def session_evolves_def\<close>)
  then have "hub_pub D hub'" unfolding hub' by (rule sent_pub) (use c in simp_all)
  then show ?thesis using hub_acct_frame(1) [OF acct] by (simp add: hub_inv_def hub')
qed

lemma publish_retired_inv:
  assumes "hub_inv D hub" "hb_calls hub i = Some c" "pc_phase c = Sending d" "publish_retired i c d hub = Some hub'"
  shows "hub_inv D hub'"
  using assms sent_pub [OF _ assms(2,3)] hub_acct_frame(1) by (auto simp: publish_retired_def hub_inv_def split: if_splits)

lemma commit_error_inv: "hub_inv D hub \<Longrightarrow> hub_inv D (commit d (Some e) hub)"
  using commit_error_pub hub_acct_frame(3) unfolding hub_inv_def commit_def by blast

lemma publish_canceled_inv:
  assumes "hub_inv D hub" "hb_calls hub i = Some c" "pc_phase c = Sending d"
  shows "hub_inv D (publish_canceled i c d hub)"
proof -
  have h: "hub_inv D (commit d (Some ErrContext) hub)" by (rule commit_error_inv [OF assms(1)])
  moreover have "hb_calls (commit d (Some ErrContext) hub) i = Some c" using assms(2) by (simp add: commit_def)
  ultimately show ?thesis
    using sent_pub [OF _ _ assms(3)] hub_acct_frame(1) by (simp add: hub_inv_def publish_canceled_def)
qed


text \<open>The last section of a publisher whose event ended the session is the retirement, then the settlement.\<close>

lemma settle_session_sel [simp]:
  "ss_key (settle_session d e err s) = ss_key s" "ss_terminal (settle_session d e err s) = ss_terminal s"
  "ss_retired (settle_session d e err s) = ss_retired s" "ss_pending (settle_session d e err s) = ss_pending s - {d}"
  "ss_workerID (settle_session d e err s) = ss_workerID s" "ss_terminalPending (settle_session d e err s) = ss_terminalPending s"
  by (simp_all add: settle_session_def)

lemma settle_inflight: "ss_inflight (settle_session d e err s) q = Some x \<Longrightarrow> ss_inflight s q = Some x"
  by (auto simp: settle_session_def split: if_splits)

lemma settle_seen: "q \<in> ss_seen (settle_session d e err s) \<Longrightarrow> q \<in> ss_seen s \<or> (err = None \<and> q = ev_ID e)"
  by (auto simp: settle_session_def split: if_splits)

lemma commit_delivery_done_id: "dl_done dl = Some x \<Longrightarrow> commit_delivery err dl = dl"
  by (simp add: commit_delivery_def)

lemma retire_current:
  assumes "hb_heap hub sid = Some s" "hb_sessions hub key = Some sid" "\<not> ss_terminal s"
  shows "retireSessionLocked key sid err hub =
    hub\<lparr>hb_heap := (hb_heap hub)(sid \<mapsto> s\<lparr>ss_terminal := True, ss_terminalPending := False, ss_retired := True\<rparr>),
        hb_sessions := (hb_sessions hub)(key := None), hb_active := hb_active hub - 1,
        hb_deliveries := (\<lambda>d. if d \<in> ss_pending s then map_option (commit_delivery (Some err)) (hb_deliveries hub d)
                              else hb_deliveries hub d)\<rparr>"
  using assms by (simp add: retireSessionLocked_def)

lemma retire_heap:
  "hb_heap hub q = Some s \<Longrightarrow> \<exists>t. hb_heap (retireSessionLocked key sid err hub) q = Some t \<and> ss_key t = ss_key s"
  by (auto simp: retireSessionLocked_def split: option.split)

lemma retire_log [simp]: "hb_log (retireSessionLocked key sid err hub) = hb_log hub"
  by (simp add: retireSessionLocked_def split: option.split)

lemma retire_after_settle:
  assumes "hb_heap hub sid = Some s" "hb_sessions hub key = Some sid" "\<not> ss_terminal s"
    "hb_deliveries hub d = Some dl" "dl_done dl = Some x"
  shows "retireSessionLocked key sid err (put_session sid ((settle_session d e y s)\<lparr>ss_terminalPending := False\<rparr>) (hub\<lparr>hb_calls := calls\<rparr>))
    = put_session sid (settle_session d e y (s\<lparr>ss_terminal := True, ss_terminalPending := False, ss_retired := True\<rparr>))
        ((retireSessionLocked key sid err hub)\<lparr>hb_calls := calls\<rparr>)"
proof -
  let ?t = "(settle_session d e y s)\<lparr>ss_terminalPending := False\<rparr>"
  have settle: "settle_session d e y (s\<lparr>ss_terminal := True, ss_terminalPending := False, ss_retired := True\<rparr>)
      = ?t\<lparr>ss_terminal := True, ss_terminalPending := False, ss_retired := True\<rparr>"
    by (simp add: settle_session_def)
  have L: "hb_heap (put_session sid ?t (hub\<lparr>hb_calls := calls\<rparr>)) sid = Some ?t"
    "hb_sessions (put_session sid ?t (hub\<lparr>hb_calls := calls\<rparr>)) key = Some sid" "\<not> ss_terminal ?t"
    using assms(2,3) by simp_all
  show ?thesis
    unfolding retire_current [OF assms(1-3)] retire_current [OF L] settle
    by (rule Hub.equality) (use assms(4,5) in \<open>auto simp: fun_eq_iff commit_delivery_done_id\<close>)
qed

lemma rememberTerminal_inv:
  assumes "hub_inv D hub" "(sid, e) \<in> set (hb_log hub)" "hb_heap hub sid = Some s" "ss_key s = key"
  shows "hub_inv D (rememberTerminal D key w e hub)"
proof (cases "ev_ID e = [] \<or> D e = None")
  case True
  then show ?thesis using assms(1) by (auto simp: rememberTerminal_def)
next
  case False
  then obtain x where x: "D e = Some x" "ev_ID e \<noteq> []" by auto
  let ?r = "\<lparr>rc_eventID = ev_ID e, rc_digest = Some x, rc_workerID = w\<rparr>"
  have "hub_pub D (put_receipt key ?r hub)"
    by (rule put_receipt_pub) (use assms x in \<open>auto simp: hub_inv_def intro!: exI [of _ sid] exI [of _ e]\<close>)
  then show ?thesis using x assms(1) put_receipt_acct by (simp add: rememberTerminal_def hub_inv_def)
qed

lemma not_accepted_ends: "EndsResponse e \<Longrightarrow> ev_Type e \<noteq> EventAccepted"
  by (auto simp: EndsResponse_def)

lemma publish_finish_inv:
  assumes inv: "hub_inv D hub" and c: "hb_calls hub i = Some c" "pc_phase c = Sent d"
    and dl: "hb_deliveries hub d = Some dl" "dl_done dl = Some err"
    and s: "hb_heap hub (pc_session c) = Some s"
    and run: "publish_finish D i c d err s hub = (r, hub')"
  shows "hub_inv D hub'"
proof -
  have acct: "hub_acct hub" and pub: "hub_pub D hub" using inv by (simp_all add: hub_inv_def)
  let ?sid = "pc_session c" and ?e = "pc_event c" and ?h = "hub\<lparr>hb_calls := (hb_calls hub)(i := None)\<rparr>"
  let ?s = "settle_session d ?e err s"
  define current where "current \<longleftrightarrow> hb_sessions hub (ss_key s) = Some ?sid \<and> \<not> ss_terminal s"
  have like: "hub_acct (put_session ?sid t ?h)" if "session_like s t" for t
    by (rule put_session_acct [OF hub_acct_frame(2) [OF acct] _ that]) (simp add: s)
  have gone: "ss_terminal s" if "\<not> current"
    using that sessions_okD(2) [OF _ s] acct by (auto simp: current_def hub_acct_def)
  show ?thesis
  proof (cases "err = None \<and> EndsResponse ?e")
    case False
    define t where "t = (if err \<noteq> None then (if EndsResponse ?e \<and> current then ?s\<lparr>ss_terminalPending := False\<rparr> else ?s)
      else if ev_Type ?e = EventAccepted then ?s\<lparr>ss_accepted := True\<rparr> else ?s)"
    have hub': "hub' = put_session ?sid t ?h"
      using run False by (auto simp: publish_finish_def Let_def t_def current_def split: if_splits)
    have "hub_pub D hub'"
      unfolding hub' by (rule finish_pub [OF pub c dl s])
        (use False in \<open>auto simp: t_def dest: settle_inflight settle_seen split: if_splits\<close>)
    moreover have "hub_acct hub'" unfolding hub' by (rule like) (auto simp: t_def session_like_def)
    ultimately show ?thesis by (simp add: hub_inv_def)
  next
    case True
    let ?t = "?s\<lparr>ss_terminalPending := False\<rparr>"
    define h2 where "h2 = (if current then retireSessionLocked (ss_key s) ?sid ErrSessionMissing (put_session ?sid ?t ?h) else put_session ?sid ?t ?h)"
    have hub': "hub' = rememberTerminal D (ss_key s) (ss_workerID s) ?e h2"
      using run True not_accepted_ends [of ?e] by (auto simp: publish_finish_def Let_def h2_def current_def split: if_splits)
    have "hub_acct h2" using like [of ?t] retire_acct by (simp add: h2_def session_like_def)
    moreover have "hub_pub D h2"
    proof (cases current)
      case cur: False
      have "hub_pub D (put_session ?sid ?t ?h)"
        by (rule finish_pub [OF pub c dl s]) (use True gone [OF cur] in \<open>auto dest: settle_inflight settle_seen\<close>)
      then show ?thesis using cur by (simp add: h2_def)
    next
      case cur: True
      let ?R = "retireSessionLocked (ss_key s) ?sid ErrSessionMissing hub"
      let ?sr = "s\<lparr>ss_terminal := True, ss_terminalPending := False, ss_retired := True\<rparr>"
      have sel: "hb_calls ?R = hb_calls hub" "hb_heap ?R ?sid = Some ?sr" "hb_deliveries ?R d = Some dl"
        using s cur dl by (simp_all add: retireSessionLocked_def current_def commit_delivery_done_id)
      have h2: "h2 = put_session ?sid (settle_session d ?e err ?sr) (?R\<lparr>hb_calls := (hb_calls ?R)(i := None)\<rparr>)"
        using cur retire_after_settle [OF s _ _ dl] by (simp add: h2_def current_def sel(1))
      show ?thesis
        unfolding h2 by (rule finish_pub [OF retire_pub [OF pub] _ c(2) sel(3) dl(2) sel(2)])
          (use c sel(1) in \<open>auto dest: settle_inflight settle_seen\<close>)
    qed
    moreover have "(?sid, ?e) \<in> set (hb_log h2)"
    proof -
      have "dl_Session dl = ?sid" "dl_Event dl = ?e"
        using calls_pubD(1) [OF hub_pubD(3) [OF pub] c(1)] c(2) dl(1) by (auto simp: call_pub_def owns_def)
      then have "(?sid, ?e) \<in> set (hb_log hub)" using hub_pubD(2) [OF pub dl(1)] dl(2) True by (simp add: delivery_pub_def)
      then show ?thesis by (simp add: h2_def)
    qed
    moreover obtain t where "hb_heap h2 ?sid = Some t" "ss_key t = ss_key s"
      using retire_heap [of "put_session ?sid ?t ?h" ?sid ?t "ss_key s" ?sid ErrSessionMissing] by (cases current) (auto simp: h2_def)
    ultimately show ?thesis unfolding hub' by (intro rememberTerminal_inv [of D h2 ?sid ?e t]) (simp_all add: hub_inv_def)
  qed
qed

lemma publish_returns_inv:
  assumes "hub_inv D hub" "publish_returns D hub key event err hub'"
  shows "hub_inv D hub'"
  using assms(2)
proof cases
  case (Immediate i did workerID callerID idempotencyKey)
  then show ?thesis using publish_enter_inv [OF assms(1)] by blast
next
  case (Duplicate i c d dl active)
  then show ?thesis
    using await_done_pub [of D hub i c d] hub_acct_frame(2) assms(1) by (simp add: hub_inv_def)
next
  case (Finished i c d dl done_err active)
  then show ?thesis using publish_finish_inv [OF assms(1)] by blast
qed

lemma Abort_inv:
  assumes "hub_inv D hub" "Abort callerID idempotencyKey hub = (r, hub')"
  shows "hub_inv D hub'"
proof -
  have put: "hub_inv D (put_receipt k \<lparr>rc_eventID = [], rc_digest = None, rc_workerID = w\<rparr> h)" if "hub_inv D h" for k w h
    using that put_receipt_acct put_receipt_pub [of D h "\<lparr>rc_eventID = [], rc_digest = None, rc_workerID = w\<rparr>" k]
    by (simp add: hub_inv_def)
  show ?thesis
    using assms retire_inv [OF assms(1)] put
    by (auto simp: Abort_def rememberRetiredOwner_def Let_def split: option.splits if_splits)
qed

end
