(* ===== verification/LLM_Types.thy ===== *)
theory LLM_Types
  imports Framework
begin

text \<open>
  The public values of the HumanLLM domain: canonical requests and events of \<^verbatim>\<open>llm/types.go\<close>, the codec
  descriptions and limits of \<^verbatim>\<open>llm/codec.go\<close>, and the records of \<^verbatim>\<open>llm/store_types.go\<close>. JSON values are a
  datatype with the decimal text of numbers, as the decoder with \<open>UseNumber\<close> yields them; \<open>json.Valid\<close> is the
  argument \<open>V\<close> of the validators.
\<close>


section \<open>Canonical requests\<close>

datatype json =
    JNull | JBool bool | JNumber string | JString string | JArray "json list" | JObject "(string \<times> json) list"

datatype Role = RoleSystem | RoleUser | RoleAssistant | RoleTool | RoleOther string

datatype BlockType = BlockText | BlockImage | BlockToolUse | BlockToolResult | BlockTypeOther string

record Block =
  bk_Type :: BlockType
  bk_Text :: string
  bk_ImageURL :: string
  bk_ToolCallID :: string
  bk_ToolNamespace :: string
  bk_ToolName :: string
  bk_Input :: "(string \<times> json) list option"
  bk_TextInput :: "string option"
  bk_Output :: "json option"
  bk_IsError :: bool

record Message =
  mg_Role :: Role
  mg_Blocks :: "Block list"

datatype ToolInputKind = ToolInputJSON | ToolInputText | ToolInputOther string

record Tool =
  tl_Namespace :: string
  tl_Name :: string
  tl_Description :: string
  tl_InputKind :: ToolInputKind
  tl_InputSchema :: bytes
  tl_InputFormat :: bytes

datatype ToolCallPolicy = ToolCallsUnset | ToolCallsDisabled | ToolCallsSerial | ToolCallsParallel | ToolCallsOther string

record HostedCapability =
  hc_Type :: string
  hc_Configuration :: bytes

record OpaqueInput =
  oi_Type :: string
  oi_SHA256 :: string

record Request =
  rq_Model :: string
  rq_Stream :: bool
  rq_System :: string
  rq_Messages :: "Message list"
  rq_Tools :: "Tool list"
  rq_ToolCallPolicy :: ToolCallPolicy
  rq_HostedCapabilities :: "HostedCapability list"
  rq_OpaqueInput :: "OpaqueInput list"
  rq_Metadata :: "(string \<times> string) list"

datatype llm_invalid =
    InvalidModel | InvalidMessages | InvalidPolicy | InvalidToolIdentity | DuplicateTool | InvalidToolInput
  | InvalidCapability | InvalidOpaqueInput | InvalidMessage | InvalidBlock

definition validTrimmed :: "string \<Rightarrow> bool" where
  "validTrimmed s \<longleftrightarrow> s \<noteq> [] \<and> s = TrimSpace s"

fun has_colons :: "string \<Rightarrow> bool" where
  "has_colons (a # b # s) = ((a = CHR '':'' \<and> b = CHR '':'') \<or> has_colons (b # s))"
| "has_colons _ = False"

definition ValidateToolIdentity :: "string \<Rightarrow> string \<Rightarrow> bool" where
  "ValidateToolIdentity namespace name \<longleftrightarrow>
     TrimSpace name \<noteq> [] \<and> name = TrimSpace name \<and> namespace = TrimSpace namespace
     \<and> \<not> (has_colons namespace \<or> has_colons name)"

definition QualifiedToolName :: "string \<Rightarrow> string \<Rightarrow> string" where
  "QualifiedToolName namespace name = (if namespace = [] then name else namespace @ ''::'' @ name)"

definition Block_Validate :: "Block \<Rightarrow> llm_invalid + unit" where
  "Block_Validate block =
     (case bk_Type block of
        BlockText \<Rightarrow> if bk_Text block = [] then Inl InvalidBlock else Inr ()
      | BlockImage \<Rightarrow> if TrimSpace (bk_ImageURL block) = [] then Inl InvalidBlock else Inr ()
      | BlockToolUse \<Rightarrow>
          if bk_ToolCallID block = [] then Inl InvalidBlock
          else if \<not> ValidateToolIdentity (bk_ToolNamespace block) (bk_ToolName block) then Inl InvalidToolIdentity
          else if bk_Input block \<noteq> None \<and> bk_TextInput block \<noteq> None then Inl InvalidBlock
          else Inr ()
      | BlockToolResult \<Rightarrow> if bk_ToolCallID block = [] then Inl InvalidBlock else Inr ()
      | BlockTypeOther _ \<Rightarrow> Inl InvalidBlock)"

fun validate_tools :: "(bytes \<Rightarrow> bool) \<Rightarrow> (string \<times> string) list \<Rightarrow> Tool list \<Rightarrow> llm_invalid + unit" where
  "validate_tools V seen [] = Inr ()"
| "validate_tools V seen (tool # tools) =
     (if \<not> ValidateToolIdentity (tl_Namespace tool) (tl_Name tool) then Inl InvalidToolIdentity
      else if (tl_Namespace tool, tl_Name tool) \<in> set seen then Inl DuplicateTool
      else bind_res
        (case tl_InputKind tool of
           ToolInputJSON \<Rightarrow>
             if \<not> V (tl_InputSchema tool) then Inl InvalidToolInput
             else if tl_InputFormat tool \<noteq> [] then Inl InvalidToolInput else Inr ()
         | ToolInputText \<Rightarrow>
             if tl_InputSchema tool \<noteq> [] then Inl InvalidToolInput
             else if tl_InputFormat tool \<noteq> [] \<and> \<not> V (tl_InputFormat tool) then Inl InvalidToolInput else Inr ()
         | ToolInputOther _ \<Rightarrow> Inl InvalidToolInput)
        (\<lambda>_. validate_tools V ((tl_Namespace tool, tl_Name tool) # seen) tools))"

fun validate_all :: "('a \<Rightarrow> 'e + unit) \<Rightarrow> 'a list \<Rightarrow> 'e + unit" where
  "validate_all f [] = Inr ()"
| "validate_all f (x # xs) = bind_res (f x) (\<lambda>_. validate_all f xs)"

definition validate_message :: "Message \<Rightarrow> llm_invalid + unit" where
  "validate_message message =
     (if (case mg_Role message of RoleOther _ \<Rightarrow> True | _ \<Rightarrow> False) then Inl InvalidMessage
      else if mg_Blocks message = [] then Inl InvalidMessage
      else validate_all Block_Validate (mg_Blocks message))"

definition Request_Validate :: "(bytes \<Rightarrow> bool) \<Rightarrow> Request \<Rightarrow> llm_invalid + unit" where
  "Request_Validate V request =
     (if TrimSpace (rq_Model request) = [] then Inl InvalidModel
      else if rq_Messages request = [] then Inl InvalidMessages
      else if (case rq_ToolCallPolicy request of ToolCallsOther _ \<Rightarrow> True | _ \<Rightarrow> False) then Inl InvalidPolicy
      else bind_res (validate_tools V [] (rq_Tools request)) (\<lambda>_.
        bind_res (validate_all (\<lambda>c. if \<not> validTrimmed (hc_Type c) then Inl InvalidCapability
            else if \<not> V (hc_Configuration c) then Inl InvalidCapability else Inr ()) (rq_HostedCapabilities request)) (\<lambda>_.
        bind_res (validate_all (\<lambda>i. if \<not> validTrimmed (oi_Type i) then Inl InvalidOpaqueInput
            else if \<not> (hex_decodable (oi_SHA256 i) \<and> length (oi_SHA256 i) = 64) then Inl InvalidOpaqueInput
            else Inr ()) (rq_OpaqueInput request)) (\<lambda>_.
        validate_all validate_message (rq_Messages request)))))"


section \<open>Events\<close>

datatype EventType =
    EventAccepted | EventProgress | EventFinal | EventClarification | EventToolCalls | EventRejected
  | EventExpired | EventFailed | EventUnavailable | EventTypeOther string

record ToolCall =
  tc_ID :: string
  tc_Namespace :: string
  tc_Name :: string
  tc_Input :: "(string \<times> json) list option"
  tc_TextInput :: "string option"

record Event =
  ev_ID :: string
  ev_Type :: EventType
  ev_WorkerID :: string
  ev_Text :: string
  ev_ToolCalls :: "ToolCall list"
  ev_ErrorCode :: string
  ev_Error :: string

definition EndsResponse :: "Event \<Rightarrow> bool" where
  "EndsResponse event \<longleftrightarrow> ev_Type event \<in> {EventFinal, EventClarification, EventToolCalls, EventRejected,
     EventExpired, EventFailed, EventUnavailable}"


section \<open>Codecs\<close>

record CodecLimits =
  cl_MaxRequestBytes :: int
  cl_MaxStreamFrameBytes :: int
  cl_MaxStreamFramesPerStep :: int
  cl_MaxAggregateBytes :: int
  cl_MaxAdmissionErrorBytes :: int

record CodecDescription =
  cd_Contract :: Contract
  cd_ID :: string
  cd_Version :: string
  cd_Fingerprint :: string
  cd_Limits :: CodecLimits
  cd_OverloadedStatus :: int

datatype codec_error = ErrInvalidCodecContract

definition maximumCodecBytes :: int where
  "maximumCodecBytes = 128 * 2 ^ 20"

definition RequiredCodecContract :: Requirements where
  "RequiredCodecContract = \<lparr>rq_ID = ''human.llm.codec'', rq_Major = 1, rq_MinimumMinor = 0, rq_Features = []\<rparr>"

definition validVersion :: "string \<Rightarrow> bool" where
  "validVersion v \<longleftrightarrow> \<not> (v = [] \<or> v \<noteq> TrimSpace v \<or> length v > 128) \<and> list_all (\<lambda>c. \<not> (byte c < 33 \<or> byte c = 127)) v"

definition validFingerprint :: "string \<Rightarrow> bool" where
  "validFingerprint f \<longleftrightarrow> take 7 f = ''sha256:'' \<and> length f = 71 \<and> hex_decodable (drop 7 f)
     \<and> list_all (\<lambda>c. \<not> (65 \<le> byte c \<and> byte c \<le> 90)) (drop 7 f)"

definition validAdmissionStatus :: "int \<Rightarrow> bool" where
  "validAdmissionStatus status \<longleftrightarrow> status = 429 \<or> (500 \<le> status \<and> status \<le> 599)"

definition validateLimits :: "CodecLimits \<Rightarrow> codec_error + unit" where
  "validateLimits l =
     (if cl_MaxRequestBytes l \<le> 0 \<or> cl_MaxStreamFrameBytes l \<le> 0 \<or> cl_MaxStreamFramesPerStep l \<le> 0
         \<or> cl_MaxAggregateBytes l \<le> 0 \<or> cl_MaxAdmissionErrorBytes l \<le> 0 then Inl ErrInvalidCodecContract
      else if cl_MaxRequestBytes l > maximumCodecBytes \<or> cl_MaxStreamFrameBytes l > maximumCodecBytes
         \<or> cl_MaxAggregateBytes l > maximumCodecBytes \<or> cl_MaxAdmissionErrorBytes l > maximumCodecBytes
         \<or> cl_MaxStreamFramesPerStep l > 4096 then Inl ErrInvalidCodecContract
      else Inr ())"

definition NegotiateCodec :: "CodecDescription \<Rightarrow> codec_error + CodecDescription" where
  "NegotiateCodec d =
     bind_res (map_err (\<lambda>_. ErrInvalidCodecContract) (Negotiate (cd_Contract d) RequiredCodecContract)) (\<lambda>contract.
       if \<not> match_token (cd_ID d) then Inl ErrInvalidCodecContract
       else if \<not> validVersion (cd_Version d) then Inl ErrInvalidCodecContract
       else if \<not> validFingerprint (cd_Fingerprint d) then Inl ErrInvalidCodecContract
       else bind_res (validateLimits (cd_Limits d)) (\<lambda>_.
         if \<not> validAdmissionStatus (cd_OverloadedStatus d) then Inl ErrInvalidCodecContract
         else Inr (d\<lparr>cd_Contract := contract\<rparr>)))"

definition CheckRequestSize :: "CodecLimits \<Rightarrow> int \<Rightarrow> codec_error + unit" where
  "CheckRequestSize l n = bind_res (validateLimits l) (\<lambda>_. if n < 0 \<or> n > cl_MaxRequestBytes l then Inl ErrInvalidCodecContract else Inr ())"

definition CheckStreamFrames :: "CodecLimits \<Rightarrow> bytes list \<Rightarrow> codec_error + unit" where
  "CheckStreamFrames l frames = bind_res (validateLimits l) (\<lambda>_.
     if int (length frames) > cl_MaxStreamFramesPerStep l then Inl ErrInvalidCodecContract
     else validate_all (\<lambda>frame. if int (length frame) > cl_MaxStreamFrameBytes l then Inl ErrInvalidCodecContract else Inr ()) frames)"

definition CheckAggregateFrames :: "CodecLimits \<Rightarrow> bytes list \<Rightarrow> bool \<Rightarrow> codec_error + unit" where
  "CheckAggregateFrames l frames final = bind_res (validateLimits l) (\<lambda>_.
     if \<not> final \<and> frames \<noteq> [] then Inl ErrInvalidCodecContract
     else if final \<and> length frames \<noteq> 1 then Inl ErrInvalidCodecContract
     else case frames of
       [body] \<Rightarrow> if int (length body) > cl_MaxAggregateBytes l then Inl ErrInvalidCodecContract else Inr ()
     | _ \<Rightarrow> Inr ())"

record CodecSnapshot =
  cs_Contract :: Contract
  cs_ID :: string
  cs_Version :: string
  cs_Fingerprint :: string

definition NewCodecSnapshot :: "CodecDescription \<Rightarrow> codec_error + CodecSnapshot" where
  "NewCodecSnapshot d = bind_res (NegotiateCodec d) (\<lambda>n.
     Inr \<lparr>cs_Contract = cd_Contract n, cs_ID = cd_ID n, cs_Version = cd_Version n, cs_Fingerprint = cd_Fingerprint n\<rparr>)"

definition CodecSnapshot_Validate :: "CodecSnapshot \<Rightarrow> codec_error + unit" where
  "CodecSnapshot_Validate s =
     bind_res (map_err (\<lambda>_. ErrInvalidCodecContract) (Negotiate (cs_Contract s) RequiredCodecContract)) (\<lambda>_.
       if \<not> match_token (cs_ID s) \<or> \<not> validVersion (cs_Version s) \<or> \<not> validFingerprint (cs_Fingerprint s)
       then Inl ErrInvalidCodecContract else Inr ())"

text \<open>\<open>maps.Equal\<close> on feature maps: the same entry for every key of either.\<close>

definition features_Equal :: "(string, uint16) gomap \<Rightarrow> (string, uint16) gomap \<Rightarrow> bool" where
  "features_Equal a b \<longleftrightarrow> list_all (\<lambda>k. map_of a k = map_of b k) (map fst a @ map fst b)"

definition CodecSnapshot_Equal :: "CodecSnapshot \<Rightarrow> CodecSnapshot \<Rightarrow> bool" where
  "CodecSnapshot_Equal a b \<longleftrightarrow> cs_ID a = cs_ID b \<and> cs_Version a = cs_Version b \<and> cs_Fingerprint a = cs_Fingerprint b
     \<and> ct_ID (cs_Contract a) = ct_ID (cs_Contract b) \<and> ct_Major (cs_Contract a) = ct_Major (cs_Contract b)
     \<and> ct_Minor (cs_Contract a) = ct_Minor (cs_Contract b)
     \<and> features_Equal (ct_Features (cs_Contract a)) (ct_Features (cs_Contract b))"

lemma features_Equal_iff: "features_Equal a b \<longleftrightarrow> map_of a = map_of b"
proof
  assume h: "features_Equal a b"
  show "map_of a = map_of b"
  proof
    fix k
    show "map_of a k = map_of b k"
    proof (cases "k \<in> fst ` set a \<union> fst ` set b")
      case True
      then show ?thesis using h by (auto simp: features_Equal_def list_all_iff)
    next
      case False
      then show ?thesis using map_of_eq_None_iff [of a k] map_of_eq_None_iff [of b k] by auto
    qed
  qed
qed (simp add: features_Equal_def list_all_iff)

lemma CodecSnapshot_Equal_refl [simp]: "CodecSnapshot_Equal a a"
  by (simp add: CodecSnapshot_Equal_def features_Equal_iff)

lemma CodecSnapshot_Equal_sym: "CodecSnapshot_Equal a b \<Longrightarrow> CodecSnapshot_Equal b a"
  by (simp add: CodecSnapshot_Equal_def features_Equal_iff)

lemma CodecSnapshot_Equal_trans: "CodecSnapshot_Equal a b \<Longrightarrow> CodecSnapshot_Equal b c \<Longrightarrow> CodecSnapshot_Equal a c"
  by (simp add: CodecSnapshot_Equal_def features_Equal_iff)


section \<open>Store records\<close>

datatype CapabilityTier = TierUnset | TierChat | TierRemoteTools | TierWorkspace | TierOther string

datatype TaskState =
    TaskLeased | TaskAwaitingHuman | TaskAwaitingCaller | TaskAwaitingResults | TaskCompleted | TaskRejected
  | TaskExpired | TaskFailed | TaskStateOther string

fun TaskState_Valid :: "TaskState \<Rightarrow> bool" where
  "TaskState_Valid (TaskStateOther _) = False"
| "TaskState_Valid _ = True"

definition TaskState_Terminal :: "TaskState \<Rightarrow> bool" where
  "TaskState_Terminal s \<longleftrightarrow> s \<in> {TaskCompleted, TaskRejected, TaskExpired, TaskFailed}"

record StoreTaskKey =
  tk_Caller :: string
  tk_Task :: string

record StoreTaskRecord =
  st_Key :: StoreTaskKey
  st_WorkspaceKey :: string
  st_CapabilityTier :: CapabilityTier
  st_Codec :: CodecSnapshot
  st_HarnessID :: string
  st_HarnessVersion :: string
  st_HarnessSessionID :: string
  st_ExecAllowed :: bool
  st_State :: TaskState
  st_LeaseOwner :: string
  st_LeaseID :: string
  st_Revision :: uint64
  st_CreatedAt :: gotime
  st_UpdatedAt :: gotime

record StoreTaskAffinity =
  ta_Caller :: string
  ta_WorkspaceKey :: string
  ta_HarnessID :: string
  ta_HarnessVersion :: string
  ta_HarnessSessionID :: string

record StoreRequestKey =
  rk_Caller :: string
  rk_IdempotencyKey :: string

datatype ResponseMode = ResponseStream | ResponseAggregate | ResponseModeOther string

record StoreResponseDecision =
  rd_StatusCode :: int
  rd_ContentType :: string
  rd_RetryAfter :: string
  rd_Body :: bytes

record StoreRequestRecord =
  sr_Key :: StoreRequestKey
  sr_Task :: StoreTaskKey
  sr_RequestID :: string
  sr_ResponseID :: string
  sr_RequestDigest :: string
  sr_Codec :: CodecSnapshot
  sr_Mode :: ResponseMode
  sr_CanonicalPayload :: bytes
  sr_Decision :: StoreResponseDecision
  sr_ResponseComplete :: bool
  sr_RecoveryQuarantined :: bool
  sr_LastEventSequence :: uint64
  sr_Revision :: uint64
  sr_CreatedAt :: gotime
  sr_CompletedAt :: "gotime option"
  sr_PayloadPrunedAt :: "gotime option"

text \<open>A head is the request without its payload and body.\<close>

record StoreRequestHead =
  rh_Key :: StoreRequestKey
  rh_Task :: StoreTaskKey
  rh_RequestID :: string
  rh_ResponseID :: string
  rh_RequestDigest :: string
  rh_Codec :: CodecSnapshot
  rh_Mode :: ResponseMode
  rh_DecisionStatus :: int
  rh_DecisionContentType :: string
  rh_DecisionRetryAfter :: string
  rh_ResponseComplete :: bool
  rh_RecoveryQuarantined :: bool
  rh_LastEventSequence :: uint64
  rh_Revision :: uint64
  rh_CreatedAt :: gotime
  rh_CompletedAt :: "gotime option"
  rh_PayloadPrunedAt :: "gotime option"

datatype StoreResponseEventKind = StoreEventCheckpoint | StoreEventWire | StoreEventKindOther string

record StoreResponseEventRecord =
  re_Request :: StoreRequestKey
  re_Sequence :: uint64
  re_Kind :: StoreResponseEventKind
  re_Worker :: string
  re_WorkerEventID :: string
  re_WorkerEventDigest :: string
  re_Data :: bytes
  re_CreatedAt :: gotime

record StoreWorkerReceiptRecord =
  wr_Request :: StoreRequestKey
  wr_EventID :: string
  wr_Worker :: string
  wr_Digest :: string
  wr_CreatedAt :: gotime

record StoreToolExecutionKey =
  xk_Task :: StoreTaskKey
  xk_ToolCallID :: string

datatype ToolExecutionState = ToolExecutionUnset | ToolExecutionPending | ToolExecutionCompleted | ToolExecutionOther string

record StoreToolExecutionRecord =
  xr_Key :: StoreToolExecutionKey
  xr_InputDigest :: string
  xr_State :: ToolExecutionState
  xr_Result :: bytes
  xr_IsError :: bool
  xr_Revision :: uint64
  xr_CreatedAt :: gotime
  xr_CompletedAt :: "gotime option"
  xr_ResultPrunedAt :: "gotime option"

record StoreResponseEventScan =
  es_Request :: StoreRequestKey
  es_After :: uint64
  es_Kinds :: "StoreResponseEventKind list"
  es_WorkerEventID :: string
  es_Limit :: int
  es_MaxBytes :: int

record StoreToolExecutionScan =
  xs_Task :: StoreTaskKey
  xs_State :: ToolExecutionState
  xs_After :: string
  xs_Limit :: int
  xs_MaxBytes :: int

record StoreRecoveryCursor =
  rc_CreatedAt :: gotime
  rc_Caller :: string
  rc_IdempotencyKey :: string

record StoreRecoveryScan =
  vs_After :: "StoreRecoveryCursor option"
  vs_Limit :: int
  vs_MaxBytes :: int

record StoreRecoveryRecord =
  vr_Task :: StoreTaskRecord
  vr_Request :: StoreRequestRecord

record StoreRetentionCursor =
  nc_CompletedAt :: gotime
  nc_Caller :: string
  nc_IdempotencyKey :: string

record StoreRetentionScan =
  ns_CompletedBefore :: gotime
  ns_After :: "StoreRetentionCursor option"
  ns_Limit :: int

record StoreRetentionCandidate =
  nd_Request :: StoreRequestHead
  nd_EffectiveCompletedAt :: gotime
  nd_UnacknowledgedWorkerEvent :: bool

text \<open>\<open>StoreTaskMutation\<close>, \<open>StoreRequestMutation\<close> and \<open>StoreToolExecutionMutation\<close>.\<close>

record ('k, 'r) StoreMutation =
  mu_Key :: 'k
  mu_ExpectedRevision :: uint64
  mu_Next :: 'r


section \<open>Tool names\<close>

lemma has_colons_append: "has_colons (a @ CHR '':'' # CHR '':'' # b)"
  by (induction a rule: has_colons.induct) auto

lemma has_colons_suffix: "has_colons b \<Longrightarrow> has_colons (a @ b)"
proof (induction a)
  case (Cons x a)
  then show ?case by (cases "a @ b") auto
qed simp

lemma namespace_unique:
  assumes "ns @ ''::'' @ n = ns' @ ''::'' @ n'" "length ns \<le> length ns'" "\<not> has_colons ns'" "ns' = [] \<or> last ns' \<noteq> CHR '':''"
  shows "ns = ns' \<and> n = n'"
proof -
  obtain x where x: "ns' = ns @ x" "''::'' @ n = x @ ''::'' @ n'"
    using that [of "drop (length ns) ns'"] assms(1,2) append_take_drop_id [of "length ns" ns'] by (simp add: append_eq_append_conv_if)
  show ?thesis
  proof (cases x)
    case Nil
    then show ?thesis using x by simp
  next
    case (Cons a y)
    have a: "a = CHR '':''" using x(2) Cons by simp
    show ?thesis
    proof (cases y)
      case Nil
      then show ?thesis using assms(4) x(1) Cons a by simp
    next
      case (Cons b z)
      then have "b = CHR '':''" using x(2) \<open>x = a # y\<close> a by auto
      then have "has_colons ns'" using x(1) \<open>x = a # y\<close> Cons a has_colons_append [of ns z] by simp
      then show ?thesis using assms(3) by simp
    qed
  qed
qed

text \<open>
  The qualified name determines the tool when no namespace ends with a colon. Valid identities do not
  guarantee that: two of them can share their qualified name.
\<close>

theorem qualified_tool_name_injective:
  assumes "ValidateToolIdentity ns n" "ValidateToolIdentity ns' n'" "QualifiedToolName ns n = QualifiedToolName ns' n'"
    "ns = [] \<or> last ns \<noteq> CHR '':''" "ns' = [] \<or> last ns' \<noteq> CHR '':''"
  shows "ns = ns' \<and> n = n'"
proof -
  have plain: "\<not> has_colons ns" "\<not> has_colons n" "\<not> has_colons ns'" "\<not> has_colons n'"
    using assms(1,2) by (simp_all add: ValidateToolIdentity_def)
  consider "ns = []" "ns' = []" | "ns \<noteq> []" "ns' \<noteq> []" | "ns = []" "ns' \<noteq> []" | "ns \<noteq> []" "ns' = []" by blast
  then show ?thesis
  proof cases
    case 1
    then show ?thesis using assms(3) by (simp add: QualifiedToolName_def)
  next
    case 2
    then have eq: "ns @ ''::'' @ n = ns' @ ''::'' @ n'" using assms(3) by (simp add: QualifiedToolName_def)
    show ?thesis
    proof (cases "length ns \<le> length ns'")
      case True
      then show ?thesis using namespace_unique [OF eq True] plain assms(5) by blast
    next
      case False
      then show ?thesis using namespace_unique [OF eq [symmetric]] plain assms(4) by (metis nat_le_linear)
    qed
  next
    case 3
    then have "n = ns' @ ''::'' @ n'" using assms(3) by (simp add: QualifiedToolName_def)
    then show ?thesis using plain(2) has_colons_append [of ns' n'] by simp
  next
    case 4
    then have "n' = ns @ ''::'' @ n" using assms(3) by (simp add: QualifiedToolName_def)
    then show ?thesis using plain(4) has_colons_append [of ns n] by simp
  qed
qed

theorem qualified_tool_name_ambiguous:
  "ValidateToolIdentity ''a:'' ''b'' \<and> ValidateToolIdentity ''a'' '':b'' \<and> QualifiedToolName ''a:'' ''b'' = QualifiedToolName ''a'' '':b''"
  by code_simp

end
