(* ===== verification/LLM_Store.thy ===== *)
theory LLM_Store
  imports LLM_Types
begin

text \<open>
  The Store of the HumanLLM domain: the port's errors of \<^verbatim>\<open>llm/store.go\<close> and its reference provider,
  \<^verbatim>\<open>humantest/llm_store_memory.go\<close>: five Go maps, the unit of a callback that every primitive checks, and the image
  with its handles. The clone functions copy slices, maps and pointers, which values do not need.
\<close>


section \<open>Errors and state\<close>

datatype StoreConstraint =
    StoreConstraintDeploymentBinding | StoreConstraintTaskKey | StoreConstraintOpenAffinity | StoreConstraintRequestKey
  | StoreConstraintActiveRequest | StoreConstraintResponseSequence | StoreConstraintWorkerEvent
  | StoreConstraintWorkerReceipt | StoreConstraintToolCall | StoreConstraintImmutableRecord | StoreConstraintCompareAndSwap

datatype llm_store_error =
    ErrStoreRecordNotFound | ErrStoreConflict StoreConstraint | ErrStoreCommitUnknown | ErrStoreClosed
  | ErrStoreRecordTooLarge | ErrStoreInvalidArgument | ErrStoreContext

type_synonym 'a llm_result = "llm_store_error + 'a"

definition StoreBinding_Validate :: "string \<Rightarrow> unit llm_result" where
  "StoreBinding_Validate deploymentID = (if \<not> match_stable deploymentID then Inl ErrStoreInvalidArgument else Inr ())"

record memoryLLMState =
  ml_tasks :: "(StoreTaskKey, StoreTaskRecord) gomap"
  ml_requests :: "(StoreRequestKey, StoreRequestRecord) gomap"
  ml_events :: "(StoreRequestKey, (uint64, StoreResponseEventRecord) gomap) gomap"
  ml_receipts :: "(StoreRequestKey \<times> string, StoreWorkerReceiptRecord) gomap"
  ml_tools :: "(StoreToolExecutionKey, StoreToolExecutionRecord) gomap"

definition newMemoryLLMState :: memoryLLMState where
  "newMemoryLLMState = \<lparr>ml_tasks = [], ml_requests = [], ml_events = [], ml_receipts = [], ml_tools = []\<rparr>"

record memoryLLMUnit =
  lu_state :: memoryLLMState
  lu_active :: bool

definition llm_ensureActive :: "memoryLLMUnit \<Rightarrow> unit llm_result" where
  "llm_ensureActive u = (if \<not> lu_active u then Inl ErrStoreClosed else Inr ())"


section \<open>Validation\<close>

definition memoryLLMValidTaskKey :: "StoreTaskKey \<Rightarrow> bool" where
  "memoryLLMValidTaskKey k \<longleftrightarrow> tk_Caller k \<noteq> [] \<and> tk_Task k \<noteq> []"

definition memoryLLMValidRequestKey :: "StoreRequestKey \<Rightarrow> bool" where
  "memoryLLMValidRequestKey k \<longleftrightarrow> rk_Caller k \<noteq> [] \<and> rk_IdempotencyKey k \<noteq> []"

definition memoryLLMValidToolKey :: "StoreToolExecutionKey \<Rightarrow> bool" where
  "memoryLLMValidToolKey k \<longleftrightarrow> memoryLLMValidTaskKey (xk_Task k) \<and> xk_ToolCallID k \<noteq> []"

definition tool_tier :: "CapabilityTier \<Rightarrow> bool" where
  "tool_tier t \<longleftrightarrow> t = TierRemoteTools \<or> t = TierWorkspace"

definition memoryLLMValidateTask :: "StoreTaskRecord \<Rightarrow> unit llm_result" where
  "memoryLLMValidateTask r =
     (if \<not> memoryLLMValidTaskKey (st_Key r) \<or> st_Revision r = 0 \<or> st_CreatedAt r = zero_time \<or> st_UpdatedAt r = zero_time
         \<or> \<not> TaskState_Valid (st_State r) then Inl ErrStoreInvalidArgument
      else bind_res
        (case st_CapabilityTier r of
           TierChat \<Rightarrow> Inr ()
         | TierRemoteTools \<Rightarrow>
             if st_WorkspaceKey r = [] \<or> st_HarnessID r = [] \<or> st_HarnessVersion r = [] \<or> st_HarnessSessionID r = []
             then Inl ErrStoreInvalidArgument else Inr ()
         | TierWorkspace \<Rightarrow>
             if st_WorkspaceKey r = [] \<or> st_HarnessID r = [] \<or> st_HarnessVersion r = [] \<or> st_HarnessSessionID r = []
             then Inl ErrStoreInvalidArgument else Inr ()
         | _ \<Rightarrow> Inl ErrStoreInvalidArgument)
        (\<lambda>_. map_err (\<lambda>_. ErrStoreInvalidArgument) (CodecSnapshot_Validate (st_Codec r))))"

definition memoryLLMValidateRequest :: "StoreRequestRecord \<Rightarrow> unit llm_result" where
  "memoryLLMValidateRequest r =
     (if \<not> memoryLLMValidRequestKey (sr_Key r) \<or> \<not> memoryLLMValidTaskKey (sr_Task r) \<or> sr_RequestID r = [] \<or> sr_ResponseID r = []
         \<or> sr_RequestDigest r = [] \<or> sr_Revision r = 0 \<or> sr_CreatedAt r = zero_time
         \<or> (sr_Mode r \<noteq> ResponseStream \<and> sr_Mode r \<noteq> ResponseAggregate) then Inl ErrStoreInvalidArgument
      else bind_res (map_err (\<lambda>_. ErrStoreInvalidArgument) (CodecSnapshot_Validate (sr_Codec r))) (\<lambda>_.
        if sr_PayloadPrunedAt r \<noteq> None \<and> (sr_CanonicalPayload r \<noteq> [] \<or> rd_Body (sr_Decision r) \<noteq> [])
        then Inl ErrStoreInvalidArgument else Inr ()))"

definition memoryLLMValidateResponseEvent :: "StoreResponseEventRecord \<Rightarrow> unit llm_result" where
  "memoryLLMValidateResponseEvent r =
     (if \<not> memoryLLMValidRequestKey (re_Request r) \<or> re_Sequence r = 0
         \<or> (re_Kind r \<noteq> StoreEventCheckpoint \<and> re_Kind r \<noteq> StoreEventWire) \<or> re_CreatedAt r = zero_time
         \<or> (re_Worker r = []) \<noteq> (re_WorkerEventID r = []) \<or> (re_WorkerEventID r = []) \<noteq> (re_WorkerEventDigest r = [])
      then Inl ErrStoreInvalidArgument else Inr ())"

definition memoryLLMValidateWorkerReceipt :: "StoreWorkerReceiptRecord \<Rightarrow> unit llm_result" where
  "memoryLLMValidateWorkerReceipt r =
     (if \<not> memoryLLMValidRequestKey (wr_Request r) \<or> wr_EventID r = [] \<or> wr_Worker r = [] \<or> wr_Digest r = []
         \<or> wr_CreatedAt r = zero_time then Inl ErrStoreInvalidArgument else Inr ())"

definition memoryLLMValidateTool :: "StoreToolExecutionRecord \<Rightarrow> unit llm_result" where
  "memoryLLMValidateTool r =
     (if \<not> memoryLLMValidToolKey (xr_Key r) \<or> xr_InputDigest r = [] \<or> xr_Revision r = 0 \<or> xr_CreatedAt r = zero_time
         \<or> (xr_State r \<noteq> ToolExecutionPending \<and> xr_State r \<noteq> ToolExecutionCompleted)
      then Inl ErrStoreInvalidArgument else Inr ())"

definition memoryLLMValidRecoveryCursor :: "StoreRecoveryCursor \<Rightarrow> bool" where
  "memoryLLMValidRecoveryCursor c \<longleftrightarrow> rc_CreatedAt c \<noteq> zero_time \<and> rc_Caller c \<noteq> [] \<and> rc_IdempotencyKey c \<noteq> []"

definition memoryLLMValidRetentionCursor :: "StoreRetentionCursor \<Rightarrow> bool" where
  "memoryLLMValidRetentionCursor c \<longleftrightarrow> nc_CompletedAt c \<noteq> zero_time \<and> nc_Caller c \<noteq> [] \<and> nc_IdempotencyKey c \<noteq> []"

definition memoryLLMValidateReadLimit :: "int \<Rightarrow> unit llm_result" where
  "memoryLLMValidateReadLimit limit = (if limit < 1 then Inl ErrStoreRecordTooLarge else Inr ())"

definition memoryLLMBudget :: "int \<Rightarrow> int \<Rightarrow> unit llm_result" where
  "memoryLLMBudget n limit = bind_res (memoryLLMValidateReadLimit limit) (\<lambda>_. if n > limit then Inl ErrStoreRecordTooLarge else Inr ())"

definition memoryLLMScanArguments :: "int \<Rightarrow> int \<Rightarrow> unit llm_result" where
  "memoryLLMScanArguments limit readLimit =
     (if limit < 1 \<or> limit > 4096 then Inl ErrStoreInvalidArgument else memoryLLMValidateReadLimit readLimit)"

definition memoryLLMAffinity :: "StoreTaskRecord \<Rightarrow> StoreTaskAffinity" where
  "memoryLLMAffinity r = \<lparr>ta_Caller = tk_Caller (st_Key r), ta_WorkspaceKey = st_WorkspaceKey r, ta_HarnessID = st_HarnessID r,
     ta_HarnessVersion = st_HarnessVersion r, ta_HarnessSessionID = st_HarnessSessionID r\<rparr>"

definition memoryLLMTaskIdentityEqual :: "StoreTaskRecord \<Rightarrow> StoreTaskRecord \<Rightarrow> bool" where
  "memoryLLMTaskIdentityEqual l r \<longleftrightarrow> st_Key l = st_Key r \<and> st_WorkspaceKey l = st_WorkspaceKey r
     \<and> st_CapabilityTier l = st_CapabilityTier r \<and> CodecSnapshot_Equal (st_Codec l) (st_Codec r) \<and> st_HarnessID l = st_HarnessID r
     \<and> st_HarnessVersion l = st_HarnessVersion r \<and> st_HarnessSessionID l = st_HarnessSessionID r
     \<and> st_ExecAllowed l = st_ExecAllowed r \<and> st_CreatedAt l = st_CreatedAt r"

definition memoryLLMRequestIdentityEqual :: "StoreRequestRecord \<Rightarrow> StoreRequestRecord \<Rightarrow> bool" where
  "memoryLLMRequestIdentityEqual l r \<longleftrightarrow> sr_Key l = sr_Key r \<and> sr_Task l = sr_Task r \<and> sr_RequestID l = sr_RequestID r
     \<and> sr_ResponseID l = sr_ResponseID r \<and> sr_RequestDigest l = sr_RequestDigest r
     \<and> CodecSnapshot_Equal (sr_Codec l) (sr_Codec r) \<and> sr_Mode l = sr_Mode r \<and> sr_CreatedAt l = sr_CreatedAt r"

definition memoryLLMRequestHead :: "StoreRequestRecord \<Rightarrow> StoreRequestHead" where
  "memoryLLMRequestHead r = \<lparr>rh_Key = sr_Key r, rh_Task = sr_Task r, rh_RequestID = sr_RequestID r, rh_ResponseID = sr_ResponseID r,
     rh_RequestDigest = sr_RequestDigest r, rh_Codec = sr_Codec r, rh_Mode = sr_Mode r,
     rh_DecisionStatus = rd_StatusCode (sr_Decision r), rh_DecisionContentType = rd_ContentType (sr_Decision r),
     rh_DecisionRetryAfter = rd_RetryAfter (sr_Decision r), rh_ResponseComplete = sr_ResponseComplete r,
     rh_RecoveryQuarantined = sr_RecoveryQuarantined r, rh_LastEventSequence = sr_LastEventSequence r, rh_Revision = sr_Revision r,
     rh_CreatedAt = sr_CreatedAt r, rh_CompletedAt = sr_CompletedAt r, rh_PayloadPrunedAt = sr_PayloadPrunedAt r\<rparr>"

definition memoryLLMRecoveryLess :: "StoreRequestRecord \<Rightarrow> StoreRequestRecord \<Rightarrow> bool" where
  "memoryLLMRecoveryLess l r =
     (if sr_CreatedAt l \<noteq> sr_CreatedAt r then sr_CreatedAt l < sr_CreatedAt r
      else if rk_Caller (sr_Key l) \<noteq> rk_Caller (sr_Key r) then rk_Caller (sr_Key l) < rk_Caller (sr_Key r)
      else rk_IdempotencyKey (sr_Key l) < rk_IdempotencyKey (sr_Key r))"

definition memoryLLMRecoveryAfter :: "StoreRequestRecord \<Rightarrow> StoreRecoveryCursor \<Rightarrow> bool" where
  "memoryLLMRecoveryAfter r c =
     (if sr_CreatedAt r \<noteq> rc_CreatedAt c then sr_CreatedAt r > rc_CreatedAt c
      else if rk_Caller (sr_Key r) \<noteq> rc_Caller c then rk_Caller (sr_Key r) > rc_Caller c
      else rk_IdempotencyKey (sr_Key r) > rc_IdempotencyKey c)"

definition memoryLLMRetentionLess :: "StoreRetentionCandidate \<Rightarrow> StoreRetentionCandidate \<Rightarrow> bool" where
  "memoryLLMRetentionLess l r =
     (if nd_EffectiveCompletedAt l \<noteq> nd_EffectiveCompletedAt r then nd_EffectiveCompletedAt l < nd_EffectiveCompletedAt r
      else if rk_Caller (rh_Key (nd_Request l)) \<noteq> rk_Caller (rh_Key (nd_Request r))
      then rk_Caller (rh_Key (nd_Request l)) < rk_Caller (rh_Key (nd_Request r))
      else rk_IdempotencyKey (rh_Key (nd_Request l)) < rk_IdempotencyKey (rh_Key (nd_Request r)))"

definition memoryLLMRetentionAfter :: "StoreRequestKey \<Rightarrow> gotime \<Rightarrow> StoreRetentionCursor \<Rightarrow> bool" where
  "memoryLLMRetentionAfter k effective c =
     (if effective \<noteq> nc_CompletedAt c then effective > nc_CompletedAt c
      else if rk_Caller k \<noteq> nc_Caller c then rk_Caller k > nc_Caller c
      else rk_IdempotencyKey k > nc_IdempotencyKey c)"


section \<open>StoreView\<close>

definition llm_LoadTask :: "StoreTaskKey \<Rightarrow> memoryLLMUnit \<Rightarrow> StoreTaskRecord llm_result" where
  "llm_LoadTask key u = bind_res (llm_ensureActive u) (\<lambda>_.
     if \<not> memoryLLMValidTaskKey key then Inl ErrStoreInvalidArgument
     else case map_of (ml_tasks (lu_state u)) key of None \<Rightarrow> Inl ErrStoreRecordNotFound | Some r \<Rightarrow> Inr r)"

definition llm_FindOpenTask :: "StoreTaskAffinity \<Rightarrow> memoryLLMUnit \<Rightarrow> StoreTaskRecord llm_result" where
  "llm_FindOpenTask a u = bind_res (llm_ensureActive u) (\<lambda>_.
     if ta_Caller a = [] \<or> ta_WorkspaceKey a = [] \<or> ta_HarnessID a = [] \<or> ta_HarnessVersion a = [] \<or> ta_HarnessSessionID a = []
     then Inl ErrStoreInvalidArgument
     else case find (\<lambda>r. \<not> TaskState_Terminal (st_State r) \<and> tool_tier (st_CapabilityTier r) \<and> memoryLLMAffinity r = a)
         (map snd (ml_tasks (lu_state u))) of
       None \<Rightarrow> Inl ErrStoreRecordNotFound | Some r \<Rightarrow> Inr r)"

definition llm_FindActiveRequest :: "StoreTaskKey \<Rightarrow> memoryLLMUnit \<Rightarrow> StoreRequestHead llm_result" where
  "llm_FindActiveRequest task u = bind_res (llm_ensureActive u) (\<lambda>_.
     if \<not> memoryLLMValidTaskKey task then Inl ErrStoreInvalidArgument
     else case find (\<lambda>r. sr_Task r = task \<and> \<not> sr_ResponseComplete r) (map snd (ml_requests (lu_state u))) of
       None \<Rightarrow> Inl ErrStoreRecordNotFound | Some r \<Rightarrow> Inr (memoryLLMRequestHead r))"

definition llm_LoadRequestHead :: "StoreRequestKey \<Rightarrow> memoryLLMUnit \<Rightarrow> StoreRequestHead llm_result" where
  "llm_LoadRequestHead key u = bind_res (llm_ensureActive u) (\<lambda>_.
     if \<not> memoryLLMValidRequestKey key then Inl ErrStoreInvalidArgument
     else case map_of (ml_requests (lu_state u)) key of None \<Rightarrow> Inl ErrStoreRecordNotFound | Some r \<Rightarrow> Inr (memoryLLMRequestHead r))"

definition llm_LoadRequest :: "StoreRequestKey \<Rightarrow> int \<Rightarrow> memoryLLMUnit \<Rightarrow> StoreRequestRecord llm_result" where
  "llm_LoadRequest key limit u = bind_res (llm_ensureActive u) (\<lambda>_.
     if \<not> memoryLLMValidRequestKey key then Inl ErrStoreInvalidArgument
     else bind_res (memoryLLMValidateReadLimit limit) (\<lambda>_.
       case map_of (ml_requests (lu_state u)) key of
         None \<Rightarrow> Inl ErrStoreRecordNotFound
       | Some r \<Rightarrow> bind_res (memoryLLMBudget (int (length (sr_CanonicalPayload r) + length (rd_Body (sr_Decision r)))) limit) (\<lambda>_. Inr r)))"

definition llm_LoadResponseDecision :: "StoreRequestKey \<Rightarrow> int \<Rightarrow> memoryLLMUnit \<Rightarrow> StoreResponseDecision llm_result" where
  "llm_LoadResponseDecision key limit u = bind_res (llm_ensureActive u) (\<lambda>_.
     if \<not> memoryLLMValidRequestKey key then Inl ErrStoreInvalidArgument
     else bind_res (memoryLLMValidateReadLimit limit) (\<lambda>_.
       case map_of (ml_requests (lu_state u)) key of
         None \<Rightarrow> Inl ErrStoreRecordNotFound
       | Some r \<Rightarrow> bind_res (memoryLLMBudget (int (length (rd_Body (sr_Decision r)))) limit) (\<lambda>_. Inr (sr_Decision r))))"

definition llm_LoadWorkerReceipt :: "StoreRequestKey \<Rightarrow> string \<Rightarrow> memoryLLMUnit \<Rightarrow> StoreWorkerReceiptRecord llm_result" where
  "llm_LoadWorkerReceipt request eventID u = bind_res (llm_ensureActive u) (\<lambda>_.
     if \<not> memoryLLMValidRequestKey request \<or> eventID = [] then Inl ErrStoreInvalidArgument
     else case map_of (ml_receipts (lu_state u)) (request, eventID) of None \<Rightarrow> Inl ErrStoreRecordNotFound | Some r \<Rightarrow> Inr r)"

definition llm_LoadToolExecution :: "StoreToolExecutionKey \<Rightarrow> int \<Rightarrow> memoryLLMUnit \<Rightarrow> StoreToolExecutionRecord llm_result" where
  "llm_LoadToolExecution key limit u = bind_res (llm_ensureActive u) (\<lambda>_.
     if \<not> memoryLLMValidToolKey key then Inl ErrStoreInvalidArgument
     else bind_res (memoryLLMValidateReadLimit limit) (\<lambda>_.
       case map_of (ml_tools (lu_state u)) key of
         None \<Rightarrow> Inl ErrStoreRecordNotFound
       | Some r \<Rightarrow> bind_res (memoryLLMBudget (int (length (xr_Result r))) limit) (\<lambda>_. Inr r)))"

text \<open>The loop the scans end with: at most \<open>limit\<close> records and \<open>maxBytes\<close> bytes, and a first record that cannot fit is refused.\<close>

fun scan_budget :: "('a \<Rightarrow> int) \<Rightarrow> int \<Rightarrow> int \<Rightarrow> 'a list \<Rightarrow> int \<Rightarrow> 'a list \<Rightarrow> 'a list llm_result" where
  "scan_budget bytes_of limit maxBytes result used [] = Inr result"
| "scan_budget bytes_of limit maxBytes result used (x # xs) =
     (if int (length result) = limit then Inr result
      else if bytes_of x > maxBytes then (if result = [] then Inl ErrStoreRecordTooLarge else Inr result)
      else if used + bytes_of x > maxBytes then Inr result
      else scan_budget bytes_of limit maxBytes (result @ [x]) (used + bytes_of x) xs)"

definition events_of :: "StoreRequestKey \<Rightarrow> memoryLLMState \<Rightarrow> (uint64, StoreResponseEventRecord) gomap" where
  "events_of key s = (case map_of (ml_events s) key of None \<Rightarrow> [] | Some m \<Rightarrow> m)"

fun valid_kinds :: "StoreResponseEventKind list \<Rightarrow> StoreResponseEventKind list \<Rightarrow> bool" where
  "valid_kinds seen [] = True"
| "valid_kinds seen (kind # kinds) =
     ((kind = StoreEventCheckpoint \<or> kind = StoreEventWire) \<and> kind \<notin> set seen \<and> valid_kinds (kind # seen) kinds)"

definition llm_ScanResponseEvents :: "StoreResponseEventScan \<Rightarrow> memoryLLMUnit \<Rightarrow> StoreResponseEventRecord list llm_result" where
  "llm_ScanResponseEvents scan u = bind_res (llm_ensureActive u) (\<lambda>_.
     if \<not> memoryLLMValidRequestKey (es_Request scan) then Inl ErrStoreInvalidArgument
     else bind_res (memoryLLMScanArguments (es_Limit scan) (es_MaxBytes scan)) (\<lambda>_.
       if \<not> valid_kinds [] (es_Kinds scan) then Inl ErrStoreInvalidArgument
       else
         (let rows = events_of (es_Request scan) (lu_state u);
              sequences = map fst (filter (\<lambda>(sequence, r). \<not> (sequence \<le> es_After scan
                 \<or> (es_Kinds scan \<noteq> [] \<and> re_Kind r \<notin> set (es_Kinds scan))
                 \<or> (es_WorkerEventID scan \<noteq> [] \<and> re_WorkerEventID r \<noteq> es_WorkerEventID scan))) rows) in
          scan_budget (\<lambda>r. int (length (re_Data r))) (es_Limit scan) (es_MaxBytes scan) [] 0
            (map (\<lambda>sequence. the (map_of rows sequence)) (sort_Slice (<) sequences)))))"

definition llm_ScanToolExecutions :: "StoreToolExecutionScan \<Rightarrow> memoryLLMUnit \<Rightarrow> StoreToolExecutionRecord list llm_result" where
  "llm_ScanToolExecutions scan u = bind_res (llm_ensureActive u) (\<lambda>_.
     if \<not> memoryLLMValidTaskKey (xs_Task scan) then Inl ErrStoreInvalidArgument
     else if (case xs_State scan of ToolExecutionOther _ \<Rightarrow> True | _ \<Rightarrow> False) then Inl ErrStoreInvalidArgument
     else bind_res (memoryLLMScanArguments (xs_Limit scan) (xs_MaxBytes scan)) (\<lambda>_.
       (let rows = ml_tools (lu_state u);
            ids = map (\<lambda>(k, r). xk_ToolCallID k) (filter (\<lambda>(k, r). \<not> (xk_Task k \<noteq> xs_Task scan \<or> xk_ToolCallID k \<le> xs_After scan
               \<or> (xs_State scan \<noteq> ToolExecutionUnset \<and> xr_State r \<noteq> xs_State scan))) rows) in
        scan_budget (\<lambda>r. int (length (xr_Result r))) (xs_Limit scan) (xs_MaxBytes scan) [] 0
          (map (\<lambda>i. the (map_of rows \<lparr>xk_Task = xs_Task scan, xk_ToolCallID = i\<rparr>)) (sort_Slice (<) ids)))))"

definition unacknowledged :: "StoreRequestKey \<Rightarrow> memoryLLMState \<Rightarrow> bool" where
  "unacknowledged key s =
     list_ex (\<lambda>(_, e). re_WorkerEventID e \<noteq> [] \<and>
        (case map_of (ml_receipts s) (key, re_WorkerEventID e) of
           None \<Rightarrow> True | Some r \<Rightarrow> wr_Worker r \<noteq> re_Worker e \<or> wr_Digest r \<noteq> re_WorkerEventDigest e)) (events_of key s)"

definition llm_ScanRecovery :: "StoreRecoveryScan \<Rightarrow> memoryLLMUnit \<Rightarrow> StoreRecoveryRecord list llm_result" where
  "llm_ScanRecovery scan u = bind_res (llm_ensureActive u) (\<lambda>_.
     if (case vs_After scan of None \<Rightarrow> False | Some c \<Rightarrow> \<not> memoryLLMValidRecoveryCursor c) then Inl ErrStoreInvalidArgument
     else bind_res (memoryLLMScanArguments (vs_Limit scan) (vs_MaxBytes scan)) (\<lambda>_.
       (let s = lu_state u;
            candidates = List.map_filter (\<lambda>(_, request).
              if sr_RecoveryQuarantined request \<or> (sr_ResponseComplete request \<and> \<not> unacknowledged (sr_Key request) s) then None
              else if (case vs_After scan of None \<Rightarrow> False | Some c \<Rightarrow> \<not> memoryLLMRecoveryAfter request c) then None
              else (case map_of (ml_tasks s) (sr_Task request) of
                      None \<Rightarrow> None | Some task \<Rightarrow> Some \<lparr>vr_Task = task, vr_Request = request\<rparr>)) (ml_requests s) in
        scan_budget (\<lambda>r. int (length (sr_CanonicalPayload (vr_Request r)) + length (rd_Body (sr_Decision (vr_Request r)))))
          (vs_Limit scan) (vs_MaxBytes scan) [] 0
          (sort_Slice (\<lambda>l r. memoryLLMRecoveryLess (vr_Request l) (vr_Request r)) candidates))))"

definition llm_ScanRetention :: "StoreRetentionScan \<Rightarrow> memoryLLMUnit \<Rightarrow> StoreRetentionCandidate list llm_result" where
  "llm_ScanRetention scan u = bind_res (llm_ensureActive u) (\<lambda>_.
     if ns_CompletedBefore scan = zero_time \<or> ns_Limit scan < 1 \<or> ns_Limit scan > 4096
        \<or> (case ns_After scan of None \<Rightarrow> False | Some c \<Rightarrow> \<not> memoryLLMValidRetentionCursor c) then Inl ErrStoreInvalidArgument
     else
       (let s = lu_state u;
            result = List.map_filter (\<lambda>(_, request).
              if \<not> sr_ResponseComplete request \<or> sr_PayloadPrunedAt request \<noteq> None then None
              else
                (let effective = (case sr_CompletedAt request of None \<Rightarrow> sr_CreatedAt request | Some t \<Rightarrow> t) in
                 if effective > ns_CompletedBefore scan
                    \<or> (case ns_After scan of None \<Rightarrow> False | Some c \<Rightarrow> \<not> memoryLLMRetentionAfter (sr_Key request) effective c) then None
                 else Some \<lparr>nd_Request = memoryLLMRequestHead request, nd_EffectiveCompletedAt = effective,
                        nd_UnacknowledgedWorkerEvent = (\<not> sr_RecoveryQuarantined request \<and> unacknowledged (sr_Key request) s)\<rparr>))
              (ml_requests s) in
        Inr (take (nat (ns_Limit scan)) (sort_Slice memoryLLMRetentionLess result))))"


section \<open>StoreTx\<close>

definition open_affinity :: "StoreTaskKey option \<Rightarrow> StoreTaskRecord \<Rightarrow> memoryLLMState \<Rightarrow> bool" where
  "open_affinity except r s \<longleftrightarrow> \<not> TaskState_Terminal (st_State r) \<and> tool_tier (st_CapabilityTier r)
     \<and> list_ex (\<lambda>(k, existing). Some k \<noteq> except \<and> \<not> TaskState_Terminal (st_State existing)
         \<and> memoryLLMAffinity existing = memoryLLMAffinity r) (ml_tasks s)"

definition llm_InsertTask :: "StoreTaskRecord \<Rightarrow> memoryLLMUnit \<Rightarrow> memoryLLMUnit llm_result" where
  "llm_InsertTask r u = bind_res (llm_ensureActive u) (\<lambda>_. bind_res (memoryLLMValidateTask r) (\<lambda>_.
     (let s = lu_state u in
      if map_of (ml_tasks s) (st_Key r) \<noteq> None then Inl (ErrStoreConflict StoreConstraintTaskKey)
      else if open_affinity None r s then Inl (ErrStoreConflict StoreConstraintOpenAffinity)
      else Inr (u\<lparr>lu_state := s\<lparr>ml_tasks := gomap_put (st_Key r) r (ml_tasks s)\<rparr>\<rparr>))))"

definition llm_CompareAndSwapTask :: "(StoreTaskKey, StoreTaskRecord) StoreMutation \<Rightarrow> memoryLLMUnit \<Rightarrow> (bool \<times> memoryLLMUnit) llm_result" where
  "llm_CompareAndSwapTask m u = bind_res (llm_ensureActive u) (\<lambda>_.
     (let s = lu_state u in
      if \<not> memoryLLMValidTaskKey (mu_Key m) \<or> mu_ExpectedRevision m = 0 \<or> st_Revision (mu_Next m) = 0 then Inl ErrStoreInvalidArgument
      else case map_of (ml_tasks s) (mu_Key m) of
        None \<Rightarrow> Inl ErrStoreRecordNotFound
      | Some current \<Rightarrow>
          if st_Revision current \<noteq> mu_ExpectedRevision m then Inr (False, u)
          else if \<not> memoryLLMTaskIdentityEqual current (mu_Next m) \<or> st_Revision (mu_Next m) \<noteq> st_Revision current + 1
          then Inl (ErrStoreConflict StoreConstraintImmutableRecord)
          else if open_affinity (Some (mu_Key m)) (mu_Next m) s then Inl (ErrStoreConflict StoreConstraintOpenAffinity)
          else Inr (True, u\<lparr>lu_state := s\<lparr>ml_tasks := gomap_put (mu_Key m) (mu_Next m) (ml_tasks s)\<rparr>\<rparr>)))"

text \<open>The loop of \<open>InsertRequest\<close> over the existing requests, in the order of the map.\<close>

fun request_conflict :: "StoreRequestRecord \<Rightarrow> StoreRequestRecord list \<Rightarrow> unit llm_result" where
  "request_conflict r [] = Inr ()"
| "request_conflict r (e # es) =
     (if \<not> sr_ResponseComplete r \<and> sr_Task e = sr_Task r \<and> \<not> sr_ResponseComplete e
      then Inl (ErrStoreConflict StoreConstraintActiveRequest)
      else if rk_Caller (sr_Key e) = rk_Caller (sr_Key r) \<and> (sr_RequestID e = sr_RequestID r \<or> sr_ResponseID e = sr_ResponseID r)
      then Inl (ErrStoreConflict StoreConstraintRequestKey)
      else request_conflict r es)"

definition llm_InsertRequest :: "StoreRequestRecord \<Rightarrow> memoryLLMUnit \<Rightarrow> memoryLLMUnit llm_result" where
  "llm_InsertRequest r u = bind_res (llm_ensureActive u) (\<lambda>_. bind_res (memoryLLMValidateRequest r) (\<lambda>_.
     (let s = lu_state u in
      if map_of (ml_requests s) (sr_Key r) \<noteq> None then Inl (ErrStoreConflict StoreConstraintRequestKey)
      else case map_of (ml_tasks s) (sr_Task r) of
        None \<Rightarrow> Inl ErrStoreRecordNotFound
      | Some task \<Rightarrow>
          if \<not> CodecSnapshot_Equal (st_Codec task) (sr_Codec r) then Inl (ErrStoreConflict StoreConstraintImmutableRecord)
          else bind_res (request_conflict r (map snd (ml_requests s))) (\<lambda>_.
            Inr (u\<lparr>lu_state := s\<lparr>ml_requests := gomap_put (sr_Key r) r (ml_requests s)\<rparr>\<rparr>)))))"

definition payload_immutable :: "StoreRequestRecord \<Rightarrow> StoreRequestRecord \<Rightarrow> bool" where
  "payload_immutable current n =
     (case sr_PayloadPrunedAt current of
        None \<Rightarrow> \<not> (sr_PayloadPrunedAt n = None \<and> sr_CanonicalPayload current \<noteq> sr_CanonicalPayload n)
          \<and> \<not> (sr_PayloadPrunedAt n \<noteq> None \<and> (sr_CanonicalPayload n \<noteq> [] \<or> rd_Body (sr_Decision n) \<noteq> []))
      | Some t \<Rightarrow> sr_PayloadPrunedAt n = Some t \<and> sr_CanonicalPayload n = [] \<and> rd_Body (sr_Decision n) = [])"

definition llm_CompareAndSwapRequest :: "(StoreRequestKey, StoreRequestRecord) StoreMutation \<Rightarrow> memoryLLMUnit \<Rightarrow> (bool \<times> memoryLLMUnit) llm_result" where
  "llm_CompareAndSwapRequest m u = bind_res (llm_ensureActive u) (\<lambda>_.
     (let s = lu_state u in
      if \<not> memoryLLMValidRequestKey (mu_Key m) \<or> mu_ExpectedRevision m = 0 \<or> sr_Revision (mu_Next m) = 0 then Inl ErrStoreInvalidArgument
      else case map_of (ml_requests s) (mu_Key m) of
        None \<Rightarrow> Inl ErrStoreRecordNotFound
      | Some current \<Rightarrow>
          if sr_Revision current \<noteq> mu_ExpectedRevision m then Inr (False, u)
          else if \<not> memoryLLMRequestIdentityEqual current (mu_Next m) \<or> sr_Revision (mu_Next m) \<noteq> sr_Revision current + 1
          then Inl (ErrStoreConflict StoreConstraintImmutableRecord)
          else if \<not> payload_immutable current (mu_Next m) then Inl (ErrStoreConflict StoreConstraintImmutableRecord)
          else if \<not> sr_ResponseComplete (mu_Next m) \<and> list_ex (\<lambda>(k, e). k \<noteq> mu_Key m \<and> sr_Task e = sr_Task (mu_Next m)
              \<and> \<not> sr_ResponseComplete e) (ml_requests s)
          then Inl (ErrStoreConflict StoreConstraintActiveRequest)
          else Inr (True, u\<lparr>lu_state := s\<lparr>ml_requests := gomap_put (mu_Key m) (mu_Next m) (ml_requests s)\<rparr>\<rparr>)))"

definition llm_InsertResponseEvent :: "StoreResponseEventRecord \<Rightarrow> memoryLLMUnit \<Rightarrow> memoryLLMUnit llm_result" where
  "llm_InsertResponseEvent r u = bind_res (llm_ensureActive u) (\<lambda>_. bind_res (memoryLLMValidateResponseEvent r) (\<lambda>_.
     (let s = lu_state u; rows = events_of (re_Request r) s in
      if map_of (ml_requests s) (re_Request r) = None then Inl ErrStoreRecordNotFound
      else if map_of rows (re_Sequence r) \<noteq> None then Inl (ErrStoreConflict StoreConstraintResponseSequence)
      else if re_WorkerEventID r \<noteq> [] \<and> list_ex (\<lambda>(_, e). re_WorkerEventID e = re_WorkerEventID r
          \<and> (re_Worker e \<noteq> re_Worker r \<or> re_WorkerEventDigest e \<noteq> re_WorkerEventDigest r)) rows
      then Inl (ErrStoreConflict StoreConstraintWorkerEvent)
      else Inr (u\<lparr>lu_state := s\<lparr>ml_events := gomap_put (re_Request r) (gomap_put (re_Sequence r) r rows) (ml_events s)\<rparr>\<rparr>))))"

definition llm_InsertWorkerReceipt :: "StoreWorkerReceiptRecord \<Rightarrow> memoryLLMUnit \<Rightarrow> memoryLLMUnit llm_result" where
  "llm_InsertWorkerReceipt r u = bind_res (llm_ensureActive u) (\<lambda>_. bind_res (memoryLLMValidateWorkerReceipt r) (\<lambda>_.
     (let s = lu_state u; key = (wr_Request r, wr_EventID r) in
      if map_of (ml_requests s) (wr_Request r) = None then Inl ErrStoreRecordNotFound
      else if map_of (ml_receipts s) key \<noteq> None then Inl (ErrStoreConflict StoreConstraintWorkerReceipt)
      else Inr (u\<lparr>lu_state := s\<lparr>ml_receipts := gomap_put key r (ml_receipts s)\<rparr>\<rparr>))))"

definition llm_InsertToolExecution :: "StoreToolExecutionRecord \<Rightarrow> memoryLLMUnit \<Rightarrow> memoryLLMUnit llm_result" where
  "llm_InsertToolExecution r u = bind_res (llm_ensureActive u) (\<lambda>_. bind_res (memoryLLMValidateTool r) (\<lambda>_.
     (let s = lu_state u in
      if map_of (ml_tasks s) (xk_Task (xr_Key r)) = None then Inl ErrStoreRecordNotFound
      else if map_of (ml_tools s) (xr_Key r) \<noteq> None then Inl (ErrStoreConflict StoreConstraintToolCall)
      else Inr (u\<lparr>lu_state := s\<lparr>ml_tools := gomap_put (xr_Key r) r (ml_tools s)\<rparr>\<rparr>))))"

definition llm_CompareAndSwapToolExecution ::
    "(StoreToolExecutionKey, StoreToolExecutionRecord) StoreMutation \<Rightarrow> memoryLLMUnit \<Rightarrow> (bool \<times> memoryLLMUnit) llm_result" where
  "llm_CompareAndSwapToolExecution m u = bind_res (llm_ensureActive u) (\<lambda>_.
     (let s = lu_state u in
      if \<not> memoryLLMValidToolKey (mu_Key m) \<or> mu_ExpectedRevision m = 0 \<or> xr_Revision (mu_Next m) = 0 then Inl ErrStoreInvalidArgument
      else case map_of (ml_tools s) (mu_Key m) of
        None \<Rightarrow> Inl ErrStoreRecordNotFound
      | Some current \<Rightarrow>
          if xr_Revision current \<noteq> mu_ExpectedRevision m then Inr (False, u)
          else if xr_Key current \<noteq> xr_Key (mu_Next m) \<or> xr_InputDigest current \<noteq> xr_InputDigest (mu_Next m)
              \<or> xr_CreatedAt current \<noteq> xr_CreatedAt (mu_Next m) \<or> xr_Revision (mu_Next m) \<noteq> xr_Revision current + 1
          then Inl (ErrStoreConflict StoreConstraintImmutableRecord)
          else Inr (True, u\<lparr>lu_state := s\<lparr>ml_tools := gomap_put (mu_Key m) (mu_Next m) (ml_tools s)\<rparr>\<rparr>)))"

definition llm_DeleteTombstonedResponseEvents :: "StoreRequestKey \<Rightarrow> memoryLLMUnit \<Rightarrow> (uint64 \<times> memoryLLMUnit) llm_result" where
  "llm_DeleteTombstonedResponseEvents key u = bind_res (llm_ensureActive u) (\<lambda>_.
     (let s = lu_state u in
      if \<not> memoryLLMValidRequestKey key then Inl ErrStoreInvalidArgument
      else case map_of (ml_requests s) key of
        None \<Rightarrow> Inl ErrStoreRecordNotFound
      | Some request \<Rightarrow>
          if sr_PayloadPrunedAt request = None then Inl (ErrStoreConflict StoreConstraintCompareAndSwap)
          else Inr (of_nat (length (events_of key s)),
                 u\<lparr>lu_state := s\<lparr>ml_events := filter (\<lambda>(k, _). k \<noteq> key) (ml_events s)\<rparr>\<rparr>)))"


section \<open>The image and its handles\<close>

datatype go_context = NilContext | EndedContext | LiveContext

text \<open>\<open>im_handles\<close> are the handles \<open>Open\<close> returned, with their \<open>closed\<close> flag.\<close>

record MemoryLLMStoreImage =
  im_binding :: "string option"
  im_state :: memoryLLMState
  im_handles :: "bool list"

definition NewMemoryLLMStoreImage :: MemoryLLMStoreImage where
  "NewMemoryLLMStoreImage = \<lparr>im_binding = None, im_state = newMemoryLLMState, im_handles = []\<rparr>"

definition llm_Open :: "MemoryLLMStoreImage \<Rightarrow> nat \<times> MemoryLLMStoreImage" where
  "llm_Open img = (length (im_handles img), img\<lparr>im_handles := im_handles img @ [False]\<rparr>)"

definition handle_closed :: "nat \<Rightarrow> MemoryLLMStoreImage \<Rightarrow> bool" where
  "handle_closed h img \<longleftrightarrow> h \<ge> length (im_handles img) \<or> im_handles img ! h"

definition llm_close :: "nat \<Rightarrow> MemoryLLMStoreImage \<Rightarrow> MemoryLLMStoreImage" where
  "llm_close h img = img\<lparr>im_handles := (im_handles img)[h := True]\<rparr>"

definition llm_Abandon :: "nat \<Rightarrow> MemoryLLMStoreImage \<Rightarrow> unit llm_result \<times> MemoryLLMStoreImage" where
  "llm_Abandon h img = (if handle_closed h img then (Inl ErrStoreClosed, img) else (Inr (), llm_close h img))"

definition llm_Bind :: "go_context \<Rightarrow> nat \<Rightarrow> string \<Rightarrow> MemoryLLMStoreImage \<Rightarrow> unit llm_result \<times> MemoryLLMStoreImage" where
  "llm_Bind ctx h binding img =
     (if ctx = NilContext then (Inl ErrStoreInvalidArgument, img)
      else if ctx = EndedContext then (Inl ErrStoreContext, img)
      else case StoreBinding_Validate binding of
        Inl e \<Rightarrow> (Inl e, img)
      | Inr _ \<Rightarrow>
          if handle_closed h img then (Inl ErrStoreClosed, img)
          else case im_binding img of
            None \<Rightarrow> (Inr (), img\<lparr>im_binding := Some binding\<rparr>)
          | Some b \<Rightarrow> if b \<noteq> binding then (Inl (ErrStoreConflict StoreConstraintDeploymentBinding), img) else (Inr (), img))"

definition llm_View :: "(llm_store_error \<Rightarrow> 'e) \<Rightarrow> go_context \<Rightarrow> nat \<Rightarrow> (memoryLLMUnit \<Rightarrow> 'e + 'a) \<Rightarrow> MemoryLLMStoreImage \<Rightarrow> 'e + 'a" where
  "llm_View err ctx h callback img =
     (if ctx = NilContext then Inl (err ErrStoreInvalidArgument)
      else if ctx = EndedContext then Inl (err ErrStoreContext)
      else if handle_closed h img then Inl (err ErrStoreClosed)
      else callback \<lparr>lu_state = im_state img, lu_active = True\<rparr>)"

definition llm_Update ::
    "(llm_store_error \<Rightarrow> 'e) \<Rightarrow> go_context \<Rightarrow> nat \<Rightarrow> (memoryLLMUnit \<Rightarrow> 'e + 'a \<times> memoryLLMUnit) \<Rightarrow> MemoryLLMStoreImage
     \<Rightarrow> ('e + 'a) \<times> MemoryLLMStoreImage" where
  "llm_Update err ctx h callback img =
     (if ctx = NilContext then (Inl (err ErrStoreInvalidArgument), img)
      else if ctx = EndedContext then (Inl (err ErrStoreContext), img)
      else if handle_closed h img then (Inl (err ErrStoreClosed), img)
      else case callback \<lparr>lu_state = im_state img, lu_active = True\<rparr> of
        Inl e \<Rightarrow> (Inl e, img)
      | Inr (a, u) \<Rightarrow> (Inr a, img\<lparr>im_state := lu_state u\<rparr>))"

end
