(* ===== verification/LLM_Store_Inv.thy ===== *)
theory LLM_Store_Inv
  imports LLM_Store
begin

text \<open>
  What the Store of the HumanLLM domain keeps of its state whatever its transactions do: the invariant of the
  five maps under every primitive, the records that only grow, and the image with its binding.
\<close>


section \<open>Primitives and the invariant\<close>

inductive llm_prim :: "memoryLLMUnit \<Rightarrow> memoryLLMUnit \<Rightarrow> bool" where
  InsertTask: "llm_InsertTask r u = Inr u' \<Longrightarrow> llm_prim u u'"
| CompareAndSwapTask: "llm_CompareAndSwapTask m u = Inr (b, u') \<Longrightarrow> llm_prim u u'"
| InsertRequest: "llm_InsertRequest q u = Inr u' \<Longrightarrow> llm_prim u u'"
| CompareAndSwapRequest: "llm_CompareAndSwapRequest n u = Inr (b, u') \<Longrightarrow> llm_prim u u'"
| InsertResponseEvent: "llm_InsertResponseEvent e u = Inr u' \<Longrightarrow> llm_prim u u'"
| InsertWorkerReceipt: "llm_InsertWorkerReceipt w u = Inr u' \<Longrightarrow> llm_prim u u'"
| InsertToolExecution: "llm_InsertToolExecution x u = Inr u' \<Longrightarrow> llm_prim u u'"
| CompareAndSwapToolExecution: "llm_CompareAndSwapToolExecution p u = Inr (b, u') \<Longrightarrow> llm_prim u u'"
| DeleteTombstonedResponseEvents: "llm_DeleteTombstonedResponseEvents key u = Inr (c, u') \<Longrightarrow> llm_prim u u'"

definition tasks_ok :: "memoryLLMState \<Rightarrow> bool" where
  "tasks_ok s \<longleftrightarrow> gomap_ok (ml_tasks s)
     \<and> (\<forall>k t. map_of (ml_tasks s) k = Some t \<longrightarrow> st_Key t = k \<and> st_Revision t \<noteq> 0)
     \<and> (\<forall>k k' t t'. map_of (ml_tasks s) k = Some t \<longrightarrow> map_of (ml_tasks s) k' = Some t' \<longrightarrow>
          \<not> TaskState_Terminal (st_State t) \<longrightarrow> \<not> TaskState_Terminal (st_State t') \<longrightarrow> tool_tier (st_CapabilityTier t) \<longrightarrow>
          tool_tier (st_CapabilityTier t') \<longrightarrow> memoryLLMAffinity t = memoryLLMAffinity t' \<longrightarrow> k = k')"

definition request_ok :: "memoryLLMState \<Rightarrow> StoreRequestKey \<Rightarrow> StoreRequestRecord \<Rightarrow> bool" where
  "request_ok s k r \<longleftrightarrow> sr_Key r = k \<and> sr_Revision r \<noteq> 0
     \<and> (\<exists>t. map_of (ml_tasks s) (sr_Task r) = Some t \<and> CodecSnapshot_Equal (st_Codec t) (sr_Codec r))
     \<and> (sr_PayloadPrunedAt r \<noteq> None \<longrightarrow> sr_CanonicalPayload r = [] \<and> rd_Body (sr_Decision r) = [])"

definition requests_apart :: "StoreRequestRecord \<Rightarrow> StoreRequestRecord \<Rightarrow> bool" where
  "requests_apart r r' \<longleftrightarrow> \<not> (sr_Task r = sr_Task r' \<and> \<not> sr_ResponseComplete r \<and> \<not> sr_ResponseComplete r')
     \<and> \<not> (rk_Caller (sr_Key r) = rk_Caller (sr_Key r') \<and> (sr_RequestID r = sr_RequestID r' \<or> sr_ResponseID r = sr_ResponseID r'))"

definition requests_ok :: "memoryLLMState \<Rightarrow> bool" where
  "requests_ok s \<longleftrightarrow> gomap_ok (ml_requests s)
     \<and> (\<forall>k r. map_of (ml_requests s) k = Some r \<longrightarrow> request_ok s k r)
     \<and> (\<forall>k k' r r'. map_of (ml_requests s) k = Some r \<longrightarrow> map_of (ml_requests s) k' = Some r' \<longrightarrow> k \<noteq> k' \<longrightarrow> requests_apart r r')"

definition events_ok :: "memoryLLMState \<Rightarrow> bool" where
  "events_ok s \<longleftrightarrow> gomap_ok (ml_events s)
     \<and> (\<forall>k m. map_of (ml_events s) k = Some m \<longrightarrow> gomap_ok m \<and> map_of (ml_requests s) k \<noteq> None
          \<and> (\<forall>n e. map_of m n = Some e \<longrightarrow> re_Request e = k \<and> re_Sequence e = n \<and> n \<noteq> 0)
          \<and> (\<forall>n n' e e'. map_of m n = Some e \<longrightarrow> map_of m n' = Some e' \<longrightarrow> re_WorkerEventID e \<noteq> [] \<longrightarrow>
               re_WorkerEventID e = re_WorkerEventID e' \<longrightarrow> re_Worker e = re_Worker e' \<and> re_WorkerEventDigest e = re_WorkerEventDigest e'))"

definition ledgers_ok :: "memoryLLMState \<Rightarrow> bool" where
  "ledgers_ok s \<longleftrightarrow> gomap_ok (ml_receipts s) \<and> gomap_ok (ml_tools s)
     \<and> (\<forall>k i w. map_of (ml_receipts s) (k, i) = Some w \<longrightarrow> wr_Request w = k \<and> wr_EventID w = i \<and> map_of (ml_requests s) k \<noteq> None)
     \<and> (\<forall>k x. map_of (ml_tools s) k = Some x \<longrightarrow> xr_Key x = k \<and> xr_Revision x \<noteq> 0 \<and> map_of (ml_tasks s) (xk_Task k) \<noteq> None)"

definition llm_inv :: "memoryLLMState \<Rightarrow> bool" where
  "llm_inv s \<longleftrightarrow> tasks_ok s \<and> requests_ok s \<and> events_ok s \<and> ledgers_ok s"

lemma newMemoryLLMState_inv: "llm_inv newMemoryLLMState"
  by (simp add: llm_inv_def tasks_ok_def requests_ok_def events_ok_def ledgers_ok_def newMemoryLLMState_def)

lemma tasks_okD:
  "tasks_ok s \<Longrightarrow> gomap_ok (ml_tasks s)"
  "tasks_ok s \<Longrightarrow> map_of (ml_tasks s) k = Some t \<Longrightarrow> st_Key t = k \<and> st_Revision t \<noteq> 0"
  "tasks_ok s \<Longrightarrow> map_of (ml_tasks s) k = Some t \<Longrightarrow> map_of (ml_tasks s) k' = Some t' \<Longrightarrow> \<not> TaskState_Terminal (st_State t) \<Longrightarrow>
     \<not> TaskState_Terminal (st_State t') \<Longrightarrow> tool_tier (st_CapabilityTier t) \<Longrightarrow> tool_tier (st_CapabilityTier t') \<Longrightarrow>
     memoryLLMAffinity t = memoryLLMAffinity t' \<Longrightarrow> k = k'"
  unfolding tasks_ok_def by blast+

lemma requests_okD:
  "requests_ok s \<Longrightarrow> gomap_ok (ml_requests s)"
  "requests_ok s \<Longrightarrow> map_of (ml_requests s) k = Some r \<Longrightarrow> request_ok s k r"
  "requests_ok s \<Longrightarrow> map_of (ml_requests s) k = Some r \<Longrightarrow> map_of (ml_requests s) k' = Some r' \<Longrightarrow> k \<noteq> k' \<Longrightarrow> requests_apart r r'"
  unfolding requests_ok_def by blast+

definition rows_ok :: "StoreRequestKey \<Rightarrow> (uint64, StoreResponseEventRecord) gomap \<Rightarrow> bool" where
  "rows_ok k m \<longleftrightarrow> gomap_ok m \<and> (\<forall>n e. map_of m n = Some e \<longrightarrow> re_Request e = k \<and> re_Sequence e = n \<and> n \<noteq> 0)
     \<and> (\<forall>n n' e e'. map_of m n = Some e \<longrightarrow> map_of m n' = Some e' \<longrightarrow> re_WorkerEventID e \<noteq> [] \<longrightarrow>
          re_WorkerEventID e = re_WorkerEventID e' \<longrightarrow> re_Worker e = re_Worker e' \<and> re_WorkerEventDigest e = re_WorkerEventDigest e')"

lemma events_ok_rows:
  "events_ok s \<longleftrightarrow> gomap_ok (ml_events s) \<and> (\<forall>k m. map_of (ml_events s) k = Some m \<longrightarrow> map_of (ml_requests s) k \<noteq> None \<and> rows_ok k m)"
  unfolding events_ok_def rows_ok_def by blast

lemma rows_ok_events_of: "events_ok s \<Longrightarrow> rows_ok k (events_of k s)"
  by (auto simp: events_of_def events_ok_rows split: option.splits) (simp add: rows_ok_def)

lemma rows_ok_put:
  assumes m: "rows_ok k m" and e: "re_Request e = k" "re_Sequence e = n" "n \<noteq> 0"
    and apart: "\<And>n' e'. map_of m n' = Some e' \<Longrightarrow> re_WorkerEventID e \<noteq> [] \<Longrightarrow> re_WorkerEventID e' = re_WorkerEventID e \<Longrightarrow>
      re_Worker e' = re_Worker e \<and> re_WorkerEventDigest e' = re_WorkerEventDigest e"
  shows "rows_ok k (gomap_put n e m)"
  unfolding rows_ok_def map_of_gomap_put
proof (intro conjI allI impI)
  show "gomap_ok (gomap_put n e m)" using m by (simp add: rows_ok_def)
  show "re_Request y = k" "re_Sequence y = x" "x \<noteq> 0" if "((map_of m)(n \<mapsto> e)) x = Some y" for x y
    using that m e by (auto simp: rows_ok_def split: if_splits)
  have same: "re_Worker y = re_Worker y' \<and> re_WorkerEventDigest y = re_WorkerEventDigest y'"
    if h: "((map_of m)(n \<mapsto> e)) x = Some y" "((map_of m)(n \<mapsto> e)) x' = Some y'" "re_WorkerEventID y \<noteq> []"
      "re_WorkerEventID y = re_WorkerEventID y'" for x x' y y'
  proof -
    consider "x = n" "x' = n" | "x = n" "x' \<noteq> n" | "x \<noteq> n" "x' = n" | "x \<noteq> n" "x' \<noteq> n" by blast
    then show ?thesis
    proof cases
      case 1
      then show ?thesis using h by simp
    next
      case 2
      then have y: "y = e" "map_of m x' = Some y'" using h(1,2) by simp_all
      then show ?thesis using apart [OF y(2)] h(3,4) by metis
    next
      case 3
      then have y: "y' = e" "map_of m x = Some y" using h(1,2) by simp_all
      then show ?thesis using apart [OF y(2)] h(3,4) by metis
    next
      case 4
      then have "map_of m x = Some y" "map_of m x' = Some y'" using h by simp_all
      then show ?thesis using m h(3,4) unfolding rows_ok_def by blast
    qed
  qed
  show "re_Worker y = re_Worker y'" if "((map_of m)(n \<mapsto> e)) x = Some y" "((map_of m)(n \<mapsto> e)) x' = Some y'"
      "re_WorkerEventID y \<noteq> []" "re_WorkerEventID y = re_WorkerEventID y'" for x x' y y'
    using same [OF that] by blast
  show "re_WorkerEventDigest y = re_WorkerEventDigest y'" if "((map_of m)(n \<mapsto> e)) x = Some y" "((map_of m)(n \<mapsto> e)) x' = Some y'"
      "re_WorkerEventID y \<noteq> []" "re_WorkerEventID y = re_WorkerEventID y'" for x x' y y'
    using same [OF that] by blast
qed

text \<open>What the guards of the primitives say of the maps.\<close>

lemma open_affinity_iff:
  assumes "gomap_ok (ml_tasks s)"
  shows "open_affinity x r s \<longleftrightarrow> \<not> TaskState_Terminal (st_State r) \<and> tool_tier (st_CapabilityTier r)
    \<and> (\<exists>k t. map_of (ml_tasks s) k = Some t \<and> Some k \<noteq> x \<and> \<not> TaskState_Terminal (st_State t) \<and> memoryLLMAffinity t = memoryLLMAffinity r)"
  using gomap_range [OF assms] by (auto simp: open_affinity_def list_ex_iff)

lemma request_conflict_iff:
  "ok (request_conflict r es) \<longleftrightarrow>
   (\<forall>e \<in> set es. \<not> (\<not> sr_ResponseComplete r \<and> sr_Task e = sr_Task r \<and> \<not> sr_ResponseComplete e)
      \<and> \<not> (rk_Caller (sr_Key e) = rk_Caller (sr_Key r) \<and> (sr_RequestID e = sr_RequestID r \<or> sr_ResponseID e = sr_ResponseID r)))"
  by (induction es) auto

lemma affinity_identity: "memoryLLMTaskIdentityEqual t t' \<Longrightarrow> memoryLLMAffinity t' = memoryLLMAffinity t"
  by (simp add: memoryLLMTaskIdentityEqual_def memoryLLMAffinity_def)

lemma put_task_inv:
  assumes inv: "llm_inv s" and r: "st_Key r = k" "st_Revision r \<noteq> 0"
    and old: "\<And>t. map_of (ml_tasks s) k = Some t \<Longrightarrow> memoryLLMTaskIdentityEqual t r"
    and apart: "\<not> open_affinity (Some k) r s"
  shows "llm_inv (s\<lparr>ml_tasks := gomap_put k r (ml_tasks s)\<rparr>)" (is "llm_inv ?s")
proof -
  have ok: "tasks_ok s" "requests_ok s" "events_ok s" "ledgers_ok s" using inv by (simp_all add: llm_inv_def)
  have gm: "gomap_ok (ml_tasks s)" using ok(1) by (simp add: tasks_ok_def)
  have sel: "map_of (ml_tasks ?s) = (map_of (ml_tasks s))(k \<mapsto> r)" by simp
  have keep: "\<exists>t'. map_of (ml_tasks ?s) q = Some t' \<and> CodecSnapshot_Equal (st_Codec t') (st_Codec t)" if "map_of (ml_tasks s) q = Some t" for q t
    using that old [of t] CodecSnapshot_Equal_sym by (cases "q = k") (auto simp: memoryLLMTaskIdentityEqual_def)
  have free: "q = k" if "map_of (ml_tasks s) q = Some t" "\<not> TaskState_Terminal (st_State t)" "memoryLLMAffinity t = memoryLLMAffinity r"
      "\<not> TaskState_Terminal (st_State r)" "tool_tier (st_CapabilityTier r)" for q t
    using apart that unfolding open_affinity_iff [OF gm] by blast
  have "tasks_ok ?s"
    unfolding tasks_ok_def sel
  proof (intro conjI allI impI)
    show "gomap_ok (ml_tasks ?s)" using gm by simp
    show "st_Key t = q" "st_Revision t \<noteq> 0" if "((map_of (ml_tasks s))(k \<mapsto> r)) q = Some t" for q t
      using that r ok(1) by (auto simp: tasks_ok_def split: if_splits)
    show "q = q'" if h: "((map_of (ml_tasks s))(k \<mapsto> r)) q = Some t" "((map_of (ml_tasks s))(k \<mapsto> r)) q' = Some t'"
        "\<not> TaskState_Terminal (st_State t)" "\<not> TaskState_Terminal (st_State t')" "tool_tier (st_CapabilityTier t)"
        "tool_tier (st_CapabilityTier t')" "memoryLLMAffinity t = memoryLLMAffinity t'" for q q' t t'
    proof (cases "q = k \<or> q' = k")
      case True
      then consider "q = k" "q' = k" | "q = k" "q' \<noteq> k" | "q \<noteq> k" "q' = k" by blast
      then show ?thesis
      proof cases
        case 2
        then have "t = r" "map_of (ml_tasks s) q' = Some t'" using h(1,2) by simp_all
        then show ?thesis using free [of q' t'] h(3-) 2 by metis
      next
        case 3
        then have "t' = r" "map_of (ml_tasks s) q = Some t" using h(1,2) by simp_all
        then show ?thesis using free [of q t] h(3-) 3 by metis
      qed simp
    next
      case False
      then have "map_of (ml_tasks s) q = Some t" "map_of (ml_tasks s) q' = Some t'" using h(1,2) by simp_all
      then show ?thesis using tasks_okD(3) [OF ok(1)] h(3-) by blast
    qed
  qed
  moreover have "requests_ok ?s"
  proof -
    have "request_ok ?s q x" if "request_ok s q x" for q x
    proof -
      obtain t where "map_of (ml_tasks s) (sr_Task x) = Some t" "CodecSnapshot_Equal (st_Codec t) (sr_Codec x)"
        using \<open>request_ok s q x\<close> by (auto simp: request_ok_def)
      then obtain t' where "map_of (ml_tasks ?s) (sr_Task x) = Some t'" "CodecSnapshot_Equal (st_Codec t') (sr_Codec x)"
        using keep CodecSnapshot_Equal_trans by blast
      then show ?thesis using \<open>request_ok s q x\<close> unfolding request_ok_def by blast
    qed
    then show ?thesis using ok(2) by (simp add: requests_ok_def)
  qed
  moreover have "events_ok ?s" using ok(3) by (simp add: events_ok_rows)
  moreover have "ledgers_ok ?s" using ok(4) unfolding ledgers_ok_def by (auto split: if_splits)
  ultimately show ?thesis by (simp add: llm_inv_def)
qed

lemma put_request_inv:
  assumes inv: "llm_inv s" and r: "request_ok s k r"
    and apart: "\<And>k' r'. map_of (ml_requests s) k' = Some r' \<Longrightarrow> k' \<noteq> k \<Longrightarrow> requests_apart r r'"
  shows "llm_inv (s\<lparr>ml_requests := gomap_put k r (ml_requests s)\<rparr>)" (is "llm_inv ?s")
proof -
  have ok: "tasks_ok s" "requests_ok s" "events_ok s" "ledgers_ok s" using inv by (simp_all add: llm_inv_def)
  have sel: "map_of (ml_requests ?s) = (map_of (ml_requests s))(k \<mapsto> r)" by simp
  have sym: "requests_apart r r' \<Longrightarrow> requests_apart r' r" for r' by (auto simp: requests_apart_def)
  have "requests_ok ?s"
    unfolding requests_ok_def sel
  proof (intro conjI allI impI)
    show "gomap_ok (ml_requests ?s)" using ok(2) by (simp add: requests_ok_def)
    show "request_ok ?s q x" if "((map_of (ml_requests s))(k \<mapsto> r)) q = Some x" for q x
      using that r ok(2) by (auto simp: requests_ok_def request_ok_def split: if_splits)
    show "requests_apart x x'" if h: "((map_of (ml_requests s))(k \<mapsto> r)) q = Some x" "((map_of (ml_requests s))(k \<mapsto> r)) q' = Some x'"
        "q \<noteq> q'" for q q' x x'
    proof (cases "q = k \<or> q' = k")
      case True
      then show ?thesis using h apart sym by (cases "q = k"; cases "q' = k") auto
    next
      case False
      then have "map_of (ml_requests s) q = Some x" "map_of (ml_requests s) q' = Some x'" using h(1,2) by simp_all
      then show ?thesis using requests_okD(3) [OF ok(2)] h(3) by blast
    qed
  qed
  moreover have "events_ok ?s" using ok(3) by (auto simp: events_ok_rows)
  moreover have "ledgers_ok ?s" using ok(4) unfolding ledgers_ok_def by (auto split: if_splits)
  moreover have "tasks_ok ?s" using ok(1) by (simp add: tasks_ok_def)
  ultimately show ?thesis by (simp add: llm_inv_def)
qed

lemma put_event_inv:
  assumes inv: "llm_inv s" and e: "re_Request e = k" "re_Sequence e = n" "n \<noteq> 0" "map_of (ml_requests s) k \<noteq> None"
    and apart: "\<And>n' e'. map_of (events_of k s) n' = Some e' \<Longrightarrow> re_WorkerEventID e \<noteq> [] \<Longrightarrow> re_WorkerEventID e' = re_WorkerEventID e \<Longrightarrow>
      re_Worker e' = re_Worker e \<and> re_WorkerEventDigest e' = re_WorkerEventDigest e"
  shows "llm_inv (s\<lparr>ml_events := gomap_put k (gomap_put n e (events_of k s)) (ml_events s)\<rparr>)" (is "llm_inv ?s")
proof -
  have ok: "tasks_ok s" "requests_ok s" "events_ok s" "ledgers_ok s" using inv by (simp_all add: llm_inv_def)
  have "rows_ok k (gomap_put n e (events_of k s))" by (rule rows_ok_put [OF rows_ok_events_of [OF ok(3)] e(1-3) apart])
  then have "events_ok ?s" using ok(3) e(4) by (auto simp: events_ok_rows)
  then show ?thesis using ok by (simp add: llm_inv_def tasks_ok_def requests_ok_def request_ok_def ledgers_ok_def)
qed


section \<open>Every primitive\<close>

text \<open>What may change: identities stay, revisions grow, receipts and pruned payloads are final.\<close>

definition task_le :: "StoreTaskRecord \<Rightarrow> StoreTaskRecord \<Rightarrow> bool" where
  "task_le t t' \<longleftrightarrow> memoryLLMTaskIdentityEqual t t' \<and> st_Revision t \<le> st_Revision t' \<and> (st_Revision t' = st_Revision t \<longrightarrow> t' = t)"

definition request_le :: "StoreRequestRecord \<Rightarrow> StoreRequestRecord \<Rightarrow> bool" where
  "request_le r r' \<longleftrightarrow> memoryLLMRequestIdentityEqual r r' \<and> sr_Revision r \<le> sr_Revision r' \<and> (sr_Revision r' = sr_Revision r \<longrightarrow> r' = r)
     \<and> (sr_PayloadPrunedAt r \<noteq> None \<longrightarrow> sr_PayloadPrunedAt r' = sr_PayloadPrunedAt r)
     \<and> (sr_PayloadPrunedAt r' = None \<longrightarrow> sr_CanonicalPayload r' = sr_CanonicalPayload r)"

definition tool_le :: "StoreToolExecutionRecord \<Rightarrow> StoreToolExecutionRecord \<Rightarrow> bool" where
  "tool_le x x' \<longleftrightarrow> xr_Key x' = xr_Key x \<and> xr_InputDigest x' = xr_InputDigest x \<and> xr_CreatedAt x' = xr_CreatedAt x
     \<and> xr_Revision x \<le> xr_Revision x' \<and> (xr_Revision x' = xr_Revision x \<longrightarrow> x' = x)"

definition map_le_by :: "('v \<Rightarrow> 'v \<Rightarrow> bool) \<Rightarrow> ('k, 'v) gomap \<Rightarrow> ('k, 'v) gomap \<Rightarrow> bool" where
  "map_le_by R m m' \<longleftrightarrow> (\<forall>k v. map_of m k = Some v \<longrightarrow> (\<exists>v'. map_of m' k = Some v' \<and> R v v'))"

definition events_le :: "memoryLLMState \<Rightarrow> memoryLLMState \<Rightarrow> bool" where
  "events_le s s' \<longleftrightarrow> (\<forall>k n e. map_of (events_of k s) n = Some e \<longrightarrow> map_of (events_of k s') n = Some e
     \<or> (\<exists>r. map_of (ml_requests s') k = Some r \<and> sr_PayloadPrunedAt r \<noteq> None))"

definition llm_le :: "memoryLLMState \<Rightarrow> memoryLLMState \<Rightarrow> bool" where
  "llm_le s s' \<longleftrightarrow> map_le_by task_le (ml_tasks s) (ml_tasks s') \<and> map_le_by request_le (ml_requests s) (ml_requests s')
     \<and> map_le_by (=) (ml_receipts s) (ml_receipts s') \<and> map_le_by tool_le (ml_tools s) (ml_tools s') \<and> events_le s s'"

lemma le_refl [simp]: "task_le t t" "request_le r r" "tool_le x x"
  by (simp_all add: task_le_def request_le_def tool_le_def memoryLLMTaskIdentityEqual_def memoryLLMRequestIdentityEqual_def)

lemma le_trans:
  "task_le t t' \<Longrightarrow> task_le t' t'' \<Longrightarrow> task_le t t''"
  "request_le r r' \<Longrightarrow> request_le r' r'' \<Longrightarrow> request_le r r''"
  "tool_le x x' \<Longrightarrow> tool_le x' x'' \<Longrightarrow> tool_le x x''"
  by (auto simp: task_le_def request_le_def tool_le_def memoryLLMTaskIdentityEqual_def memoryLLMRequestIdentityEqual_def
      intro: CodecSnapshot_Equal_trans)

lemma map_le_by_refl: "(\<And>v. R v v) \<Longrightarrow> map_le_by R m m"
  by (simp add: map_le_by_def)

lemma map_le_by_trans:
  "map_le_by R m m' \<Longrightarrow> map_le_by R m' m'' \<Longrightarrow> (\<And>x y z. R x y \<Longrightarrow> R y z \<Longrightarrow> R x z) \<Longrightarrow> map_le_by R m m''"
  unfolding map_le_by_def by meson

lemma map_le_by_put:
  "(\<And>v. R v v) \<Longrightarrow> (\<And>v. map_of m k = Some v \<Longrightarrow> R v w) \<Longrightarrow> map_le_by R m (gomap_put k w m)"
  by (simp add: map_le_by_def)

lemma events_le_trans:
  assumes "events_le s s'" "events_le s' s''" "map_le_by request_le (ml_requests s') (ml_requests s'')"
  shows "events_le s s''"
  unfolding events_le_def
proof (intro allI impI)
  fix k n e
  assume "map_of (events_of k s) n = Some e"
  then consider "map_of (events_of k s') n = Some e" | r where "map_of (ml_requests s') k = Some r" "sr_PayloadPrunedAt r \<noteq> None"
    using assms(1) unfolding events_le_def by blast
  then show "map_of (events_of k s'') n = Some e \<or> (\<exists>r. map_of (ml_requests s'') k = Some r \<and> sr_PayloadPrunedAt r \<noteq> None)"
  proof cases
    case 1
    then show ?thesis using assms(2) unfolding events_le_def by blast
  next
    case 2
    then obtain r' where "map_of (ml_requests s'') k = Some r'" "request_le r r'" using assms(3) unfolding map_le_by_def by blast
    then show ?thesis using 2 by (auto simp: request_le_def)
  qed
qed

lemma llm_le_refl [simp]: "llm_le s s"
  by (simp add: llm_le_def map_le_by_refl events_le_def)

lemma llm_le_trans:
  assumes "llm_le s s'" "llm_le s' s''"
  shows "llm_le s s''"
proof -
  note le = assms [unfolded llm_le_def]
  have "map_le_by task_le (ml_tasks s) (ml_tasks s'')" by (rule map_le_by_trans [OF _ _ le_trans(1)]) (use le in blast)+
  moreover have "map_le_by request_le (ml_requests s) (ml_requests s'')" by (rule map_le_by_trans [OF _ _ le_trans(2)]) (use le in blast)+
  moreover have "map_le_by (=) (ml_receipts s) (ml_receipts s'')" by (rule map_le_by_trans [of _ _ "ml_receipts s'"]) (use le in blast)+
  moreover have "map_le_by tool_le (ml_tools s) (ml_tools s'')" by (rule map_le_by_trans [OF _ _ le_trans(3)]) (use le in blast)+
  moreover have "events_le s s''" by (rule events_le_trans) (use le in blast)+
  ultimately show ?thesis by (simp add: llm_le_def)
qed

text \<open>A revision that the guards let through is not the successor of the largest one.\<close>

lemma revision_succ: "(r::uint64) + 1 \<noteq> 0 \<Longrightarrow> r < r + 1"
  using unatSuc [of r] by (simp add: word_less_nat_alt add.commute)

lemma le_swap:
  "memoryLLMTaskIdentityEqual t t' \<Longrightarrow> st_Revision t' = st_Revision t + 1 \<Longrightarrow> st_Revision t' \<noteq> 0 \<Longrightarrow> task_le t t'"
  "memoryLLMRequestIdentityEqual r r' \<Longrightarrow> sr_Revision r' = sr_Revision r + 1 \<Longrightarrow> sr_Revision r' \<noteq> 0 \<Longrightarrow> payload_immutable r r' \<Longrightarrow> request_le r r'"
  using revision_succ by (auto simp: task_le_def request_le_def payload_immutable_def order_less_imp_le split: option.splits)

lemma llm_le_put:
  "(\<And>t. map_of (ml_tasks s) k = Some t \<Longrightarrow> task_le t t') \<Longrightarrow> llm_le s (s\<lparr>ml_tasks := gomap_put k t' (ml_tasks s)\<rparr>)"
  "(\<And>r. map_of (ml_requests s) q = Some r \<Longrightarrow> request_le r r') \<Longrightarrow> llm_le s (s\<lparr>ml_requests := gomap_put q r' (ml_requests s)\<rparr>)"
  "map_of (ml_receipts s) w = None \<Longrightarrow> llm_le s (s\<lparr>ml_receipts := gomap_put w x (ml_receipts s)\<rparr>)"
  "(\<And>y. map_of (ml_tools s) p = Some y \<Longrightarrow> tool_le y y') \<Longrightarrow> llm_le s (s\<lparr>ml_tools := gomap_put p y' (ml_tools s)\<rparr>)"
  by (auto simp: llm_le_def map_le_by_refl events_le_def events_of_def intro!: map_le_by_put)


text \<open>The primitives, each by its guards.\<close>

lemma InsertTask_keeps:
  assumes "llm_InsertTask r u = Inr u'" "llm_inv (lu_state u)"
  shows "llm_inv (lu_state u') \<and> llm_le (lu_state u) (lu_state u')"
proof -
  let ?s = "lu_state u"
  have new: "map_of (ml_tasks ?s) (st_Key r) = None" "\<not> open_affinity None r ?s" "st_Revision r \<noteq> 0"
    and u': "lu_state u' = ?s\<lparr>ml_tasks := gomap_put (st_Key r) r (ml_tasks ?s)\<rparr>"
    using assms(1) by (auto simp: llm_InsertTask_def res_simps Let_def memoryLLMValidateTask_def split: if_splits)
  have "\<not> open_affinity (Some (st_Key r)) r ?s"
    using new(2) unfolding open_affinity_def by (auto simp: list_ex_iff)
  then show ?thesis unfolding u' by (intro conjI put_task_inv [OF assms(2)] llm_le_put(1)) (use new in auto)
qed

lemma CompareAndSwapTask_keeps:
  assumes "llm_CompareAndSwapTask m u = Inr (b, u')" "llm_inv (lu_state u)"
  shows "llm_inv (lu_state u') \<and> llm_le (lu_state u) (lu_state u')"
proof (cases b)
  case False
  then have "u' = u" using assms(1) by (auto simp: llm_CompareAndSwapTask_def res_simps Let_def split: if_splits option.splits)
  then show ?thesis using assms(2) by simp
next
  case True
  let ?s = "lu_state u" and ?n = "mu_Next m" and ?k = "mu_Key m"
  obtain t where t: "map_of (ml_tasks ?s) ?k = Some t" "memoryLLMTaskIdentityEqual t ?n" "st_Revision ?n = st_Revision t + 1"
      "st_Revision ?n \<noteq> 0" "\<not> open_affinity (Some ?k) ?n ?s" and u': "lu_state u' = ?s\<lparr>ml_tasks := gomap_put ?k ?n (ml_tasks ?s)\<rparr>"
    using assms(1) True by (auto simp: llm_CompareAndSwapTask_def res_simps Let_def split: if_splits option.splits)
  have "st_Key ?n = ?k" using t(1,2) tasks_okD(2) [OF _ t(1)] assms(2) by (auto simp: llm_inv_def memoryLLMTaskIdentityEqual_def)
  then show ?thesis unfolding u' by (intro conjI put_task_inv [OF assms(2)] llm_le_put(1)) (use t le_swap(1) in auto)
qed

lemma InsertRequest_keeps:
  assumes "llm_InsertRequest r u = Inr u'" "llm_inv (lu_state u)"
  shows "llm_inv (lu_state u') \<and> llm_le (lu_state u) (lu_state u')"
proof -
  let ?s = "lu_state u"
  obtain t where new: "map_of (ml_requests ?s) (sr_Key r) = None" "map_of (ml_tasks ?s) (sr_Task r) = Some t"
      "CodecSnapshot_Equal (st_Codec t) (sr_Codec r)" "ok (request_conflict r (map snd (ml_requests ?s)))" "ok (memoryLLMValidateRequest r)"
    and u': "lu_state u' = ?s\<lparr>ml_requests := gomap_put (sr_Key r) r (ml_requests ?s)\<rparr>"
    using assms(1) by (auto simp: llm_InsertRequest_def res_simps Let_def split: if_splits option.splits)
  have valid: "sr_Revision r \<noteq> 0" "sr_PayloadPrunedAt r \<noteq> None \<longrightarrow> sr_CanonicalPayload r = [] \<and> rd_Body (sr_Decision r) = []"
    using new(5) by (auto simp: memoryLLMValidateRequest_def split: if_splits)
  have "request_ok ?s (sr_Key r) r" unfolding request_ok_def using new(2,3) valid by blast
  moreover have "requests_apart r r'" if "map_of (ml_requests ?s) k' = Some r'" for k' r'
  proof -
    have "r' \<in> set (map snd (ml_requests ?s))" using map_of_SomeD [OF that] by force
    then show ?thesis using new(4) unfolding request_conflict_iff requests_apart_def by metis
  qed
  ultimately show ?thesis unfolding u' by (intro conjI put_request_inv [OF assms(2)] llm_le_put(2)) (use new(1) in auto)
qed

lemma CompareAndSwapRequest_keeps:
  assumes "llm_CompareAndSwapRequest m u = Inr (b, u')" "llm_inv (lu_state u)"
  shows "llm_inv (lu_state u') \<and> llm_le (lu_state u) (lu_state u')"
proof (cases b)
  case False
  then have "u' = u" using assms(1) by (auto simp: llm_CompareAndSwapRequest_def res_simps Let_def split: if_splits option.splits)
  then show ?thesis using assms(2) by simp
next
  case True
  let ?s = "lu_state u" and ?n = "mu_Next m" and ?k = "mu_Key m"
  obtain r where r: "map_of (ml_requests ?s) ?k = Some r" "memoryLLMRequestIdentityEqual r ?n" "sr_Revision ?n = sr_Revision r + 1"
      "sr_Revision ?n \<noteq> 0" "payload_immutable r ?n"
      "\<not> (\<not> sr_ResponseComplete ?n \<and> list_ex (\<lambda>(k, e). k \<noteq> ?k \<and> sr_Task e = sr_Task ?n \<and> \<not> sr_ResponseComplete e) (ml_requests ?s))"
    and u': "lu_state u' = ?s\<lparr>ml_requests := gomap_put ?k ?n (ml_requests ?s)\<rparr>"
    using assms(1) True by (auto simp: llm_CompareAndSwapRequest_def res_simps Let_def split: if_splits option.splits)
  have ok: "requests_ok ?s" using assms(2) by (simp add: llm_inv_def)
  have "request_ok ?s ?k ?n"
    using requests_okD(2) [OF ok r(1)] r(2,4,5) unfolding request_ok_def memoryLLMRequestIdentityEqual_def payload_immutable_def
    by (auto intro: CodecSnapshot_Equal_trans split: option.splits)
  moreover have "requests_apart ?n r'" if "map_of (ml_requests ?s) k' = Some r'" "k' \<noteq> ?k" for k' r'
  proof -
    have "requests_apart r r'" using requests_okD(3) [OF ok r(1) that(1)] that(2) by blast
    moreover have "(k', r') \<in> set (ml_requests ?s)" using that(1) by (rule map_of_SomeD)
    ultimately show ?thesis
      using r(2,6) that(2) unfolding requests_apart_def memoryLLMRequestIdentityEqual_def list_ex_iff by auto
  qed
  ultimately show ?thesis unfolding u' by (intro conjI put_request_inv [OF assms(2)] llm_le_put(2)) (use r le_swap(2) in auto)
qed


lemma InsertResponseEvent_keeps:
  assumes "llm_InsertResponseEvent e u = Inr u'" "llm_inv (lu_state u)"
  shows "llm_inv (lu_state u') \<and> llm_le (lu_state u) (lu_state u')"
proof -
  let ?s = "lu_state u" and ?k = "re_Request e"
  have new: "map_of (ml_requests ?s) ?k \<noteq> None" "map_of (events_of ?k ?s) (re_Sequence e) = None" "re_Sequence e \<noteq> 0"
      "\<not> (re_WorkerEventID e \<noteq> [] \<and> list_ex (\<lambda>(_, e'). re_WorkerEventID e' = re_WorkerEventID e
          \<and> (re_Worker e' \<noteq> re_Worker e \<or> re_WorkerEventDigest e' \<noteq> re_WorkerEventDigest e)) (events_of ?k ?s))"
    and u': "lu_state u' = ?s\<lparr>ml_events := gomap_put ?k (gomap_put (re_Sequence e) e (events_of ?k ?s)) (ml_events ?s)\<rparr>"
    using assms(1) by (auto simp: llm_InsertResponseEvent_def res_simps Let_def memoryLLMValidateResponseEvent_def split: if_splits)
  have "llm_inv (lu_state u')"
    unfolding u'
  proof (rule put_event_inv [OF assms(2) refl refl new(3,1)])
    show "re_Worker e' = re_Worker e \<and> re_WorkerEventDigest e' = re_WorkerEventDigest e"
      if "map_of (events_of ?k ?s) n' = Some e'" "re_WorkerEventID e \<noteq> []" "re_WorkerEventID e' = re_WorkerEventID e" for n' e'
      using new(4) that map_of_SomeD [OF that(1)] unfolding list_ex_iff by blast
  qed
  moreover have "events_of q (lu_state u') = (if q = ?k then gomap_put (re_Sequence e) e (events_of ?k ?s) else events_of q ?s)" for q
    by (auto simp: u' events_of_def)
  then have "events_le ?s (lu_state u')" using new(2) by (auto simp: events_le_def)
  then have "llm_le ?s (lu_state u')" by (simp add: llm_le_def u' map_le_by_refl)
  ultimately show ?thesis by blast
qed

lemma InsertWorkerReceipt_keeps:
  assumes "llm_InsertWorkerReceipt w u = Inr u'" "llm_inv (lu_state u)"
  shows "llm_inv (lu_state u') \<and> llm_le (lu_state u) (lu_state u')"
proof -
  let ?s = "lu_state u" and ?k = "(wr_Request w, wr_EventID w)"
  have new: "map_of (ml_requests ?s) (wr_Request w) \<noteq> None" "map_of (ml_receipts ?s) ?k = None"
    and u': "lu_state u' = ?s\<lparr>ml_receipts := gomap_put ?k w (ml_receipts ?s)\<rparr>"
    using assms(1) by (auto simp: llm_InsertWorkerReceipt_def res_simps Let_def split: if_splits)
  have "ledgers_ok (lu_state u')"
    using assms(2) new(1) unfolding llm_inv_def ledgers_ok_def u' by (auto split: if_splits)
  then have "llm_inv (lu_state u')"
    using assms(2) by (simp add: llm_inv_def u' tasks_ok_def requests_ok_def request_ok_def events_ok_rows)
  then show ?thesis using llm_le_put(3) [OF new(2)] by (simp add: u')
qed

lemma put_tool_inv:
  assumes "llm_inv s" "xr_Key x = k" "xr_Revision x \<noteq> 0" "map_of (ml_tasks s) (xk_Task k) \<noteq> None"
  shows "llm_inv (s\<lparr>ml_tools := gomap_put k x (ml_tools s)\<rparr>)" (is "llm_inv ?s")
proof -
  have "ledgers_ok ?s" using assms unfolding llm_inv_def ledgers_ok_def by (auto split: if_splits)
  then show ?thesis using assms(1) by (simp add: llm_inv_def tasks_ok_def requests_ok_def request_ok_def events_ok_rows)
qed

lemma InsertToolExecution_keeps:
  assumes "llm_InsertToolExecution x u = Inr u'" "llm_inv (lu_state u)"
  shows "llm_inv (lu_state u') \<and> llm_le (lu_state u) (lu_state u')"
proof -
  let ?s = "lu_state u"
  have new: "map_of (ml_tasks ?s) (xk_Task (xr_Key x)) \<noteq> None" "map_of (ml_tools ?s) (xr_Key x) = None" "xr_Revision x \<noteq> 0"
    and u': "lu_state u' = ?s\<lparr>ml_tools := gomap_put (xr_Key x) x (ml_tools ?s)\<rparr>"
    using assms(1) by (auto simp: llm_InsertToolExecution_def res_simps Let_def memoryLLMValidateTool_def split: if_splits)
  show ?thesis unfolding u' by (intro conjI put_tool_inv [OF assms(2)] llm_le_put(4)) (use new in auto)
qed

lemma CompareAndSwapToolExecution_keeps:
  assumes "llm_CompareAndSwapToolExecution m u = Inr (b, u')" "llm_inv (lu_state u)"
  shows "llm_inv (lu_state u') \<and> llm_le (lu_state u) (lu_state u')"
proof (cases b)
  case False
  then have "u' = u" using assms(1) by (auto simp: llm_CompareAndSwapToolExecution_def res_simps Let_def split: if_splits option.splits)
  then show ?thesis using assms(2) by simp
next
  case True
  let ?s = "lu_state u" and ?n = "mu_Next m" and ?k = "mu_Key m"
  obtain x where x: "map_of (ml_tools ?s) ?k = Some x" "xr_Key ?n = xr_Key x" "xr_InputDigest ?n = xr_InputDigest x"
      "xr_CreatedAt ?n = xr_CreatedAt x" "xr_Revision ?n = xr_Revision x + 1" "xr_Revision ?n \<noteq> 0"
    and u': "lu_state u' = ?s\<lparr>ml_tools := gomap_put ?k ?n (ml_tools ?s)\<rparr>"
    using assms(1) True by (auto simp: llm_CompareAndSwapToolExecution_def res_simps Let_def split: if_splits option.splits)
  have ok: "xr_Key x = ?k" "map_of (ml_tasks ?s) (xk_Task ?k) \<noteq> None"
    using assms(2) x(1) by (auto simp: llm_inv_def ledgers_ok_def)
  have "tool_le x ?n" using x revision_succ by (auto simp: tool_le_def order_less_imp_le)
  then show ?thesis unfolding u' by (intro conjI put_tool_inv [OF assms(2)] llm_le_put(4)) (use x ok in auto)
qed

lemma DeleteTombstonedResponseEvents_keeps:
  assumes "llm_DeleteTombstonedResponseEvents key u = Inr (c, u')" "llm_inv (lu_state u)"
  shows "llm_inv (lu_state u') \<and> llm_le (lu_state u) (lu_state u')"
proof -
  let ?s = "lu_state u"
  obtain r where r: "map_of (ml_requests ?s) key = Some r" "sr_PayloadPrunedAt r \<noteq> None"
    and u': "lu_state u' = ?s\<lparr>ml_events := filter (\<lambda>(k, _). k \<noteq> key) (ml_events ?s)\<rparr>"
    using assms(1) by (auto simp: llm_DeleteTombstonedResponseEvents_def res_simps Let_def split: if_splits option.splits)
  have look: "map_of (filter (\<lambda>(k, _). k \<noteq> key) m) q = (if q = key then None else map_of m q)" for q and m :: "(StoreRequestKey \<times> 'b) list"
    by (induction m) auto
  have "gomap_ok (ml_events (lu_state u'))"
    using assms(2) by (auto simp: u' llm_inv_def events_ok_rows gomap_ok_def distinct_map_filter)
  then have "events_ok (lu_state u')"
    using assms(2) by (auto simp: u' llm_inv_def events_ok_rows look split: if_splits)
  then have "llm_inv (lu_state u')"
    using assms(2) by (simp add: llm_inv_def u' tasks_ok_def requests_ok_def request_ok_def ledgers_ok_def)
  moreover have "events_le ?s (lu_state u')"
    using r by (auto simp: events_le_def events_of_def u' look)
  then have "llm_le ?s (lu_state u')" by (simp add: llm_le_def u' map_le_by_refl)
  ultimately show ?thesis by blast
qed

lemmas prim_keeps = InsertTask_keeps CompareAndSwapTask_keeps InsertRequest_keeps CompareAndSwapRequest_keeps InsertResponseEvent_keeps
  InsertWorkerReceipt_keeps InsertToolExecution_keeps CompareAndSwapToolExecution_keeps DeleteTombstonedResponseEvents_keeps

lemma llm_prim_keeps: "llm_prim u u' \<Longrightarrow> llm_inv (lu_state u) \<Longrightarrow> llm_inv (lu_state u') \<and> llm_le (lu_state u) (lu_state u')"
  by (induction rule: llm_prim.induct) (blast dest: prim_keeps)+

lemma llm_prims_keep: "llm_prim\<^sup>*\<^sup>* u u' \<Longrightarrow> llm_inv (lu_state u) \<Longrightarrow> llm_inv (lu_state u') \<and> llm_le (lu_state u) (lu_state u')"
proof (induction rule: rtranclp_induct)
  case (step y z)
  then show ?case using llm_prim_keeps [OF step.hyps(2)] llm_le_trans by blast
qed simp

end
