(* ===== verification/LLM_Image.thy ===== *)
theory LLM_Image
  imports LLM_Store_Inv
begin

text \<open>
  The image of the HumanLLM Store with its handles: every reachable image satisfies the invariant, and what was
  committed stays what it was, through closed and abandoned handles.
\<close>


section \<open>Steps of an image\<close>

text \<open>A callback reaches the state only through the primitives of its transaction.\<close>

definition store_callback :: "(memoryLLMUnit \<Rightarrow> 'e + 'a \<times> memoryLLMUnit) \<Rightarrow> bool" where
  "store_callback f \<longleftrightarrow> (\<forall>u a u'. f u = Inr (a, u') \<longrightarrow> llm_prim\<^sup>*\<^sup>* u u')"

inductive image_step :: "MemoryLLMStoreImage \<Rightarrow> MemoryLLMStoreImage \<Rightarrow> bool" where
  Open: "llm_Open img = (h, img') \<Longrightarrow> image_step img img'"
| Close: "image_step img (llm_close h img)"
| Abandon: "llm_Abandon h img = (r, img') \<Longrightarrow> image_step img img'"
| Bind: "llm_Bind ctx h binding img = (r, img') \<Longrightarrow> image_step img img'"
| Update: "store_callback (f :: memoryLLMUnit \<Rightarrow> llm_store_error + unit \<times> memoryLLMUnit) \<Longrightarrow>
    llm_Update (\<lambda>e. e) ctx h f img = (x, img') \<Longrightarrow> image_step img img'"

definition image_le :: "MemoryLLMStoreImage \<Rightarrow> MemoryLLMStoreImage \<Rightarrow> bool" where
  "image_le img img' \<longleftrightarrow> llm_le (im_state img) (im_state img')
     \<and> (im_binding img \<noteq> None \<longrightarrow> im_binding img' = im_binding img)
     \<and> length (im_handles img) \<le> length (im_handles img')
     \<and> (\<forall>h < length (im_handles img). im_handles img ! h \<longrightarrow> im_handles img' ! h)"

lemma image_le_trans:
  assumes "image_le a b" "image_le b c"
  shows "image_le a c"
proof -
  have "llm_le (im_state a) (im_state c)" using assms llm_le_trans unfolding image_le_def by blast
  moreover have "im_handles c ! h" if "h < length (im_handles a)" "im_handles a ! h" for h
    using assms that unfolding image_le_def by (meson order.strict_trans2)
  ultimately show ?thesis using assms unfolding image_le_def by auto
qed

lemma close_monotone: "xs ! i \<Longrightarrow> i < length xs \<Longrightarrow> xs[h := True] ! i"
  by (cases "h = i") simp_all

lemma image_step_keeps:
  assumes "image_step img img'" "llm_inv (im_state img)"
  shows "llm_inv (im_state img') \<and> image_le img img'"
  using assms(1)
proof cases
  case (Update f ctx h x)
  show ?thesis
  proof (cases "\<exists>a u. f \<lparr>lu_state = im_state img, lu_active = True\<rparr> = Inr (a, u) \<and> img' = img\<lparr>im_state := lu_state u\<rparr>")
    case True
    then obtain a u where "f \<lparr>lu_state = im_state img, lu_active = True\<rparr> = Inr (a, u)" and img': "img' = img\<lparr>im_state := lu_state u\<rparr>"
      by blast
    then have "llm_prim\<^sup>*\<^sup>* \<lparr>lu_state = im_state img, lu_active = True\<rparr> u" using Update(1) unfolding store_callback_def by blast
    then show ?thesis using llm_prims_keep assms(2) by (fastforce simp: image_le_def img')
  next
    case False
    then have "img' = img" using Update(2) by (auto simp: llm_Update_def split: if_splits sum.splits)
    then show ?thesis using assms(2) by (simp add: image_le_def)
  qed
qed (use assms(2) in \<open>auto simp: image_le_def llm_Open_def llm_close_def llm_Abandon_def llm_Bind_def nth_append close_monotone
      split: if_splits sum.splits option.splits\<close>)

interpretation llm_image: invariant_system "\<lambda>img. img = NewMemoryLLMStoreImage" image_step "\<lambda>img. llm_inv (im_state img)" image_le
  by unfold_locales
    (auto simp: NewMemoryLLMStoreImage_def newMemoryLLMState_inv image_le_def [of s s for s] dest: image_step_keeps intro: image_le_trans)

abbreviation image_reachable :: "MemoryLLMStoreImage \<Rightarrow> bool" where
  "image_reachable \<equiv> reachable_from (\<lambda>img. img = NewMemoryLLMStoreImage) image_step"


section \<open>A run\<close>

text \<open>A handle binds the image and stores a Task with one request.\<close>

definition LI_codec :: CodecSnapshot where
  "LI_codec = \<lparr>cs_Contract = \<lparr>ct_ID = ''human.llm.codec'', ct_Major = 1, ct_Minor = 0, ct_Features = []\<rparr>, cs_ID = ''openai.chat'',
     cs_Version = ''v1'', cs_Fingerprint = ''sha256:'' @ replicate 64 (CHR ''0'')\<rparr>"

definition LI_task :: StoreTaskRecord where
  "LI_task = \<lparr>st_Key = \<lparr>tk_Caller = ''c'', tk_Task = ''t''\<rparr>, st_WorkspaceKey = ''w'', st_CapabilityTier = TierWorkspace, st_Codec = LI_codec,
     st_HarnessID = ''h'', st_HarnessVersion = ''1'', st_HarnessSessionID = ''s'', st_ExecAllowed = False, st_State = TaskLeased,
     st_LeaseOwner = ''human'', st_LeaseID = ''l'', st_Revision = 1, st_CreatedAt = 10, st_UpdatedAt = 10\<rparr>"

definition LI_request :: StoreRequestRecord where
  "LI_request = \<lparr>sr_Key = \<lparr>rk_Caller = ''c'', rk_IdempotencyKey = ''k''\<rparr>, sr_Task = \<lparr>tk_Caller = ''c'', tk_Task = ''t''\<rparr>,
     sr_RequestID = ''req'', sr_ResponseID = ''resp'', sr_RequestDigest = ''d'', sr_Codec = LI_codec, sr_Mode = ResponseStream,
     sr_CanonicalPayload = [1, 2], sr_Decision = \<lparr>rd_StatusCode = 200, rd_ContentType = ''text/event-stream'', rd_RetryAfter = [], rd_Body = []\<rparr>,
     sr_ResponseComplete = False, sr_RecoveryQuarantined = False, sr_LastEventSequence = 0, sr_Revision = 1, sr_CreatedAt = 10,
     sr_CompletedAt = None, sr_PayloadPrunedAt = None\<rparr>"

definition LI_admit :: "memoryLLMUnit \<Rightarrow> llm_store_error + unit \<times> memoryLLMUnit" where
  "LI_admit u = bind_res (llm_InsertTask LI_task u) (\<lambda>u. bind_res (llm_InsertRequest LI_request u) (\<lambda>u. Inr ((), u)))"

lemma LI_admit_callback: "store_callback LI_admit"
  unfolding store_callback_def LI_admit_def
  by (auto simp: res_simps intro: converse_rtranclp_into_rtranclp llm_prim.InsertTask llm_prim.InsertRequest)

definition "LI1 = snd (llm_Open NewMemoryLLMStoreImage)"
definition "LI2 = snd (llm_Bind LiveContext 0 ''prod'' LI1)"
definition "LI3 = snd (llm_Update (\<lambda>e. e) LiveContext 0 LI_admit LI2)"

lemma LI1_reachable: "image_reachable LI1"
  unfolding LI1_def by (rule reachable_from.step, rule reachable_from.start, rule refl) (rule image_step.Open [OF surjective_pairing])

lemma LI2_reachable: "image_reachable LI2"
  unfolding LI2_def by (rule reachable_from.step [OF LI1_reachable]) (rule image_step.Bind [OF surjective_pairing])

lemma LI3_step: "image_step LI2 LI3"
  unfolding LI3_def by (rule image_step.Update [OF LI_admit_callback surjective_pairing])

lemma LI3_reachable: "image_reachable LI3"
  by (rule reachable_from.step [OF LI2_reachable LI3_step])


section \<open>The guarantees of the Store\<close>

text \<open>
  C8 (invariant). Whatever the transactions of a HumanLLM Store do, a Task has at most one request without
  a complete response, a tool conversation at most one open Task, request and response ids are unique for
  a caller, every request keeps the codec of its Task, and a tombstoned request holds no payload.
\<close>

theorem llm_store_invariant:
  assumes "image_reachable img"
    and r: "map_of (ml_requests (im_state img)) k = Some r" "map_of (ml_requests (im_state img)) k' = Some r'"
    and t: "map_of (ml_tasks (im_state img)) q = Some t" "map_of (ml_tasks (im_state img)) q' = Some t'"
  shows "(sr_Task r = sr_Task r' \<and> \<not> sr_ResponseComplete r \<and> \<not> sr_ResponseComplete r' \<longrightarrow> k = k')
    \<and> (rk_Caller k = rk_Caller k' \<and> (sr_RequestID r = sr_RequestID r' \<or> sr_ResponseID r = sr_ResponseID r') \<longrightarrow> k = k')
    \<and> (tool_tier (st_CapabilityTier t) \<and> tool_tier (st_CapabilityTier t') \<and> \<not> TaskState_Terminal (st_State t)
        \<and> \<not> TaskState_Terminal (st_State t') \<and> memoryLLMAffinity t = memoryLLMAffinity t' \<longrightarrow> q = q')
    \<and> (\<exists>owner. map_of (ml_tasks (im_state img)) (sr_Task r) = Some owner \<and> CodecSnapshot_Equal (st_Codec owner) (sr_Codec r))
    \<and> (sr_PayloadPrunedAt r \<noteq> None \<longrightarrow> sr_CanonicalPayload r = [] \<and> rd_Body (sr_Decision r) = [])"
proof -
  have inv: "llm_inv (im_state img)" by (rule llm_image.reachable_inv [OF assms(1)])
  then have ok: "requests_ok (im_state img)" "tasks_ok (im_state img)" by (simp_all add: llm_inv_def)
  have key: "sr_Key r = k" "sr_Key r' = k'" using requests_okD(2) [OF ok(1)] r by (simp_all add: request_ok_def)
  have apart: "k \<noteq> k' \<Longrightarrow> requests_apart r r'" by (rule requests_okD(3) [OF ok(1) r])
  have "sr_Task r = sr_Task r' \<and> \<not> sr_ResponseComplete r \<and> \<not> sr_ResponseComplete r' \<longrightarrow> k = k'"
    "rk_Caller k = rk_Caller k' \<and> (sr_RequestID r = sr_RequestID r' \<or> sr_ResponseID r = sr_ResponseID r') \<longrightarrow> k = k'"
    using apart key unfolding requests_apart_def by metis+
  moreover have "tool_tier (st_CapabilityTier t) \<and> tool_tier (st_CapabilityTier t') \<and> \<not> TaskState_Terminal (st_State t)
        \<and> \<not> TaskState_Terminal (st_State t') \<and> memoryLLMAffinity t = memoryLLMAffinity t' \<longrightarrow> q = q'"
    using tasks_okD(3) [OF ok(2) t] by blast
  ultimately show ?thesis using requests_okD(2) [OF ok(1) r(1)] unfolding request_ok_def by blast
qed

theorem llm_store_invariant_witness:
  "image_reachable LI3 \<and> map_of (ml_requests (im_state LI3)) (sr_Key LI_request) = Some LI_request
   \<and> (\<exists>owner. map_of (ml_tasks (im_state LI3)) (sr_Task LI_request) = Some owner \<and> CodecSnapshot_Equal (st_Codec owner) (sr_Codec LI_request))"
proof (intro conjI)
  have r: "map_of (ml_requests (im_state LI3)) (sr_Key LI_request) = Some LI_request" by code_simp
  have t: "map_of (ml_tasks (im_state LI3)) (st_Key LI_task) = Some LI_task" by code_simp
  show "image_reachable LI3" by (rule LI3_reachable)
  show "map_of (ml_requests (im_state LI3)) (sr_Key LI_request) = Some LI_request" by (rule r)
  show "\<exists>owner. map_of (ml_tasks (im_state LI3)) (sr_Task LI_request) = Some owner \<and> CodecSnapshot_Equal (st_Codec owner) (sr_Codec LI_request)"
    using llm_store_invariant [OF LI3_reachable r r t t] by blast
qed



end
