(* ===== verification/Spec2Isabelle.thy ===== *)
theory Spec2Isabelle
  imports Agent_Reads Agent_Content Agent_Lifecycle Workspace_Guarantees Caller_Guarantees Hub_Guarantees LLM_Image
begin

text \<open>
  A verification library for the HumanAgent domain of \<^verbatim>\<open>vibe-agi/human\<close>, for the caller-side journal
  that applies its Artifacts, and for the parts of the completion gateway that decide what may run how
  often.

  \<^bold>\<open>The program.\<close> Human lets people do the work behind machine interfaces. Its HumanAgent domain
  (\<^verbatim>\<open>src/agent\<close>) is a durable service of Tasks: a caller creates a Task, a worker leases it, accepts
  it, may ask for input, freezes an Artifact of Workspace changes and completes, fails or rejects the
  Task; the caller applies the Artifact and reports the outcome as a receipt, which moves the
  confirmed head of the Workspace. Every command is durable and idempotent: its result is recorded in
  the same transaction as its effects, and a retry is answered from that record. The Agent talks to a
  Store (\<^verbatim>\<open>src/agent/store.go\<close>) of scoped transactions, seals content with a Protector
  (\<^verbatim>\<open>src/protect\<close>) and receives both as resources under negotiated contracts
  (\<^verbatim>\<open>src/framework\<close>). \<^verbatim>\<open>src/humantest/agent_store_memory.go\<close> is the reference provider of the Store.
  On the caller's side, \<^verbatim>\<open>src/workspace\<close> applies an Artifact with one external compare-and-swap: a journal
  records the intent before the effect and the outcome after it, and never repeats the effect.
  Beside the two domains stands the completion gateway (\<^verbatim>\<open>src/internal/completion\<close>), which offers people as
  models: its hub queues assignments for workers, passes their events to the request that waits for them and
  acknowledges an event once it is stored; its caller shim (\<^verbatim>\<open>src/internal/callershim\<close>) executes the tool calls of such a model in the
  caller's workspace, each at most once.

  \<^bold>\<open>The theories and the code they model.\<close>
  \<^item> \<open>Human_Prelude\<close>: results of fallible Go functions (\<open>'e + 'a\<close>, \<open>Inl\<close> is the returned error), Go
    strings as byte strings with UTF-8 validity and \<open>strings.TrimSpace\<close>, \<open>time.Time\<close> as its
    nanoseconds since the epoch, Go maps as association lists, \<open>sort.Slice\<close>, and the locale of reachable
    states of a step relation.
  \<^item> \<open>Framework\<close>: \<^verbatim>\<open>src/framework\<close>: contracts and their negotiation, owned and borrowed resources, faults.
  \<^item> \<open>Protect\<close> and \<open>Protect_Codec\<close>: \<^verbatim>\<open>src/protect\<close>: bindings, envelopes, stored values, the strict base64
    and the canonical framing.
  \<^item> \<open>Agent_Types\<close>, \<open>Agent_Codec\<close>, \<open>Agent_Validate\<close>: \<^verbatim>\<open>src/agent/types.go\<close> with its records, states and
    cursors, and the digests and validators of \<^verbatim>\<open>agent.go\<close>, \<^verbatim>\<open>lease.go\<close>, \<^verbatim>\<open>artifact.go\<close> and \<^verbatim>\<open>store_core.go\<close>.
  \<^item> \<open>Agent_Store\<close>: the Store port: a record of operations over a provider's state, the abstract
    database \<open>agent_db\<close>, and the locales \<open>agent_store\<close> and \<open>agent_store_scans\<close> that state what each
    operation promises of it.
  \<^item> \<open>Agent_Protection\<close> and \<open>Agent_Content\<close>: \<^verbatim>\<open>src/agent/protection.go\<close>.
  \<^item> \<open>Agent_Core\<close>: \<^verbatim>\<open>store_core.go\<close> and the commands of \<^verbatim>\<open>agent.go\<close>; \<open>run_transition\<close> is the method
    \<open>transition\<close> that the seven commands of the state machine share.
  \<^item> \<open>Agent_Lease\<close>: \<^verbatim>\<open>lease.go\<close> and \<^verbatim>\<open>dispatch.go\<close>; \<open>Agent_Artifact\<close>: \<^verbatim>\<open>artifact.go\<close>; \<open>Agent_Query\<close>: the
    reads of \<^verbatim>\<open>agent.go\<close> and \<^verbatim>\<open>query.go\<close>.
  \<^item> \<open>Agent_Lifecycle\<close>: \<open>Open\<close>, admission of calls, \<open>Shutdown\<close> and the release of the resources as a
    step relation over interleaved callers.
  \<^item> \<open>Memory_Store\<close> and \<open>Memory_Image\<close>: the memory store: its maps and transaction operations, and
    the image with the handles that own it in turn.
  \<^item> \<open>Workspace_Apply\<close>: \<^verbatim>\<open>src/workspace/apply.go\<close>: intents, outcomes, their validation, and the text functions
    behind the outcome of an unknown effect. \<open>Workspace_Journal\<close>: \<^verbatim>\<open>src/workspace/sqlite/journal.go\<close>: the
    table, the transactions, and \<open>Apply\<close> as the sequence of its atomic sections. \<open>Transactions\<close>: how a
    database transaction may end.
  \<^item> \<open>Virtual_Path\<close>: \<^verbatim>\<open>src/internal/completion/safety/path.go\<close> over a byte-level \<open>path.Clean\<close>.
  \<^item> \<open>Caller_Ledger\<close> and \<open>Caller_Shim\<close>: \<^verbatim>\<open>src/internal/callershim\<close>: \<^verbatim>\<open>ledger.go\<close> as transactions on its table, and
    \<open>Execute\<close> of \<^verbatim>\<open>executor.go\<close> as the sequence of its atomic sections, for the processes that own one
    ledger file in turn.
  \<^item> \<open>Completion_Hub\<close>: \<^verbatim>\<open>src/internal/completion/hub/hub.go\<close> and \<^verbatim>\<open>event.go\<close>: each section under the lock of the hub
    and each channel operation of publishers, consumers and dispatchers is one definition.
  \<^item> \<open>LLM_Types\<close>: \<^verbatim>\<open>src/llm\<close>: requests, events, tools, codecs and the records of the Store port; \<open>LLM_Store\<close>:
    its errors and \<^verbatim>\<open>src/humantest/llm_store_memory.go\<close>, every primitive and the image with its handles.

  A command of the code is one definition of the same name. Its closure over a transaction is a
  definition with the suffix \<open>_tx\<close>, what it does before the transaction \<open>_preflight\<close>, the answer from a
  recorded command \<open>_replay\<close>. State is passed explicitly, the Store's state is the last argument; the
  record \<open>call\<close> carries what the environment decides for one call: the context, the clock reading and
  how the commit ends, an unknown outcome included. A command takes the store state of its optimistic
  first view separately (\<open>sv\<close>), since other calls may commit between view and transaction. Where calls
  interleave inside one operation (\<open>life_step\<close>, \<open>owned_step\<close>, \<open>image_step\<close>, \<open>journal_step\<close>,
  \<open>shim_step\<close>, \<open>hub_step\<close>), the operation is
  split at its atomic sections and the step relation orders them freely.

  \<^bold>\<open>What is shown.\<close>
  \<^item> \<open>Agent_Effects\<close> is the abstract specification: \<open>agent_step\<close> says what one committed command
    requires of the database and writes to it. \<open>Agent_Refine\<close> proves inside the locale \<open>agent_store\<close>,
    over any provider, that each of the mutating calls changes nothing or takes one such step.
  \<^item> \<open>Agent_Invariant\<close> proves the invariant of the domain for every step, \<open>Agent_History\<close> that the
    history only grows, \<open>Agent_Retry\<close> that a recorded command answers its retries, \<open>Agent_Pages\<close> that
    pages are windows. \<open>Agent_Requests\<close> gives the requests as values to quantify over.
  \<^item> \<open>Memory_Store\<close> interprets both locales on the memory store, \<open>Memory_Agent\<close> carries invariant and
    history to the states that calls reach from an empty store, \<open>Agent_Scenario\<close> is one complete run
    that the theorems are applied to.
  \<^item> The properties: C1 to C6 in \<open>Agent_Guarantees\<close> (refinement, invariant, growth, exactly once), C10
    to C17 in \<open>Agent_Safety\<close> (atomic failures, leases and fences, completion, Artifacts, heads), C18
    to C20 in \<open>Agent_Reads\<close> (pages, cursors, snapshots), C8 and C21 in \<open>LLM_Image\<close> (what the HumanLLM Store
    always satisfies and what it never changes, over the primitives in \<open>LLM_Store_Inv\<close>), C7, C9, C22 and C23 in \<open>Hub_Guarantees\<close> (counters,
    acknowledgements, one ending per session, over the invariant of \<open>Hub_Invariant\<close> kept by the steps in \<open>Hub_Steps\<close>), C24 and C25 in \<open>Protect_Codec\<close>, C26 to C28 in
    \<open>Agent_Content\<close> (encodings and sealed content), C29 in \<open>Memory_Store\<close>, C30 and C35 in
    \<open>Caller_Guarantees\<close> (one execution and one answer per tool call), C32 to C34 in \<open>Agent_Lifecycle\<close>, C36 in \<open>Virtual_Path\<close>, C39 in \<open>Workspace_Apply\<close>, and C31, C37, C38
    and C40 in \<open>Workspace_Guarantees\<close> (one external effect per Artifact, truthful and final records), over
    the invariant of \<open>Workspace_Invariant\<close>.

  \<^bold>\<open>Parameters.\<close> \<open>encoding/json\<close>, SHA-256 and \<open>mime.ParseMediaType\<close> are the fields of the record
  \<open>env\<close>, the Protector is a record of functions. Where a property needs more of them than that they
  are functions, the hypothesis is named: \<open>receipt_faithful\<close> and \<open>json_faithful\<close> (what was encoded
  decodes to the same value), \<open>wire_faithful\<close> (the framing reads its own output back),
  \<open>sha256_nonempty\<close>, \<open>protector_faithful\<close>, and for the journal \<open>codec_faithful\<close>. The external effect is
  what the environment returns to \<open>Apply_return\<close>, the work of a tool
  what it returns to \<open>Execute_return\<close>; the libraries of the caller shim are the record \<open>shim_env\<close>,
  the digest of a worker event is the argument \<open>D\<close> of the hub, the
  Unicode lower-case table is the argument \<open>U\<close> with the hypothesis \<open>lowers_segments\<close>. Each hypothesis has an instance in the witness of the property.

  \<^bold>\<open>Bounds and fuel.\<close> Counters, revisions and fences are 64-bit words and the guards against
  \<open>math.MaxInt64\<close> are part of the model; sizes and limits are integers as far as the code compares them
  with constants below their range. The only fuel is that of \<open>read_all_events\<close>, the client loop over
  pages; C19 shows that one page more than the Task has events is enough. The loops over the bytes of a
  text end with a measure on its length, all others are structural recursions over their rows.

  \<^bold>\<open>SQL.\<close> The statements of the journal and of the ledger are written in their sources and are modelled as
  functions on the table they name, with its primary key and CHECK constraints; the engine decides whether a transaction
  commits, fails, or reports an error after a commit that may be durable.

  \<^bold>\<open>Not modelled.\<close> Texts of errors beyond their kind; deep copies, which a value model has no use for;
  waiting on contexts inside \<open>Shutdown\<close>; \<open>Binding.AAD\<close>, whose bytes only Protectors read. The SQL
  Stores of the Agent and of the other domains, the WebSocket, HTTP and A2A transports, the service of the HumanLLM domain (\<^verbatim>\<open>src/llm\<close>) over its Store, the legacy gateway
  (\<^verbatim>\<open>src/internal/completion\<close>) but for its hub and path checks, the file tools of the caller shim, worker
  clients, mirrors and commands are outside: the first are
  adapters over libraries this library does not model. Next in the plan is the service of the
  HumanLLM domain.
\<close>

end
